(* ===== verification/Prelude.thy ===== *)
theory Prelude
  imports Main "HOL-Library.Word" "HOL-Library.Sublist" "HOL-Library.AList"
begin

text \<open>
  Shared vocabulary of the development: JavaScript strings as lists of UTF-16 code units, the
  string and number primitives of the language that several components use, results with errors
  as values, and the generic lemmas about them.

  A JavaScript string is a list of UTF-16 code units. Constants of the program are written
  \<open>js ''...''\<close>; a field that only ever holds one of the program's own constants (an error code, a
  message) is an Isabelle \<open>string\<close>. A \<open>Buffer\<close> is a list of bytes. A JavaScript \<open>Map\<close> is an
  association list in insertion order, with \<open>AList.update\<close> for \<open>set\<close> (it replaces in place or
  appends) and \<open>AList.delete\<close> for \<open>delete\<close>.
\<close>

type_synonym jsstring = "nat list"
type_synonym byte = "8 word"
type_synonym bytes = "byte list"

named_theorems js_simps \<open>evaluation of string constants and primitives\<close>
named_theorems result_simps \<open>case distinction on results and options\<close>

definition js :: "string \<Rightarrow> jsstring" where
  "js s = map of_char s"

lemma js_inject [simp]: "js a = js b \<longleftrightarrow> a = b"
  by (simp add: js_def inj_map_eq_map inj_of_char)

lemma js_Nil [simp]: "js [] = []" and js_eq_Nil [simp]: "js a = [] \<longleftrightarrow> a = []"
  by (simp_all add: js_def)

lemma js_length [simp]: "length (js a) = length a"
  by (simp add: js_def)

lemma js_append [simp]: "js (a @ b) = js a @ js b"
  by (simp add: js_def)

lemmas [js_simps] = js_def

subsection \<open>Results\<close>

text \<open>\<open>Inl\<close> is a thrown or returned error, \<open>Inr\<close> a value.\<close>

lemmas [result_simps] = sum.splits option.splits if_splits

fun map_result :: "('a \<Rightarrow> 'e + 'b) \<Rightarrow> 'a list \<Rightarrow> 'e + 'b list" where
  "map_result f [] = Inr []"
| "map_result f (x # xs) =
     (case f x of Inl e \<Rightarrow> Inl e
      | Inr y \<Rightarrow> (case map_result f xs of Inl e \<Rightarrow> Inl e | Inr ys \<Rightarrow> Inr (y # ys)))"

lemma map_result_Inr:
  "map_result f xs = Inr ys \<longleftrightarrow> list_all2 (\<lambda>x y. f x = Inr y) xs ys"
proof (induction xs arbitrary: ys)
  case Nil
  then show ?case by auto
next
  case (Cons x xs)
  have "map_result f xs = Inr zs \<longleftrightarrow> list_all2 (\<lambda>x y. f x = Inr y) xs zs" for zs
    by (rule Cons.IH)
  then show ?case
    by (cases ys; cases "f x"; cases "map_result f xs") auto
qed

lemma map_result_all: "(\<And>x. x \<in> set xs \<Longrightarrow> f x = Inr (g x)) \<Longrightarrow> map_result f xs = Inr (map g xs)"
  by (induction xs) auto

definition is_ok :: "'e + 'a \<Rightarrow> bool" where
  "is_ok r = (case r of Inl _ \<Rightarrow> False | Inr _ \<Rightarrow> True)"

lemma is_ok_simps [simp]: "is_ok (Inr x)" "\<not> is_ok (Inl e)"
  by (simp_all add: is_ok_def)

lemma is_okE: "is_ok r \<Longrightarrow> (\<And>x. r = Inr x \<Longrightarrow> P) \<Longrightarrow> P"
  by (cases r) auto

subsection \<open>Strings\<close>

text \<open>\<open>s.split(c)\<close> for a one-unit separator, and \<open>parts.join(c)\<close>.\<close>

fun split_on :: "'a \<Rightarrow> 'a list \<Rightarrow> 'a list list" where
  "split_on c [] = [[]]"
| "split_on c (x # xs) =
     (if x = c then [] # split_on c xs
      else (case split_on c xs of [] \<Rightarrow> [[x]] | y # ys \<Rightarrow> (x # y) # ys))"

fun join_with :: "'a list \<Rightarrow> 'a list list \<Rightarrow> 'a list" where
  "join_with s [] = []"
| "join_with s [x] = x"
| "join_with s (x # y # xs) = x @ s @ join_with s (y # xs)"

lemma split_on_nonempty [simp]: "split_on c s \<noteq> []"
  by (induction s) (auto split: list.splits)

lemma split_on_no_sep: "x \<in> set (split_on c s) \<Longrightarrow> c \<notin> set x"
  by (induction s arbitrary: x) (fastforce split: list.splits if_splits)+

lemma split_on_subset: "x \<in> set (split_on c s) \<Longrightarrow> set x \<subseteq> set s"
  by (induction s arbitrary: x) (fastforce split: list.splits if_splits)+

lemma split_on_absent: "c \<notin> set s \<Longrightarrow> split_on c s = [s]"
  by (induction s) auto

lemma join_split_on [simp]: "join_with [c] (split_on c s) = s"
proof (induction s)
  case Nil
  then show ?case by simp
next
  case (Cons x s)
  obtain y ys where eq: "split_on c s = y # ys" by (cases "split_on c s") auto
  with Cons show ?case by (cases ys) auto
qed

lemma split_on_append: "c \<notin> set a \<Longrightarrow> split_on c (a @ c # b) = a # split_on c b"
  by (induction a) auto

lemma split_join_with:
  "xs \<noteq> [] \<Longrightarrow> (\<And>x. x \<in> set xs \<Longrightarrow> c \<notin> set x) \<Longrightarrow> split_on c (join_with [c] xs) = xs"
proof (induction "[c]" xs rule: join_with.induct)
  case 1
  then show ?case by simp
next
  case (2 x)
  then show ?case by (simp add: split_on_absent)
next
  case (3 x y xs)
  then show ?case by (simp add: split_on_append)
qed

lemma split_on_inject: "split_on c s = split_on c t \<Longrightarrow> s = t"
  by (metis join_split_on)

lemma split_on_singleton: "split_on c s = [x] \<longleftrightarrow> x = s \<and> c \<notin> set s"
  by (metis join_split_on join_with.simps(2) list.set_intros(1) split_on_absent split_on_no_sep)

text \<open>\<open>String.prototype.trim\<close> strips WhiteSpace and LineTerminator units.\<close>

definition is_space :: "nat \<Rightarrow> bool" where
  "is_space c \<longleftrightarrow> c \<in> {9, 10, 11, 12, 13, 32, 160, 5760, 8232, 8233, 8239, 8287, 12288, 65279}
     \<or> (8192 \<le> c \<and> c \<le> 8202)"

definition trim :: "jsstring \<Rightarrow> jsstring" where
  "trim s = rev (dropWhile is_space (rev (dropWhile is_space s)))"

lemma dropWhile_id: "(xs \<noteq> [] \<Longrightarrow> \<not> P (hd xs)) \<Longrightarrow> dropWhile P xs = xs"
  by (cases xs) auto

lemma trim_ends: "trim s \<noteq> [] \<Longrightarrow> \<not> is_space (hd (trim s)) \<and> \<not> is_space (last (trim s))"
proof -
  assume ne: "trim s \<noteq> []"
  let ?d = "dropWhile is_space s"
  obtain a b where ab: "rev ?d = a @ dropWhile is_space (rev ?d)" "b = a"
    by (metis takeWhile_dropWhile_id)
  have d: "?d = trim s @ rev a"
    using arg_cong [OF ab(1), of rev] by (simp add: trim_def)
  with ne have "?d \<noteq> []" and "hd ?d = hd (trim s)" by auto
  with hd_dropWhile [of is_space s] have "\<not> is_space (hd (trim s))" by simp
  moreover have "dropWhile is_space (rev ?d) \<noteq> []"
    using ne by (simp add: trim_def)
  then have "\<not> is_space (hd (dropWhile is_space (rev ?d)))"
    by (rule hd_dropWhile)
  then have "\<not> is_space (last (trim s))"
    using ne by (simp add: trim_def last_rev)
  ultimately show ?thesis by blast
qed

lemma trim_fixed: "s \<noteq> [] \<Longrightarrow> \<not> is_space (hd s) \<Longrightarrow> \<not> is_space (last s) \<Longrightarrow> trim s = s"
  by (simp add: trim_def dropWhile_id hd_rev)

lemma trim_idem [simp]: "trim (trim s) = trim s"
proof (cases "trim s = []")
  case True
  show ?thesis unfolding True by (simp add: trim_def)
next
  case False
  with trim_ends [OF False] show ?thesis by (intro trim_fixed) auto
qed

lemma set_trim: "set (trim s) \<subseteq> set s"
  unfolding trim_def by (auto dest!: set_dropWhileD)

text \<open>
  UTF-8 as \<open>Buffer.from(s, "utf8")\<close> produces it: surrogate pairs become one code point, a lone
  surrogate becomes U+FFFD.
\<close>

definition is_high :: "nat \<Rightarrow> bool" where
  "is_high c \<longleftrightarrow> 55296 \<le> c \<and> c < 56320"

definition is_low :: "nat \<Rightarrow> bool" where
  "is_low c \<longleftrightarrow> 56320 \<le> c \<and> c < 57344"

fun code_points :: "jsstring \<Rightarrow> nat list" where
  "code_points [] = []"
| "code_points (h # l # s) =
     (if is_high h \<and> is_low l then (65536 + (h - 55296) * 1024 + (l - 56320)) # code_points s
      else (if is_high h \<or> is_low h then 65533 else h) # code_points (l # s))"
| "code_points [h] = [if is_high h \<or> is_low h then 65533 else h]"

definition utf8_unit :: "nat \<Rightarrow> bytes" where
  "utf8_unit c =
     (if c < 128 then [of_nat c]
      else if c < 2048 then [of_nat (192 + c div 64), of_nat (128 + c mod 64)]
      else if c < 65536 then
        [of_nat (224 + c div 4096), of_nat (128 + c div 64 mod 64), of_nat (128 + c mod 64)]
      else [of_nat (240 + c div 262144), of_nat (128 + c div 4096 mod 64),
            of_nat (128 + c div 64 mod 64), of_nat (128 + c mod 64)])"

definition utf8 :: "jsstring \<Rightarrow> bytes" where
  "utf8 s = concat (map utf8_unit (code_points s))"

text \<open>\<open>Buffer.byteLength(s)\<close>\<close>

definition byte_length :: "jsstring \<Rightarrow> nat" where
  "byte_length s = length (utf8 s)"

lemma code_points_ascii: "(\<And>c. c \<in> set s \<Longrightarrow> c < 128) \<Longrightarrow> code_points s = s"
proof (induction s rule: code_points.induct)
  case (2 h l s)
  then have "h < 128" and "l < 128" by auto
  then have "\<not> is_high h" and "\<not> is_low h" by (auto simp: is_high_def is_low_def)
  with 2 show ?case by simp
next
  case (3 h)
  then have "h < 128" by simp
  then show ?case by (simp add: is_high_def is_low_def)
qed simp

lemma byte_length_ascii: "(\<And>c. c \<in> set s \<Longrightarrow> c < 128) \<Longrightarrow> byte_length s = length s"
proof -
  assume a: "\<And>c. c \<in> set s \<Longrightarrow> c < 128"
  then have "map utf8_unit (code_points s) = map (\<lambda>c. [of_nat c]) s"
    by (simp add: code_points_ascii utf8_unit_def)
  then show ?thesis by (simp add: byte_length_def utf8_def)
qed

text \<open>\<open>Buffer.toString("utf8")\<close>: the decoder that replaces ill-formed input, then UTF-16.\<close>

function utf8_run :: "nat \<Rightarrow> nat \<Rightarrow> nat \<Rightarrow> nat \<Rightarrow> nat list \<Rightarrow> nat list" where
  "utf8_run 0 cp lo hi [] = []"
| "utf8_run (Suc n) cp lo hi [] = [65533]"
| "utf8_run 0 cp lo hi (b # bs) =
     (if b < 128 then b # utf8_run 0 0 128 191 bs
      else if 194 \<le> b \<and> b \<le> 223 then utf8_run 1 (b - 192) 128 191 bs
      else if 224 \<le> b \<and> b \<le> 239 then utf8_run 2 (b - 224) (if b = 224 then 160 else 128) (if b = 237 then 159 else 191) bs
      else if 240 \<le> b \<and> b \<le> 244 then utf8_run 3 (b - 240) (if b = 240 then 144 else 128) (if b = 244 then 143 else 191) bs
      else 65533 # utf8_run 0 0 128 191 bs)"
| "utf8_run (Suc n) cp lo hi (b # bs) =
     (if lo \<le> b \<and> b \<le> hi
      then (if n = 0 then (cp * 64 + (b - 128)) # utf8_run 0 0 128 191 bs
            else utf8_run n (cp * 64 + (b - 128)) 128 191 bs)
      else 65533 # utf8_run 0 0 128 191 (b # bs))"
  by pat_completeness auto
termination by (relation "measures [\<lambda>(n, _, _, _, bs). length bs, \<lambda>(n, _, _, _, bs). n]") auto

definition utf16_units :: "nat \<Rightarrow> jsstring" where
  "utf16_units c = (if c < 65536 then [c] else [55296 + (c - 65536) div 1024, 56320 + (c - 65536) mod 1024])"

definition utf8_decode :: "bytes \<Rightarrow> jsstring" where
  "utf8_decode bs = concat (map utf16_units (utf8_run 0 0 128 191 (map unat bs)))"

lemma length_utf16_units: "length (utf16_units c) \<le> 2" "c < 65536 \<Longrightarrow> length (utf16_units c) = 1"
  by (simp_all add: utf16_units_def)

text \<open>Decoding never gives more units than there are bytes.\<close>

lemma length_utf8_run:
  "length (concat (map utf16_units (utf8_run n cp lo hi bs))) \<le> length bs + (if n = 0 then 0 else 1)"
proof (induction n cp lo hi bs rule: utf8_run.induct)
  case (4 n cp lo hi b bs)
  then show ?case using length_utf16_units(1) [of "cp * 64 + (b - 128)"]
    by (auto simp: length_utf16_units(2))
qed (auto simp: length_utf16_units(2))

lemma length_utf8_decode: "length (utf8_decode bs) \<le> length bs"
  using length_utf8_run [of 0 0 128 191 "map unat bs"] by (simp add: utf8_decode_def)

text \<open>
  ASCII letters and digits, and ASCII case mapping. The code compares case-mapped text only with
  ASCII constants.
\<close>

definition is_digit :: "nat \<Rightarrow> bool" where
  "is_digit c \<longleftrightarrow> 48 \<le> c \<and> c \<le> 57"

definition is_upper :: "nat \<Rightarrow> bool" where
  "is_upper c \<longleftrightarrow> 65 \<le> c \<and> c \<le> 90"

definition is_lower :: "nat \<Rightarrow> bool" where
  "is_lower c \<longleftrightarrow> 97 \<le> c \<and> c \<le> 122"

definition is_alnum :: "nat \<Rightarrow> bool" where
  "is_alnum c \<longleftrightarrow> is_upper c \<or> is_lower c \<or> is_digit c"

definition ascii_upper :: "jsstring \<Rightarrow> jsstring" where
  "ascii_upper s = map (\<lambda>c. if is_lower c then c - 32 else c) s"

definition ascii_lower :: "jsstring \<Rightarrow> jsstring" where
  "ascii_lower s = map (\<lambda>c. if is_upper c then c + 32 else c) s"

subsection \<open>Numbers\<close>

text \<open>\<open>Number.MAX_SAFE_INTEGER\<close>\<close>

definition max_safe :: int where
  "max_safe = 2 ^ 53 - 1"

definition is_safe :: "int \<Rightarrow> bool" where
  "is_safe n \<longleftrightarrow> \<bar>n\<bar> \<le> max_safe"

text \<open>An integer as a template string prints it.\<close>

fun nat_dec :: "nat \<Rightarrow> jsstring" where
  "nat_dec n = (if n < 10 then [48 + n] else nat_dec (n div 10) @ [48 + n mod 10])"

declare nat_dec.simps [simp del]

definition int_dec :: "int \<Rightarrow> jsstring" where
  "int_dec n = (if n < 0 then 45 # nat_dec (nat (- n)) else nat_dec (nat n))"

lemma nat_dec_digits: "c \<in> set (nat_dec n) \<Longrightarrow> is_digit c"
  by (induction n rule: nat_dec.induct)
     (subst (asm) (2) nat_dec.simps, auto simp: is_digit_def split: if_splits)

lemma nat_dec_nonempty [simp]: "nat_dec n \<noteq> []"
  by (subst nat_dec.simps) simp

lemma foldl_nat_dec: "foldl (\<lambda>a c. 10 * a + (c - 48)) 0 (nat_dec n) = n"
  by (induction n rule: nat_dec.induct) (subst nat_dec.simps, simp)

lemma nat_dec_inject [simp]: "nat_dec m = nat_dec n \<longleftrightarrow> m = n"
  by (metis foldl_nat_dec)

lemma int_dec_chars: "c \<in> set (int_dec n) \<Longrightarrow> is_digit c \<or> c = 45"
  by (auto simp: int_dec_def dest: nat_dec_digits split: if_splits)

lemma int_dec_nonempty [simp]: "int_dec n \<noteq> []"
  by (simp add: int_dec_def)

lemma int_dec_inject [simp]: "int_dec m = int_dec n \<longleftrightarrow> m = n"
proof
  assume eq: "int_dec m = int_dec n"
  have digit: "45 \<noteq> hd (nat_dec k)" for k
    using nat_dec_digits [of "hd (nat_dec k)" k] by (auto simp: is_digit_def)
  show "m = n"
  proof (cases "m < 0"; cases "n < 0")
    assume "m < 0" "\<not> n < 0"
    with eq digit [of "nat n"] show ?thesis by (auto simp: int_dec_def dest: sym)
  next
    assume "\<not> m < 0" "n < 0"
    with eq digit [of "nat m"] show ?thesis by (auto simp: int_dec_def)
  qed (use eq in \<open>simp_all add: int_dec_def nat_eq_iff2\<close>)
qed simp

subsection \<open>Lists\<close>

lemma find_Some_mem: "List.find P xs = Some x \<Longrightarrow> x \<in> set xs \<and> P x"
  by (auto simp: find_Some_iff)

lemma list_shape:
  obtains (Nil) "xs = []" | (One) x where "xs = [x]" | (More) x y ys where "xs = x # y # ys"
  by (metis neq_Nil_conv)

lemma sum_list_filter_le: "sum_list (map f (filter P xs)) \<le> (sum_list (map f xs) :: nat)"
  by (induction xs) auto

lemma distinct_map_append: "distinct (map f (xs @ [x])) \<longleftrightarrow> distinct (map f xs) \<and> f x \<notin> f ` set xs"
  by auto

lemma set_alist_update: "set (AList.update k v al) \<subseteq> insert (k, v) (set al)"
  by (induction al) auto

text \<open>\<open>xs.splice(0, xs.length - n)\<close> keeps the last \<open>n\<close> elements of a longer list.\<close>

definition keep_last :: "nat \<Rightarrow> 'a list \<Rightarrow> 'a list" where
  "keep_last n xs = drop (length xs - n) xs"

lemma length_keep_last: "length (keep_last n xs) = min n (length xs)"
  by (simp add: keep_last_def)

lemma set_keep_last: "set (keep_last n xs) \<subseteq> set xs"
  by (simp add: keep_last_def set_drop_subset)

lemma keep_last_id: "length xs \<le> n \<Longrightarrow> keep_last n xs = xs"
  by (simp add: keep_last_def)

lemma keep_last_suffix: "suffix (keep_last n xs) xs"
  by (simp add: keep_last_def suffix_drop)

text \<open>\<open>xs.sort(cmp)\<close>: the stable sort for the order \<open>le\<close>.\<close>

fun insert_by :: "('a \<Rightarrow> 'a \<Rightarrow> bool) \<Rightarrow> 'a \<Rightarrow> 'a list \<Rightarrow> 'a list" where
  "insert_by le x [] = [x]"
| "insert_by le x (y # ys) = (if le x y then x # y # ys else y # insert_by le x ys)"

definition sort_by :: "('a \<Rightarrow> 'a \<Rightarrow> bool) \<Rightarrow> 'a list \<Rightarrow> 'a list" where
  "sort_by le xs = foldr (insert_by le) xs []"

lemma set_insert_by [simp]: "set (insert_by le x ys) = insert x (set ys)"
  by (induction ys) auto

lemma set_sort_by [simp]: "set (sort_by le xs) = set xs"
  by (induction xs) (simp_all add: sort_by_def)

lemma length_insert_by [simp]: "length (insert_by le x ys) = Suc (length ys)"
  by (induction ys) auto

lemma length_sort_by [simp]: "length (sort_by le xs) = length xs"
  by (induction xs) (simp_all add: sort_by_def)

lemma sum_insert_by [simp]: "sum_list (map f (insert_by le x ys)) = (f x + sum_list (map f ys) :: nat)"
  by (induction ys) auto

lemma sum_sort_by [simp]: "sum_list (map f (sort_by le xs)) = (sum_list (map f xs) :: nat)"
  by (induction xs) (simp_all add: sort_by_def)

subsection \<open>Association lists\<close>

lemma update_Cons [simp]:
  "AList.update k v ((a, b) # al) = (if a = k then (k, v) # al else (a, b) # AList.update k v al)"
  by simp

declare AList.update.simps(2) [simp del]

lemma alist_induct [case_names Nil Cons]:
  "P [] \<Longrightarrow> (\<And>k v al. P al \<Longrightarrow> P ((k, v) # al)) \<Longrightarrow> P al"
  by (induction al) auto

lemma update_update [simp]: "AList.update k v (AList.update k w al) = AList.update k v al"
  by (induction al) auto

lemma update_same: "map_of al k = Some v \<Longrightarrow> AList.update k v al = al"
  by (induction al) auto

lemma update_new: "map_of al k = None \<Longrightarrow> AList.update k v al = al @ [(k, v)]"
  by (induction al) (auto split: if_splits)

lemma delete_update: "map_of al k = None \<Longrightarrow> AList.delete k (AList.update k v al) = al"
  by (simp add: update_new AList.delete_eq) (auto simp: filter_id_conv map_of_eq_None_iff image_iff)

end
