(* ===== verification/Base64.thy ===== *)
theory Base64
  imports Prelude
begin

text \<open>
  \<^verbatim>\<open>typr-server/base64.ts\<close>: the linear-time validator of base64 text, next to what Node's \<open>Buffer\<close>
  does with such text (the encoder \<open>toString("base64")\<close>, the decoder \<open>Buffer.from(s, "base64")\<close> and
  the size estimate \<open>Buffer.byteLength(s, "base64")\<close>), so that the validator can be related to them.
\<close>

section \<open>The validator\<close>

definition b64_code :: "nat \<Rightarrow> bool" where
  "b64_code code \<longleftrightarrow> (code \<ge> 65 \<and> code \<le> 90) \<or> (code \<ge> 97 \<and> code \<le> 122) \<or>
     (code \<ge> 48 \<and> code \<le> 57) \<or> code = 43 \<or> code = 47"

text \<open>The loop \<open>for (index = 0; index < contentLength; index += 1)\<close>, leaving at the first bad unit.\<close>

fun isBase64_loop :: "jsstring \<Rightarrow> nat \<Rightarrow> bool" where
  "isBase64_loop value 0 = True"
| "isBase64_loop [] (Suc n) = True"
| "isBase64_loop (code # value) (Suc n) = (if \<not> b64_code code then False else isBase64_loop value n)"

definition isBase64 :: "jsstring \<Rightarrow> bool" where
  "isBase64 value =
     (let padding = (if suffix (js ''=='') value then 2 else if suffix (js ''='') value then 1 else 0);
          contentLength = length value - padding;
          remainder = contentLength mod 4
      in if remainder = 1 \<or> (padding > 0 \<and> length value mod 4 \<noteq> 0) \<or>
            (padding = 1 \<and> remainder \<noteq> 3) \<or> (padding = 2 \<and> remainder \<noteq> 2)
         then False
         else isBase64_loop value contentLength)"

section \<open>Node's encoder, decoder and size estimate\<close>

definition b64_char :: "nat \<Rightarrow> nat" where
  "b64_char v = (if v < 26 then 65 + v else if v < 52 then 71 + v else if v < 62 then v - 4
                 else if v = 62 then 43 else 47)"

definition b64url_char :: "nat \<Rightarrow> nat" where
  "b64url_char v = (if v = 62 then 45 else if v = 63 then 95 else b64_char v)"

text \<open>The decoder accepts both alphabets and skips every other unit.\<close>

definition b64_value :: "nat \<Rightarrow> nat option" where
  "b64_value c =
     (if 65 \<le> c \<and> c \<le> 90 then Some (c - 65)
      else if 97 \<le> c \<and> c \<le> 122 then Some (c - 71)
      else if 48 \<le> c \<and> c \<le> 57 then Some (c + 4)
      else if c = 43 \<or> c = 45 then Some 62
      else if c = 47 \<or> c = 95 then Some 63
      else None)"

fun sextets :: "bytes \<Rightarrow> nat list" where
  "sextets [] = []"
| "sextets [x] = [unat x div 4, unat x mod 4 * 16]"
| "sextets [x, y] = [unat x div 4, unat x mod 4 * 16 + unat y div 16, unat y mod 16 * 4]"
| "sextets (x # y # z # r) =
     [unat x div 4, unat x mod 4 * 16 + unat y div 16, unat y mod 16 * 4 + unat z div 64, unat z mod 64]
     @ sextets r"

fun from_sextets :: "nat list \<Rightarrow> bytes" where
  "from_sextets (a # b # c # d # r) =
     [of_nat (a * 4 + b div 16), of_nat (b mod 16 * 16 + c div 4), of_nat (c mod 4 * 64 + d)]
     @ from_sextets r"
| "from_sextets [a, b, c] = [of_nat (a * 4 + b div 16), of_nat (b mod 16 * 16 + c div 4)]"
| "from_sextets [a, b] = [of_nat (a * 4 + b div 16)]"
| "from_sextets _ = []"

definition base64_encode :: "bytes \<Rightarrow> jsstring" where
  "base64_encode bs = map b64_char (sextets bs) @ replicate ((3 - length bs mod 3) mod 3) 61"

definition base64url_encode :: "bytes \<Rightarrow> jsstring" where
  "base64url_encode bs = map b64url_char (sextets bs)"

definition base64_decode :: "jsstring \<Rightarrow> bytes" where
  "base64_decode s = from_sextets (List.map_filter b64_value s)"

definition base64_byteLength :: "jsstring \<Rightarrow> nat" where
  "base64_byteLength s =
     (let n = length s;
          n = (if n > 0 \<and> s ! (n - 1) = 61 then n - 1 else n);
          n = (if n > 1 \<and> s ! (n - 1) = 61 then n - 1 else n)
      in n * 3 div 4)"

section \<open>Lemmas\<close>

lemma isBase64_loop_take: "isBase64_loop s n = list_all b64_code (take n s)"
  by (induction s n rule: isBase64_loop.induct) auto

lemma b64_char_code: "v < 64 \<Longrightarrow> b64_code (b64_char v)"
  by (auto simp: b64_char_def b64_code_def)

lemma b64_value_char: "v < 64 \<Longrightarrow> b64_value (b64_char v) = Some v"
  by (auto simp: b64_char_def b64_value_def)

lemma b64url_value_char: "v < 64 \<Longrightarrow> b64_value (b64url_char v) = Some v"
  by (auto simp: b64url_char_def b64_char_def b64_value_def)

lemma b64_value_code: "b64_code c \<Longrightarrow> \<exists>v. b64_value c = Some v \<and> v < 64"
  by (auto simp: b64_code_def b64_value_def)

lemma b64_code_not_pad: "b64_code c \<Longrightarrow> c \<noteq> 61"
  by (auto simp: b64_code_def)

lemma unat_byte_less [simp]: "unat (x :: byte) < 256"
  using unsigned_less [of x] by simp

lemma digit_split:
  "k < (m::nat) \<Longrightarrow> (a * m + k) div m = a" "k < (m::nat) \<Longrightarrow> (a * m + k) mod m = k"
  by simp_all

lemma byte_div_less: "unat (x :: byte) div 4 < 64" "unat x div 16 < 16" "unat x div 64 < 4"
  using unat_byte_less [of x] by linarith+

lemma sextets_less: "v \<in> set (sextets bs) \<Longrightarrow> v < 64"
proof (induction bs rule: sextets.induct)
  case (4 x y z r)
  have "unat x < 256" "unat y < 256" "unat z < 256" by simp_all
  then have "unat x div 4 < 64" "unat x mod 4 * 16 + unat y div 16 < 64"
    "unat y mod 16 * 4 + unat z div 64 < 64" "unat z mod 64 < 64"
    by linarith+
  with 4 show ?case by auto
next
  case (3 x y)
  have "unat x < 256" "unat y < 256" by simp_all
  then have "unat x div 4 < 64" "unat x mod 4 * 16 + unat y div 16 < 64" "unat y mod 16 * 4 < 64"
    by linarith+
  with 3 show ?case by auto
next
  case (2 x)
  have "unat x < 256" by simp
  then have "unat x div 4 < 64" "unat x mod 4 * 16 < 64" by linarith+
  with 2 show ?case by auto
qed simp

lemma of_nat_unat_byte: "of_nat (unat (x :: byte)) = x"
  by simp

lemma regroup:
  "unat (x :: byte) div 4 * 4 + (unat x mod 4 * 16 + unat (y :: byte) div 16) div 16 = unat x"
  "unat x div 4 * 4 + unat x mod 4 * 16 div 16 = unat x"
  "(unat x mod 4 * 16 + unat y div 16) mod 16 * 16 + (unat y mod 16 * 4 + unat (z :: byte) div 64) div 4
    = unat y"
  "(unat x mod 4 * 16 + unat y div 16) mod 16 * 16 + unat y mod 16 * 4 div 4 = unat y"
  "(unat y mod 16 * 4 + unat z div 64) mod 4 * 64 + unat z mod 64 = unat z"
  by (simp_all add: digit_split byte_div_less)

lemma from_sextets_sextets: "from_sextets (sextets bs) = bs"
proof (induction bs rule: sextets.induct)
  case (4 x y z r)
  then show ?case by (simp only: sextets.simps from_sextets.simps append.simps regroup of_nat_unat_byte)
next
  case (3 x y)
  show ?case by (simp only: sextets.simps from_sextets.simps regroup of_nat_unat_byte)
next
  case (2 x)
  show ?case by (simp only: sextets.simps from_sextets.simps regroup of_nat_unat_byte)
qed simp

lemma length_sextets: "length (sextets bs) = (4 * length bs + 2) div 3"
  by (induction bs rule: sextets.induct) auto

lemma length_from_sextets: "length vs mod 4 \<noteq> 1 \<Longrightarrow> length (from_sextets vs) = length vs * 3 div 4"
  by (induction vs rule: from_sextets.induct) auto


lemma pad_literals: "js ''=='' = [61, 61]" "js ''='' = [61]"
  by (simp_all add: js_def)

definition padding_of :: "jsstring \<Rightarrow> nat" where
  "padding_of s = (if suffix [61, 61] s then 2 else if suffix [61] s then 1 else 0)"

lemma padding_split: "s = take (length s - padding_of s) s @ replicate (padding_of s) 61"
  by (auto simp: padding_of_def suffix_def numeral_2_eq_2)

lemma padding_of_body:
  assumes "list_all b64_code body" and "p \<le> 2"
  shows "padding_of (body @ replicate p 61) = p"
proof -
  have last: "body \<noteq> [] \<Longrightarrow> last body \<noteq> 61"
    using assms(1) by (metis list_all_iff last_in_set b64_code_not_pad)
  consider "p = 0" | "p = 1" | "p = 2" using assms(2) by linarith
  then show ?thesis
  proof cases
    case 1
    with last show ?thesis
      by (cases body rule: rev_cases) (auto simp: padding_of_def suffix_def)
  next
    case 2
    with last show ?thesis
      by (cases body rule: rev_cases) (auto simp: padding_of_def suffix_def)
  next
    case 3
    then show ?thesis by (simp add: padding_of_def suffix_def numeral_2_eq_2)
  qed
qed

definition b64_shape :: "nat \<Rightarrow> nat \<Rightarrow> bool" where
  "b64_shape n p \<longleftrightarrow> (p = 0 \<and> n mod 4 \<noteq> 1) \<or> (p = 1 \<and> n mod 4 = 3) \<or> (p = 2 \<and> n mod 4 = 2)"

lemma shape_guard:
  assumes "n = c + p" and "p \<le> 2"
  shows "b64_shape c p \<longleftrightarrow> \<not> (c mod 4 = 1 \<or> (p > 0 \<and> n mod 4 \<noteq> 0) \<or> (p = 1 \<and> c mod 4 \<noteq> 3) \<or>
    (p = 2 \<and> c mod 4 \<noteq> 2))"
proof -
  have "p = 0 \<or> p = 1 \<or> p = 2" using assms(2) by linarith
  moreover have "c mod 4 = 3 \<Longrightarrow> (c + 1) mod 4 = 0" "c mod 4 = 2 \<Longrightarrow> (c + 2) mod 4 = 0"
    by presburger+
  ultimately show ?thesis unfolding b64_shape_def assms(1) by auto
qed

lemma isBase64_alt:
  "isBase64 s \<longleftrightarrow> b64_shape (length s - padding_of s) (padding_of s) \<and>
     list_all b64_code (take (length s - padding_of s) s)"
proof -
  have "length s = length s - padding_of s + padding_of s"
    by (subst (1) padding_split) simp
  moreover have "padding_of s \<le> 2" by (simp add: padding_of_def)
  ultimately have "b64_shape (length s - padding_of s) (padding_of s) \<longleftrightarrow>
    \<not> ((length s - padding_of s) mod 4 = 1 \<or> (padding_of s > 0 \<and> length s mod 4 \<noteq> 0) \<or>
       (padding_of s = 1 \<and> (length s - padding_of s) mod 4 \<noteq> 3) \<or>
       (padding_of s = 2 \<and> (length s - padding_of s) mod 4 \<noteq> 2))"
    by (rule shape_guard)
  then show ?thesis
    unfolding isBase64_def pad_literals padding_of_def [symmetric] Let_def isBase64_loop_take
    by (simp only: if_bool_eq_conj) blast
qed

lemma isBase64_intro:
  assumes "list_all b64_code body" and "b64_shape (length body) p"
  shows "isBase64 (body @ replicate p 61)"
proof -
  have "p \<le> 2" using assms(2) by (auto simp: b64_shape_def)
  with assms show ?thesis by (simp add: isBase64_alt padding_of_body)
qed

lemma isBase64_elim:
  assumes "isBase64 s"
  obtains body p where "s = body @ replicate p 61" "list_all b64_code body" "b64_shape (length body) p"
  using assms padding_split [of s] by (auto simp: isBase64_alt intro: that)

lemma sextets_shape: "b64_shape (length (sextets bs)) ((3 - length bs mod 3) mod 3)"
  by (induction bs rule: sextets.induct) (auto simp: b64_shape_def)

lemma map_filter_b64:
  "list_all b64_code body \<Longrightarrow> length (List.map_filter b64_value (body @ replicate p 61)) = length body"
proof (induction body)
  case Nil
  show ?case by (induction p) (auto simp: List.map_filter_def b64_value_def)
next
  case (Cons c body)
  then show ?case
    by (auto simp: List.map_filter_def dest!: b64_value_code)
qed

lemma map_filter_chars:
  assumes "\<And>v. v \<in> set vs \<Longrightarrow> b64_value (f v) = Some v"
  shows "List.map_filter b64_value (map f vs @ replicate p 61) = vs"
proof -
  have pad: "List.map_filter b64_value (replicate p 61) = []"
    by (induction p) (auto simp: List.map_filter_def b64_value_def)
  have "List.map_filter b64_value (map f vs) = vs"
    using assms by (induction vs) (auto simp: List.map_filter_def)
  with pad show ?thesis by (simp add: List.map_filter_def)
qed

section \<open>Properties\<close>

text \<open>
  C0: \<open>isBase64\<close> accepts exactly the texts that are units of the base64 alphabet followed by the
  padding their number calls for: none (whenever the units do not leave a single sextet over), one
  \<open>=\<close> after three units of a group, or two after two. Padding is all or nothing, an \<open>=\<close> anywhere
  else is refused, and the empty text is accepted.
\<close>

theorem isBase64_grammar:
  "isBase64 s \<longleftrightarrow>
     (\<exists>body p. s = body @ replicate p 61 \<and> list_all b64_code body \<and>
        ((p = 0 \<and> length body mod 4 \<noteq> 1) \<or> (p = 1 \<and> length body mod 4 = 3) \<or>
         (p = 2 \<and> length body mod 4 = 2)))"
proof
  assume "isBase64 s"
  then show "\<exists>body p. s = body @ replicate p 61 \<and> list_all b64_code body \<and>
        ((p = 0 \<and> length body mod 4 \<noteq> 1) \<or> (p = 1 \<and> length body mod 4 = 3) \<or>
         (p = 2 \<and> length body mod 4 = 2))"
    by (rule isBase64_elim) (auto simp: b64_shape_def)
next
  assume "\<exists>body p. s = body @ replicate p 61 \<and> list_all b64_code body \<and>
        ((p = 0 \<and> length body mod 4 \<noteq> 1) \<or> (p = 1 \<and> length body mod 4 = 3) \<or>
         (p = 2 \<and> length body mod 4 = 2))"
  then show "isBase64 s"
    unfolding b64_shape_def [symmetric] by (blast intro: isBase64_intro)
qed

text \<open>
  What the server encodes, its own validator accepts and Node decodes back to the same bytes,
  for the padded alphabet of file contents and for the unpadded URL alphabet of keys and tags.
\<close>

theorem base64_roundtrip:
  "isBase64 (base64_encode bs) \<and> base64_decode (base64_encode bs) = bs \<and>
   base64_decode (base64url_encode bs) = bs"
proof (intro conjI)
  let ?p = "(3 - length bs mod 3) mod 3"
  have "list_all b64_code (map b64_char (sextets bs))"
    by (auto simp: list_all_iff intro!: b64_char_code sextets_less)
  moreover have "b64_shape (length (sextets bs)) ?p"
    by (rule sextets_shape)
  ultimately show "isBase64 (base64_encode bs)"
    unfolding base64_encode_def by (intro isBase64_intro) simp_all
  show "base64_decode (base64_encode bs) = bs"
    by (simp add: base64_decode_def base64_encode_def map_filter_chars b64_value_char sextets_less
        from_sextets_sextets)
  show "base64_decode (base64url_encode bs) = bs"
    using map_filter_chars [of "sextets bs" b64url_char 0]
    by (simp add: base64_decode_def base64url_encode_def b64url_value_char sextets_less
        from_sextets_sextets)
qed

text \<open>
  On text the validator accepts, the size the WebSocket validator adds up
  (\<open>Buffer.byteLength(content, "base64")\<close>) is the number of bytes the decoder produces, which is what
  the compile validator adds up; the two project-size limits count the same bytes.
\<close>

theorem base64_size:
  assumes "isBase64 s"
  shows "base64_byteLength s = length (base64_decode s)"
proof -
  from assms obtain body p where s: "s = body @ replicate p 61"
    and body: "list_all b64_code body" and shape: "b64_shape (length body) p"
    by (rule isBase64_elim)
  have last: "i < length body \<Longrightarrow> body ! i \<noteq> 61" for i
    using body by (auto simp: list_all_length dest!: b64_code_not_pad)
  have "base64_byteLength s = length body * 3 div 4"
    using shape last [of "length body - 1"] unfolding s base64_byteLength_def b64_shape_def Let_def
    by (auto simp: nth_append numeral_2_eq_2)
  moreover have "length body mod 4 \<noteq> 1" using shape by (auto simp: b64_shape_def)
  ultimately show ?thesis
    by (simp add: s base64_decode_def length_from_sextets map_filter_b64 body)
qed

theorem base64_size_witness: "base64_byteLength (js ''QUI='') = length (base64_decode (js ''QUI=''))"
proof (rule base64_size)
  show "isBase64 (js ''QUI='')" by code_simp
qed

section \<open>Hexadecimal\<close>

text \<open>\<open>toString("hex")\<close> and \<open>Buffer.from(s, "hex")\<close>.\<close>

definition hex_digit :: "nat \<Rightarrow> nat" where
  "hex_digit n = (if n < 10 then 48 + n else 87 + n)"

definition hex_encode :: "bytes \<Rightarrow> jsstring" where
  "hex_encode bs = concat (map (\<lambda>b. [hex_digit (unat b div 16), hex_digit (unat b mod 16)]) bs)"

definition hex_value :: "nat \<Rightarrow> nat option" where
  "hex_value c =
     (if 48 \<le> c \<and> c \<le> 57 then Some (c - 48) else if 97 \<le> c \<and> c \<le> 102 then Some (c - 87)
      else if 65 \<le> c \<and> c \<le> 70 then Some (c - 55) else None)"

text \<open>\<open>Buffer.from(s, "hex")\<close> stops at the first pair that is not two hexadecimal digits.\<close>

fun hex_decode :: "jsstring \<Rightarrow> bytes" where
  "hex_decode (a # b # r) =
     (case (hex_value a, hex_value b) of (Some x, Some y) \<Rightarrow> of_nat (16 * x + y) # hex_decode r | _ \<Rightarrow> [])"
| "hex_decode _ = []"

lemma hex_value_digit: "n < 16 \<Longrightarrow> hex_value (hex_digit n) = Some n"
  by (auto simp: hex_value_def hex_digit_def)

lemma hex_roundtrip [simp]: "hex_decode (hex_encode bs) = bs"
proof (induction bs)
  case (Cons b bs)
  have "unat b < 256" by simp
  then have "hex_value (hex_digit (unat b div 16)) = Some (unat b div 16)"
    "hex_value (hex_digit (unat b mod 16)) = Some (unat b mod 16)"
    by (auto intro!: hex_value_digit simp: less_mult_imp_div_less)
  moreover have "16 * (unat b div 16) + unat b mod 16 = unat b" by simp
  ultimately show ?case using Cons by (simp add: hex_encode_def)
qed (simp add: hex_encode_def)

end
