(* ===== verification/Json.thy ===== *)
theory Json
  imports Prelude
begin

text \<open>
  The values \<open>JSON.parse\<close> can return, which the program receives as \<open>unknown\<close> and checks field by
  field. A number is an integral double (\<open>JInt\<close>: \<open>Number.isInteger\<close> holds of it) or any other
  double (\<open>JNonInt\<close>: a fraction or an infinity), whose value no check of the program reads. An
  object is the list of its own properties; a missing property reads as \<open>undefined\<close>, which is
  \<open>None\<close> here.
\<close>

datatype json =
    JNull
  | JBool bool
  | JInt int
  | JNonInt
  | JStr jsstring
  | JArr "json list"
  | JObj "(jsstring \<times> json) list"

text \<open>\<open>typeof value === "object" && value !== null && !Array.isArray(value)\<close>\<close>

fun isRecord :: "json \<Rightarrow> bool" where
  "isRecord (JObj _) = True"
| "isRecord _ = False"

text \<open>\<open>value[name]\<close> on a record; on anything else the code never reads a property.\<close>

fun field :: "json \<Rightarrow> string \<Rightarrow> json option" where
  "field (JObj fields) name = map_of fields (js name)"
| "field _ name = None"

fun as_string :: "json option \<Rightarrow> jsstring option" where
  "as_string (Some (JStr s)) = Some s"
| "as_string _ = None"

fun as_bool :: "json option \<Rightarrow> bool option" where
  "as_bool (Some (JBool b)) = Some b"
| "as_bool _ = None"

text \<open>\<open>Number.isInteger(value)\<close>, with the integer it holds\<close>

fun as_integer :: "json option \<Rightarrow> int option" where
  "as_integer (Some (JInt n)) = Some n"
| "as_integer _ = None"

fun as_array :: "json option \<Rightarrow> json list option" where
  "as_array (Some (JArr xs)) = Some xs"
| "as_array _ = None"

lemma as_string_Some [simp]: "as_string v = Some s \<longleftrightarrow> v = Some (JStr s)"
  by (cases v rule: as_string.cases) auto

lemma as_bool_Some [simp]: "as_bool v = Some b \<longleftrightarrow> v = Some (JBool b)"
  by (cases v rule: as_bool.cases) auto

lemma as_integer_Some [simp]: "as_integer v = Some n \<longleftrightarrow> v = Some (JInt n)"
  by (cases v rule: as_integer.cases) auto

lemma as_array_Some [simp]: "as_array v = Some xs \<longleftrightarrow> v = Some (JArr xs)"
  by (cases v rule: as_array.cases) auto

lemma isRecord_iff: "isRecord v \<longleftrightarrow> (\<exists>fields. v = JObj fields)"
  by (cases v) auto

text \<open>Building an object with the program's own property names.\<close>

definition obj :: "(string \<times> json) list \<Rightarrow> json" where
  "obj fields = JObj (map (\<lambda>(name, v). (js name, v)) fields)"

lemma isRecord_obj [simp]: "isRecord (obj fields)"
  by (simp add: obj_def)

lemma field_obj [simp]: "field (obj fields) name = map_of fields name"
  by (simp add: obj_def) (induction fields, auto)

text \<open>Fields a value may lack.\<close>

definition optional_field :: "string \<Rightarrow> jsstring option \<Rightarrow> (string \<times> json) list" where
  "optional_field name v = (case v of None \<Rightarrow> [] | Some s \<Rightarrow> [(name, JStr s)])"

text \<open>An optional string: absent, or a string, of which the empty one is dropped.\<close>

definition optional_string :: "json option \<Rightarrow> jsstring option option" where
  "optional_string v =
     (case v of None \<Rightarrow> Some None | Some (JStr s) \<Rightarrow> Some (if s = [] then None else Some s) | _ \<Rightarrow> None)"

text \<open>A file read and parsed, or missing; \<open>Unreadable\<close> stands for the other errors of reading it.\<close>

datatype file_read = Missing | Unreadable | Parsed json

lemma map_result_map: "(\<And>x. x \<in> set xs \<Longrightarrow> f (g x) = Inr x) \<Longrightarrow> map_result f (map g xs) = Inr xs"
  by (induction xs) auto

end
