(* ===== verification/Protocol.thy ===== *)
theory Protocol
  imports Json
begin

text \<open>
  The data of the two wire protocols, as \<^verbatim>\<open>src/companion-protocol/index.ts\<close> (the HTTP API) and
  \<^verbatim>\<open>src/companion-protocol/texpresso.ts\<close> (the private WebSocket transport) declare it. Optional
  members are options. Enumerations of string literals are datatypes. A number that the programs on
  both sides only ever produce as an integer is an \<open>int\<close> or a \<open>nat\<close>; measured times are \<open>int\<close>.
\<close>

section \<open>Companion API v1\<close>

definition TYPR_COMPANION_PROTOCOL_VERSION :: int where
  "TYPR_COMPANION_PROTOCOL_VERSION = 1"

definition TYPR_COMPANION_API_V1_PREFIX :: string where
  "TYPR_COMPANION_API_V1_PREFIX = ''/api/v1''"

definition route_status :: jsstring where
  "route_status = js (TYPR_COMPANION_API_V1_PREFIX @ ''/status'')"

definition route_compile :: jsstring where
  "route_compile = js (TYPR_COMPANION_API_V1_PREFIX @ ''/compile'')"

definition route_workspaceFiles :: jsstring where
  "route_workspaceFiles = js (TYPR_COMPANION_API_V1_PREFIX @ ''/workspace/files'')"

definition route_workspaceFile :: jsstring where
  "route_workspaceFile = js (TYPR_COMPANION_API_V1_PREFIX @ ''/workspace/file'')"

definition TYPR_WORKSPACE_MUTATION_HEADER :: string where
  "TYPR_WORKSPACE_MUTATION_HEADER = ''X-Typr-Workspace-Mutation''"

record WorkspaceLimits =
  maxFileBytes :: int
  maxEntries :: int
  maxWorkspaceBytes :: int

datatype FilesystemCapability =
    NoProjectStorage
  | ProjectStorage (capWorkspaceId: jsstring) (capLimits: WorkspaceLimits)

record WorkspaceFileMetadata =
  meta_path :: jsstring
  meta_size :: nat
  meta_modifiedAt :: int
  meta_etag :: jsstring

record WorkspaceFileListResponse =
  list_workspaceId :: jsstring
  list_files_of :: "WorkspaceFileMetadata list"

record WorkspaceFileResponse = WorkspaceFileMetadata +
  resp_content :: jsstring

record CompanionCapabilities =
  compile_engines :: "jsstring list"
  filesystem :: FilesystemCapability
  lsp_languages :: "jsstring list"
  git_enabled :: bool
  terminal_enabled :: bool

record CompanionStatusResponse =
  status_protocolVersion :: int
  status_serverVersion :: jsstring
  status_capabilities :: CompanionCapabilities

datatype ProjectFile =
    TextProjectFile (file_path: jsstring) (file_content: jsstring)
  | BinaryProjectFile (file_path: jsstring) (file_content: jsstring)

fun is_text :: "ProjectFile \<Rightarrow> bool" where
  "is_text (TextProjectFile _ _) = True"
| "is_text (BinaryProjectFile _ _) = False"

text \<open>A project file as it appears in a request.\<close>

fun file_json :: "ProjectFile \<Rightarrow> json" where
  "file_json (TextProjectFile path content) =
     obj [(''path'', JStr path), (''kind'', JStr (js ''text'')), (''content'', JStr content)]"
| "file_json (BinaryProjectFile path content) =
     obj [(''path'', JStr path), (''kind'', JStr (js ''binary'')), (''encoding'', JStr (js ''base64'')),
          (''content'', JStr content)]"

record CompileRequest =
  req_protocolVersion :: int
  req_engine :: jsstring
  req_mainFilePath :: jsstring
  req_files :: "ProjectFile list"

record CompileOutput =
  out_path :: jsstring
  out_content :: jsstring

record CompileError =
  err_code :: string
  err_message :: jsstring
  err_path :: "jsstring option"
  err_line :: "int option"

datatype CompileResult =
    CompileSuccess (res_engine: jsstring) (res_output: CompileOutput)
      (res_synctex: "CompileOutput option") (res_log: jsstring) (res_durationMs: int)
  | CompileFailure (res_engine: jsstring) (res_errors: "CompileError list")
      (res_log: jsstring) (res_durationMs: int)

fun compile_ok :: "CompileResult \<Rightarrow> bool" where
  "compile_ok (CompileSuccess _ _ _ _ _) = True"
| "compile_ok (CompileFailure _ _ _ _) = False"

section \<open>The private TeXpresso transport\<close>

definition TEXPRESSO_WS_PROTOCOL_VERSION :: int where
  "TEXPRESSO_WS_PROTOCOL_VERSION = 1"

definition TEXPRESSO_WS_ROUTE :: jsstring where
  "TEXPRESSO_WS_ROUTE = js ''/ws/texpresso''"

definition DEFAULT_TEXPRESSO_RENDER_DPI :: int where
  "DEFAULT_TEXPRESSO_RENDER_DPI = 240"

definition MIN_TEXPRESSO_RENDER_DPI :: int where
  "MIN_TEXPRESSO_RENDER_DPI = 72"

definition MAX_TEXPRESSO_RENDER_DPI :: int where
  "MAX_TEXPRESSO_RENDER_DPI = 300"

record TexpressoRenderTheme =
  foreground :: int
  background :: int

record TexpressoPosition =
  line :: nat
  character :: nat

record TexpressoRange =
  range_start :: TexpressoPosition
  range_end :: TexpressoPosition

record TexpressoInitializeMessage =
  init_protocolVersion :: int
  init_revision :: int
  init_mainFilePath :: jsstring
  init_dpi :: int
  init_theme :: "TexpressoRenderTheme option"
  init_files :: "ProjectFile list"

record TexpressoChangeMessage =
  change_revision :: int
  change_path :: jsstring
  change_range :: TexpressoRange
  change_text :: jsstring

datatype TexpressoClientMessage =
    Initialize TexpressoInitializeMessage
  | Change TexpressoChangeMessage
  | Shutdown

datatype severity = SevError | SevWarning | SevInfo

record TexpressoDiagnostic =
  severity_of :: severity
  diag_message :: jsstring
  diag_path :: "jsstring option"
  diag_line :: "int option"
  diag_column :: "int option"

record TexpressoPageDescriptor =
  desc_page :: int
  desc_width :: int
  desc_height :: int
  desc_dpi :: int
  desc_byteLength :: nat

datatype render_state = Pending | Coalesced | NotRendered

datatype close_reason = ClientShutdown | ClientDisconnect | ServerShutdown | ErrorClose

text \<open>
  Server messages. The session identifier, the process identifier and the measured times are left
  out: no decision of the program depends on them.
\<close>

datatype TexpressoServerMessage =
    SessionReady int int "TexpressoRenderTheme option"
  | RevisionStarted int nat
  | RevisionApplied int render_state nat
  | Document int int "TexpressoPageDescriptor list"
  | Page int TexpressoPageDescriptor
  | RevisionComplete int int nat nat
  | CompileErrorMsg int "int option" "TexpressoDiagnostic list" jsstring
  | ProtocolError string "int option" bool
  | SessionErrorMsg bool string "int option"
  | SessionClosed bool close_reason

end
