(* ===== verification/Paths.thy ===== *)
theory Paths
  imports Protocol Base64
begin

text \<open>
  \<^verbatim>\<open>typr-server/projectFiles.ts\<close>: which project paths a request may name, and where they land
  on disk. The part of \<^verbatim>\<open>node:path\<close> that the file uses is modelled first, in its POSIX form, on
  lists of path segments; the working directory is a parameter. The file system calls of
  \<open>materializeProjectFiles\<close> are parameters.
\<close>

section \<open>The POSIX part of node:path\<close>

definition posix_isAbsolute :: "jsstring \<Rightarrow> bool" where
  "posix_isAbsolute p \<longleftrightarrow> prefix (js ''/'') p"

definition is_letter :: "nat \<Rightarrow> bool" where
  "is_letter c \<longleftrightarrow> is_upper c \<or> is_lower c"

definition win32_isAbsolute :: "jsstring \<Rightarrow> bool" where
  "win32_isAbsolute p \<longleftrightarrow>
     (case p of [] \<Rightarrow> False
      | c # r \<Rightarrow> c = 47 \<or> c = 92 \<or>
          (is_letter c \<and> (case r of c1 # c2 # _ \<Rightarrow> c1 = 58 \<and> (c2 = 47 \<or> c2 = 92) | _ \<Rightarrow> False)))"

text \<open>
  \<open>normalizeString\<close>: empty and \<open>.\<close> segments vanish, \<open>..\<close> removes the segment before it; above the
  root it is kept for a relative path and dropped for an absolute one. The accumulator holds the
  segments so far, last first.
\<close>

fun norm_segs :: "bool \<Rightarrow> jsstring list \<Rightarrow> jsstring list \<Rightarrow> jsstring list" where
  "norm_segs up acc [] = rev acc"
| "norm_segs up acc (s # ss) =
     (if s = [] \<or> s = js ''.'' then norm_segs up acc ss
      else if s = js ''..'' then
        (case acc of
           [] \<Rightarrow> norm_segs up (if up then [s] else []) ss
         | a # r \<Rightarrow> if a = js ''..'' then norm_segs up (if up then s # acc else acc) ss
                    else norm_segs up r ss)
      else norm_segs up (s # acc) ss)"

definition normalizeString :: "jsstring \<Rightarrow> bool \<Rightarrow> jsstring" where
  "normalizeString p up = join_with [47] (norm_segs up [] (split_on 47 p))"

definition posix_normalize :: "jsstring \<Rightarrow> jsstring" where
  "posix_normalize p =
     (if p = [] then js ''.''
      else let absolute = posix_isAbsolute p;
               trailing = suffix (js ''/'') p;
               q = normalizeString p (\<not> absolute)
           in if q = [] then (if absolute then js ''/'' else if trailing then js ''./'' else js ''.'')
              else (if absolute then js ''/'' else []) @ q @ (if trailing then js ''/'' else []))"

text \<open>\<open>resolve\<close>: from the last argument to the first, then the working directory, until the path is
  absolute.\<close>

fun resolve_scan :: "jsstring list \<Rightarrow> jsstring \<Rightarrow> jsstring \<times> bool" where
  "resolve_scan [] acc = (acc, False)"
| "resolve_scan (p # ps) acc =
     (if p = [] then resolve_scan ps acc
      else if posix_isAbsolute p then (p @ js ''/'' @ acc, True)
      else resolve_scan ps (p @ js ''/'' @ acc))"

definition posix_resolve :: "jsstring \<Rightarrow> jsstring list \<Rightarrow> jsstring" where
  "posix_resolve cwd ps =
     (case resolve_scan (rev ps @ [cwd]) [] of (p, absolute) \<Rightarrow>
        let q = normalizeString p (\<not> absolute)
        in if absolute then js ''/'' @ q else if q = [] then js ''.'' else q)"

text \<open>\<open>relative\<close> on the segments of the two resolved paths.\<close>

definition segments :: "jsstring \<Rightarrow> jsstring list" where
  "segments p = filter (\<lambda>s. s \<noteq> []) (split_on 47 p)"

fun strip_common :: "'a list \<Rightarrow> 'a list \<Rightarrow> 'a list \<times> 'a list" where
  "strip_common (x # xs) (y # ys) = (if x = y then strip_common xs ys else (x # xs, y # ys))"
| "strip_common xs ys = (xs, ys)"

definition posix_relative :: "jsstring \<Rightarrow> jsstring \<Rightarrow> jsstring \<Rightarrow> jsstring" where
  "posix_relative cwd from dest =
     (case strip_common (segments (posix_resolve cwd [from])) (segments (posix_resolve cwd [dest])) of
        (up, down) \<Rightarrow> join_with [47] (replicate (length up) (js ''..'') @ down))"

text \<open>\<open>dirname\<close> of a path without empty segments (it is applied to resolved paths).\<close>

definition posix_dirname :: "jsstring \<Rightarrow> jsstring" where
  "posix_dirname p =
     (case butlast (segments p) of
        [] \<Rightarrow> if posix_isAbsolute p then js ''/'' else js ''.''
      | ss \<Rightarrow> (if posix_isAbsolute p then js ''/'' else []) @ join_with [47] ss)"

section \<open>Project paths\<close>

text \<open>The \<open>label\<close> argument of the validators, and what their messages say is wrong.\<close>

datatype path_label = MainFilePath | FileEntry nat | ChangePath | ProjectFilePath

datatype path_problem =
    NotNonEmptyRelative
  | NotSafeRelativePosix
  | ParentTraversal
  | WindowsUnsafeName

type_synonym path_message = "path_label \<times> path_problem"

definition windows_forbidden :: "nat \<Rightarrow> bool" where
  "windows_forbidden c \<longleftrightarrow> c < 32 \<or> c \<in> set (js ''<>:|?*'') \<or> c = 34"

definition windows_device :: "jsstring \<Rightarrow> bool" where
  "windows_device stem \<longleftrightarrow>
     stem \<in> {js ''CON'', js ''PRN'', js ''AUX'', js ''NUL''} \<or>
     (length stem = 4 \<and> (take 3 stem = js ''COM'' \<or> take 3 stem = js ''LPT'') \<and>
      49 \<le> last stem \<and> last stem \<le> 57)"

definition isWindowsUnsafePathSegment :: "jsstring \<Rightarrow> bool" where
  "isWindowsUnsafePathSegment segment =
     (let stem = ascii_upper (takeWhile (\<lambda>c. c \<noteq> 46) segment)
      in list_ex windows_forbidden segment \<or>
         suffix (js '' '') segment \<or> suffix (js ''.'') segment \<or>
         windows_device stem)"

definition validateProjectPath :: "bool \<Rightarrow> json option \<Rightarrow> path_label \<Rightarrow> path_message option" where
  "validateProjectPath win v label =
     (case as_string v of
        None \<Rightarrow> Some (label, NotNonEmptyRelative)
      | Some p \<Rightarrow>
          if p = [] then Some (label, NotNonEmptyRelative)
          else if p = js ''.'' \<or> suffix (js ''/'') p \<or> 0 \<in> set p \<or> 92 \<in> set p \<or>
                  posix_isAbsolute p \<or> win32_isAbsolute p
          then Some (label, NotSafeRelativePosix)
          else let segs = split_on 47 p
               in if list_ex (\<lambda>s. s = js ''..'') segs then Some (label, ParentTraversal)
                  else if win \<and> list_ex isWindowsUnsafePathSegment segs
                  then Some (label, WindowsUnsafeName)
                  else None)"

datatype resolve_error = ResolvesOutside

definition resolveProjectPath :: "jsstring \<Rightarrow> jsstring \<Rightarrow> jsstring \<Rightarrow> resolve_error + jsstring" where
  "resolveProjectPath cwd root projectPath =
     (let resolvedRoot = posix_resolve cwd [root];
          destination = posix_resolve cwd [resolvedRoot, posix_normalize projectPath];
          pathFromRoot = posix_relative cwd resolvedRoot destination
      in if prefix (js ''..'') pathFromRoot \<or> posix_isAbsolute pathFromRoot
         then Inl ResolvesOutside
         else Inr destination)"

text \<open>
  \<open>materializeProjectFiles\<close>: the files are written one after the other; the first failure of a check
  or of a file system call stops the loop, and what was written before stays. The file system state
  and the two calls are parameters.
\<close>

datatype 'e materialize_error = InvalidPath path_message | Outside | IoError 'e

fun file_bytes :: "ProjectFile \<Rightarrow> bytes" where
  "file_bytes (TextProjectFile _ content) = utf8 content"
| "file_bytes (BinaryProjectFile _ content) = base64_decode content"

fun materializeProjectFiles ::
  "(jsstring \<Rightarrow> 'fs \<Rightarrow> 'e + 'fs) \<Rightarrow> (jsstring \<Rightarrow> bytes \<Rightarrow> 'fs \<Rightarrow> 'e + 'fs) \<Rightarrow> bool \<Rightarrow> jsstring \<Rightarrow>
   jsstring \<Rightarrow> ProjectFile list \<Rightarrow> 'fs \<Rightarrow> 'fs \<times> 'e materialize_error option"
where
  "materializeProjectFiles mkdir writeFile win cwd root [] fs = (fs, None)"
| "materializeProjectFiles mkdir writeFile win cwd root (file # files) fs =
     (case validateProjectPath win (Some (JStr (file_path file))) ProjectFilePath of
        Some pathError \<Rightarrow> (fs, Some (InvalidPath pathError))
      | None \<Rightarrow>
          (case resolveProjectPath cwd root (file_path file) of
             Inl _ \<Rightarrow> (fs, Some Outside)
           | Inr destination \<Rightarrow>
               (case mkdir (posix_dirname destination) fs of
                  Inl e \<Rightarrow> (fs, Some (IoError e))
                | Inr fs1 \<Rightarrow>
                    (case writeFile destination (file_bytes file) fs1 of
                       Inl e \<Rightarrow> (fs1, Some (IoError e))
                     | Inr fs2 \<Rightarrow> materializeProjectFiles mkdir writeFile win cwd root files fs2))))"

section \<open>Lemmas\<close>

text \<open>The absolute path with the given segments, and the segments such a path can have.\<close>

definition abs_path :: "jsstring list \<Rightarrow> jsstring" where
  "abs_path ss = 47 # join_with [47] ss"

definition good_seg :: "jsstring \<Rightarrow> bool" where
  "good_seg s \<longleftrightarrow> s \<noteq> [] \<and> s \<noteq> js ''.'' \<and> s \<noteq> js ''..'' \<and> 47 \<notin> set s"

definition kept :: "jsstring \<Rightarrow> jsstring list" where
  "kept p = filter (\<lambda>s. s \<noteq> [] \<and> s \<noteq> js ''.'') (split_on 47 p)"

definition inside :: "jsstring \<Rightarrow> jsstring \<Rightarrow> bool" where
  "inside root p \<longleftrightarrow> posix_isAbsolute p \<and> prefix (segments root) (segments p)"

lemma slash: "js ''/'' = [47]" and dot: "js ''.'' = [46]" and dotdot: "js ''..'' = [46, 46]"
  by (simp_all add: js_def)

lemma posix_isAbsolute_iff: "posix_isAbsolute p \<longleftrightarrow> (\<exists>r. p = 47 # r)"
  by (auto simp: posix_isAbsolute_def slash prefix_def)

lemma split_on_append_sep: "split_on c (a @ c # b) = split_on c a @ split_on c b"
  by (induction a) (auto split: list.splits)

lemma norm_segs_good:
  assumes "list_all good_seg acc" and "list_all (\<lambda>s. 47 \<notin> set s) ss"
  shows "list_all good_seg (norm_segs False acc ss)"
  using assms
proof (induction ss arbitrary: acc)
  case Nil
  then show ?case by (simp add: list_all_iff)
next
  case (Cons s ss)
  then have rest: "list_all (\<lambda>s. 47 \<notin> set s) ss" by simp
  show ?case
  proof (cases "s = [] \<or> s = js ''.'' \<or> s = js ''..''")
    case True
    with Cons rest show ?thesis by (cases acc) (auto simp: good_seg_def)
  next
    case False
    with Cons.prems have "good_seg s" by (simp add: good_seg_def)
    with Cons.prems have "list_all good_seg (s # acc)" by simp
    from Cons.IH [OF this rest] False show ?thesis by simp
  qed
qed

lemma norm_segs_plain:
  "js ''..'' \<notin> set ss \<Longrightarrow> norm_segs up acc ss = rev acc @ filter (\<lambda>s. s \<noteq> [] \<and> s \<noteq> js ''.'') ss"
  by (induction up acc ss rule: norm_segs.induct) auto

lemma good_no_dotdot: "list_all good_seg ss \<Longrightarrow> js ''..'' \<notin> set ss"
  by (auto simp: list_all_iff good_seg_def)

lemma split_no_slash: "list_all (\<lambda>s. 47 \<notin> set s) (split_on 47 p)"
  by (auto simp: list_all_iff dest: split_on_no_sep)

lemma split_join_good:
  "list_all good_seg ss \<Longrightarrow> filter (\<lambda>s. s \<noteq> []) (split_on 47 (join_with [47] ss)) = ss"
proof (cases "ss = []")
  case False
  assume good: "list_all good_seg ss"
  then have "split_on 47 (join_with [47] ss) = ss"
    using False by (intro split_join_with) (auto simp: list_all_iff good_seg_def)
  with good show ?thesis by (auto simp: filter_id_conv list_all_iff good_seg_def)
qed simp

lemma segments_abs_path: "list_all good_seg ss \<Longrightarrow> segments (abs_path ss) = ss"
  by (simp add: segments_def abs_path_def split_join_good)

lemma normalizeString_abs:
  "47 # normalizeString p False = abs_path (norm_segs False [] (split_on 47 p))"
  by (simp add: normalizeString_def abs_path_def)

lemma resolve_scan_abs:
  "posix_isAbsolute cwd \<Longrightarrow> \<exists>p. resolve_scan (ps @ [cwd]) acc = (p, True)"
  by (induction ps acc rule: resolve_scan.induct) (auto simp: posix_isAbsolute_iff)

lemma posix_resolve_good:
  assumes "posix_isAbsolute cwd"
  obtains ss where "posix_resolve cwd ps = abs_path ss" "list_all good_seg ss"
proof -
  from resolve_scan_abs [OF assms] obtain p where p: "resolve_scan (rev ps @ [cwd]) [] = (p, True)"
    by blast
  have "posix_resolve cwd ps = abs_path (norm_segs False [] (split_on 47 p))"
    using normalizeString_abs [of p] by (simp add: posix_resolve_def p slash)
  moreover have "list_all good_seg (norm_segs False [] (split_on 47 p))"
    by (rule norm_segs_good) (simp_all add: split_no_slash)
  ultimately show thesis by (rule that)
qed

lemma filter_keep_good:
  "list_all good_seg ss \<Longrightarrow> filter (\<lambda>s. s \<noteq> [] \<and> s \<noteq> js ''.'') ss = ss"
  by (auto simp: filter_id_conv list_all_iff good_seg_def)

lemma filter_keep_nonempty:
  "filter (\<lambda>s. s \<noteq> [] \<and> s \<noteq> js ''.'') ss = filter (\<lambda>s. s \<noteq> js ''.'') (filter (\<lambda>s. s \<noteq> []) ss)"
  by (auto intro: filter_cong)

lemma kept_abs_path: "list_all good_seg ss \<Longrightarrow> kept (abs_path ss) = ss"
  by (simp add: kept_def abs_path_def filter_keep_nonempty split_join_good)
     (auto simp: filter_id_conv list_all_iff good_seg_def)

lemma abs_path_no_dotdot: "list_all good_seg ss \<Longrightarrow> js ''..'' \<notin> set (split_on 47 (abs_path ss))"
proof
  assume good: "list_all good_seg ss" and "js ''..'' \<in> set (split_on 47 (abs_path ss))"
  then have "js ''..'' \<in> set (segments (abs_path ss))" by (simp add: segments_def)
  with good good_no_dotdot show False by (simp add: segments_abs_path)
qed

lemma posix_isAbsolute_abs_path [simp]: "posix_isAbsolute (abs_path ss)"
  by (simp add: posix_isAbsolute_iff abs_path_def)

text \<open>Resolving a plain relative path under an absolute one appends its segments.\<close>

lemma posix_resolve_under:
  assumes "list_all good_seg ss" "q \<noteq> []" "\<not> posix_isAbsolute q" "js ''..'' \<notin> set (split_on 47 q)"
  shows "posix_resolve cwd [abs_path ss, q] = abs_path (ss @ kept q)"
proof -
  have scan: "resolve_scan (rev [abs_path ss, q] @ [cwd]) [] = (abs_path ss @ 47 # q @ [47], True)"
    using assms(2,3) by (simp add: slash) (simp add: abs_path_def)
  have split: "split_on 47 (abs_path ss @ 47 # q @ [47]) = split_on 47 (abs_path ss) @ split_on 47 q @ [[]]"
    using split_on_append_sep [of 47 q "[]"] by (simp add: split_on_append_sep)
  have "norm_segs False [] (split_on 47 (abs_path ss @ 47 # q @ [47])) = ss @ kept q"
    using assms(1,4) abs_path_no_dotdot [OF assms(1)]
    by (simp add: split norm_segs_plain kept_abs_path flip: kept_def)
  then show ?thesis
    using normalizeString_abs [of "abs_path ss @ 47 # q @ [47]"]
    by (simp only: posix_resolve_def scan prod.case Let_def if_True slash append.simps not_True_eq_False)
qed

lemma posix_resolve_abs_path:
  assumes "list_all good_seg ss"
  shows "posix_resolve cwd [abs_path ss] = abs_path ss"
proof -
  have scan: "resolve_scan (rev [abs_path ss] @ [cwd]) [] = (abs_path ss @ [47], True)"
    by (simp add: slash) (simp add: abs_path_def)
  have split: "split_on 47 (abs_path ss @ [47]) = split_on 47 (abs_path ss) @ [[]]"
    using split_on_append_sep [of 47 "abs_path ss" "[]"] by simp
  have "norm_segs False [] (split_on 47 (abs_path ss @ [47])) = ss"
    using assms abs_path_no_dotdot [OF assms]
    by (simp add: split norm_segs_plain kept_abs_path flip: kept_def)
  then show ?thesis
    using normalizeString_abs [of "abs_path ss @ [47]"]
    by (simp only: posix_resolve_def scan prod.case Let_def if_True slash append.simps not_True_eq_False)
qed

lemma strip_common_split: "strip_common xs ys = (u, d) \<Longrightarrow> \<exists>c. xs = c @ u \<and> ys = c @ d"
proof (induction xs ys arbitrary: u d rule: strip_common.induct)
  case (1 x xs y ys)
  then show ?case by (cases "x = y") (auto intro: exI [of _ "x # _"])
qed auto

lemma strip_common_prefix: "strip_common xs (xs @ ys) = ([], ys)"
proof (induction xs)
  case Nil
  show ?case by (cases ys) simp_all
qed simp

lemma prefix_join: "prefix x (join_with c (x # xs))"
  by (cases xs) auto

lemma validated:
  assumes "validateProjectPath win (Some (JStr p)) label = None"
  shows "p \<noteq> []" "p \<noteq> js ''.''" "\<not> suffix (js ''/'') p" "\<not> posix_isAbsolute p"
    "js ''..'' \<notin> set (split_on 47 p)" "0 \<notin> set p" "92 \<notin> set p"
  using assms by (auto simp: validateProjectPath_def Let_def list_ex_iff split: if_splits)

lemma kept_join: "js ''..'' \<notin> set (split_on 47 p) \<Longrightarrow> list_all good_seg (kept p)"
  by (auto simp: kept_def list_all_iff good_seg_def dest: split_on_no_sep)

lemma kept_of_join:
  assumes "list_all good_seg ss"
  shows "kept (join_with [47] ss) = ss"
  using assms split_join_good [OF assms]
  by (simp add: kept_def filter_keep_nonempty) (auto simp: filter_id_conv list_all_iff good_seg_def)

lemma join_relative:
  assumes "list_all good_seg ss"
  shows "\<not> posix_isAbsolute (join_with [47] ss)"
  using assms by (cases ss rule: list_shape) (auto simp: posix_isAbsolute_iff good_seg_def append_eq_Cons_conv)

lemma join_no_dotdot:
  assumes "list_all good_seg ss"
  shows "js ''..'' \<notin> set (split_on 47 (join_with [47] ss))"
proof -
  have "js ''..'' \<notin> set (filter (\<lambda>s. s \<noteq> []) (split_on 47 (join_with [47] ss)))"
    unfolding split_join_good [OF assms] using assms by (rule good_no_dotdot)
  then show ?thesis by simp
qed

lemma join_eq_Nil: "list_all good_seg ss \<Longrightarrow> join_with [47] ss = [] \<longleftrightarrow> ss = []"
  by (cases ss rule: list_shape) (auto simp: good_seg_def)

lemma normalize_plain:
  assumes "p \<noteq> []" "\<not> suffix (js ''/'') p" "\<not> posix_isAbsolute p" "js ''..'' \<notin> set (split_on 47 p)"
  shows "posix_normalize p = (if kept p = [] then js ''.'' else join_with [47] (kept p))"
proof -
  have "normalizeString p up = join_with [47] (kept p)" for up
    using assms(4) by (simp add: normalizeString_def norm_segs_plain kept_def)
  with assms kept_join [OF assms(4)] show ?thesis
    by (simp add: posix_normalize_def Let_def join_eq_Nil)
qed

lemma relative_under:
  assumes "list_all good_seg rs" "list_all good_seg ss"
  shows "posix_relative cwd (abs_path rs) (abs_path (rs @ ss)) = join_with [47] ss"
  using assms
  by (simp add: posix_relative_def posix_resolve_abs_path segments_abs_path strip_common_prefix)

lemma prefix_dotdot_join:
  assumes "list_all good_seg ss"
  shows "prefix (js ''..'') (join_with [47] ss) \<longleftrightarrow> ss \<noteq> [] \<and> prefix (js ''..'') (hd ss)"
proof (cases ss rule: list_shape)
  case (More x y xs)
  with assms have "x \<noteq> []" "x \<noteq> [46]" by (auto simp: good_seg_def dot)
  then show ?thesis
    by (cases x rule: list.exhaust; cases "tl x") (auto simp: More dotdot)
qed (auto simp: dotdot)

lemma resolveProjectPath_inside:
  assumes "posix_isAbsolute cwd" and "resolveProjectPath cwd root p = Inr destination"
  shows "\<exists>rest. destination = abs_path (segments (posix_resolve cwd [root]) @ rest) \<and>
    inside (posix_resolve cwd [root]) destination \<and> list_all good_seg rest"
proof -
  obtain rs where rs: "posix_resolve cwd [root] = abs_path rs" "list_all good_seg rs"
    using assms(1) by (rule posix_resolve_good)
  obtain ds where ds: "posix_resolve cwd [abs_path rs, posix_normalize p] = abs_path ds" "list_all good_seg ds"
    using assms(1) by (rule posix_resolve_good)
  obtain up down where ud: "strip_common rs ds = (up, down)" by fastforce
  have rel: "posix_relative cwd (abs_path rs) (abs_path ds) =
      join_with [47] (replicate (length up) (js ''..'') @ down)"
    using rs ds ud by (simp add: posix_relative_def posix_resolve_abs_path segments_abs_path)
  from assms(2) have ok: "\<not> prefix (js ''..'') (posix_relative cwd (abs_path rs) (abs_path ds))"
    and dest: "destination = abs_path ds"
    by (auto simp: resolveProjectPath_def Let_def rs(1) ds(1) split: if_splits)
  have "up = []"
    using ok prefix_join by (cases up) (auto simp: rel)
  with strip_common_split [OF ud] have "ds = rs @ down" by auto
  with rs ds dest show ?thesis by (auto simp: inside_def segments_abs_path)
qed

section \<open>Properties\<close>

text \<open>
  C18: whatever the project path is, validated or not, a path that \<open>resolveProjectPath\<close> returns lies
  in the project root: its segments extend the segments of the resolved root, and none of them is
  empty, \<open>.\<close> or \<open>..\<close>.
\<close>

theorem resolveProjectPath_confined:
  assumes "posix_isAbsolute cwd" and "resolveProjectPath cwd root p = Inr destination"
  shows "\<exists>rest. destination = abs_path (segments (posix_resolve cwd [root]) @ rest) \<and>
    inside (posix_resolve cwd [root]) destination \<and> list_all good_seg rest"
  using assms by (rule resolveProjectPath_inside)

theorem resolveProjectPath_confined_witness:
  "inside (posix_resolve (js ''/srv'') [js ''/tmp/job'']) (js ''/tmp/job/a/main.tex'')"
proof -
  have "\<exists>rest. js ''/tmp/job/a/main.tex'' = abs_path (segments (posix_resolve (js ''/srv'') [js ''/tmp/job'']) @ rest) \<and>
    inside (posix_resolve (js ''/srv'') [js ''/tmp/job'']) (js ''/tmp/job/a/main.tex'') \<and> list_all good_seg rest"
    by (rule resolveProjectPath_confined [of _ _ "js ''b/../a/./main.tex''"]) code_simp+
  then show ?thesis by blast
qed

text \<open>
  A path the request validator accepts resolves to exactly the root followed by its segments
  (empty and \<open>.\<close> segments dropped), except that a first segment whose name merely begins with two
  dots is refused as if it left the root.
\<close>

theorem resolveProjectPath_validated:
  assumes "validateProjectPath win (Some (JStr p)) label = None" and "posix_isAbsolute cwd"
  shows "resolveProjectPath cwd root p =
    (if kept p \<noteq> [] \<and> prefix (js ''..'') (hd (kept p)) then Inl ResolvesOutside
     else Inr (abs_path (segments (posix_resolve cwd [root]) @ kept p)))"
proof -
  note v = validated [OF assms(1)]
  have good: "list_all good_seg (kept p)" using v(5) by (rule kept_join)
  obtain rs where rs: "posix_resolve cwd [root] = abs_path rs" "list_all good_seg rs"
    using assms(2) by (rule posix_resolve_good)
  have "posix_resolve cwd [abs_path rs, posix_normalize p] = abs_path (rs @ kept p)"
  proof (cases "kept p = []")
    case True
    then have "posix_normalize p = js ''.''" using v normalize_plain by simp
    with True rs(2) posix_resolve_under [of rs "js ''.''" cwd] show ?thesis
      by (simp add: posix_isAbsolute_iff dot dotdot kept_def)
  next
    case False
    then have n: "posix_normalize p = join_with [47] (kept p)" using v normalize_plain by simp
    from posix_resolve_under [of rs "join_with [47] (kept p)" cwd] rs(2) good False
    show ?thesis
      by (simp add: n join_eq_Nil join_relative join_no_dotdot kept_of_join)
  qed
  then show ?thesis
    using rs good
    by (simp add: resolveProjectPath_def Let_def segments_abs_path relative_under join_relative
        prefix_dotdot_join)
qed

theorem resolveProjectPath_validated_witness:
  "resolveProjectPath (js ''/srv'') (js ''/tmp/job'') (js ''..notes.tex'') = Inl ResolvesOutside \<and>
   resolveProjectPath (js ''/srv'') (js ''/tmp/job'') (js ''./.'') = Inr (js ''/tmp/job'')"
proof -
  have "validateProjectPath False (Some (JStr (js ''..notes.tex''))) MainFilePath = None"
    "validateProjectPath False (Some (JStr (js ''./.''))) MainFilePath = None"
    "posix_isAbsolute (js ''/srv'')"
    by code_simp+
  note r = resolveProjectPath_validated [OF this(1,3), of "js ''/tmp/job''"]
    resolveProjectPath_validated [OF this(2,3), of "js ''/tmp/job''"]
  show ?thesis unfolding r by code_simp
qed

lemma segments_butlast: "list_all good_seg ss \<Longrightarrow> list_all good_seg (butlast ss)"
  by (auto simp: list_all_iff dest: in_set_butlastD)

lemma posix_dirname_abs_path:
  "list_all good_seg ss \<Longrightarrow> posix_dirname (abs_path ss) = abs_path (butlast ss)"
  unfolding posix_dirname_def
  by (cases "butlast ss") (simp_all add: segments_abs_path, simp_all add: abs_path_def slash)

lemma dirname_near:
  assumes "list_all good_seg rs" "list_all good_seg rest"
  shows "inside (abs_path rs) (posix_dirname (abs_path (rs @ rest))) \<or>
    inside (posix_dirname (abs_path (rs @ rest))) (abs_path rs)"
  using assms
  by (cases rest rule: rev_cases)
     (auto simp: posix_dirname_abs_path segments_abs_path segments_butlast inside_def butlast_append
        prefixeq_butlast)

lemma materialize_keeps:
  assumes cwd: "posix_isAbsolute cwd"
    and mk: "\<And>d fs fs'. inside (posix_resolve cwd [root]) d \<or> inside d (posix_resolve cwd [root]) \<Longrightarrow>
      Inv fs \<Longrightarrow> mkdir d fs = Inr fs' \<Longrightarrow> Inv fs'"
    and wr: "\<And>d bs fs fs'. inside (posix_resolve cwd [root]) d \<Longrightarrow> Inv fs \<Longrightarrow>
      writeFile d bs fs = Inr fs' \<Longrightarrow> Inv fs'"
    and "Inv fs"
  shows "Inv (fst (materializeProjectFiles mkdir writeFile win cwd root files fs))"
  using \<open>Inv fs\<close>
proof (induction files arbitrary: fs)
  case Nil
  then show ?case by simp
next
  case (Cons f files)
  obtain rs where rs: "posix_resolve cwd [root] = abs_path rs" "list_all good_seg rs"
    using cwd by (rule posix_resolve_good)
  show ?case
  proof (cases "resolveProjectPath cwd root (file_path f)")
    case (Inr destination)
    from resolveProjectPath_inside [OF cwd Inr] rs obtain rest
      where rest: "destination = abs_path (rs @ rest)" "list_all good_seg rest"
      by (auto simp: segments_abs_path)
    have "inside (posix_resolve cwd [root]) destination"
      using rs rest by (simp add: inside_def segments_abs_path)
    then have wrote: "Inv fs1 \<Longrightarrow> writeFile destination bs fs1 = Inr fs2 \<Longrightarrow> Inv fs2" for bs fs1 fs2
      by (rule wr)
    have "inside (posix_resolve cwd [root]) (posix_dirname destination) \<or>
        inside (posix_dirname destination) (posix_resolve cwd [root])"
      unfolding rs(1) rest(1) using rs(2) rest(2) by (rule dirname_near)
    then have make: "mkdir (posix_dirname destination) fs = Inr fs1 \<Longrightarrow> Inv fs1" for fs1
      by (rule mk [OF _ Cons.prems])
    show ?thesis
      by (simp add: Inr Cons.prems split: option.split sum.split) (blast intro: make wrote Cons.IH)
  qed (simp add: Cons.prems split: option.split)
qed

text \<open>
  Materializing a request touches nothing outside its project directory. Whatever the file
  system does, an invariant that the \<open>mkdir\<close> calls keep on directories in the project root or above
  it, and the \<open>writeFile\<close> calls on paths in the project root, holds afterwards, whether the loop ends
  or stops at a bad path or a failing call.
\<close>

theorem materialize_confined:
  assumes cwd: "posix_isAbsolute cwd"
    and mk: "\<And>d fs fs'. inside (posix_resolve cwd [root]) d \<or> inside d (posix_resolve cwd [root]) \<Longrightarrow>
      Inv fs \<Longrightarrow> mkdir d fs = Inr fs' \<Longrightarrow> Inv fs'"
    and wr: "\<And>d bs fs fs'. inside (posix_resolve cwd [root]) d \<Longrightarrow> Inv fs \<Longrightarrow>
      writeFile d bs fs = Inr fs' \<Longrightarrow> Inv fs'"
    and "Inv fs"
  shows "Inv (fst (materializeProjectFiles mkdir writeFile win cwd root files fs))"
  using assms by (rule materialize_keeps)

theorem materialize_confined_witness:
  "list_all (inside (posix_resolve (js ''/srv'') [js ''/tmp/job'']))
     (fst (materializeProjectFiles (\<lambda>d fs. Inr fs) (\<lambda>d bs fs. Inr (d # fs) :: unit + jsstring list)
        False (js ''/srv'') (js ''/tmp/job'') [TextProjectFile (js ''a/main.tex'') (js ''x'')] []))"
  by (rule materialize_confined) (auto simp: posix_isAbsolute_iff js_def)

end
