(* ===== verification/CompileRequest.thy ===== *)
theory CompileRequest
  imports Paths
begin

text \<open>
  \<open>validateCompileRequest\<close> of \<^verbatim>\<open>typr-server/server.ts\<close>: the check of a \<open>POST /api/v1/compile\<close> body.
  The request it returns is what the compile handler hands to \<open>materializeProjectFiles\<close> and to the
  engine. The rejections are the messages of the code, in the order the code tests them.
\<close>

definition MAX_PROJECT_FILES :: nat where "MAX_PROJECT_FILES = 512"
definition MAX_PROJECT_BYTES :: nat where "MAX_PROJECT_BYTES = 25 * 1024 * 1024"

datatype compile_invalid =
    NotAnObject
  | ProtocolVersionNotInteger
  | EngineNotNonEmpty
  | BadPath path_message
  | FilesNotArray
  | TooManyFiles
  | FileNotObject nat
  | DuplicatePath nat
  | TextContentNotString nat
  | InvalidBinaryContent nat
  | UnknownKind nat
  | MainFileNotSupplied
  | ProjectTooLarge

text \<open>The loop over \<open>value.files\<close>; it returns the files and the decoded size.\<close>

fun compile_files ::
  "bool \<Rightarrow> nat \<Rightarrow> jsstring list \<Rightarrow> nat \<Rightarrow> ProjectFile list \<Rightarrow> json list \<Rightarrow>
   compile_invalid + ProjectFile list \<times> nat"
where
  "compile_files win index seenPaths decodedProjectBytes files [] = Inr (rev files, decodedProjectBytes)"
| "compile_files win index seenPaths decodedProjectBytes files (f # fs) =
     (if \<not> isRecord f then Inl (FileNotObject index)
      else case validateProjectPath win (field f ''path'') (FileEntry index) of
        Some pathError \<Rightarrow> Inl (BadPath pathError)
      | None \<Rightarrow>
          (case as_string (field f ''path'') of
             None \<Rightarrow> Inl (BadPath (FileEntry index, NotNonEmptyRelative))
           | Some filePath \<Rightarrow>
               if filePath \<in> set seenPaths then Inl (DuplicatePath index)
               else if field f ''kind'' = Some (JStr (js ''text'')) then
                 (case as_string (field f ''content'') of
                    None \<Rightarrow> Inl (TextContentNotString index)
                  | Some content \<Rightarrow>
                      compile_files win (Suc index) (filePath # seenPaths)
                        (decodedProjectBytes + byte_length content)
                        (TextProjectFile filePath content # files) fs)
               else if field f ''kind'' = Some (JStr (js ''binary'')) then
                 (case as_string (field f ''content'') of
                    None \<Rightarrow> Inl (InvalidBinaryContent index)
                  | Some content \<Rightarrow>
                      if field f ''encoding'' \<noteq> Some (JStr (js ''base64'')) \<or> \<not> isBase64 content
                      then Inl (InvalidBinaryContent index)
                      else compile_files win (Suc index) (filePath # seenPaths)
                             (decodedProjectBytes + length (base64_decode content))
                             (BinaryProjectFile filePath content # files) fs)
               else Inl (UnknownKind index)))"

definition validateCompileRequest :: "bool \<Rightarrow> json \<Rightarrow> compile_invalid + CompileRequest" where
  "validateCompileRequest win v =
     (if \<not> isRecord v then Inl NotAnObject
      else case as_integer (field v ''protocolVersion'') of
        None \<Rightarrow> Inl ProtocolVersionNotInteger
      | Some version \<Rightarrow>
          (case as_string (field v ''engine'') of
             None \<Rightarrow> Inl EngineNotNonEmpty
           | Some engine \<Rightarrow>
               if trim engine = [] then Inl EngineNotNonEmpty
               else case validateProjectPath win (field v ''mainFilePath'') MainFilePath of
                 Some mainPathError \<Rightarrow> Inl (BadPath mainPathError)
               | None \<Rightarrow>
                   (case as_string (field v ''mainFilePath'') of
                      None \<Rightarrow> Inl (BadPath (MainFilePath, NotNonEmptyRelative))
                    | Some mainFilePath \<Rightarrow>
                        (case as_array (field v ''files'') of
                           None \<Rightarrow> Inl FilesNotArray
                         | Some entries \<Rightarrow>
                             if length entries > MAX_PROJECT_FILES then Inl TooManyFiles
                             else (case compile_files win 0 [] 0 [] entries of
                                     Inl e \<Rightarrow> Inl e
                                   | Inr (files, decodedProjectBytes) \<Rightarrow>
                                       if mainFilePath \<notin> file_path ` set files
                                       then Inl MainFileNotSupplied
                                       else if decodedProjectBytes > MAX_PROJECT_BYTES
                                       then Inl ProjectTooLarge
                                       else Inr \<lparr>req_protocolVersion = version, req_engine = engine,
                                                 req_mainFilePath = mainFilePath,
                                                 req_files = files\<rparr>)))))"

section \<open>Lemmas\<close>

definition safe_project_path :: "bool \<Rightarrow> jsstring \<Rightarrow> bool" where
  "safe_project_path win p \<longleftrightarrow> validateProjectPath win (Some (JStr p)) MainFilePath = None"

lemma project_path_label:
  "validateProjectPath win v label = None \<longleftrightarrow> (\<exists>p. v = Some (JStr p) \<and> safe_project_path win p)"
  by (auto simp: validateProjectPath_def safe_project_path_def Let_def split: option.splits if_splits)

fun decoded_size :: "ProjectFile \<Rightarrow> nat" where
  "decoded_size (TextProjectFile _ content) = byte_length content"
| "decoded_size (BinaryProjectFile _ content) = length (base64_decode content)"

fun project_file_ok :: "bool \<Rightarrow> ProjectFile \<Rightarrow> bool" where
  "project_file_ok win (TextProjectFile path _) = safe_project_path win path"
| "project_file_ok win (BinaryProjectFile path content) = (safe_project_path win path \<and> isBase64 content)"

definition wf_request :: "bool \<Rightarrow> CompileRequest \<Rightarrow> bool" where
  "wf_request win r \<longleftrightarrow> trim (req_engine r) \<noteq> [] \<and> length (req_files r) \<le> MAX_PROJECT_FILES \<and>
     list_all (project_file_ok win) (req_files r) \<and> distinct (map file_path (req_files r)) \<and>
     req_mainFilePath r \<in> file_path ` set (req_files r) \<and>
     sum_list (map decoded_size (req_files r)) \<le> MAX_PROJECT_BYTES"

definition request_json :: "CompileRequest \<Rightarrow> json" where
  "request_json r =
     obj [(''protocolVersion'', JInt (req_protocolVersion r)), (''engine'', JStr (req_engine r)),
          (''mainFilePath'', JStr (req_mainFilePath r)),
          (''files'', JArr (map file_json (req_files r)))]"

lemma project_file_ok_path: "project_file_ok win f \<Longrightarrow> safe_project_path win (file_path f)"
  by (cases f) simp_all

lemma validateProjectPath_safe [simp]:
  "safe_project_path win p \<Longrightarrow> validateProjectPath win (Some (JStr p)) label = None"
  by (simp add: project_path_label)

lemma compile_files_Cons:
  assumes "compile_files win i seen n acc (f # fs) = Inr (out, m)"
  obtains pf where "project_file_ok win pf" "file_path pf \<notin> set seen"
    "compile_files win (Suc i) (file_path pf # seen) (n + decoded_size pf) (pf # acc) fs = Inr (out, m)"
proof -
  from assms obtain path where path: "safe_project_path win path" "path \<notin> set seen"
    and "(\<exists>c. compile_files win (Suc i) (path # seen) (n + byte_length c) (TextProjectFile path c # acc) fs =
            Inr (out, m)) \<or>
      (\<exists>c. isBase64 c \<and> compile_files win (Suc i) (path # seen) (n + length (base64_decode c))
            (BinaryProjectFile path c # acc) fs = Inr (out, m))"
    by (auto simp: project_path_label split: option.splits if_splits)
  then show thesis
    using that [of "TextProjectFile path _"] that [of "BinaryProjectFile path _"]
    by auto
qed

lemma compile_files_sound:
  assumes "compile_files win i seen n acc fs = Inr (out, m)"
  shows "\<exists>files. out = rev acc @ files \<and> length files = length fs \<and>
    list_all (project_file_ok win) files \<and> distinct (map file_path files) \<and>
    file_path ` set files \<inter> set seen = {} \<and> m = n + sum_list (map decoded_size files)"
  using assms
proof (induction fs arbitrary: i seen n acc)
  case Nil
  then show ?case by simp
next
  case (Cons f fs)
  from Cons.prems obtain pf where pf: "project_file_ok win pf" "file_path pf \<notin> set seen"
    and rest: "compile_files win (Suc i) (file_path pf # seen) (n + decoded_size pf) (pf # acc) fs = Inr (out, m)"
    by (rule compile_files_Cons)
  from Cons.IH [OF rest] obtain files where
    "out = rev (pf # acc) @ files" "length files = length fs" "list_all (project_file_ok win) files"
    "distinct (map file_path files)" "file_path ` set files \<inter> set (file_path pf # seen) = {}"
    "m = n + decoded_size pf + sum_list (map decoded_size files)"
    by blast
  with pf show ?case by (intro exI [of _ "pf # files"]) auto
qed

lemma compile_files_complete:
  assumes "list_all (project_file_ok win) files" "distinct (map file_path files)"
    "file_path ` set files \<inter> set seen = {}"
  shows "compile_files win i seen n acc (map file_json files) =
    Inr (rev acc @ files, n + sum_list (map decoded_size files))"
  using assms
proof (induction files arbitrary: i seen n acc)
  case Nil
  then show ?case by simp
next
  case (Cons f files)
  then have "compile_files win (Suc i) (file_path f # seen) (n + decoded_size f) (f # acc)
      (map file_json files) =
      Inr (rev (f # acc) @ files, n + decoded_size f + sum_list (map decoded_size files))"
    by (intro Cons.IH) auto
  with Cons.prems show ?case
    by (cases f) (simp_all add: add.assoc)
qed

lemma validateCompileRequest_sound: "validateCompileRequest win v = Inr r \<Longrightarrow> wf_request win r"
  by (auto simp: validateCompileRequest_def wf_request_def dest!: compile_files_sound
      split: option.splits if_splits sum.splits)

lemma validateCompileRequest_complete:
  assumes "wf_request win r"
  shows "validateCompileRequest win (request_json r) = Inr r"
proof -
  from assms have safe: "safe_project_path win (req_mainFilePath r)"
    by (auto simp: wf_request_def list_all_iff project_file_ok_path)
  with assms show ?thesis
    using compile_files_complete [of win "req_files r" "[]" 0 0 "[]"]
    by (simp add: validateCompileRequest_def wf_request_def request_json_def)
qed


section \<open>Properties\<close>


text \<open>A well-formed request written as a body is read back as itself.\<close>

theorem compile_request_roundtrip:
  "wf_request win r \<Longrightarrow> validateCompileRequest win (request_json r) = Inr r"
  by (rule validateCompileRequest_complete)

definition alias_request :: CompileRequest where
  "alias_request =
     \<lparr>req_protocolVersion = 1, req_engine = js ''pdflatex'', req_mainFilePath = js ''main.tex'',
      req_files = [TextProjectFile (js ''main.tex'') (js ''a''), TextProjectFile (js ''./main.tex'') (js ''b'')]\<rparr>"

lemma alias_request_wf: "wf_request False alias_request"
proof -
  have "safe_project_path False (js ''main.tex'')" "safe_project_path False (js ''./main.tex'')"
    by code_simp+
  moreover have "trim (js ''pdflatex'') \<noteq> []"
    by (simp add: trim_def js_def is_space_def)
  moreover have "byte_length (js ''a'') = 1" "byte_length (js ''b'') = 1"
    by (subst byte_length_ascii; auto simp: js_def)+
  ultimately show ?thesis
    by (simp add: wf_request_def alias_request_def MAX_PROJECT_FILES_def MAX_PROJECT_BYTES_def)
qed

theorem compile_request_roundtrip_witness:
  "validateCompileRequest False (request_json alias_request) = Inr alias_request"
  by (rule compile_request_roundtrip [OF alias_request_wf])

text \<open>
  The duplicate check compares spellings, not files: there is an accepted request two of whose
  paths differ and resolve to the same file in the project directory.
\<close>

theorem compile_request_alias:
  "validateCompileRequest False (request_json alias_request) = Inr alias_request \<and>
   distinct (map file_path (req_files alias_request)) \<and>
   map (resolveProjectPath (js ''/'') (js ''/tmp/job'') \<circ> file_path) (req_files alias_request) =
     [Inr (js ''/tmp/job/main.tex''), Inr (js ''/tmp/job/main.tex'')]"
proof (intro conjI)
  show "validateCompileRequest False (request_json alias_request) = Inr alias_request"
    by (rule validateCompileRequest_complete [OF alias_request_wf])
  show "distinct (map file_path (req_files alias_request))"
    using alias_request_wf by (simp add: wf_request_def)
  show "map (resolveProjectPath (js ''/'') (js ''/tmp/job'') \<circ> file_path) (req_files alias_request) =
      [Inr (js ''/tmp/job/main.tex''), Inr (js ''/tmp/job/main.tex'')]"
    by code_simp
qed

end
