(* ===== verification/Positions.thy ===== *)
theory Positions
  imports Paths
begin

text \<open>
  The editor positions of \<^verbatim>\<open>typr-server/texpressoSession.ts\<close>: \<open>offsetToPosition\<close>, \<open>positionToOffset\<close>
  and the splice a range edit performs. Positions are pairs of a line and a column, as integers: the
  functions receive and check them at run time.
\<close>

type_synonym position = "int \<times> int"

datatype position_error =
    OffsetOutside
  | PositionNotNatural
  | LineOutside
  | CharacterOutside

text \<open>\<open>source.indexOf("\n", from)\<close>\<close>

fun index_in :: "nat \<Rightarrow> nat \<Rightarrow> jsstring \<Rightarrow> nat option" where
  "index_in c i [] = None"
| "index_in c i (x # xs) = (if x = c then Some i else index_in c (Suc i) xs)"

definition indexOf :: "nat \<Rightarrow> jsstring \<Rightarrow> nat \<Rightarrow> nat option" where
  "indexOf c source i = index_in c i (drop i source)"

text \<open>\<open>source.lastIndexOf("\n", from)\<close>: a negative start counts as 0.\<close>

definition lastIndexOf :: "nat \<Rightarrow> jsstring \<Rightarrow> int \<Rightarrow> nat option" where
  "lastIndexOf c source i =
     List.find (\<lambda>k. source ! k = c) (rev [0..<min (length source) (Suc (nat i))])"

definition offsetToPosition :: "jsstring \<Rightarrow> int \<Rightarrow> position_error + position" where
  "offsetToPosition source offset =
     (if offset < 0 \<or> offset > int (length source) then Inl OffsetOutside
      else case lastIndexOf 10 source (offset - 1) of
             None \<Rightarrow> Inr (0, offset)
           | Some previousLine \<Rightarrow>
               Inr (int (length (split_on 10 (take previousLine source))), offset - int previousLine - 1))"

fun skip_lines :: "nat \<Rightarrow> jsstring \<Rightarrow> nat \<Rightarrow> nat option" where
  "skip_lines 0 source lineStart = Some lineStart"
| "skip_lines (Suc n) source lineStart =
     (case indexOf 10 source lineStart of
        None \<Rightarrow> None
      | Some newline \<Rightarrow> skip_lines n source (newline + 1))"

definition positionToOffset :: "jsstring \<Rightarrow> position \<Rightarrow> position_error + nat" where
  "positionToOffset source p =
     (if fst p < 0 \<or> snd p < 0 then Inl PositionNotNatural
      else case skip_lines (nat (fst p)) source 0 of
             None \<Rightarrow> Inl LineOutside
           | Some lineStart \<Rightarrow>
               (let limit = (case indexOf 10 source lineStart of None \<Rightarrow> length source | Some e \<Rightarrow> e);
                    offset = lineStart + nat (snd p)
                in if offset > limit then Inl CharacterOutside else Inr offset))"

text \<open>The text after an edit of the range from one offset to another.\<close>

definition splice :: "nat \<Rightarrow> nat \<Rightarrow> jsstring \<Rightarrow> jsstring \<Rightarrow> jsstring" where
  "splice a b replacement current = take a current @ replacement @ drop b current"

section \<open>Lemmas\<close>

text \<open>The same function on the lines of the text.\<close>

definition line_start :: "jsstring list \<Rightarrow> nat \<Rightarrow> nat" where
  "line_start ls n = sum_list (map (\<lambda>l. Suc (length l)) (take n ls))"

definition position_offset :: "jsstring \<Rightarrow> position \<Rightarrow> position_error + nat" where
  "position_offset source p =
     (let ls = split_on 10 source; l = nat (fst p); c = nat (snd p)
      in if fst p < 0 \<or> snd p < 0 then Inl PositionNotNatural
         else if l \<ge> length ls then Inl LineOutside
         else if c > length (ls ! l) then Inl CharacterOutside
         else Inr (line_start ls l + c))"

lemma index_in_shift: "index_in c (i + k) xs = map_option (\<lambda>n. n + k) (index_in c i xs)"
  by (induction xs arbitrary: i) (auto simp flip: add_Suc)

lemma indexOf_append:
  assumes "length a \<le> i"
  shows "indexOf c (a @ s) i = map_option (\<lambda>n. n + length a) (indexOf c s (i - length a))"
  using assms index_in_shift [of c "i - length a" "length a" "drop (i - length a) s"]
  by (simp add: indexOf_def)

lemma index_in_split:
  "index_in c i s = (case split_on c s of [x] \<Rightarrow> None | x # _ \<Rightarrow> Some (i + length x))"
proof (induction s arbitrary: i)
  case (Cons y s)
  show ?case
  proof (cases "split_on c s" rule: list_shape)
    case Nil
    then show ?thesis by simp
  qed (simp_all add: Cons)
qed simp

lemma indexOf_split:
  "indexOf c s 0 = (case split_on c s of [x] \<Rightarrow> None | x # _ \<Rightarrow> Some (length x))"
  by (cases "split_on c s" rule: list_shape) (simp_all add: indexOf_def index_in_split)

lemma split_on_Cons_iff:
  "split_on c s = x # y # ys \<longleftrightarrow> (\<exists>t. s = x @ c # t \<and> c \<notin> set x \<and> split_on c t = y # ys)"
proof
  assume split: "split_on c s = x # y # ys"
  then have "s = x @ c # join_with [c] (y # ys)"
    using join_split_on [of c s] by simp
  moreover have "c \<notin> set x" using split_on_no_sep [of x c s] split by simp
  moreover have "split_on c (join_with [c] (y # ys)) = y # ys"
    using split_on_no_sep [of _ c s] split by (intro split_join_with) auto
  ultimately show "\<exists>t. s = x @ c # t \<and> c \<notin> set x \<and> split_on c t = y # ys" by blast
next
  assume "\<exists>t. s = x @ c # t \<and> c \<notin> set x \<and> split_on c t = y # ys"
  then show "split_on c s = x # y # ys" by (auto simp: split_on_append)
qed

lemma skip_lines_append:
  "skip_lines n (a @ s) (i + length a) = map_option (\<lambda>k. k + length a) (skip_lines n s i)"
proof (induction n arbitrary: i)
  case (Suc n)
  have "skip_lines n (a @ s) (Suc (m + length a)) = map_option (\<lambda>k. k + length a) (skip_lines n s (Suc m))" for m
    using Suc.IH [of "Suc m"] by simp
  then show ?case
    by (simp add: indexOf_append split: option.split)
qed simp

text \<open>The first line of a text ends at its first line feed; the other lines are those of the rest.\<close>

lemma skip_lines_correct:
  "skip_lines n s 0 =
     (if n < length (split_on 10 s) then Some (line_start (split_on 10 s) n) else None)"
proof (induction n arbitrary: s)
  case 0
  then show ?case by (simp add: line_start_def)
next
  case (Suc n)
  show ?case
  proof (cases "split_on 10 s" rule: list_shape)
    case Nil
    then show ?thesis by simp
  next
    case (One x)
    then show ?thesis by (simp add: indexOf_split)
  next
    case (More x y ys)
    then obtain t where t: "s = x @ 10 # t" "split_on 10 t = y # ys"
      by (auto simp: split_on_Cons_iff)
    have "skip_lines n s (length x + 1) = map_option (\<lambda>k. k + Suc (length x)) (skip_lines n t 0)"
      using skip_lines_append [of n "x @ [10]" t 0] by (simp add: t(1))
    then show ?thesis
      by (simp add: More indexOf_split Suc.IH t(2) line_start_def)
  qed
qed

lemma line_end_correct:
  assumes "n < length (split_on 10 s)"
  shows "(case indexOf 10 s (line_start (split_on 10 s) n) of None \<Rightarrow> length s | Some e \<Rightarrow> e) =
    line_start (split_on 10 s) n + length (split_on 10 s ! n)"
  using assms
proof (induction n arbitrary: s)
  case 0
  show ?case
  proof (cases "split_on 10 s" rule: list_shape)
    case (One x)
    then have "x = s" by (simp add: split_on_singleton)
    with One show ?thesis by (simp add: line_start_def indexOf_split)
  qed (simp_all add: line_start_def indexOf_split)
next
  case (Suc n)
  show ?case
  proof (cases "split_on 10 s" rule: list_shape)
    case (More x y ys)
    then obtain t where t: "s = x @ 10 # t" "split_on 10 t = y # ys"
      by (auto simp: split_on_Cons_iff)
    let ?i = "line_start (y # ys) n"
    have "indexOf 10 s (Suc (length x) + ?i) = map_option (\<lambda>k. k + Suc (length x)) (indexOf 10 t ?i)"
      using indexOf_append [of "x @ [10]" "Suc (length x) + ?i" 10 t] by (simp add: t(1))
    moreover have "line_start (x # y # ys) (Suc n) = Suc (length x) + ?i"
      by (simp add: line_start_def)
    moreover have "(case indexOf 10 t ?i of None \<Rightarrow> length t | Some e \<Rightarrow> e) = ?i + length ((y # ys) ! n)"
      using Suc.IH [of t] Suc.prems More t(2) by simp
    moreover have "length s = Suc (length x + length t)" by (simp add: t(1))
    ultimately show ?thesis
      by (simp add: More split: option.splits)
  qed (use Suc.prems in simp_all)
qed

lemma positionToOffset_lines: "positionToOffset source p = position_offset source p"
  using line_end_correct [of "nat (fst p)" source]
  by (simp add: positionToOffset_def position_offset_def Let_def skip_lines_correct)


text \<open>\<open>offsetToPosition\<close> finds the line and column whose offset it was given.\<close>

lemma lastIndexOf_split:
  assumes "k \<le> length s"
  shows "(case List.find (\<lambda>i. s ! i = c) (rev [0..<k]) of
       None \<Rightarrow> split_on c (take k s) = [take k s]
     | Some i \<Rightarrow> i < k \<and> s ! i = c \<and> split_on c (take k s) = split_on c (take i s) @ [drop (Suc i) (take k s)])"
  using assms
proof (induction k)
  case 0
  then show ?case by simp
next
  case (Suc k)
  then have take: "take (Suc k) s = take k s @ [s ! k]" by (simp add: take_Suc_conv_app_nth)
  show ?case
  proof (cases "s ! k = c")
    case True
    with Suc.prems show ?thesis
      using split_on_append_sep [of c "take k s" "[]"] by (simp add: take)
  next
    case False
    then have step: "List.find (\<lambda>i. s ! i = c) (rev [0..<Suc k]) = List.find (\<lambda>i. s ! i = c) (rev [0..<k])"
      by simp
    show ?thesis
    proof (cases "List.find (\<lambda>i. s ! i = c) (rev [0..<k])")
      case None
      with Suc False have "split_on c (take k s) = [take k s]" by simp
      then have "c \<notin> set (take k s)" by (simp add: split_on_singleton)
      with False have "split_on c (take (Suc k) s) = [take (Suc k) s]"
        by (intro split_on_absent) (simp add: take)
      with None step show ?thesis by simp
    next
      case (Some i)
      with Suc have i: "i < k" "s ! i = c"
        and split: "split_on c (take k s) = split_on c (take i s) @ [drop (Suc i) (take k s)]" by auto
      have parts: "take k s = take i s @ c # drop (Suc i) (take k s)"
        using i Suc.prems id_take_nth_drop [of i "take k s"] by (simp add: min_def)
      have "split_on c (take k s) = split_on c (take i s) @ split_on c (drop (Suc i) (take k s))"
        using split_on_append_sep [of c "take i s" "drop (Suc i) (take k s)"] parts by simp
      with split have "split_on c (drop (Suc i) (take k s)) = [drop (Suc i) (take k s)]" by simp
      then have "c \<notin> set (drop (Suc i) (take k s))" by (simp add: split_on_singleton)
      with False have "split_on c (drop (Suc i) (take k s) @ [s ! k]) = [drop (Suc i) (take k s) @ [s ! k]]"
        by (intro split_on_absent) simp
      moreover have "take (Suc k) s = take i s @ c # (drop (Suc i) (take k s) @ [s ! k])"
        unfolding take by (subst parts) simp
      moreover have "drop (Suc i) (take (Suc k) s) = drop (Suc i) (take k s) @ [s ! k]"
        using i Suc.prems by (simp add: take)
      ultimately show ?thesis
        using i False split_on_append_sep [of c "take i s"] by (simp add: step Some)
    qed
  qed
qed

lemma split_on_append_line:
  "split_on c (a @ b) = butlast (split_on c a) @ (last (split_on c a) @ hd (split_on c b)) # tl (split_on c b)"
proof (induction a)
  case Nil
  show ?case by (cases "split_on c b") auto
next
  case (Cons x a)
  then show ?case by (cases "split_on c a" rule: list_shape) auto
qed

lemma sum_line_lengths: "sum_list (map (\<lambda>l. Suc (length l)) (split_on c s)) = Suc (length s)"
proof (induction s)
  case (Cons x s)
  then show ?case by (cases "split_on c s") auto
qed simp


text \<open>The line and column of an offset, counted on the text before it.\<close>

definition cursor :: "jsstring \<Rightarrow> nat \<Rightarrow> position" where
  "cursor s n = (let ls = split_on 10 (take n s) in (int (length ls) - 1, int (length (last ls))))"

lemma offsetToPosition_cursor:
  assumes "n \<le> length s" and "n = 0 \<Longrightarrow> \<not> prefix [10] s"
  shows "offsetToPosition s (int n) = Inr (cursor s n)"
proof -
  have last: "lastIndexOf 10 s (int n - 1) = List.find (\<lambda>i. s ! i = 10) (rev [0..<n])"
  proof (cases n)
    case 0
    with assms(2) show ?thesis by (cases s) (auto simp: lastIndexOf_def)
  next
    case (Suc k)
    then have "min (length s) (Suc (nat (int n - 1))) = n" using assms(1) by simp
    then show ?thesis by (simp add: lastIndexOf_def)
  qed
  show ?thesis
    using lastIndexOf_split [OF assms(1), of 10] assms(1)
    by (auto simp: offsetToPosition_def last cursor_def Let_def split: option.splits)
qed

lemma positionToOffset_cursor:
  assumes "n \<le> length s"
  shows "positionToOffset s (cursor s n) = Inr n"
proof -
  let ?L = "split_on 10 (take n s)"
  let ?R = "split_on 10 (drop n s)"
  have split: "split_on 10 s = butlast ?L @ (last ?L @ hd ?R) # tl ?R"
    using split_on_append_line [of 10 "take n s" "drop n s"] by simp
  have "sum_list (map (\<lambda>l. Suc (length l)) (butlast ?L @ [last ?L])) = Suc n"
    using sum_line_lengths [of 10 "take n s"] assms by simp
  then have sum: "sum_list (map (\<lambda>l. Suc (length l)) (butlast ?L)) + length (last ?L) = n"
    by (simp only: map_append sum_list.append) simp
  have line: "nat (int (length ?L) - 1) = length (butlast ?L)" by simp
  have pos: "0 < length ?L" by (simp add: length_greater_0_conv)
  show ?thesis
    using pos sum
    by (simp add: positionToOffset_lines position_offset_def cursor_def Let_def line split nth_append
        line_start_def)
qed

section \<open>Properties\<close>

text \<open>
  C40: \<open>positionToOffset\<close> is the offset of a position in the text read as lines between line feeds: the
  lengths of the lines before it, each with its line feed, plus the column. It fails exactly for a
  negative coordinate, a line the text does not have and a column beyond the end of its line.
\<close>

theorem positionToOffset_by_lines:
  "positionToOffset source (l, c) =
     (let ls = split_on 10 source
      in if l < 0 \<or> c < 0 then Inl PositionNotNatural
         else if nat l \<ge> length ls then Inl LineOutside
         else if nat c > length (ls ! nat l) then Inl CharacterOutside
         else Inr (sum_list (map (\<lambda>x. Suc (length x)) (take (nat l) ls)) + nat c))"
  by (simp add: positionToOffset_lines position_offset_def line_start_def Let_def)

text \<open>
  The position of an offset leads back to the offset, for every offset in the text except 0 in a
  text that begins with a line feed.
\<close>

theorem position_roundtrip:
  assumes "n \<le> length s" and "n \<noteq> 0 \<or> \<not> prefix [10] s"
  shows "\<exists>p. offsetToPosition s (int n) = Inr p \<and> positionToOffset s p = Inr n"
  using assms offsetToPosition_cursor [of n s] positionToOffset_cursor [of n s] by blast

theorem position_roundtrip_witness:
  "\<exists>p. offsetToPosition [10, 97, 10, 98] (int 3) = Inr p \<and> positionToOffset [10, 97, 10, 98] p = Inr 3"
  by (rule position_roundtrip) simp_all

text \<open>
  At offset 0 of a text that begins with a line feed, \<open>offsetToPosition\<close> answers line 1, column
  -1, which \<open>positionToOffset\<close> refuses: \<open>lastIndexOf\<close> reads the negative start as 0 and finds the
  line feed at the offset itself.
\<close>

theorem position_roundtrip_fails:
  "offsetToPosition (10 # s) 0 = Inr (1, -1) \<and> positionToOffset (10 # s) (1, -1) = Inl PositionNotNatural"
  by (simp add: offsetToPosition_def lastIndexOf_def positionToOffset_def)

end
