(* ===== verification/TexpressoSession.thy ===== *)
theory TexpressoSession
  imports Positions "HOL-Library.Multiset"
begin

text \<open>
  \<^verbatim>\<open>typr-server/texpressoSession.ts\<close>: the adapter that owns one TeXpresso child. The state is the
  record \<open>session\<close> below. Promises are numbered: a waiter is the number of the promise it settles,
  and the outcome of a promise is an effect \<open>Settled\<close>. A method with an \<open>await\<close> is two operations, the
  part before it and the continuation that runs on the settled value. The child is the environment:
  the lines it prints, its \<open>error\<close> and \<open>close\<close> events and the timers are operations; what the session
  writes to its input are effects \<open>Sent\<close>. \<open>JSON.parse\<close> is applied by the caller of
  \<open>handleProtocolLine\<close>, which gets the text and the parsed value if there is one.
\<close>

definition MAX_BUFFER_CHARS :: nat where "MAX_BUFFER_CHARS = 256 * 1024"
definition MAX_LINES :: nat where "MAX_LINES = 8000"
definition MAX_RENDER_BYTES :: nat where "MAX_RENDER_BYTES = 16 * 1024 * 1024"

datatype latex_result = SnapSuccess | SnapLatexError

record TexpressoLookup =
  lookup_kind :: jsstring
  lookup_status :: jsstring
  lookup_path :: jsstring

record TexpressoSnapshot =
  snap_flush :: nat
  snap_output :: jsstring
  snap_log :: jsstring
  snap_inputFiles :: "jsstring list"
  snap_lookups :: "TexpressoLookup list"
  snap_stderr :: jsstring
  snap_result :: latex_result

record TexpressoRenderedPage =
  page_no :: int
  page_width :: int
  page_height :: int
  page_dpi :: int
  page_data :: bytes

datatype texpresso_error =
    NoProcessIdentifier
  | FailedToStart
  | ExitedUnexpectedly
  | SessionIsClosed
  | MainFileMissing
  | FileNotOpen jsstring
  | TextNotFound
  | BadPosition position_error
  | EndPrecedesStart
  | PageNotNatural
  | DpiOutOfRange
  | TimedOut
  | InvalidPngPage nat
  | PngHeaderMissing
  | DimensionsDisagree
  | CouldNotRender int jsstring

datatype command =
    Register jsstring
  | Open jsstring jsstring
  | Resume
  | ChangeRange jsstring position position jsstring
  | PageCount
  | RenderPage int int "TexpressoRenderTheme option"

datatype outcome =
    GotSnapshot TexpressoSnapshot
  | GotPage TexpressoRenderedPage
  | GotCount int
  | Failed texpresso_error

datatype effect =
    Sent command
  | Settled nat outcome
  | ExitListener nat texpresso_error
  | InputEnded
  | UncaughtRangeError

text \<open>
  \<open>flushWaiters\<close> pairs the promise with \<open>after\<close>, \<open>pageImageWaiters\<close> with the page and the resolution;
  \<open>timers\<close> are the promises whose timeout is armed. An unset element of a line buffer (a buffer can be
  lengthened by \<open>truncate-lines\<close>) is the empty line, as \<open>join\<close> prints it.
\<close>

record session =
  projectRoot :: jsstring
  buffers :: "(jsstring \<times> jsstring) list"
  outputLines :: "jsstring list"
  logLines :: "jsstring list"
  inputFiles :: "jsstring list"
  lookups :: "TexpressoLookup list"
  stderrChunks :: "jsstring list"
  flushWaiters :: "(nat \<times> nat) list"
  pageImageWaiters :: "(nat \<times> int \<times> int) list"
  pageCountWaiters :: "nat list"
  timers :: "nat list"
  renderedPages :: "(jsstring \<times> TexpressoRenderedPage) list"
  flushCount :: nat
  closed :: bool
  exitError :: "texpresso_error option"
  exitListeners :: "nat list"
  nextPromise :: nat

section \<open>Helpers of the file\<close>

definition normalizeProtocolPath :: "jsstring \<Rightarrow> jsstring" where
  "normalizeProtocolPath path =
     (let p = map (\<lambda>c. if c = 92 then 47 else c) path
      in if prefix (js ''./'') p then drop 2 p else p)"

definition trimLines :: "'a list \<Rightarrow> 'a list" where
  "trimLines lines = (if length lines > MAX_LINES then keep_last MAX_LINES lines else lines)"

definition line_starts_with :: "jsstring \<Rightarrow> jsstring \<Rightarrow> bool" where
  "line_starts_with t s \<longleftrightarrow>
     list_ex (\<lambda>i. (i = 0 \<or> s ! (i - 1) \<in> {10, 13, 8232, 8233}) \<and> prefix t (drop i s)) [0..<length s]"

definition contains :: "jsstring \<Rightarrow> jsstring \<Rightarrow> bool" where
  "contains s t \<longleftrightarrow> list_ex (\<lambda>i. prefix t (drop i s)) [0..<Suc (length s)]"

definition hasLatexError :: "jsstring \<Rightarrow> bool" where
  "hasLatexError output \<longleftrightarrow>
     line_starts_with (js ''! '') output \<or> contains output (js ''LaTeX Error:'') \<or>
     contains output (js ''Emergency stop'') \<or> contains output (js ''Fatal error occurred'') \<or>
     contains output (js ''Undefined control sequence'') \<or> contains output (js ''Runaway argument?'')"

definition renderCacheKey :: "int \<Rightarrow> int \<Rightarrow> TexpressoRenderTheme option \<Rightarrow> jsstring" where
  "renderCacheKey page dpi theme =
     (case theme of
        Some t \<Rightarrow> int_dec page @ js '':'' @ int_dec dpi @ js '':'' @ int_dec (foreground t) @ js '':'' @
                  int_dec (background t)
      | None \<Rightarrow> int_dec page @ js '':'' @ int_dec dpi @ js '':paper'')"

definition isPng :: "bytes \<Rightarrow> bool" where
  "isPng d \<longleftrightarrow> length d \<ge> 24 \<and>
     take 8 d = [0x89, 0x50, 0x4e, 0x47, 0x0d, 0x0a, 0x1a, 0x0a]"

definition getUint32 :: "bytes \<Rightarrow> nat \<Rightarrow> int" where
  "getUint32 d i =
     uint (d ! i) * 2 ^ 24 + uint (d ! (i + 1)) * 2 ^ 16 + uint (d ! (i + 2)) * 2 ^ 8 + uint (d ! (i + 3))"

definition pngDimensions :: "bytes \<Rightarrow> texpresso_error + int \<times> int" where
  "pngDimensions d =
     (if \<not> isPng d \<or> take 4 (drop 12 d) \<noteq> [0x49, 0x48, 0x44, 0x52] then Inl PngHeaderMissing
      else Inr (getUint32 d 16, getUint32 d 20))"

definition stderrText :: "session \<Rightarrow> jsstring" where
  "stderrText s = keep_last MAX_BUFFER_CHARS (concat (stderrChunks s))"

fun shed :: "nat \<Rightarrow> jsstring list \<Rightarrow> jsstring list" where
  "shed len (c # d # cs) = (if len > MAX_BUFFER_CHARS then shed (len - length c) (d # cs) else c # d # cs)"
| "shed len cs = cs"

definition appendStderr :: "jsstring \<Rightarrow> session \<Rightarrow> session" where
  "appendStderr chunk s =
     (let chunks = stderrChunks s @ [chunk]
      in s\<lparr>stderrChunks := shed (sum_list (map length chunks)) chunks\<rparr>)"

definition take_snapshot :: "session \<Rightarrow> TexpressoSnapshot" where
  "take_snapshot s =
     (let log = join_with [10] (logLines s); output = join_with [10] (outputLines s)
      in \<lparr>snap_flush = flushCount s, snap_output = output, snap_log = log,
          snap_inputFiles = inputFiles s, snap_lookups = lookups s, snap_stderr = stderrText s,
          snap_result = (if hasLatexError (output @ [10] @ log) then SnapLatexError else SnapSuccess)\<rparr>)"

section \<open>Sending, waiting, failing, closing\<close>

definition send :: "command \<Rightarrow> session \<Rightarrow> texpresso_error + effect list" where
  "send c s =
     (case exitError s of
        Some e \<Rightarrow> Inl e
      | None \<Rightarrow> if closed s then Inl SessionIsClosed else Inr [Sent c])"

definition commandPath :: "jsstring \<Rightarrow> session \<Rightarrow> jsstring \<Rightarrow> jsstring" where
  "commandPath cwd s path = posix_resolve cwd [projectRoot s, normalizeProtocolPath path]"

text \<open>What a method that ends in a promise answers: a rejection, a value, or a promise to wait for.\<close>

datatype 'a answer = Rejected texpresso_error | Ready 'a | Waiting nat

definition waitForFlush :: "nat \<Rightarrow> session \<Rightarrow> session \<times> TexpressoSnapshot answer" where
  "waitForFlush after s =
     (case exitError s of
        Some e \<Rightarrow> (s, Rejected e)
      | None \<Rightarrow>
          if flushCount s > after then (s, Ready (take_snapshot s))
          else (s\<lparr>flushWaiters := flushWaiters s @ [(nextPromise s, after)],
                  timers := nextPromise s # timers s, nextPromise := Suc (nextPromise s)\<rparr>,
                Waiting (nextPromise s)))"

definition waitForPageCount :: "session \<Rightarrow> session \<times> int answer" where
  "waitForPageCount s =
     (case exitError s of
        Some e \<Rightarrow> (s, Rejected e)
      | None \<Rightarrow>
          (s\<lparr>pageCountWaiters := pageCountWaiters s @ [nextPromise s],
             timers := nextPromise s # timers s, nextPromise := Suc (nextPromise s)\<rparr>,
           Waiting (nextPromise s)))"

definition waitForPageImage ::
  "int \<Rightarrow> int \<Rightarrow> session \<Rightarrow> session \<times> TexpressoRenderedPage answer" where
  "waitForPageImage page dpi s =
     (case exitError s of
        Some e \<Rightarrow> (s, Rejected e)
      | None \<Rightarrow>
          (s\<lparr>pageImageWaiters := pageImageWaiters s @ [(nextPromise s, page, dpi)],
             timers := nextPromise s # timers s, nextPromise := Suc (nextPromise s)\<rparr>,
           Waiting (nextPromise s)))"

definition close :: "session \<Rightarrow> session \<times> effect list" where
  "close s = (if closed s then (s, []) else (s\<lparr>closed := True\<rparr>, [InputEnded]))"

definition fail :: "texpresso_error \<Rightarrow> session \<Rightarrow> session \<times> effect list" where
  "fail e s =
     (case exitError s of
        Some _ \<Rightarrow> (s, [])
      | None \<Rightarrow>
          (let settled = map fst (flushWaiters s) @ map fst (pageImageWaiters s) @ pageCountWaiters s
           in (s\<lparr>exitError := Some e, flushWaiters := [], pageImageWaiters := [], pageCountWaiters := [],
                 timers := filter (\<lambda>t. t \<notin> set settled) (timers s)\<rparr>,
               map (\<lambda>p. Settled p (Failed e)) settled @
               (if closed s then [] else map (\<lambda>l. ExitListener l e) (exitListeners s)))))"

definition child_error :: "session \<Rightarrow> session \<times> effect list" where
  "child_error = fail FailedToStart"

definition child_close :: "session \<Rightarrow> session \<times> effect list" where
  "child_close s = (if closed s then (s, []) else fail ExitedUnexpectedly s)"

text \<open>The timer of a promise fires: its waiter goes, the session closes, the promise rejects.\<close>

definition timeout :: "nat \<Rightarrow> session \<Rightarrow> session \<times> effect list" where
  "timeout p s =
     (if p \<notin> set (timers s) then (s, [])
      else let (s', es) = close (s\<lparr>timers := remove1 p (timers s),
                 flushWaiters := filter (\<lambda>w. fst w \<noteq> p) (flushWaiters s),
                 pageImageWaiters := filter (\<lambda>w. fst w \<noteq> p) (pageImageWaiters s),
                 pageCountWaiters := filter (\<lambda>w. w \<noteq> p) (pageCountWaiters s)\<rparr>)
           in (s', es @ [Settled p (Failed TimedOut)]))"

definition onUnexpectedExit :: "nat \<Rightarrow> session \<Rightarrow> session \<times> effect list" where
  "onUnexpectedExit listener s =
     (s\<lparr>exitListeners := List.insert listener (exitListeners s)\<rparr>,
      (case exitError s of
         Some e \<Rightarrow> if closed s then [] else [ExitListener listener e]
       | None \<Rightarrow> []))"

section \<open>Lines from the child\<close>

definition arg :: "json list \<Rightarrow> nat \<Rightarrow> json option" where
  "arg args i = (if i < length args then Some (args ! i) else None)"

definition is_buffer :: "json option \<Rightarrow> bool" where
  "is_buffer v \<longleftrightarrow> v = Some (JStr (js ''out'')) \<or> v = Some (JStr (js ''log''))"

definition on_lines :: "json option \<Rightarrow> (jsstring list \<Rightarrow> jsstring list) \<Rightarrow> session \<Rightarrow> session" where
  "on_lines which f s =
     (if which = Some (JStr (js ''out'')) then s\<lparr>outputLines := f (outputLines s)\<rparr>
      else s\<lparr>logLines := f (logLines s)\<rparr>)"

text \<open>\<open>destination.length = n\<close>\<close>

definition set_length :: "nat \<Rightarrow> jsstring list \<Rightarrow> jsstring list" where
  "set_length n xs = take n xs @ replicate (n - length xs) []"

definition flush_message :: "session \<Rightarrow> session \<times> effect list" where
  "flush_message s =
     (let s = s\<lparr>flushCount := Suc (flushCount s)\<rparr>;
          snap = take_snapshot s;
          due = filter (\<lambda>w. flushCount s > snd w) (flushWaiters s)
      in (s\<lparr>flushWaiters := filter (\<lambda>w. \<not> flushCount s > snd w) (flushWaiters s),
            timers := filter (\<lambda>t. t \<notin> fst ` set due) (timers s)\<rparr>,
          map (\<lambda>w. Settled (fst w) (GotSnapshot snap)) due))"

definition page_count_message :: "int \<Rightarrow> session \<Rightarrow> session \<times> effect list" where
  "page_count_message n s =
     (case pageCountWaiters s of
        [] \<Rightarrow> (s, [])
      | p # ps \<Rightarrow> (s\<lparr>pageCountWaiters := ps, timers := remove1 p (timers s)\<rparr>, [Settled p (GotCount n)]))"

text \<open>The page a \<open>page-image\<close> message carries, or why it is refused.\<close>

definition decode_page :: "int \<Rightarrow> int \<Rightarrow> int \<Rightarrow> int \<Rightarrow> jsstring \<Rightarrow> texpresso_error + TexpressoRenderedPage" where
  "decode_page page width height dpi encoded =
     (let data = base64_decode encoded
      in if data = [] \<or> length data > MAX_RENDER_BYTES \<or> \<not> isPng data then Inl (InvalidPngPage (length data))
         else case pngDimensions data of
                Inl e \<Rightarrow> Inl e
              | Inr (w, h) \<Rightarrow>
                  if w \<noteq> width \<or> h \<noteq> height then Inl DimensionsDisagree
                  else Inr \<lparr>page_no = page, page_width = width, page_height = height, page_dpi = dpi,
                            page_data = data\<rparr>)"

definition settle_image :: "nat \<Rightarrow> outcome \<Rightarrow> session \<Rightarrow> session \<times> effect list" where
  "settle_image p r s =
     (s\<lparr>pageImageWaiters := filter (\<lambda>w. fst w \<noteq> p) (pageImageWaiters s), timers := remove1 p (timers s)\<rparr>,
      [Settled p r])"

definition image_waiter :: "int \<Rightarrow> session \<Rightarrow> (nat \<times> int \<times> int) option" where
  "image_waiter page s = List.find (\<lambda>w. fst (snd w) = page) (pageImageWaiters s)"

definition page_image_message :: "json list \<Rightarrow> session \<Rightarrow> session \<times> effect list" where
  "page_image_message args s =
     (case (as_integer (arg args 0), as_integer (arg args 1), as_integer (arg args 2), as_string (arg args 4)) of
        (Some page, Some width, Some height, Some encoded) \<Rightarrow>
          if page < 0 \<or> width \<le> 0 \<or> height \<le> 0 \<or> arg args 3 \<noteq> Some (JStr (js ''image/png''))
          then (appendStderr (js ''Invalid TeXpresso page-image message.'' @ [10]) s, [])
          else (case image_waiter page s of
                  None \<Rightarrow> (s, [])
                | Some (p, _, dpi) \<Rightarrow>
                    (case decode_page page width height dpi encoded of
                       Inl e \<Rightarrow> settle_image p (Failed e) s
                     | Inr img \<Rightarrow> settle_image p (GotPage img) s))
      | _ \<Rightarrow> (appendStderr (js ''Invalid TeXpresso page-image message.'' @ [10]) s, []))"

definition page_error_message :: "int \<Rightarrow> jsstring \<Rightarrow> session \<Rightarrow> session \<times> effect list" where
  "page_error_message page detail s =
     (case image_waiter page s of
        None \<Rightarrow> (s, [])
      | Some (p, _, _) \<Rightarrow> settle_image p (Failed (CouldNotRender page detail)) s)"

definition handle_verb :: "jsstring \<Rightarrow> json list \<Rightarrow> session \<Rightarrow> session \<times> effect list" where
  "handle_verb verb args s =
     (if verb = js ''append-lines'' \<and> is_buffer (arg args 0) then
        (on_lines (arg args 0)
           (\<lambda>ls. trimLines (ls @ List.map_filter (\<lambda>a. as_string (Some a)) (tl args))) s, [])
      else if verb = js ''truncate-lines'' \<and> is_buffer (arg args 0) \<and> as_integer (arg args 1) \<noteq> None then
        (let n = nat (the (as_integer (arg args 1)))
         in if n \<ge> 2 ^ 32 then (s, [UncaughtRangeError]) else (on_lines (arg args 0) (set_length n) s, []))
      else if verb = js ''input-file'' \<and> as_string (arg args 1) \<noteq> None then
        (s\<lparr>inputFiles := trimLines (inputFiles s @ [the (as_string (arg args 1))])\<rparr>, [])
      else if verb = js ''lookup-file'' \<and> as_string (arg args 0) \<noteq> None \<and>
              as_string (arg args 1) \<noteq> None \<and> as_string (arg args 2) \<noteq> None then
        (s\<lparr>lookups := trimLines (lookups s @
             [\<lparr>lookup_kind = the (as_string (arg args 0)), lookup_status = the (as_string (arg args 1)),
               lookup_path = the (as_string (arg args 2))\<rparr>])\<rparr>, [])
      else if verb = js ''flush'' then flush_message s
      else if verb = js ''page-count'' \<and> (case as_integer (arg args 0) of None \<Rightarrow> False | Some n \<Rightarrow> n \<ge> 0) then
        page_count_message (the (as_integer (arg args 0))) s
      else if verb = js ''page-image'' then page_image_message args s
      else if verb = js ''page-image-error'' \<and> as_integer (arg args 0) \<noteq> None \<and> as_string (arg args 1) \<noteq> None then
        page_error_message (the (as_integer (arg args 0))) (the (as_string (arg args 1))) s
      else (s, []))"

definition handleProtocolLine :: "jsstring \<Rightarrow> json option \<Rightarrow> session \<Rightarrow> session \<times> effect list" where
  "handleProtocolLine txt parsed s =
     (case parsed of
        None \<Rightarrow> (appendStderr (js ''Unexpected TeXpresso stdout: '' @ txt @ [10]) s, [])
      | Some (JArr (JStr verb # args)) \<Rightarrow> handle_verb verb args s
      | Some _ \<Rightarrow> (s, []))"

section \<open>The methods\<close>

definition get_buffer :: "session \<Rightarrow> jsstring \<Rightarrow> jsstring option" where
  "get_buffer s path = map_of (buffers s) (normalizeProtocolPath path)"

text \<open>\<open>applyRangeChange\<close> up to its \<open>await\<close>, and its continuation.\<close>

definition applyRangeChange ::
  "jsstring \<Rightarrow> jsstring \<Rightarrow> position \<times> position \<Rightarrow> jsstring \<Rightarrow> session \<Rightarrow>
   session \<times> effect list \<times> TexpressoSnapshot answer"
where
  "applyRangeChange cwd path rng replacement s =
     (let protocolPath = normalizeProtocolPath path
      in case map_of (buffers s) protocolPath of
           None \<Rightarrow> (s, [], Rejected (FileNotOpen protocolPath))
         | Some current \<Rightarrow>
             (case positionToOffset current (fst rng) of
                Inl e \<Rightarrow> (s, [], Rejected (BadPosition e))
              | Inr startOffset \<Rightarrow>
                  (case positionToOffset current (snd rng) of
                     Inl e \<Rightarrow> (s, [], Rejected (BadPosition e))
                   | Inr endOffset \<Rightarrow>
                       if endOffset < startOffset then (s, [], Rejected EndPrecedesStart)
                       else (case send (ChangeRange (commandPath cwd s protocolPath) (fst rng) (snd rng)
                                          replacement) s of
                               Inl e \<Rightarrow> (s, [], Rejected e)
                             | Inr es \<Rightarrow>
                                 (let (s', r) = waitForFlush (flushCount s)
                                        (s\<lparr>buffers := AList.update protocolPath
                                             (splice startOffset endOffset replacement current) (buffers s)\<rparr>)
                                  in (s', es, r))))))"

definition rangeChange_resume :: "TexpressoSnapshot \<Rightarrow> session \<Rightarrow> session" where
  "rangeChange_resume snap s =
     (if snap_result snap = SnapSuccess then s\<lparr>renderedPages := []\<rparr> else s)"

definition find_text :: "jsstring \<Rightarrow> jsstring \<Rightarrow> nat option" where
  "find_text s t = List.find (\<lambda>i. prefix t (drop i s)) [0..<Suc (length s)]"

definition replaceText ::
  "jsstring \<Rightarrow> jsstring \<Rightarrow> jsstring \<Rightarrow> jsstring \<Rightarrow> session \<Rightarrow>
   session \<times> effect list \<times> TexpressoSnapshot answer"
where
  "replaceText cwd path expectedText replacement s =
     (let protocolPath = normalizeProtocolPath path
      in case map_of (buffers s) protocolPath of
           None \<Rightarrow> (s, [], Rejected (FileNotOpen protocolPath))
         | Some current \<Rightarrow>
             (case find_text current expectedText of
                None \<Rightarrow> (s, [], Rejected TextNotFound)
              | Some offset \<Rightarrow>
                  (case (offsetToPosition current (int offset),
                         offsetToPosition current (int (offset + length expectedText))) of
                     (Inr a, Inr b) \<Rightarrow> applyRangeChange cwd path (a, b) replacement s
                   | (Inl e, _) \<Rightarrow> (s, [], Rejected (BadPosition e))
                   | (_, Inl e) \<Rightarrow> (s, [], Rejected (BadPosition e)))))"

text \<open>\<open>getPageCount\<close> registers its waiter before it sends; when the send throws, the waiter stays.\<close>

definition getPageCount :: "session \<Rightarrow> session \<times> effect list \<times> int answer" where
  "getPageCount s =
     (let (s', r) = waitForPageCount s
      in case send PageCount s' of Inl e \<Rightarrow> (s', [], Rejected e) | Inr es \<Rightarrow> (s', es, r))"

definition renderPage ::
  "int \<Rightarrow> int \<Rightarrow> TexpressoRenderTheme option \<Rightarrow> session \<Rightarrow>
   session \<times> effect list \<times> TexpressoRenderedPage answer"
where
  "renderPage page dpi theme s =
     (if page < 0 then (s, [], Rejected PageNotNatural)
      else if dpi < MIN_TEXPRESSO_RENDER_DPI \<or> dpi > MAX_TEXPRESSO_RENDER_DPI then (s, [], Rejected DpiOutOfRange)
      else case map_of (renderedPages s) (renderCacheKey page dpi theme) of
             Some cached \<Rightarrow> (s, [], Ready cached)
           | None \<Rightarrow>
               (let (s', r) = waitForPageImage page dpi s
                in case send (RenderPage page dpi theme) s' of
                     Inl e \<Rightarrow> (s', [], Rejected e)
                   | Inr es \<Rightarrow> (s', es, r)))"

definition renderPage_resume ::
  "int \<Rightarrow> int \<Rightarrow> TexpressoRenderTheme option \<Rightarrow> TexpressoRenderedPage \<Rightarrow> session \<Rightarrow> session" where
  "renderPage_resume page dpi theme rendered s =
     s\<lparr>renderedPages := AList.update (renderCacheKey page dpi theme) rendered (renderedPages s)\<rparr>"

definition getCachedPage ::
  "int \<Rightarrow> int \<Rightarrow> TexpressoRenderTheme option \<Rightarrow> session \<Rightarrow> TexpressoRenderedPage option" where
  "getCachedPage page dpi theme s = map_of (renderedPages s) (renderCacheKey page dpi theme)"

text \<open>
  \<open>start\<close>: the constructor for a child that has spawned, then the registration of every file, its
  content, and \<open>resume\<close>, up to the wait for the first flush. \<open>options\<close> are the project root, the main
  file and the files.
\<close>

definition new_session :: "jsstring \<Rightarrow> (jsstring \<times> jsstring) list \<Rightarrow> session" where
  "new_session root files =
     \<lparr>projectRoot = root,
      buffers = fold (\<lambda>f m. AList.update (normalizeProtocolPath (fst f)) (snd f) m) files [],
      outputLines = [], logLines = [], inputFiles = [], lookups = [], stderrChunks = [],
      flushWaiters = [], pageImageWaiters = [], pageCountWaiters = [], timers = [],
      renderedPages = [], flushCount = 0, closed = False, exitError = None, exitListeners = [],
      nextPromise = 0\<rparr>"

definition start_session ::
  "jsstring \<Rightarrow> jsstring \<Rightarrow> jsstring \<Rightarrow> (jsstring \<times> jsstring) list \<Rightarrow> bool \<Rightarrow> bool \<Rightarrow>
   texpresso_error + session \<times> effect list \<times> TexpressoSnapshot answer"
where
  "start_session cwd root mainFilePath files spawned has_pid =
     (if \<not> list_ex (\<lambda>f. normalizeProtocolPath (fst f) = normalizeProtocolPath mainFilePath) files
      then Inl MainFileMissing
      else if \<not> spawned then Inl FailedToStart
      else if \<not> has_pid then Inl NoProcessIdentifier
      else
        (let s = new_session root files;
             (s', r) = waitForFlush (flushCount s) s
         in Inr (s', map (\<lambda>f. Sent (Register (commandPath cwd s (fst f)))) files @
                     map (\<lambda>f. Sent (Open (commandPath cwd s (fst f)) (snd f))) files @ [Sent Resume], r)))"

text \<open>The end of \<open>start\<close>: a rejected wait closes the session.\<close>

definition start_resume :: "outcome \<Rightarrow> session \<Rightarrow> session \<times> effect list" where
  "start_resume r s = (case r of GotSnapshot _ \<Rightarrow> (s, []) | _ \<Rightarrow> close s)"

section \<open>The promises of a session\<close>

definition pending :: "session \<Rightarrow> nat list" where
  "pending s = map fst (flushWaiters s) @ map fst (pageImageWaiters s) @ pageCountWaiters s"

fun settled :: "effect list \<Rightarrow> nat list" where
  "settled [] = []"
| "settled (Settled p _ # es) = p # settled es"
| "settled (_ # es) = settled es"

fun outcomes :: "effect list \<Rightarrow> (nat \<times> outcome) list" where
  "outcomes [] = []"
| "outcomes (Settled p v # es) = (p, v) # outcomes es"
| "outcomes (_ # es) = outcomes es"

lemma outcomes_mem [simp]: "(p, v) \<in> set (outcomes es) \<longleftrightarrow> Settled p v \<in> set es"
  by (induction es rule: outcomes.induct) auto

lemma map_fst_outcomes: "map fst (outcomes es) = settled es"
  by (induction es rule: outcomes.induct) auto

lemma settled_append [simp]: "settled (a @ b) = settled a @ settled b"
  by (induction a rule: settled.induct) simp_all

lemma settled_map [simp]: "settled (map (\<lambda>x. Settled (f x) (g x)) xs) = map f xs"
  by (induction xs) simp_all

lemma settled_map_comp [simp]: "settled (map ((\<lambda>p. Settled p r) \<circ> f) xs) = map f xs"
  by (induction xs) simp_all

lemma settled_map_listener [simp]: "settled (map (\<lambda>l. ExitListener l e) xs) = []"
  by (induction xs) simp_all

lemma settled_map_sent [simp]: "settled (map (\<lambda>x. Sent (f x)) xs) = []"
  by (induction xs) simp_all

text \<open>
  The invariant of a session: no promise waits twice, exactly the waiting promises have a timer, none
  waits after a failure, every waiting flush is one that the next flush settles, and the kept lists
  are bounded.
\<close>

definition stderr_ok :: "jsstring list \<Rightarrow> bool" where
  "stderr_ok chunks \<longleftrightarrow> length chunks \<le> 1 \<or> sum_list (map length chunks) \<le> MAX_BUFFER_CHARS"

definition session_ok :: "session \<Rightarrow> bool" where
  "session_ok s \<longleftrightarrow>
     distinct (pending s) \<and> distinct (timers s) \<and> set (timers s) = set (pending s) \<and>
     (\<forall>p\<in>set (pending s). p < nextPromise s) \<and> (exitError s \<noteq> None \<longrightarrow> pending s = []) \<and>
     (\<forall>w\<in>set (flushWaiters s). snd w \<le> flushCount s) \<and>
     length (inputFiles s) \<le> MAX_LINES \<and> length (lookups s) \<le> MAX_LINES \<and> stderr_ok (stderrChunks s)"

text \<open>
  What an operation does to the promises: those that wait afterwards and those it settles are those
  that waited before and those it made, each once.
\<close>

definition ledger :: "session \<Rightarrow> effect list \<Rightarrow> session \<Rightarrow> bool" where
  "ledger s es s' \<longleftrightarrow> nextPromise s \<le> nextPromise s' \<and>
     mset (pending s') + mset (settled es) = mset (pending s) + mset [nextPromise s..<nextPromise s']"

definition op_ok :: "session \<Rightarrow> session \<times> effect list \<Rightarrow> bool" where
  "op_ok s r \<longleftrightarrow> session_ok (fst r) \<and> ledger s (snd r) (fst r)"

lemma op_okI: "session_ok s' \<Longrightarrow> ledger s es s' \<Longrightarrow> op_ok s (s', es)"
  by (simp add: op_ok_def)

lemma op_ok_if: "(c \<Longrightarrow> op_ok s x) \<Longrightarrow> (\<not> c \<Longrightarrow> op_ok s y) \<Longrightarrow> op_ok s (if c then x else y)"
  by simp

lemma ledger_same:
  "pending s' = pending s \<Longrightarrow> nextPromise s' = nextPromise s \<Longrightarrow> settled es = [] \<Longrightarrow> ledger s es s'"
  by (simp add: ledger_def)

lemma filter_map_fst: "map fst (filter (\<lambda>w. fst w \<noteq> p) ws) = filter (\<lambda>x. x \<noteq> p) (map fst ws)"
  by (induction ws) simp_all

lemma mset_filter_neq: "distinct xs \<Longrightarrow> p \<in> set xs \<Longrightarrow> mset (filter (\<lambda>x. x \<noteq> p) xs) + {#p#} = mset xs"
proof (induction xs)
  case (Cons x xs)
  have "p \<notin> set xs \<Longrightarrow> filter (\<lambda>x. x \<noteq> p) xs = xs" by (induction xs) auto
  with Cons show ?case by (auto simp del: mset_filter)
qed simp

lemma shed_ok: "stderr_ok (shed (sum_list (map length cs)) cs)"
proof (induction "sum_list (map length cs)" cs rule: shed.induct)
  case (1 c d cs)
  then show ?case by (auto simp: stderr_ok_def)
qed (simp_all add: stderr_ok_def)

lemma appendStderr_simps [simp]:
  "pending (appendStderr c s) = pending s" "nextPromise (appendStderr c s) = nextPromise s"
  "flushWaiters (appendStderr c s) = flushWaiters s" "flushCount (appendStderr c s) = flushCount s"
  "timers (appendStderr c s) = timers s" "exitError (appendStderr c s) = exitError s"
  "inputFiles (appendStderr c s) = inputFiles s" "lookups (appendStderr c s) = lookups s"
  "buffers (appendStderr c s) = buffers s" "renderedPages (appendStderr c s) = renderedPages s"
  "pageImageWaiters (appendStderr c s) = pageImageWaiters s"
  by (simp_all add: appendStderr_def pending_def Let_def)

lemma appendStderr_ok: "session_ok s \<Longrightarrow> session_ok (appendStderr c s)"
  using shed_ok [of "stderrChunks s @ [c]"] by (simp add: session_ok_def) (simp add: appendStderr_def)

lemma length_trimLines: "length (trimLines xs) \<le> MAX_LINES"
  by (simp add: trimLines_def length_keep_last)

lemma on_lines_simps [simp]:
  "pending (on_lines w f s) = pending s" "nextPromise (on_lines w f s) = nextPromise s"
  "buffers (on_lines w f s) = buffers s" "renderedPages (on_lines w f s) = renderedPages s"
  "pageImageWaiters (on_lines w f s) = pageImageWaiters s"
  by (simp_all add: on_lines_def pending_def)

lemma on_lines_ok: "session_ok s \<Longrightarrow> session_ok (on_lines w f s)"
  by (simp add: session_ok_def pending_def on_lines_def)

lemma close_ok: "session_ok s \<Longrightarrow> op_ok s (close s)"
  by (auto simp: op_ok_def close_def session_ok_def pending_def ledger_def)

lemma fail_ok: "session_ok s \<Longrightarrow> op_ok s (fail e s)"
  by (auto simp: op_ok_def fail_def session_ok_def ledger_def Let_def pending_def filter_empty_conv split: option.split)

lemma timeout_ok:
  assumes "session_ok s"
  shows "op_ok s (timeout p s)"
proof (cases "p \<in> set (timers s)")
  case False
  with assms show ?thesis by (simp add: op_ok_def timeout_def ledger_def)
next
  case True
  define t where "t = s\<lparr>timers := remove1 p (timers s),
    flushWaiters := filter (\<lambda>w. fst w \<noteq> p) (flushWaiters s),
    pageImageWaiters := filter (\<lambda>w. fst w \<noteq> p) (pageImageWaiters s),
    pageCountWaiters := filter (\<lambda>w. w \<noteq> p) (pageCountWaiters s)\<rparr>"
  have pend: "pending t = filter (\<lambda>x. x \<noteq> p) (pending s)"
    by (simp add: t_def pending_def filter_map_fst)
  have "session_ok t"
    using assms by (auto simp: session_ok_def pend set_remove1_eq) (auto simp: t_def session_ok_def)
  from close_ok [OF this] have c: "session_ok (fst (close t))" "ledger t (snd (close t)) (fst (close t))"
    by (auto simp: op_ok_def)
  have "timeout p s = (fst (close t), snd (close t) @ [Settled p (Failed TimedOut)])"
    using True by (simp add: timeout_def t_def Let_def split: prod.split)
  moreover have "mset (filter (\<lambda>x. x \<noteq> p) (pending s)) + {#p#} = mset (pending s)"
    using assms True by (intro mset_filter_neq) (auto simp: session_ok_def)
  moreover have "nextPromise t = nextPromise s" by (simp add: t_def)
  ultimately show ?thesis
    using c by (simp add: op_ok_def ledger_def pend)
qed


lemma waitForFlush_ok:
  assumes "session_ok s" "after \<le> flushCount s"
  shows "session_ok (fst (waitForFlush after s)) \<and> ledger s [] (fst (waitForFlush after s))"
  using assms
  by (auto simp: waitForFlush_def session_ok_def ledger_def pending_def less_Suc_eq split: option.split)

lemma waitForPageCount_ok:
  assumes "session_ok s"
  shows "session_ok (fst (waitForPageCount s)) \<and> ledger s [] (fst (waitForPageCount s))"
  using assms
  by (auto simp: waitForPageCount_def session_ok_def ledger_def pending_def less_Suc_eq split: option.split)

lemma waitForPageImage_ok:
  assumes "session_ok s"
  shows "session_ok (fst (waitForPageImage page dpi s)) \<and> ledger s [] (fst (waitForPageImage page dpi s))"
  using assms
  by (auto simp: waitForPageImage_def session_ok_def ledger_def pending_def less_Suc_eq split: option.split)

lemma mset_partition:
  "mset (map f (filter P xs)) + mset (map f (filter (\<lambda>x. \<not> P x) xs)) = mset (map f xs)"
  by (induction xs) auto

lemma distinct_map_filter_neg:
  "distinct (map f xs) \<Longrightarrow> f ` {x \<in> set xs. \<not> P x} = f ` set xs - f ` {x \<in> set xs. P x}"
  by (auto simp: distinct_map inj_on_def)

lemma flush_message_ok:
  assumes "session_ok s"
  shows "op_ok s (flush_message s)"
proof -
  have "distinct (map fst (flushWaiters s))" and rest: "fst ` set (flushWaiters s) \<inter>
      (fst ` set (pageImageWaiters s) \<union> set (pageCountWaiters s)) = {}"
    using assms by (auto simp: session_ok_def pending_def)
  note neg = distinct_map_filter_neg [OF this(1), of "\<lambda>w. snd w < Suc (flushCount s)"]
  have "session_ok (fst (flush_message s))"
    using assms rest neg
    by (simp add: flush_message_def Let_def session_ok_def pending_def distinct_map_filter)
       (auto simp: session_ok_def pending_def)
  moreover have "ledger s (snd (flush_message s)) (fst (flush_message s))"
    using mset_partition [of fst "\<lambda>w. snd w < Suc (flushCount s)" "flushWaiters s"]
    by (simp add: flush_message_def ledger_def pending_def Let_def add.commute del: mset_map mset_filter)
  ultimately show ?thesis by (simp add: op_ok_def)
qed

lemma page_count_message_ok:
  assumes "session_ok s"
  shows "op_ok s (page_count_message n s)"
  using assms
  by (auto simp: op_ok_def page_count_message_def session_ok_def ledger_def pending_def set_remove1_eq split: list.split)

lemma settle_image_ok:
  assumes "session_ok s" "p \<in> fst ` set (pageImageWaiters s)"
  shows "op_ok s (settle_image p r s)"
proof -
  have d: "distinct (map fst (pageImageWaiters s))" "p \<notin> fst ` set (flushWaiters s)" "p \<notin> set (pageCountWaiters s)"
    using assms by (auto simp: session_ok_def pending_def)
  have "mset (filter (\<lambda>x. x \<noteq> p) (map fst (pageImageWaiters s))) + {#p#} = mset (map fst (pageImageWaiters s))"
    using d(1) assms(2) by (intro mset_filter_neq) auto
  then have "ledger s (snd (settle_image p r s)) (fst (settle_image p r s))"
    by (simp add: settle_image_def ledger_def pending_def filter_map_fst del: mset_map mset_filter)
  moreover have "session_ok (fst (settle_image p r s))"
    using assms d by (auto simp: settle_image_def session_ok_def pending_def filter_map_fst set_remove1_eq)
  ultimately show ?thesis by (simp add: op_ok_def)
qed

lemma image_waiter_mem:
  "image_waiter page s = Some (p, q, dpi) \<Longrightarrow> (p, q, dpi) \<in> set (pageImageWaiters s) \<and> q = page"
  by (auto simp: image_waiter_def dest!: find_Some_mem)

lemma op_ok_same: "session_ok s \<Longrightarrow> op_ok s (s, [])"
  by (simp add: op_ok_def ledger_def)

lemma op_ok_stderr: "session_ok s \<Longrightarrow> op_ok s (appendStderr c s, [])"
  by (simp add: op_ok_def ledger_def appendStderr_ok)

lemma op_ok_lines: "session_ok s \<Longrightarrow> op_ok s (on_lines w f s, [])"
  by (simp add: op_ok_def ledger_def on_lines_ok)

lemma image_waiter_ok:
  assumes "session_ok s" "image_waiter page s = Some (p, q, dpi)"
  shows "op_ok s (settle_image p r s)"
  using image_waiter_mem [OF assms(2)] by (intro settle_image_ok assms(1)) force

lemma page_image_message_ok:
  assumes "session_ok s"
  shows "op_ok s (page_image_message args s)"
  using image_waiter_ok [OF assms] assms
  by (auto simp: page_image_message_def op_ok_same op_ok_stderr split: option.split sum.split)

lemma page_error_message_ok:
  assumes "session_ok s"
  shows "op_ok s (page_error_message page d s)"
  using image_waiter_ok [OF assms] assms
  by (auto simp: page_error_message_def op_ok_same split: option.split)

lemma handle_verb_ok:
  assumes ok: "session_ok s"
  shows "op_ok s (handle_verb verb args s)"
proof -
  have "op_ok s (s, [UncaughtRangeError])"
    and "op_ok s (s\<lparr>inputFiles := trimLines xs\<rparr>, [])"
    and "op_ok s (s\<lparr>lookups := trimLines ys\<rparr>, [])" for xs ys
    using ok by (simp_all add: op_ok_def session_ok_def ledger_def pending_def length_trimLines)
  then show ?thesis
    unfolding handle_verb_def Let_def
    by (intro op_ok_if op_ok_same [OF ok] op_ok_lines [OF ok] flush_message_ok [OF ok]
        page_count_message_ok [OF ok] page_image_message_ok [OF ok] page_error_message_ok [OF ok])
qed

lemma handleProtocolLine_ok: "session_ok s \<Longrightarrow> op_ok s (handleProtocolLine txt v s)"
  by (auto simp: handleProtocolLine_def op_ok_same op_ok_stderr handle_verb_ok
      split: option.split json.split list.split)


section \<open>Pages and their cache\<close>

definition key_parts :: "int \<Rightarrow> int \<Rightarrow> TexpressoRenderTheme option \<Rightarrow> jsstring list" where
  "key_parts page dpi theme =
     [int_dec page, int_dec dpi] @
     (case theme of None \<Rightarrow> [js ''paper''] | Some t \<Rightarrow> [int_dec (foreground t), int_dec (background t)])"

lemma renderCacheKey_parts: "renderCacheKey page dpi theme = join_with [58] (key_parts page dpi theme)"
  by (simp add: renderCacheKey_def key_parts_def js_def split: option.split)

lemma renderCacheKey_inject:
  "renderCacheKey page dpi theme = renderCacheKey page' dpi' theme' \<longleftrightarrow>
     page = page' \<and> dpi = dpi' \<and> theme = theme'"
proof
  have colon: "58 \<notin> set x" if "x \<in> set (key_parts a b t)" for x a b t
    using that by (auto simp: key_parts_def js_def is_digit_def dest!: int_dec_chars split: option.splits)
  assume "renderCacheKey page dpi theme = renderCacheKey page' dpi' theme'"
  then have "split_on 58 (join_with [58] (key_parts page dpi theme)) =
      split_on 58 (join_with [58] (key_parts page' dpi' theme'))"
    by (simp add: renderCacheKey_parts)
  moreover have "split_on 58 (join_with [58] (key_parts a b t)) = key_parts a b t" for a b t
    using colon by (intro split_join_with) (auto simp: key_parts_def)
  ultimately have "key_parts page dpi theme = key_parts page' dpi' theme'" by simp
  then show "page = page' \<and> dpi = dpi' \<and> theme = theme'"
    by (auto simp: key_parts_def split: option.splits)
qed simp

text \<open>A page as it may be handed to a client.\<close>

definition page_ok :: "TexpressoRenderedPage \<Rightarrow> bool" where
  "page_ok img \<longleftrightarrow> isPng (page_data img) \<and> length (page_data img) \<le> MAX_RENDER_BYTES \<and>
     0 < page_width img \<and> 0 < page_height img \<and>
     pngDimensions (page_data img) = Inr (page_width img, page_height img)"

lemma decode_page_ok:
  "decode_page page width height dpi encoded = Inr img \<Longrightarrow> 0 < width \<Longrightarrow> 0 < height \<Longrightarrow>
     page_ok img \<and> page_no img = page \<and> page_dpi img = dpi"
  by (auto simp: decode_page_def page_ok_def Let_def split: if_splits sum.splits prod.splits)

text \<open>The pages a step settles: each answers a waiting request for that page and resolution.\<close>

definition pages_requested :: "session \<Rightarrow> effect list \<Rightarrow> bool" where
  "pages_requested s es \<longleftrightarrow>
     (\<forall>p img. Settled p (GotPage img) \<in> set es \<longrightarrow>
        page_ok img \<and> (p, page_no img, page_dpi img) \<in> set (pageImageWaiters s))"

text \<open>Steps that leave the cache alone and register no page request.\<close>

definition quiet :: "session \<Rightarrow> session \<times> effect list \<Rightarrow> bool" where
  "quiet s r \<longleftrightarrow> renderedPages (fst r) = renderedPages s \<and> buffers (fst r) = buffers s \<and>
     set (pageImageWaiters (fst r)) \<subseteq> set (pageImageWaiters s) \<and> pages_requested s (snd r)"

lemma quietI:
  "renderedPages s' = renderedPages s \<Longrightarrow> buffers s' = buffers s \<Longrightarrow>
   set (pageImageWaiters s') \<subseteq> set (pageImageWaiters s) \<Longrightarrow> pages_requested s es \<Longrightarrow> quiet s (s', es)"
  by (simp add: quiet_def)

lemma quiet_if: "(c \<Longrightarrow> quiet s x) \<Longrightarrow> (\<not> c \<Longrightarrow> quiet s y) \<Longrightarrow> quiet s (if c then x else y)"
  by simp

lemma close_quiet: "quiet s (close s)"
  and fail_quiet: "quiet s (fail e s)"
  and timeout_quiet: "quiet s (timeout p s)"
  and listener_quiet: "quiet s (onUnexpectedExit l s)"
  and child_close_quiet: "quiet s (child_close s)"
  by (auto simp: quiet_def pages_requested_def close_def fail_def timeout_def onUnexpectedExit_def child_close_def
      Let_def split: option.split)

lemma flush_message_quiet: "quiet s (flush_message s)"
  and page_count_message_quiet: "quiet s (page_count_message n s)"
  by (auto simp: quiet_def pages_requested_def flush_message_def page_count_message_def Let_def split: list.split)

lemma settle_failed_quiet: "quiet s (settle_image p (Failed e) s)"
  by (auto simp: quiet_def pages_requested_def settle_image_def)

lemma page_image_message_quiet: "quiet s (page_image_message args s)"
proof -
  have "quiet s (settle_image p (GotPage img) s)"
    if "image_waiter page s = Some (p, q, dpi)" "decode_page page w h dpi enc = Inr img" "0 < w" "0 < h"
    for p q dpi page w h enc img
    using image_waiter_mem [OF that(1)] decode_page_ok [OF that(2-4)]
    by (auto simp: quiet_def pages_requested_def settle_image_def)
  moreover have "quiet s (s, [])" "quiet s (appendStderr c s, [])" for c
    by (simp_all add: quiet_def pages_requested_def)
  ultimately show ?thesis
    by (auto simp: page_image_message_def settle_failed_quiet split: option.split sum.split)
qed

lemma handleProtocolLine_quiet: "quiet s (handleProtocolLine txt v s)"
proof -
  have same: "quiet s (s, [])" "quiet s (s, [UncaughtRangeError])" "quiet s (appendStderr c s, [])"
      "quiet s (on_lines w f s, [])" "quiet s (s\<lparr>inputFiles := xs\<rparr>, [])" "quiet s (s\<lparr>lookups := ys\<rparr>, [])"
    for c w f xs ys
    by (simp_all add: quiet_def pages_requested_def)
  have err: "quiet s (page_error_message page d s)" for page d
    using same(1) settle_failed_quiet by (auto simp: page_error_message_def split: option.split)
  have "quiet s (handle_verb verb args s)" for verb args
    unfolding handle_verb_def Let_def
    by (intro quiet_if same err flush_message_quiet page_count_message_quiet page_image_message_quiet)
  then show ?thesis
    using same by (auto simp: handleProtocolLine_def split: option.split json.split list.split)
qed

section \<open>The event loop\<close>

text \<open>
  A session at work: the continuations registered on its promises, the settled promises whose
  continuation has not run yet, and the promises settled so far. Each step is one turn: an event of
  the child, a timer, a call of a method, or a continuation.
\<close>

datatype continuation = AfterStart | AfterChange | AfterCount | AfterRender int int "TexpressoRenderTheme option"

record run =
  run_session :: session
  run_conts :: "(nat \<times> continuation) list"
  run_inbox :: "(nat \<times> outcome) list"
  run_settled :: "nat list"

definition absorb :: "session \<times> effect list \<Rightarrow> run \<Rightarrow> run" where
  "absorb r w =
     w\<lparr>run_session := fst r,
       run_inbox := run_inbox w @ outcomes (snd r),
       run_settled := run_settled w @ settled (snd r)\<rparr>"

definition await :: "continuation \<Rightarrow> 'a answer \<Rightarrow> run \<Rightarrow> run" where
  "await k a w = (case a of Waiting p \<Rightarrow> w\<lparr>run_conts := (p, k) # run_conts w\<rparr> | _ \<Rightarrow> w)"

fun resume :: "continuation option \<Rightarrow> outcome \<Rightarrow> session \<Rightarrow> session" where
  "resume (Some AfterChange) (GotSnapshot snap) s = rangeChange_resume snap s"
| "resume (Some (AfterRender page dpi theme)) (GotPage img) s = renderPage_resume page dpi theme img s"
| "resume (Some AfterStart) v s = fst (start_resume v s)"
| "resume _ _ s = s"

inductive run_step :: "jsstring \<Rightarrow> run \<Rightarrow> run \<Rightarrow> bool" for cwd where
  Line: "run_step cwd w (absorb (handleProtocolLine txt v (run_session w)) w)"
| ChildError: "run_step cwd w (absorb (child_error (run_session w)) w)"
| ChildClose: "run_step cwd w (absorb (child_close (run_session w)) w)"
| Timer: "run_step cwd w (absorb (timeout p (run_session w)) w)"
| Close: "run_step cwd w (absorb (close (run_session w)) w)"
| Listen: "run_step cwd w (absorb (onUnexpectedExit l (run_session w)) w)"
| ChangeCall: "applyRangeChange cwd path rng txt (run_session w) = (s, es, a) \<Longrightarrow>
     run_step cwd w (await AfterChange a (absorb (s, es) w))"
| ReplaceCall: "replaceText cwd path expected txt (run_session w) = (s, es, a) \<Longrightarrow>
     run_step cwd w (await AfterChange a (absorb (s, es) w))"
| CountCall: "getPageCount (run_session w) = (s, es, a) \<Longrightarrow>
     run_step cwd w (await AfterCount a (absorb (s, es) w))"
| RenderCall: "renderPage page dpi theme (run_session w) = (s, es, a) \<Longrightarrow>
     run_step cwd w (await (AfterRender page dpi theme) a (absorb (s, es) w))"
| Continue: "run_inbox w = (p, v) # rest \<Longrightarrow>
     run_step cwd w (w\<lparr>run_inbox := rest, run_session := resume (map_of (run_conts w) p) v (run_session w)\<rparr>)"

definition run_start :: "session \<Rightarrow> run" where
  "run_start s = \<lparr>run_session = s, run_conts = [], run_inbox = [], run_settled = []\<rparr>"

inductive run_reach :: "jsstring \<Rightarrow> run \<Rightarrow> bool" for cwd where
  init: "start_session cwd root main files True True = Inr (s, es, a) \<Longrightarrow>
     run_reach cwd (await AfterStart a (run_start s))"
| step: "run_reach cwd w \<Longrightarrow> run_step cwd w w' \<Longrightarrow> run_reach cwd w'"

text \<open>Every promise ever made is waiting or settled, and no promise is both or twice either.\<close>

definition run_ok :: "run \<Rightarrow> bool" where
  "run_ok w \<longleftrightarrow> session_ok (run_session w) \<and>
     mset (pending (run_session w)) + mset (run_settled w) = mset [0..<nextPromise (run_session w)]"

lemma run_ok_absorb: "run_ok w \<Longrightarrow> op_ok (run_session w) r \<Longrightarrow> run_ok (absorb r w)"
proof -
  assume ok: "run_ok w" and op: "op_ok (run_session w) r"
  let ?n = "nextPromise (run_session w)" and ?m = "nextPromise (fst r)"
  have le: "?n \<le> ?m"
    and led: "mset (pending (fst r)) + mset (settled (snd r)) = mset (pending (run_session w)) + mset [?n..<?m]"
    using op by (simp_all add: op_ok_def ledger_def)
  have "mset [0..<?n] + mset [?n..<?m] = mset [0..<?m]"
    using le upt_add_eq_append [of 0 ?n "?m - ?n"] by (metis le_add_diff_inverse le0 mset_append)
  with ok op led show "run_ok (absorb r w)"
    by (simp add: run_ok_def op_ok_def absorb_def) (metis add.assoc add.commute)
qed

lemma run_ok_await [simp]: "run_ok (await k a w) = run_ok w"
  by (simp add: run_ok_def await_def split: answer.split)

lemma ledger_trans_same:
  "ledger s [] s' \<Longrightarrow> pending s' = pending t \<Longrightarrow> nextPromise s' = nextPromise t \<Longrightarrow> ledger s [] t"
  by (simp add: ledger_def)

lemma send_settles: "send c s = Inr es \<Longrightarrow> settled es = []"
  by (auto simp: send_def split: option.splits if_splits)

lemma settled_ledger: "settled es = [] \<Longrightarrow> ledger s es s' = ledger s [] s'"
  by (simp add: ledger_def)

text \<open>The two ends of a call: refused with nothing changed, or sent and waiting.\<close>

lemma applyRangeChange_cases:
  assumes "applyRangeChange cwd path rng txt s = (s', es, a)"
  obtains (Refused) e where "s' = s" "es = []" "a = Rejected e"
  | (Applied) current i j where
      "map_of (buffers s) (normalizeProtocolPath path) = Some current"
      "positionToOffset current (fst rng) = Inr i" "positionToOffset current (snd rng) = Inr j" "i \<le> j"
      "\<not> closed s" "exitError s = None" "a = Waiting (nextPromise s)"
      "es = [Sent (ChangeRange (commandPath cwd s (normalizeProtocolPath path)) (fst rng) (snd rng) txt)]"
      "s' = s\<lparr>buffers := AList.update (normalizeProtocolPath path) (splice i j txt current) (buffers s),
          flushWaiters := flushWaiters s @ [(nextPromise s, flushCount s)],
          timers := nextPromise s # timers s, nextPromise := Suc (nextPromise s)\<rparr>"
proof (cases "map_of (buffers s) (normalizeProtocolPath path)")
  case None
  with assms Refused show thesis by (auto simp: applyRangeChange_def)
next
  case (Some current)
  show thesis
  proof (cases "\<exists>i j. positionToOffset current (fst rng) = Inr i \<and> positionToOffset current (snd rng) = Inr j \<and>
      i \<le> j \<and> \<not> closed s \<and> exitError s = None")
    case True
    with Some assms Applied show thesis
      by (auto simp: applyRangeChange_def send_def waitForFlush_def Let_def)
  next
    case False
    with Some assms have "s' = s \<and> es = [] \<and> (\<exists>e. a = Rejected e)"
      by (auto simp: applyRangeChange_def send_def Let_def split: sum.splits if_splits option.splits)
    with Refused show thesis by blast
  qed
qed

lemma op_ok_flush_wait:
  "session_ok s \<Longrightarrow> exitError s = None \<Longrightarrow>
   op_ok s (s\<lparr>buffers := b, flushWaiters := flushWaiters s @ [(nextPromise s, flushCount s)],
     timers := nextPromise s # timers s, nextPromise := Suc (nextPromise s)\<rparr>, [Sent c])"
  by (auto simp: op_ok_def session_ok_def ledger_def pending_def less_Suc_eq)

lemma applyRangeChange_ok:
  assumes "session_ok s" and "applyRangeChange cwd path rng txt s = (s', es, a)"
  shows "op_ok s (s', es)"
  using assms(2)
proof (cases rule: applyRangeChange_cases)
  case Refused
  with assms(1) show ?thesis by (simp add: op_ok_same)
next
  case Applied
  with assms(1) show ?thesis by (simp add: op_ok_flush_wait)
qed

lemma replaceText_cases:
  assumes "replaceText cwd path expected txt s = (s', es, a)"
  shows "(s' = s \<and> es = [] \<and> (\<exists>e. a = Rejected e)) \<or>
    (\<exists>rng. applyRangeChange cwd path rng txt s = (s', es, a))"
  using assms by (auto simp: replaceText_def Let_def split: option.splits sum.splits)

lemma replaceText_ok:
  "session_ok s \<Longrightarrow> replaceText cwd path expected txt s = (s', es, a) \<Longrightarrow> op_ok s (s', es)"
  by (drule replaceText_cases) (auto intro: op_ok_same applyRangeChange_ok)

lemma op_ok_send:
  assumes "session_ok s'" "ledger s [] s'" "send c s' = Inr es"
  shows "op_ok s (s', es)"
  using assms by (simp add: op_ok_def settled_ledger [OF send_settles])

lemma getPageCount_ok:
  assumes "session_ok s" and "getPageCount s = (s', es, a)"
  shows "op_ok s (s', es)"
  using waitForPageCount_ok [OF assms(1)] assms(2)
  by (auto simp: getPageCount_def op_okI op_ok_send split: prod.splits sum.splits)

lemma renderPage_ok:
  assumes "session_ok s" and "renderPage page dpi theme s = (s', es, a)"
  shows "op_ok s (s', es)"
  using waitForPageImage_ok [OF assms(1), of page dpi] assms
  by (auto simp: renderPage_def op_okI op_ok_send op_ok_same split: prod.splits sum.splits if_splits option.splits)

lemma resume_ok:
  assumes "session_ok s"
  shows "session_ok (resume k v s) \<and> pending (resume k v s) = pending s \<and>
    nextPromise (resume k v s) = nextPromise s"
  using assms
  by (induction k v s rule: resume.induct)
     (auto simp: rangeChange_resume_def renderPage_resume_def start_resume_def close_def session_ok_def pending_def
        split: outcome.split)

lemma listener_ok: "session_ok s \<Longrightarrow> op_ok s (onUnexpectedExit l s)"
  by (auto simp: op_ok_def onUnexpectedExit_def session_ok_def ledger_def pending_def split: option.split)

lemma child_close_ok: "session_ok s \<Longrightarrow> op_ok s (child_close s)"
  by (simp add: child_close_def op_ok_same fail_ok)

lemma run_ok_session: "run_ok w \<Longrightarrow> session_ok (run_session w)"
  by (simp add: run_ok_def)

lemma run_step_ok: "run_step cwd w w' \<Longrightarrow> run_ok w \<Longrightarrow> run_ok w'"
proof (induction rule: run_step.induct)
  case (Continue w p v rest)
  then show ?case
    using resume_ok [of "run_session w" "map_of (run_conts w) p" v] by (simp add: run_ok_def)
next
  case (ChildError w)
  then show ?case by (simp add: child_error_def run_ok_absorb fail_ok run_ok_session)
qed (simp_all add: run_ok_absorb handleProtocolLine_ok child_close_ok timeout_ok close_ok listener_ok
      applyRangeChange_ok replaceText_ok getPageCount_ok renderPage_ok run_ok_session)

text \<open>The state in which \<open>start\<close> waits for its first flush.\<close>

definition started :: "jsstring \<Rightarrow> (jsstring \<times> jsstring) list \<Rightarrow> session" where
  "started root files = (new_session root files)\<lparr>flushWaiters := [(0, 0)], timers := [0], nextPromise := 1\<rparr>"

lemma start_session_shape:
  "start_session cwd root main files True True = Inr (s, es, a) \<Longrightarrow> s = started root files \<and> a = Waiting 0"
  by (auto simp: start_session_def waitForFlush_def started_def new_session_def Let_def split: if_splits)

lemma run_reach_ok: "run_reach cwd w \<Longrightarrow> run_ok w"
proof (induction rule: run_reach.induct)
  case (init root main files s es a)
  have "run_ok (run_start (started root files))"
    by (simp add: run_ok_def run_start_def started_def new_session_def session_ok_def pending_def stderr_ok_def)
  with start_session_shape [OF init] show ?case by simp
next
  case (step w w')
  then show ?case by (blast intro: run_step_ok)
qed


text \<open>
  Every request for a page has its continuation; a settled page is the page and resolution its
  continuation will file it under; the cache holds well-formed pages under their own keys.
\<close>

definition pages_ok :: "run \<Rightarrow> bool" where
  "pages_ok w \<longleftrightarrow>
     (\<forall>p k. (p, k) \<in> set (run_conts w) \<longrightarrow> p < nextPromise (run_session w)) \<and>
     (\<forall>p v. (p, v) \<in> set (run_inbox w) \<longrightarrow> p < nextPromise (run_session w)) \<and>
     (\<forall>p page dpi k. (p, page, dpi) \<in> set (pageImageWaiters (run_session w)) \<longrightarrow>
        map_of (run_conts w) p = Some k \<longrightarrow> (\<exists>theme. k = AfterRender page dpi theme)) \<and>
     (\<forall>p img. (p, GotPage img) \<in> set (run_inbox w) \<longrightarrow> page_ok img \<and>
        (\<forall>page dpi theme. map_of (run_conts w) p = Some (AfterRender page dpi theme) \<longrightarrow>
           page_no img = page \<and> page_dpi img = dpi)) \<and>
     (\<forall>key img. (key, img) \<in> set (renderedPages (run_session w)) \<longrightarrow>
        page_ok img \<and> (\<exists>theme. key = renderCacheKey (page_no img) (page_dpi img) theme))"

lemma settled_mem: "Settled p v \<in> set es \<Longrightarrow> p \<in> set (settled es)"
  by (induction es rule: settled.induct) auto

lemma op_ok_settled_less:
  assumes "op_ok s r" "session_ok s" "Settled p v \<in> set (snd r)"
  shows "p < nextPromise (fst r)"
proof -
  have "p \<in># mset (pending s) + mset [nextPromise s..<nextPromise (fst r)]"
    using assms settled_mem [OF assms(3)] unfolding op_ok_def ledger_def
    by (metis set_mset_mset union_iff)
  then show ?thesis
    using assms(1,2) by (auto simp: op_ok_def ledger_def session_ok_def)
qed

lemma pages_ok_absorb:
  assumes inv: "pages_ok w" "session_ok (run_session w)" and r: "op_ok (run_session w) r" "quiet (run_session w) r"
  shows "pages_ok (absorb r w)"
proof -
  have le: "nextPromise (run_session w) \<le> nextPromise (fst r)"
    using r(1) by (simp add: op_ok_def ledger_def)
  have new: "p < nextPromise (fst r)" if "Settled p v \<in> set (snd r)" for p v
    using op_ok_settled_less [OF r(1) inv(2) that] .
  have page: "page_ok img \<and> (\<forall>page dpi theme. map_of (run_conts w) p = Some (AfterRender page dpi theme) \<longrightarrow>
      page_no img = page \<and> page_dpi img = dpi)" if "Settled p (GotPage img) \<in> set (snd r)" for p img
    using that r(2) inv(1) unfolding quiet_def pages_requested_def pages_ok_def by fastforce
  have inbox: "(p, v) \<in> set (run_inbox (absorb r w)) \<longleftrightarrow>
      (p, v) \<in> set (run_inbox w) \<or> Settled p v \<in> set (snd r)" for p v
    by (simp add: absorb_def)
  show ?thesis
    unfolding pages_ok_def inbox
    using inv(1) r(2) le new page
    unfolding pages_ok_def quiet_def
    by (auto simp: absorb_def)
qed

text \<open>A call: it settles nothing, leaves the cache alone and waits on a new promise.\<close>

definition call_ok :: "continuation \<Rightarrow> session \<Rightarrow> session \<Rightarrow> effect list \<Rightarrow> 'a answer \<Rightarrow> bool" where
  "call_ok k s s' es a \<longleftrightarrow>
     settled es = [] \<and> renderedPages s' = renderedPages s \<and> nextPromise s \<le> nextPromise s' \<and>
     (\<forall>p. a = Waiting p \<longrightarrow> p = nextPromise s \<and> p < nextPromise s') \<and>
     (\<forall>p page dpi. (p, page, dpi) \<in> set (pageImageWaiters s') \<longrightarrow>
        (p, page, dpi) \<in> set (pageImageWaiters s) \<or>
        (p = nextPromise s \<and> (\<exists>theme. k = AfterRender page dpi theme)))"

lemma pages_ok_call:
  assumes inv: "pages_ok w" "session_ok (run_session w)" and call: "call_ok k (run_session w) s' es a"
  shows "pages_ok (await k a (absorb (s', es) w))"
proof -
  let ?n = "nextPromise (run_session w)"
  have "outcomes es = []" using call map_fst_outcomes [of es] by (simp add: call_ok_def)
  then have inbox: "run_inbox (absorb (s', es) w) = run_inbox w"
    by (simp add: absorb_def)
  have conts: "run_conts (await k a (absorb (s', es) w)) = run_conts w \<or>
      (run_conts (await k a (absorb (s', es) w)) = (?n, k) # run_conts w \<and> ?n < nextPromise s')"
    using call by (auto simp: await_def absorb_def call_ok_def split: answer.split)
  have rest: "run_session (await k a (absorb (s', es) w)) = s'"
    "run_inbox (await k a (absorb (s', es) w)) = run_inbox w"
    using inbox by (simp_all add: await_def absorb_def split: answer.split)
  have keys: "(p, c) \<in> set (run_conts w) \<Longrightarrow> p < ?n" for p c
    using inv(1) unfolding pages_ok_def by blast
  have fresh: "map_of (run_conts w) ?n = None"
    by (auto simp: map_of_eq_None_iff dest: keys)
  have old: "p < ?n" if "(p, page, dpi) \<in> set (pageImageWaiters (run_session w))" for p page dpi
  proof -
    have "p \<in> set (pending (run_session w))" using that by (force simp: pending_def)
    with inv(2) show ?thesis by (simp add: session_ok_def)
  qed
  have map: "map_of (run_conts (await k a (absorb (s', es) w))) p = Some c \<Longrightarrow>
      map_of (run_conts w) p = Some c \<or> (p = ?n \<and> c = k)" for p c
    using conts by (auto split: if_splits)
  have inbox_old: "p < ?n" if "(p, v) \<in> set (run_inbox w)" for p v
    using inv(1) that unfolding pages_ok_def by blast
  have le: "?n \<le> nextPromise s'" using call by (simp add: call_ok_def)
  show ?thesis
    unfolding pages_ok_def rest
  proof (intro conjI allI impI)
    fix p c assume "(p, c) \<in> set (run_conts (await k a (absorb (s', es) w)))"
    then show "p < nextPromise s'"
      using conts keys [of p c] le by auto
  next
    fix p v assume "(p, v) \<in> set (run_inbox w)"
    then show "p < nextPromise s'" using inbox_old le by fastforce
  next
    fix p page dpi c
    assume w: "(p, page, dpi) \<in> set (pageImageWaiters s')"
      and m: "map_of (run_conts (await k a (absorb (s', es) w))) p = Some c"
    from call w consider "(p, page, dpi) \<in> set (pageImageWaiters (run_session w))"
      | "p = ?n" "\<exists>theme. k = AfterRender page dpi theme"
      unfolding call_ok_def by blast
    then show "\<exists>theme. c = AfterRender page dpi theme"
    proof cases
      case 1
      with map [OF m] old have "map_of (run_conts w) p = Some c" by fastforce
      with 1 inv(1) show ?thesis unfolding pages_ok_def by blast
    next
      case 2
      with map [OF m] fresh show ?thesis by auto
    qed
  next
    fix p img assume i: "(p, GotPage img) \<in> set (run_inbox w)"
    with inv(1) show "page_ok img" unfolding pages_ok_def by blast
    fix page dpi theme
    assume m: "map_of (run_conts (await k a (absorb (s', es) w))) p = Some (AfterRender page dpi theme)"
    have "map_of (run_conts w) p = Some (AfterRender page dpi theme)"
      using map [OF m] inbox_old [OF i] by auto
    with inv(1) i show "page_no img = page" "page_dpi img = dpi" unfolding pages_ok_def by blast+
  next
    fix key img assume "(key, img) \<in> set (renderedPages s')"
    then have "(key, img) \<in> set (renderedPages (run_session w))" using call by (simp add: call_ok_def)
    with inv(1) show "page_ok img" "\<exists>theme. key = renderCacheKey (page_no img) (page_dpi img) theme"
      unfolding pages_ok_def by blast+
  qed
qed

lemma resume_frame:
  "nextPromise (resume k v s) = nextPromise s" "pageImageWaiters (resume k v s) = pageImageWaiters s"
  by (induction k v s rule: resume.induct)
     (auto simp: rangeChange_resume_def renderPage_resume_def start_resume_def close_def split: outcome.split)

lemma resume_cache:
  "\<nexists>page dpi theme i. k = Some (AfterRender page dpi theme) \<and> v = GotPage i \<Longrightarrow>
   set (renderedPages (resume k v s)) \<subseteq> set (renderedPages s)"
  by (induction k v s rule: resume.induct)
     (auto simp: rangeChange_resume_def start_resume_def close_def split: outcome.split)

lemma pages_ok_resume:
  assumes inv: "pages_ok w" and "run_inbox w = (p, v) # rest"
  shows "pages_ok (w\<lparr>run_inbox := rest, run_session := resume (map_of (run_conts w) p) v (run_session w)\<rparr>)"
proof -
  let ?k = "map_of (run_conts w) p"
  let ?s = "run_session w"
  have cache: "page_ok img \<and> (\<exists>theme. key = renderCacheKey (page_no img) (page_dpi img) theme)"
    if "(key, img) \<in> set (renderedPages (resume ?k v ?s))" for key img
  proof (cases "\<exists>page dpi theme i. ?k = Some (AfterRender page dpi theme) \<and> v = GotPage i")
    case True
    then obtain page dpi theme i where k: "?k = Some (AfterRender page dpi theme)" "v = GotPage i" by blast
    with inv assms(2) have "page_ok i" "page_no i = page" "page_dpi i = dpi"
      unfolding pages_ok_def by auto
    with that k inv show ?thesis
      unfolding pages_ok_def by (auto simp: renderPage_resume_def dest!: subsetD [OF set_alist_update])
  next
    case False
    then have "set (renderedPages (resume ?k v ?s)) \<subseteq> set (renderedPages ?s)" by (rule resume_cache)
    with that inv show ?thesis unfolding pages_ok_def by blast
  qed
  show ?thesis
    using inv assms(2) cache unfolding pages_ok_def by (simp add: resume_frame)
qed


lemma call_ok_refused [simp]: "call_ok k s s [] (Rejected e)" "call_ok k s s [] (Ready r)"
  by (simp_all add: call_ok_def)

lemma applyRangeChange_call:
  assumes "applyRangeChange cwd path rng txt s = (s', es, a)"
  shows "call_ok k s s' es a"
  using assms by (cases rule: applyRangeChange_cases) (simp_all add: call_ok_def)

lemma replaceText_call: "replaceText cwd path expected txt s = (s', es, a) \<Longrightarrow> call_ok k s s' es a"
  by (drule replaceText_cases) (auto simp: applyRangeChange_call)

lemma getPageCount_call: "getPageCount s = (s', es, a) \<Longrightarrow> call_ok k s s' es a"
  by (auto simp: getPageCount_def waitForPageCount_def call_ok_def send_settles
      split: prod.splits sum.splits option.splits)

lemma renderPage_call:
  "renderPage page dpi theme s = (s', es, a) \<Longrightarrow> call_ok (AfterRender page dpi theme) s s' es a"
  by (auto simp: renderPage_def waitForPageImage_def call_ok_def send_settles
      split: prod.splits sum.splits option.splits if_splits)

lemma run_step_pages: "run_step cwd w w' \<Longrightarrow> run_ok w \<Longrightarrow> pages_ok w \<Longrightarrow> pages_ok w'"
proof (induction rule: run_step.induct)
  case (Continue w p v rest)
  then show ?case by (simp add: pages_ok_resume)
next
  case (ChildError w)
  then show ?case
    by (simp add: child_error_def pages_ok_absorb fail_ok fail_quiet run_ok_session)
qed (simp_all add: pages_ok_absorb pages_ok_call run_ok_session
      handleProtocolLine_ok child_close_ok timeout_ok close_ok listener_ok
      handleProtocolLine_quiet child_close_quiet timeout_quiet close_quiet listener_quiet
      applyRangeChange_call replaceText_call getPageCount_call renderPage_call)

lemma run_reach_pages: "run_reach cwd w \<Longrightarrow> pages_ok w"
proof (induction rule: run_reach.induct)
  case (init root main files s es a)
  from start_session_shape [OF this] show ?case
    by (simp add: pages_ok_def run_start_def await_def started_def new_session_def)
next
  case (step w w')
  then show ?case by (blast intro: run_step_pages run_reach_ok)
qed

section \<open>A run, for the witnesses\<close>

definition sample_png :: jsstring where "sample_png = js ''iVBORw0KGgoAAAANSUhEUgAAAAIAAAAD''"

definition sample_page :: TexpressoRenderedPage where
  "sample_page = \<lparr>page_no = 0, page_width = 2, page_height = 3, page_dpi = 144,
     page_data = [0x89, 0x50, 0x4E, 0x47, 0x0D, 0x0A, 0x1A, 0x0A, 0, 0, 0, 13, 0x49, 0x48, 0x44, 0x52,
                  0, 0, 0, 2, 0, 0, 0, 3]\<rparr>"

lemma decode_sample: "decode_page 0 2 3 144 sample_png = Inr sample_page"
proof -
  have data: "base64_decode sample_png = page_data sample_page"
    by code_simp
  have png: "isPng (page_data sample_page)" and len: "length (page_data sample_page) = 24"
    and dims: "pngDimensions (page_data sample_page) = Inr (2, 3)"
    by code_simp+
  from len have "page_data sample_page \<noteq> []" "\<not> MAX_RENDER_BYTES < length (page_data sample_page)"
    by (auto simp: MAX_RENDER_BYTES_def)
  then show ?thesis
    by (simp add: decode_page_def data png dims Let_def) (simp add: sample_page_def)
qed

definition sample_start :: session where
  "sample_start = started (js ''/p'') [(js ''main.tex'', js ''x'')]"

definition sample_waiting :: session where
  "sample_waiting = sample_start\<lparr>pageImageWaiters := [(1, 0, 144)], timers := [1, 0], nextPromise := 2\<rparr>"

definition sample_image :: json where
  "sample_image = JArr [JStr (js ''page-image''), JInt 0, JInt 2, JInt 3, JStr (js ''image/png''), JStr sample_png]"

definition sample_settled :: session where
  "sample_settled = sample_start\<lparr>timers := [0], nextPromise := 2\<rparr>"

definition sample_run :: run where
  "sample_run = \<lparr>run_session = sample_settled\<lparr>renderedPages := [(renderCacheKey 0 144 None, sample_page)]\<rparr>,
     run_conts = [(1, AfterRender 0 144 None), (0, AfterStart)], run_inbox = [], run_settled = [1]\<rparr>"

lemma sample_render: "renderPage 0 144 None sample_start = (sample_waiting, [Sent (RenderPage 0 144 None)], Waiting 1)"
  by (simp add: renderPage_def waitForPageImage_def send_def sample_waiting_def sample_start_def started_def
      new_session_def MIN_TEXPRESSO_RENDER_DPI_def MAX_TEXPRESSO_RENDER_DPI_def)

lemma sample_line:
  "handleProtocolLine [] (Some sample_image) sample_waiting = (sample_settled, [Settled 1 (GotPage sample_page)])"
  using decode_sample
  by (simp add: handleProtocolLine_def sample_image_def handle_verb_def page_image_message_def arg_def
      image_waiter_def settle_image_def sample_waiting_def sample_start_def sample_settled_def started_def
      new_session_def eval_nat_numeral)

lemma sample_reach: "run_reach cwd sample_run"
proof -
  let ?w0 = "await AfterStart (Waiting 0 :: TexpressoSnapshot answer) (run_start sample_start)"
  let ?w1 = "await (AfterRender 0 144 None) (Waiting 1 :: TexpressoRenderedPage answer) (absorb (sample_waiting, [Sent (RenderPage 0 144 None)]) ?w0)"
  let ?w2 = "absorb (sample_settled, [Settled 1 (GotPage sample_page)]) ?w1"
  have sess: "run_session ?w0 = sample_start" "run_session ?w1 = sample_waiting"
    by (simp_all add: await_def run_start_def absorb_def)
  have "\<exists>es. start_session cwd (js ''/p'') (js ''main.tex'') [(js ''main.tex'', js ''x'')] True True =
      Inr (sample_start, es, Waiting 0)"
    by (simp add: start_session_def waitForFlush_def new_session_def sample_start_def started_def Let_def)
  then have "run_reach cwd ?w0" by (blast intro: run_reach.init)
  moreover have "run_step cwd ?w0 ?w1"
    using RenderCall [of 0 144 None ?w0 sample_waiting] sample_render by (simp add: sess)
  moreover have "run_step cwd ?w1 ?w2"
    using Line [of cwd ?w1 "[]" "Some sample_image"] by (simp only: sess sample_line)
  moreover have "run_step cwd ?w2 sample_run"
  proof -
    have "run_inbox ?w2 = [(1, GotPage sample_page)]"
      by (simp add: await_def run_start_def absorb_def)
    from Continue [OF this, of cwd] show ?thesis
      by (simp add: await_def run_start_def absorb_def sample_run_def renderPage_resume_def sample_settled_def
          sample_start_def started_def new_session_def)
  qed
  ultimately show ?thesis by (blast intro: run_reach.step)
qed

section \<open>Properties\<close>

text \<open>
  C3: no promise of a session is lost or settled twice. In every reachable state each promise the
  session has made either waits, and then its timer is armed, or has been settled, and then exactly
  once; after the child has failed none waits.
\<close>

theorem texpresso_promises_accounted:
  assumes "run_reach cwd w" and "p < nextPromise (run_session w)"
  shows "(p \<in> set (pending (run_session w)) \<and> p \<in> set (timers (run_session w)) \<and>
      exitError (run_session w) = None \<and> count_list (run_settled w) p = 0) \<or>
    (p \<notin> set (pending (run_session w)) \<and> p \<notin> set (timers (run_session w)) \<and>
      count_list (run_settled w) p = 1)"
proof -
  let ?s = "run_session w"
  have ok: "session_ok ?s" and eq: "mset (pending ?s) + mset (run_settled w) = mset [0..<nextPromise ?s]"
    using run_reach_ok [OF assms(1)] by (simp_all add: run_ok_def)
  have "count (mset (pending ?s) + mset (run_settled w)) p = 1"
    unfolding eq using assms(2) by simp
  then have sum: "count_list (pending ?s) p + count_list (run_settled w) p = 1"
    by (simp add: count_mset)
  show ?thesis
  proof (cases "p \<in> set (pending ?s)")
    case True
    with ok have "count (mset (pending ?s)) p = 1"
      by (simp add: session_ok_def distinct_count_atmost_1)
    with sum have "count_list (run_settled w) p = 0" by (simp add: count_mset)
    with True ok show ?thesis by (auto simp: session_ok_def)
  next
    case False
    with ok sum show ?thesis by (auto simp: session_ok_def)
  qed
qed

theorem texpresso_promises_accounted_witness:
  "count_list (run_settled sample_run) 1 = 1 \<and> 0 \<in> set (timers (run_session sample_run))"
proof -
  have n: "nextPromise (run_session sample_run) = 2" "pending (run_session sample_run) = [0]"
    by (simp_all add: sample_run_def sample_settled_def sample_start_def started_def new_session_def pending_def)
  from texpresso_promises_accounted [OF sample_reach, of 1] texpresso_promises_accounted [OF sample_reach, of 0]
  show ?thesis by (auto simp: n)
qed

text \<open>
  Whatever the child prints, a page the session hands out for a page number, a resolution and a
  theme is the page and resolution that were asked for, and a PNG of at most 16 MiB whose header
  carries the announced positive dimensions.
\<close>

theorem texpresso_cached_page:
  assumes "run_reach cwd w" and "getCachedPage page dpi theme (run_session w) = Some img"
  shows "page_no img = page \<and> page_dpi img = dpi \<and> isPng (page_data img) \<and>
    length (page_data img) \<le> MAX_RENDER_BYTES \<and> 0 < page_width img \<and> 0 < page_height img \<and>
    pngDimensions (page_data img) = Inr (page_width img, page_height img)"
proof -
  have "(renderCacheKey page dpi theme, img) \<in> set (renderedPages (run_session w))"
    using assms(2) by (simp add: getCachedPage_def map_of_SomeD)
  with run_reach_pages [OF assms(1)] obtain t where "page_ok img"
    "renderCacheKey page dpi theme = renderCacheKey (page_no img) (page_dpi img) t"
    unfolding pages_ok_def by blast
  then show ?thesis by (simp add: renderCacheKey_inject page_ok_def)
qed

theorem texpresso_cached_page_witness:
  "getCachedPage 0 144 None (run_session sample_run) = Some sample_page \<and>
   pngDimensions (page_data sample_page) = Inr (2, 3)"
proof -
  have c: "getCachedPage 0 144 None (run_session sample_run) = Some sample_page"
    by (simp add: getCachedPage_def sample_run_def)
  from texpresso_cached_page [OF sample_reach c] c show ?thesis by (simp add: sample_page_def)
qed

text \<open>
  A \<open>flush\<close> settles every waiting promise of an edit or of the start with one snapshot, whose
  number is greater than the count each of them waited past.
\<close>

theorem texpresso_flush_settles:
  assumes "run_reach cwd w" and "handleProtocolLine txt (Some (JArr (JStr (js ''flush'') # args))) (run_session w) = (s', es)"
  shows "flushWaiters s' = [] \<and>
    es = map (\<lambda>(p, _). Settled p (GotSnapshot (take_snapshot s'))) (flushWaiters (run_session w)) \<and>
    (\<forall>after \<in> snd ` set (flushWaiters (run_session w)). after < snap_flush (take_snapshot s'))"
proof -
  have after: "\<forall>x\<in>set (flushWaiters (run_session w)). snd x \<le> flushCount (run_session w)"
    using run_ok_session [OF run_reach_ok [OF assms(1)]] by (simp add: session_ok_def)
  then have "filter (\<lambda>x. snd x < Suc (flushCount (run_session w))) (flushWaiters (run_session w)) =
      flushWaiters (run_session w)"
    "filter (\<lambda>x. \<not> snd x < Suc (flushCount (run_session w))) (flushWaiters (run_session w)) = []"
    by (auto simp: filter_id_conv filter_empty_conv less_Suc_eq_le)
  with assms(2) after show ?thesis
    by (auto simp: handleProtocolLine_def handle_verb_def flush_message_def Let_def take_snapshot_def stderrText_def
        less_Suc_eq_le split_def)
qed

theorem texpresso_flush_settles_witness:
  "flushWaiters (fst (handleProtocolLine [] (Some (JArr [JStr (js ''flush'')])) (run_session sample_run))) = []"
proof -
  obtain s' es where "handleProtocolLine [] (Some (JArr [JStr (js ''flush'')])) (run_session sample_run) = (s', es)"
    by fastforce
  with texpresso_flush_settles [OF sample_reach this] show ?thesis by simp
qed

text \<open>
  C0: \<open>replaceText\<close> replaces the first occurrence of the expected text and nothing else, in a text
  that does not begin with a line feed.
\<close>

theorem texpresso_replaceText:
  assumes "get_buffer s path = Some current" and "find_text current expected = Some n"
    and "current = [] \<or> hd current \<noteq> 10" and "\<not> closed s" and "exitError s = None"
  shows "\<exists>s' es. replaceText cwd path expected txt s = (s', es, Waiting (nextPromise s)) \<and>
    get_buffer s' path = Some (take n current @ txt @ drop (n + length expected) current) \<and>
    (\<forall>q. get_buffer s' q =
      (if normalizeProtocolPath q = normalizeProtocolPath path then get_buffer s' path else get_buffer s q))"
proof -
  have n: "n \<le> length current" "prefix expected (drop n current)"
    using find_Some_mem [OF assms(2) [unfolded find_text_def]] by auto
  have le: "n + length expected \<le> length current"
    using prefix_length_le [OF n(2)] n(1) by simp
  have "\<not> prefix [10] current" using assms(3) by (cases current) auto
  then have off: "offsetToPosition current (int n) = Inr (cursor current n)"
    "offsetToPosition current (int (n + length expected)) = Inr (cursor current (n + length expected))"
    using offsetToPosition_cursor n(1) le by blast+
  have call: "replaceText cwd path expected txt s =
      applyRangeChange cwd path (cursor current n, cursor current (n + length expected)) txt s"
    using assms(1,2) off by (simp add: replaceText_def get_buffer_def Let_def)
  show ?thesis
    unfolding call
    using assms positionToOffset_cursor [OF n(1)] positionToOffset_cursor [OF le]
    by (auto simp: applyRangeChange_def get_buffer_def send_def waitForFlush_def splice_def update_conv' Let_def)
qed

theorem texpresso_replaceText_witness:
  "\<exists>s' es. replaceText (js ''/'') (js ''main.tex'') (js ''x'') (js ''yz'') sample_start = (s', es, Waiting 1) \<and>
     get_buffer s' (js ''main.tex'') = Some (js ''yz'')"
proof -
  have path: "normalizeProtocolPath (js ''main.tex'') = js ''main.tex''"
    by (simp add: normalizeProtocolPath_def js_def)
  have b: "get_buffer sample_start (js ''main.tex'') = Some (js ''x'')" "nextPromise sample_start = 1"
    "\<not> closed sample_start" "exitError sample_start = None"
    by (simp_all add: get_buffer_def sample_start_def started_def new_session_def path)
  have "find_text (js ''x'') (js ''x'') = Some 0" "js ''x'' = [] \<or> hd (js ''x'') \<noteq> 10"
    by (simp_all add: find_text_def js_def)
  from texpresso_replaceText [OF b(1) this b(3,4), of "js ''/''" "js ''yz''"] show ?thesis
    by (auto simp: b(2))
qed

end
