(* ===== verification/LiveBackend.thy ===== *)
theory LiveBackend
  imports TexpressoSession
begin

text \<open>
  \<^verbatim>\<open>typr-server/liveLatexSession.ts\<close>: the interface \<open>LiveLatexSession\<close> as a locale, and its two
  implementations, the TeXpresso adapter of the theory \<open>TexpressoSession\<close> and the full compiler
  \<open>FullCompileLiveSession\<close> modelled here. The LaTeX run, the file reads and MuPDF are the environment:
  their results are arguments of the continuations.
\<close>

section \<open>The interface\<close>

text \<open>What an edit does to the texts a client sees, whatever the backend.\<close>

type_synonym edit = "jsstring \<times> (position \<times> position) \<times> jsstring"
type_synonym texts = "jsstring \<Rightarrow> jsstring option"

definition spec_edit :: "texts \<Rightarrow> edit \<Rightarrow> texts option" where
  "spec_edit doc e =
     (case e of (path, rng, txt) \<Rightarrow>
        (case doc path of
           None \<Rightarrow> None
         | Some current \<Rightarrow>
             (case (positionToOffset current (fst rng), positionToOffset current (snd rng)) of
                (Inr i, Inr j) \<Rightarrow>
                  if j < i then None
                  else Some (\<lambda>q. if normalizeProtocolPath q = normalizeProtocolPath path
                                 then Some (splice i j txt current) else doc q)
              | _ \<Rightarrow> None)))"

fun edit_all :: "('s \<Rightarrow> edit \<Rightarrow> 's option) \<Rightarrow> 's \<Rightarrow> edit list \<Rightarrow> 's option" where
  "edit_all f s [] = Some s"
| "edit_all f s (e # es) = (case f s e of None \<Rightarrow> None | Some s' \<Rightarrow> edit_all f s' es)"

text \<open>
  The calls the live service makes: \<open>getBuffer\<close>, an edit up to its first wait, the end of an edit with
  its snapshot, and \<open>getCachedPage\<close>. \<open>ready\<close> are the sessions that are open and have not failed.
\<close>

locale live_editor =
  fixes texts :: "'s \<Rightarrow> texts"
    and edit_step :: "'s \<Rightarrow> edit \<Rightarrow> 's option"
    and ready :: "'s \<Rightarrow> bool"
  assumes edit_spec: "ready s \<Longrightarrow> map_option texts (edit_step s e) = spec_edit (texts s) e"
    and edit_ready: "ready s \<Longrightarrow> edit_step s e = Some s' \<Longrightarrow> ready s'"
begin

lemma edits_spec: "ready s \<Longrightarrow> map_option texts (edit_all edit_step s es) = edit_all spec_edit (texts s) es"
proof (induction es arbitrary: s)
  case (Cons e es)
  show ?case
  proof (cases "edit_step s e")
    case None
    with edit_spec [OF Cons.prems, of e] show ?thesis by (auto split: option.splits)
  next
    case (Some s')
    with edit_spec [OF Cons.prems, of e] have "spec_edit (texts s) e = Some (texts s')" by auto
    with Some Cons.IH [OF edit_ready [OF Cons.prems Some]] show ?thesis by simp
  qed
qed simp

lemma edit_refused: "ready s \<Longrightarrow> edit_step s e = None \<longleftrightarrow> spec_edit (texts s) e = None"
  using edit_spec [of s e] by (cases "edit_step s e"; cases "spec_edit (texts s) e") auto

end

locale live_session = live_editor +
  fixes finish :: "TexpressoSnapshot \<Rightarrow> 's \<Rightarrow> 's"
    and cached :: "'s \<Rightarrow> int \<Rightarrow> int \<Rightarrow> TexpressoRenderedPage option"
  assumes finish_texts: "texts (finish snap s) = texts s"
    and finish_drops: "snap_result snap = SnapSuccess \<Longrightarrow> cached (finish snap s) page dpi = None"
begin

text \<open>After an edit that compiled, the texts are those of the edit and no older page is cached.\<close>

lemma edit_finished:
  assumes "ready s" "edit_step s e = Some s'" "snap_result snap = SnapSuccess"
  shows "spec_edit (texts s) e = Some (texts (finish snap s')) \<and> cached (finish snap s') page dpi = None"
  using assms edit_spec [of s e] finish_texts [of snap s'] finish_drops [of snap s'] by auto

end

section \<open>TeXpresso behind the interface\<close>

definition texpresso_edit :: "jsstring \<Rightarrow> session \<Rightarrow> edit \<Rightarrow> session option" where
  "texpresso_edit cwd s e =
     (case e of (path, rng, txt) \<Rightarrow>
        (case applyRangeChange cwd path rng txt s of
           (s', _, Waiting _) \<Rightarrow> Some s'
         | (s', _, Ready _) \<Rightarrow> Some s'
         | (_, _, Rejected _) \<Rightarrow> None))"

definition texpresso_ready :: "session \<Rightarrow> bool" where
  "texpresso_ready s \<longleftrightarrow> \<not> closed s \<and> exitError s = None"

lemma texpresso_edit_spec:
  "texpresso_ready s \<Longrightarrow> map_option get_buffer (texpresso_edit cwd s e) = spec_edit (get_buffer s) e"
  by (cases e)
     (auto simp: texpresso_edit_def applyRangeChange_def spec_edit_def texpresso_ready_def get_buffer_def
        send_def waitForFlush_def update_conv' fun_eq_iff Let_def split: option.split sum.split)

lemma texpresso_edit_ready: "texpresso_ready s \<Longrightarrow> texpresso_edit cwd s e = Some s' \<Longrightarrow> texpresso_ready s'"
  by (cases e)
     (auto simp: texpresso_edit_def texpresso_ready_def elim!: applyRangeChange_cases
        split: prod.splits answer.splits)

interpretation texpresso_live: live_session get_buffer "texpresso_edit cwd" texpresso_ready
    rangeChange_resume "\<lambda>s page dpi. getCachedPage page dpi theme s"
  for cwd theme
  by unfold_locales
     (auto simp: texpresso_edit_spec texpresso_edit_ready rangeChange_resume_def get_buffer_def
        getCachedPage_def fun_eq_iff)

section \<open>The full compiler\<close>

record full_session =
  full_root :: jsstring
  full_main :: jsstring
  full_buffers :: "(jsstring \<times> jsstring) list"
  full_pages :: "(jsstring \<times> TexpressoRenderedPage) list"
  full_snapshot :: TexpressoSnapshot
  full_aborted :: bool
  full_closed :: bool

definition normalizePath :: "jsstring \<Rightarrow> jsstring" where
  "normalizePath path =
     (let p = map (\<lambda>c. if c = 92 then 47 else c) path
      in if prefix (js ''./'') p then drop 2 p else p)"

definition emptySnapshot :: TexpressoSnapshot where
  "emptySnapshot = \<lparr>snap_flush = 0, snap_output = [], snap_log = [], snap_inputFiles = [], snap_lookups = [],
     snap_stderr = [], snap_result = SnapSuccess\<rparr>"

definition new_full :: "jsstring \<Rightarrow> jsstring \<Rightarrow> (jsstring \<times> jsstring) list \<Rightarrow> full_session" where
  "new_full root main files =
     \<lparr>full_root = root, full_main = main,
      full_buffers = fold (\<lambda>f m. AList.update (normalizePath (fst f)) (snd f) m) files [],
      full_pages = [], full_snapshot = emptySnapshot, full_aborted = False, full_closed = False\<rparr>"

text \<open>\<open>join(...)\<close>, \<open>basename\<close> and \<open>extname\<close> of \<^verbatim>\<open>node:path\<close>\<close>

definition posix_join :: "jsstring list \<Rightarrow> jsstring" where
  "posix_join ps =
     (let j = join_with [47] (filter (\<lambda>p. p \<noteq> []) ps) in if j = [] then js ''.'' else posix_normalize j)"

definition posix_basename :: "jsstring \<Rightarrow> jsstring" where
  "posix_basename p = (if segments p = [] then [] else last (segments p))"

definition posix_extname :: "jsstring \<Rightarrow> jsstring" where
  "posix_extname p =
     (let b = posix_basename p; stem = rev (dropWhile (\<lambda>c. c \<noteq> 46) (rev b))
      in if b = js ''..'' \<or> length stem \<le> 1 then [] else drop (length stem - 1) b)"

definition strip_ext :: "jsstring \<Rightarrow> jsstring \<Rightarrow> jsstring" where
  "strip_ext b ext = (if ext \<noteq> [] \<and> suffix ext b \<and> b \<noteq> ext then take (length b - length ext) b else b)"

definition pdfPath :: "full_session \<Rightarrow> jsstring" where
  "pdfPath s = posix_join [full_root s, posix_dirname (full_main s),
     strip_ext (posix_basename (full_main s)) (posix_extname (full_main s)) @ js ''.pdf'']"

definition logPath :: "full_session \<Rightarrow> jsstring" where
  "logPath s = posix_join [full_root s, posix_dirname (full_main s),
     strip_ext (posix_basename (full_main s)) (posix_extname (full_main s)) @ js ''.log'']"

datatype full_error =
    FullClosed
  | FullFileNotOpen jsstring
  | FullBadPosition position_error
  | FullEndPrecedesStart
  | FullPageOutOfRange int
  | FullNoPdf

text \<open>
  \<open>applyRangeChange\<close> up to its first \<open>await\<close>: the new state and the file the edit writes, then the
  compilation and its end. \<open>compilerLog\<close> is empty when the log cannot be read.
\<close>

definition full_applyRangeChange ::
  "jsstring \<Rightarrow> position \<times> position \<Rightarrow> jsstring \<Rightarrow> full_session \<Rightarrow>
   full_error + full_session \<times> jsstring \<times> jsstring"
where
  "full_applyRangeChange path rng replacement s =
     (if full_closed s then Inl FullClosed
      else let normalized = normalizePath path
           in case map_of (full_buffers s) normalized of
                None \<Rightarrow> Inl (FullFileNotOpen normalized)
              | Some current \<Rightarrow>
                  (case positionToOffset current (fst rng) of
                     Inl e \<Rightarrow> Inl (FullBadPosition e)
                   | Inr i \<Rightarrow>
                       (case positionToOffset current (snd rng) of
                          Inl e \<Rightarrow> Inl (FullBadPosition e)
                        | Inr j \<Rightarrow>
                            if j < i then Inl FullEndPrecedesStart
                            else let nxt = splice i j replacement current
                                 in Inr (s\<lparr>full_buffers := AList.update normalized nxt (full_buffers s)\<rparr>,
                                         posix_join (full_root s # split_on 47 normalized), nxt))))"

definition full_compiled :: "int \<Rightarrow> jsstring \<Rightarrow> jsstring \<Rightarrow> jsstring \<Rightarrow> full_session \<Rightarrow> full_session" where
  "full_compiled exitCode out_text err_text compilerLog s =
     (let output = join_with [10] (filter (\<lambda>t. t \<noteq> []) [out_text, err_text, compilerLog])
      in s\<lparr>full_snapshot := \<lparr>snap_flush = snap_flush (full_snapshot s) + 1, snap_output = output,
             snap_log = compilerLog, snap_inputFiles = map fst (full_buffers s), snap_lookups = [],
             snap_stderr = err_text,
             snap_result = (if exitCode = 0 \<and> \<not> hasLatexError output then SnapSuccess else SnapLatexError)\<rparr>,
           full_pages := []\<rparr>)"

definition full_key :: "int \<Rightarrow> int \<Rightarrow> jsstring" where
  "full_key page dpi = int_dec page @ js '':'' @ int_dec dpi"

text \<open>
  \<open>renderPage\<close>: the cached page, or the check that there is a PDF to open; then, with the page count
  and the pixels of the opened document, the rendered page.
\<close>

definition full_render_begin ::
  "int \<Rightarrow> int \<Rightarrow> full_session \<Rightarrow> full_error + TexpressoRenderedPage option" where
  "full_render_begin page dpi s =
     (if full_closed s then Inl FullClosed else Inr (map_of (full_pages s) (full_key page dpi)))"

definition full_open_pdf :: "full_session \<Rightarrow> full_error + jsstring" where
  "full_open_pdf s = (if snap_result (full_snapshot s) \<noteq> SnapSuccess then Inl FullNoPdf else Inr (pdfPath s))"

definition full_render_done ::
  "int \<Rightarrow> (int \<Rightarrow> int \<times> int \<times> bytes) \<Rightarrow> int \<Rightarrow> int \<Rightarrow> full_session \<Rightarrow>
   full_error + full_session \<times> TexpressoRenderedPage"
where
  "full_render_done pages pixmap page dpi s =
     (if page < 0 \<or> page \<ge> pages then Inl (FullPageOutOfRange page)
      else case pixmap page of (w, h, png) \<Rightarrow>
        (let img = \<lparr>page_no = page, page_width = w, page_height = h, page_dpi = dpi, page_data = png\<rparr>
         in Inr (s\<lparr>full_pages := AList.update (full_key page dpi) img (full_pages s)\<rparr>, img)))"

definition full_getCachedPage :: "int \<Rightarrow> int \<Rightarrow> full_session \<Rightarrow> TexpressoRenderedPage option" where
  "full_getCachedPage page dpi s = map_of (full_pages s) (full_key page dpi)"

definition full_getBuffer :: "full_session \<Rightarrow> jsstring \<Rightarrow> jsstring option" where
  "full_getBuffer s path = map_of (full_buffers s) (normalizePath path)"

definition full_close :: "full_session \<Rightarrow> full_session" where
  "full_close s = s\<lparr>full_closed := True, full_aborted := True, full_pages := []\<rparr>"

text \<open>\<open>startLiveLatexSession\<close>: which implementation a session gets.\<close>

datatype backend = TexpressoBackend | FullBackend

definition live_backend :: "bool \<Rightarrow> jsstring option \<Rightarrow> bool \<Rightarrow> backend" where
  "live_backend win backend_env can_spawn =
     (if \<not> win \<and> backend_env \<noteq> Some (js ''full'') \<and> can_spawn then TexpressoBackend else FullBackend)"

definition full_edit :: "full_session \<Rightarrow> edit \<Rightarrow> full_session option" where
  "full_edit s e =
     (case e of (path, rng, txt) \<Rightarrow>
        (case full_applyRangeChange path rng txt s of Inl _ \<Rightarrow> None | Inr (s', _, _) \<Rightarrow> Some s'))"

definition full_ready :: "full_session \<Rightarrow> bool" where
  "full_ready s \<longleftrightarrow> \<not> full_closed s"

lemma normalizePath_protocol: "normalizePath p = normalizeProtocolPath p"
  by (simp add: normalizePath_def normalizeProtocolPath_def)

lemma full_edit_spec: "full_ready s \<Longrightarrow> map_option full_getBuffer (full_edit s e) = spec_edit (full_getBuffer s) e"
  by (cases e)
     (auto simp: full_edit_def full_applyRangeChange_def spec_edit_def full_ready_def full_getBuffer_def
        update_conv' normalizePath_protocol fun_eq_iff Let_def split: option.split sum.split)

lemma full_edit_ready: "full_ready s \<Longrightarrow> full_edit s e = Some s' \<Longrightarrow> full_ready s'"
  by (cases e)
     (auto simp: full_edit_def full_applyRangeChange_def full_ready_def Let_def
        split: option.splits sum.splits if_splits)

text \<open>Whatever a compilation answers, its end drops every page.\<close>

definition full_finish :: "int \<Rightarrow> jsstring \<Rightarrow> TexpressoSnapshot \<Rightarrow> full_session \<Rightarrow> full_session" where
  "full_finish exitCode out_text snap s = full_compiled exitCode out_text (snap_stderr snap) (snap_log snap) s"

interpretation full_live: live_session full_getBuffer full_edit full_ready
    "full_finish exitCode out_text" "\<lambda>s page dpi. full_getCachedPage page dpi s"
  for exitCode out_text
  by unfold_locales
     (auto simp: full_edit_spec full_edit_ready full_finish_def full_compiled_def full_getBuffer_def
        full_getCachedPage_def fun_eq_iff Let_def)

section \<open>Properties\<close>

text \<open>The texts both backends start from: the last content of each path.\<close>

definition initial_texts :: "(jsstring \<times> jsstring) list \<Rightarrow> texts" where
  "initial_texts files path = map_of (rev (map (map_prod normalizeProtocolPath id) files)) (normalizeProtocolPath path)"

lemma map_of_updates: "map_of (fold (\<lambda>f m. AList.update (g (fst f)) (snd f) m) files al) k =
    (case map_of (rev (map (map_prod g id) files)) k of None \<Rightarrow> map_of al k | Some v \<Rightarrow> Some v)"
proof (induction files arbitrary: al)
  case (Cons f files)
  show ?case
    by (simp add: Cons update_conv' map_add_def map_prod_def split_def split: option.split)
qed simp

lemma started_texts: "get_buffer (started root files) = initial_texts files"
  by (simp add: fun_eq_iff get_buffer_def started_def new_session_def initial_texts_def map_of_updates
      split: option.split)

lemma new_full_texts: "full_getBuffer (new_full root main files) = initial_texts files"
  by (simp add: fun_eq_iff full_getBuffer_def new_full_def initial_texts_def normalizePath_protocol map_of_updates
      split: option.split)

text \<open>
  C13: the two live backends agree. Started on the same files, they accept the same sequences of edits
  and show the same texts after them, which are those of the splice specification.
\<close>

theorem live_backends_agree:
  "map_option get_buffer (edit_all (texpresso_edit cwd) (started root files) es) =
     edit_all spec_edit (initial_texts files) es \<and>
   map_option full_getBuffer (edit_all full_edit (new_full root main files) es) =
     edit_all spec_edit (initial_texts files) es"
proof -
  have "texpresso_ready (started root files)"
    by (simp add: texpresso_ready_def started_def new_session_def)
  moreover have "full_ready (new_full root main files)"
    by (simp add: full_ready_def new_full_def)
  ultimately show ?thesis
    using texpresso_live.edits_spec [of "started root files" cwd es]
      full_live.edits_spec [of "new_full root main files" es]
    by (simp add: started_texts new_full_texts)
qed

text \<open>
  When an edit of a ready TeXpresso session ends with a successful snapshot, the session shows the
  edited texts and serves no page rendered before.
\<close>

theorem texpresso_edit_drops_pages:
  assumes "texpresso_ready s" "texpresso_edit cwd s e = Some s'" "snap_result snap = SnapSuccess"
  shows "spec_edit (get_buffer s) e = Some (get_buffer (rangeChange_resume snap s')) \<and>
    getCachedPage page dpi theme (rangeChange_resume snap s') = None"
  using texpresso_live.edit_finished [OF assms] by simp

theorem texpresso_edit_drops_pages_witness:
  "\<exists>s'. getCachedPage 0 144 None (rangeChange_resume emptySnapshot s') = None \<and>
     get_buffer s' (js ''main.tex'') = Some (js ''yx'')"
proof -
  let ?s = "run_session sample_run"
  let ?e = "(js ''main.tex'', ((0, 0), (0, 0)), js ''y'') :: edit"
  have path: "normalizeProtocolPath (js ''main.tex'') = js ''main.tex''"
    by (simp add: normalizeProtocolPath_def js_def)
  have ready: "texpresso_ready ?s"
    by (simp add: texpresso_ready_def sample_run_def sample_settled_def sample_start_def started_def new_session_def)
  have body: "get_buffer ?s (js ''main.tex'') = Some (js ''x'')"
    by (simp add: get_buffer_def sample_run_def sample_settled_def sample_start_def started_def new_session_def path)
  obtain f where f: "spec_edit (get_buffer ?s) ?e = Some f" "f (js ''main.tex'') = Some (js ''yx'')"
    by (simp add: spec_edit_def body positionToOffset_def splice_def) (simp add: js_def)
  then obtain s' where s': "texpresso_edit [] ?s ?e = Some s'"
    using texpresso_live.edit_refused [OF ready, of "[]" ?e] by auto
  have "snap_result emptySnapshot = SnapSuccess" by (simp add: emptySnapshot_def)
  from texpresso_edit_drops_pages [OF ready s' this, of 0 144 None] f
  have "get_buffer (rangeChange_resume emptySnapshot s') = f"
    "getCachedPage 0 144 None (rangeChange_resume emptySnapshot s') = None" by auto
  moreover have "get_buffer (rangeChange_resume emptySnapshot s') = get_buffer s'"
    by (rule texpresso_live.finish_texts)
  ultimately show ?thesis using f(2) by (intro exI [of _ s']) simp
qed

end
