(* ===== verification/WsProtocol.thy ===== *)
theory WsProtocol
  imports Paths
begin

text \<open>
  \<^verbatim>\<open>typr-server/texpressoWsProtocol.ts\<close>: the validator of the frames a live-preview client sends.
  A frame is a parsed JSON value; the answer is the message it stands for or a rejection with the
  code and the revision the client gets back. The texts of the rejections are left out. The host
  platform (\<open>process.platform === "win32"\<close>) is the parameter \<open>win\<close>.
\<close>

section \<open>Limits\<close>

definition maxMessageBytes :: nat where "maxMessageBytes = 25 * 1024 * 1024"
definition maxProjectBytes :: nat where "maxProjectBytes = 25 * 1024 * 1024"
definition maxProjectFiles :: nat where "maxProjectFiles = 512"
definition maxQueuedRevisions :: nat where "maxQueuedRevisions = 64"
definition maxPageBytes :: nat where "maxPageBytes = 16 * 1024 * 1024"
definition maxDocumentImageBytes :: nat where "maxDocumentImageBytes = 128 * 1024 * 1024"
definition maxPages :: nat where "maxPages = 64"
definition maxDiagnosticLogChars :: nat where "maxDiagnosticLogChars = 32 * 1024"
definition minDpi :: int where "minDpi = MIN_TEXPRESSO_RENDER_DPI"
definition maxDpi :: int where "maxDpi = MAX_TEXPRESSO_RENDER_DPI"
definition defaultDpi :: int where "defaultDpi = DEFAULT_TEXPRESSO_RENDER_DPI"

section \<open>Field checks\<close>

text \<open>A rejection: its code and the revision it carries, if any.\<close>

type_synonym rejection = "string \<times> int option"

definition validRevision :: "json option \<Rightarrow> int option" where
  "validRevision v =
     (case as_integer v of
        None \<Rightarrow> None
      | Some n \<Rightarrow> if is_safe n \<and> n > 0 then Some n else None)"

definition validRgbColor :: "json option \<Rightarrow> int option" where
  "validRgbColor v =
     (case as_integer v of
        None \<Rightarrow> None
      | Some n \<Rightarrow> if n \<ge> 0 \<and> n \<le> 0xffffff then Some n else None)"

definition has_drive :: "jsstring \<Rightarrow> bool" where
  "has_drive p = (case p of c # d # _ \<Rightarrow> is_letter c \<and> d = 58 | _ \<Rightarrow> False)"

definition validatePrivateProjectPath :: "bool \<Rightarrow> json option \<Rightarrow> path_label \<Rightarrow> path_message option" where
  "validatePrivateProjectPath win v label =
     (case as_string v of
        None \<Rightarrow> Some (label, NotNonEmptyRelative)
      | Some p \<Rightarrow>
          if p = [] then Some (label, NotNonEmptyRelative)
          else if p = js ''.'' \<or> suffix (js ''/'') p \<or> 0 \<in> set p \<or> 92 \<in> set p \<or>
                  prefix (js ''/'') p \<or> has_drive p
          then Some (label, NotSafeRelativePosix)
          else let segs = split_on 47 p
               in if list_ex (\<lambda>s. s = js ''..'' \<or> s = []) segs then Some (label, ParentTraversal)
                  else if win \<and> list_ex isWindowsUnsafePathSegment segs
                  then Some (label, WindowsUnsafeName)
                  else None)"

definition isPosition :: "json option \<Rightarrow> TexpressoPosition option" where
  "isPosition v =
     (case v of
        None \<Rightarrow> None
      | Some p \<Rightarrow>
          if \<not> isRecord p then None
          else (case (as_integer (field p ''line''), as_integer (field p ''character'')) of
                  (Some l, Some c) \<Rightarrow>
                    if l \<ge> 0 \<and> c \<ge> 0 then Some \<lparr>line = nat l, character = nat c\<rparr> else None
                | _ \<Rightarrow> None))"

definition isRange :: "json option \<Rightarrow> TexpressoRange option" where
  "isRange v =
     (case v of
        None \<Rightarrow> None
      | Some r \<Rightarrow>
          if \<not> isRecord r then None
          else (case (isPosition (field r ''start''), isPosition (field r ''end'')) of
                  (Some s, Some e) \<Rightarrow> Some \<lparr>range_start = s, range_end = e\<rparr>
                | _ \<Rightarrow> None))"

section \<open>Messages\<close>

text \<open>
  The loop over \<open>value.files\<close>: \<open>index\<close>, \<open>seen\<close> and \<open>decodedBytes\<close> as in the code, \<open>files\<close> in reverse.
\<close>

fun validateFiles ::
  "bool \<Rightarrow> int \<Rightarrow> nat \<Rightarrow> jsstring list \<Rightarrow> nat \<Rightarrow> ProjectFile list \<Rightarrow> json list \<Rightarrow> rejection + ProjectFile list"
where
  "validateFiles win revision index seen decodedBytes files [] = Inr (rev files)"
| "validateFiles win revision index seen decodedBytes files (f # fs) =
     (if \<not> isRecord f then Inl (''invalid-project'', Some revision)
      else case validatePrivateProjectPath win (field f ''path'') (FileEntry index) of
        Some _ \<Rightarrow> Inl (''invalid-project'', Some revision)
      | None \<Rightarrow>
          (case as_string (field f ''path'') of
             None \<Rightarrow> Inl (''invalid-project'', Some revision)
           | Some path \<Rightarrow>
               if path \<in> set seen then Inl (''invalid-project'', Some revision)
               else
                 (case (field f ''kind'', as_string (field f ''content'')) of
                    (Some (JStr kind), Some content) \<Rightarrow>
                      if kind = js ''text'' then
                        (let decodedBytes = decodedBytes + byte_length content
                         in if decodedBytes > maxProjectBytes
                            then Inl (''project-too-large'', Some revision)
                            else validateFiles win revision (Suc index) (path # seen) decodedBytes
                                   (TextProjectFile path content # files) fs)
                      else if kind = js ''binary'' \<and> field f ''encoding'' = Some (JStr (js ''base64'')) \<and>
                              isBase64 content then
                        (let decodedBytes = decodedBytes + base64_byteLength content
                         in if decodedBytes > maxProjectBytes
                            then Inl (''project-too-large'', Some revision)
                            else validateFiles win revision (Suc index) (path # seen) decodedBytes
                                   (BinaryProjectFile path content # files) fs)
                      else Inl (''invalid-project'', Some revision)
                  | _ \<Rightarrow> Inl (''invalid-project'', Some revision))))"

text \<open>The \<open>render\<close> member: the resolution and the theme, or \<open>None\<close> for a rejected setting.\<close>

definition render_settings :: "json option \<Rightarrow> (int \<times> TexpressoRenderTheme option) option" where
  "render_settings v =
     (case v of
        None \<Rightarrow> Some (defaultDpi, None)
      | Some r \<Rightarrow>
          if \<not> isRecord r \<or> (field r ''dpi'' \<noteq> None \<and> as_integer (field r ''dpi'') = None) then None
          else
            (let dpi = (case as_integer (field r ''dpi'') of None \<Rightarrow> defaultDpi | Some d \<Rightarrow> d)
             in case field r ''theme'' of
                  None \<Rightarrow> Some (dpi, None)
                | Some t \<Rightarrow>
                    if \<not> isRecord t then None
                    else (case (validRgbColor (field t ''foreground''), validRgbColor (field t ''background'')) of
                            (Some fg, Some bg) \<Rightarrow> Some (dpi, Some \<lparr>foreground = fg, background = bg\<rparr>)
                          | _ \<Rightarrow> None)))"

definition validateInitialize :: "bool \<Rightarrow> json \<Rightarrow> rejection + TexpressoClientMessage" where
  "validateInitialize win v =
     (if field v ''protocolVersion'' \<noteq> Some (JInt TEXPRESSO_WS_PROTOCOL_VERSION)
      then Inl (''unsupported-protocol-version'', None)
      else case validRevision (field v ''revision'') of
        None \<Rightarrow> Inl (''invalid-revision'', None)
      | Some revision \<Rightarrow>
          (case validatePrivateProjectPath win (field v ''mainFilePath'') MainFilePath of
             Some _ \<Rightarrow> Inl (''invalid-project'', Some revision)
           | None \<Rightarrow>
               (case (as_string (field v ''mainFilePath''), as_array (field v ''files'')) of
                  (Some mainFilePath, Some entries) \<Rightarrow>
                    if entries = [] \<or> length entries > maxProjectFiles
                    then Inl (''invalid-project'', Some revision)
                    else (case validateFiles win revision 0 [] 0 [] entries of
                            Inl e \<Rightarrow> Inl e
                          | Inr files \<Rightarrow>
                              (case List.find (\<lambda>f. file_path f = mainFilePath) files of
                                 None \<Rightarrow> Inl (''invalid-project'', Some revision)
                               | Some main \<Rightarrow>
                                   if \<not> is_text main then Inl (''invalid-project'', Some revision)
                                   else (case render_settings (field v ''render'') of
                                           None \<Rightarrow> Inl (''invalid-render-settings'', Some revision)
                                         | Some (dpi, theme) \<Rightarrow>
                                             if dpi < minDpi \<or> dpi > maxDpi
                                             then Inl (''invalid-render-settings'', Some revision)
                                             else Inr (Initialize
                                               \<lparr>init_protocolVersion = TEXPRESSO_WS_PROTOCOL_VERSION,
                                                init_revision = revision,
                                                init_mainFilePath = mainFilePath,
                                                init_dpi = dpi, init_theme = theme,
                                                init_files = files\<rparr>))))
                | _ \<Rightarrow> Inl (''invalid-project'', Some revision))))"

definition validateChange :: "bool \<Rightarrow> json \<Rightarrow> rejection + TexpressoClientMessage" where
  "validateChange win v =
     (case validRevision (field v ''revision'') of
        None \<Rightarrow> Inl (''invalid-revision'', None)
      | Some revision \<Rightarrow>
          (case validatePrivateProjectPath win (field v ''path'') ChangePath of
             Some _ \<Rightarrow> Inl (''invalid-change'', Some revision)
           | None \<Rightarrow>
               (case (as_string (field v ''path''), as_string (field v ''text''), isRange (field v ''range'')) of
                  (Some path, Some txt, Some rng) \<Rightarrow>
                    Inr (Change \<lparr>change_revision = revision, change_path = path,
                                 change_range = rng, change_text = txt\<rparr>)
                | _ \<Rightarrow> Inl (''invalid-change'', Some revision))))"

definition validateTexpressoClientMessage :: "bool \<Rightarrow> json \<Rightarrow> rejection + TexpressoClientMessage" where
  "validateTexpressoClientMessage win v =
     (if \<not> isRecord v then Inl (''malformed-message'', None)
      else case as_string (field v ''type'') of
        None \<Rightarrow> Inl (''malformed-message'', None)
      | Some t \<Rightarrow>
          if t = js ''shutdown'' then Inr Shutdown
          else if t = js ''initialize'' then validateInitialize win v
          else if t = js ''change'' then validateChange win v
          else Inl (''unknown-message-type'', None))"

section \<open>Lemmas\<close>

definition safe_private_path :: "bool \<Rightarrow> jsstring \<Rightarrow> bool" where
  "safe_private_path win p \<longleftrightarrow> validatePrivateProjectPath win (Some (JStr p)) ChangePath = None"

lemma private_path_label:
  "validatePrivateProjectPath win v label = None \<longleftrightarrow>
     (\<exists>p. v = Some (JStr p) \<and> safe_private_path win p)"
  by (auto simp: validatePrivateProjectPath_def safe_private_path_def Let_def split: option.splits if_splits)

fun file_size :: "ProjectFile \<Rightarrow> nat" where
  "file_size (TextProjectFile _ content) = byte_length content"
| "file_size (BinaryProjectFile _ content) = base64_byteLength content"

fun file_ok :: "bool \<Rightarrow> ProjectFile \<Rightarrow> bool" where
  "file_ok win (TextProjectFile path _) = safe_private_path win path"
| "file_ok win (BinaryProjectFile path content) = (safe_private_path win path \<and> isBase64 content)"

text \<open>One entry of \<open>files\<close> on its own.\<close>

definition parse_entry :: "bool \<Rightarrow> json \<Rightarrow> ProjectFile option" where
  "parse_entry win f =
     (if \<not> isRecord f then None
      else case (field f ''path'', field f ''kind'', as_string (field f ''content'')) of
        (Some (JStr path), Some (JStr kind), Some content) \<Rightarrow>
          if \<not> safe_private_path win path then None
          else if kind = js ''text'' then Some (TextProjectFile path content)
          else if kind = js ''binary'' \<and> field f ''encoding'' = Some (JStr (js ''base64'')) \<and> isBase64 content
          then Some (BinaryProjectFile path content)
          else None
      | _ \<Rightarrow> None)"

lemma validateFiles_step:
  "validateFiles win rev_no i seen n acc (f # fs) =
     (case parse_entry win f of
        None \<Rightarrow> Inl (''invalid-project'', Some rev_no)
      | Some pf \<Rightarrow>
          if file_path pf \<in> set seen then Inl (''invalid-project'', Some rev_no)
          else if n + file_size pf > maxProjectBytes then Inl (''project-too-large'', Some rev_no)
          else validateFiles win rev_no (Suc i) (file_path pf # seen) (n + file_size pf) (pf # acc) fs)"
proof (cases "isRecord f \<and> validatePrivateProjectPath win (field f ''path'') (FileEntry i) = None")
  case False
  then show ?thesis
    by (auto simp: parse_entry_def private_path_label split: option.splits json.splits if_splits)
next
  case True
  then obtain p where p: "field f ''path'' = Some (JStr p)" "safe_private_path win p"
    by (auto simp: private_path_label)
  with True show ?thesis
    by (auto simp: parse_entry_def Let_def split: option.splits json.splits)
qed

lemma parse_entry_ok: "parse_entry win f = Some pf \<Longrightarrow> file_ok win pf"
  by (auto simp: parse_entry_def split: option.splits json.splits if_splits)

lemma validateFiles_sound:
  assumes "validateFiles win rev_no i seen n acc fs = Inr out" and "n \<le> maxProjectBytes"
  shows "\<exists>files. out = rev acc @ files \<and> length files = length fs \<and> list_all (file_ok win) files \<and>
    distinct (map file_path files) \<and> file_path ` set files \<inter> set seen = {} \<and>
    n + sum_list (map file_size files) \<le> maxProjectBytes"
  using assms
proof (induction fs arbitrary: i seen n acc)
  case Nil
  then show ?case by auto
next
  case (Cons f fs)
  from Cons.prems(1) obtain pf where pf: "parse_entry win f = Some pf" "file_path pf \<notin> set seen"
    and size: "n + file_size pf \<le> maxProjectBytes"
    and next_call: "validateFiles win rev_no (Suc i) (file_path pf # seen) (n + file_size pf) (pf # acc) fs = Inr out"
    by (auto simp: validateFiles_step simp del: validateFiles.simps(2) split: option.splits if_splits)
  from Cons.IH [OF next_call size] obtain files where
    "out = rev (pf # acc) @ files" "length files = length fs" "list_all (file_ok win) files"
    "distinct (map file_path files)" "file_path ` set files \<inter> set (file_path pf # seen) = {}"
    "n + file_size pf + sum_list (map file_size files) \<le> maxProjectBytes"
    by blast
  with pf parse_entry_ok [OF pf(1)] show ?case
    by (intro exI [of _ "pf # files"]) auto
qed

lemma parse_entry_json: "file_ok win f \<Longrightarrow> parse_entry win (file_json f) = Some f"
  by (cases f) (simp_all add: parse_entry_def)

lemma validateFiles_complete:
  assumes "list_all (file_ok win) files" "distinct (map file_path files)"
    "file_path ` set files \<inter> set seen = {}" "n + sum_list (map file_size files) \<le> maxProjectBytes"
  shows "validateFiles win rev_no i seen n acc (map file_json files) = Inr (rev acc @ files)"
  using assms
proof (induction files arbitrary: i seen n acc)
  case Nil
  then show ?case by simp
next
  case (Cons f files)
  then have "parse_entry win (file_json f) = Some f" by (simp add: parse_entry_json)
  moreover have "validateFiles win rev_no (Suc i) (file_path f # seen) (n + file_size f) (f # acc)
      (map file_json files) = Inr (rev (f # acc) @ files)"
    using Cons.prems by (intro Cons.IH) auto
  ultimately show ?case
    using Cons.prems by (simp add: validateFiles_step del: validateFiles.simps(2))
qed


text \<open>What an accepted message satisfies, and the frame that stands for a message.\<close>

definition wf_revision :: "int \<Rightarrow> bool" where
  "wf_revision n \<longleftrightarrow> 0 < n \<and> n \<le> max_safe"

definition wf_color :: "int \<Rightarrow> bool" where
  "wf_color n \<longleftrightarrow> 0 \<le> n \<and> n \<le> 0xffffff"

fun wf_theme :: "TexpressoRenderTheme option \<Rightarrow> bool" where
  "wf_theme None = True"
| "wf_theme (Some t) = (wf_color (foreground t) \<and> wf_color (background t))"

definition wf_files :: "bool \<Rightarrow> ProjectFile list \<Rightarrow> bool" where
  "wf_files win files \<longleftrightarrow> files \<noteq> [] \<and> length files \<le> maxProjectFiles \<and>
     list_all (file_ok win) files \<and> distinct (map file_path files) \<and>
     sum_list (map file_size files) \<le> maxProjectBytes"

fun wf_message :: "bool \<Rightarrow> TexpressoClientMessage \<Rightarrow> bool" where
  "wf_message win Shutdown = True"
| "wf_message win (Change c) = (wf_revision (change_revision c) \<and> safe_private_path win (change_path c))"
| "wf_message win (Initialize m) =
     (init_protocolVersion m = TEXPRESSO_WS_PROTOCOL_VERSION \<and> wf_revision (init_revision m) \<and>
      safe_private_path win (init_mainFilePath m) \<and> wf_files win (init_files m) \<and>
      list_ex (\<lambda>f. file_path f = init_mainFilePath m \<and> is_text f) (init_files m) \<and>
      minDpi \<le> init_dpi m \<and> init_dpi m \<le> maxDpi \<and> wf_theme (init_theme m))"

definition position_json :: "TexpressoPosition \<Rightarrow> json" where
  "position_json p = obj [(''line'', JInt (int (line p))), (''character'', JInt (int (character p)))]"

definition range_json :: "TexpressoRange \<Rightarrow> json" where
  "range_json r = obj [(''start'', position_json (range_start r)), (''end'', position_json (range_end r))]"

definition render_json :: "int \<Rightarrow> TexpressoRenderTheme option \<Rightarrow> json" where
  "render_json dpi theme =
     obj ((''dpi'', JInt dpi) #
       (case theme of None \<Rightarrow> []
        | Some t \<Rightarrow> [(''theme'', obj [(''foreground'', JInt (foreground t)), (''background'', JInt (background t))])]))"

fun message_json :: "TexpressoClientMessage \<Rightarrow> json" where
  "message_json Shutdown = obj [(''type'', JStr (js ''shutdown''))]"
| "message_json (Change c) =
     obj [(''type'', JStr (js ''change'')), (''revision'', JInt (change_revision c)),
          (''path'', JStr (change_path c)), (''range'', range_json (change_range c)),
          (''text'', JStr (change_text c))]"
| "message_json (Initialize m) =
     obj [(''type'', JStr (js ''initialize'')), (''protocolVersion'', JInt (init_protocolVersion m)),
          (''revision'', JInt (init_revision m)), (''mainFilePath'', JStr (init_mainFilePath m)),
          (''render'', render_json (init_dpi m) (init_theme m)),
          (''files'', JArr (map file_json (init_files m)))]"

lemma validRevision_Some: "validRevision v = Some n \<longleftrightarrow> v = Some (JInt n) \<and> wf_revision n"
  by (auto simp: validRevision_def wf_revision_def is_safe_def split: option.splits if_splits)

lemma validRgbColor_Some: "validRgbColor v = Some n \<longleftrightarrow> v = Some (JInt n) \<and> wf_color n"
  by (auto simp: validRgbColor_def wf_color_def split: option.splits if_splits)

lemma validRevision_json: "wf_revision n \<Longrightarrow> validRevision (Some (JInt n)) = Some n"
  and validRgbColor_json: "wf_color n \<Longrightarrow> validRgbColor (Some (JInt n)) = Some n"
  by (simp_all add: validRevision_Some validRgbColor_Some)

lemma isRange_json: "isRange (Some (range_json r)) = Some r"
  by (simp add: isRange_def isPosition_def range_json_def position_json_def)

lemma render_settings_json:
  "wf_theme theme \<Longrightarrow> render_settings (Some (render_json dpi theme)) = Some (dpi, theme)"
  by (cases theme) (simp_all add: render_settings_def render_json_def validRgbColor_json Let_def)

lemma render_settings_wf: "render_settings v = Some (dpi, theme) \<Longrightarrow> wf_theme theme"
  by (auto simp: render_settings_def Let_def validRgbColor_Some split: option.splits if_splits)

lemma find_distinct:
  assumes "distinct (map k xs)" "x \<in> set xs"
  shows "List.find (\<lambda>y. k y = k x) xs = Some x"
  using assms by (induction xs) auto

lemma validateInitialize_sound:
  "validateInitialize win v = Inr m \<Longrightarrow> wf_message win m"
  by (auto simp: validateInitialize_def validRevision_Some private_path_label wf_files_def list_ex_iff
      dest!: validateFiles_sound render_settings_wf find_Some_mem
      split: option.splits if_splits sum.splits) blast

lemma validateChange_sound: "validateChange win v = Inr m \<Longrightarrow> wf_message win m"
  by (auto simp: validateChange_def validRevision_Some private_path_label split: option.splits)

lemma validate_sound: "validateTexpressoClientMessage win v = Inr m \<Longrightarrow> wf_message win m"
  by (auto simp: validateTexpressoClientMessage_def validateInitialize_sound validateChange_sound
      split: option.splits if_splits)

lemma validateInitialize_complete:
  assumes "wf_message win (Initialize m)"
  shows "validateInitialize win (message_json (Initialize m)) = Inr (Initialize m)"
proof -
  from assms obtain f where f: "f \<in> set (init_files m)" "file_path f = init_mainFilePath m" "is_text f"
    by (auto simp: list_ex_iff)
  with assms find_distinct [of file_path "init_files m" f]
  have main: "List.find (\<lambda>g. file_path g = init_mainFilePath m) (init_files m) = Some f"
    by (simp add: wf_files_def)
  have files: "validateFiles win (init_revision m) 0 [] 0 [] (map file_json (init_files m)) = Inr (init_files m)"
    using assms validateFiles_complete [of win "init_files m" "[]" 0 "init_revision m" 0 "[]"]
    by (simp add: wf_files_def)
  have path: "validatePrivateProjectPath win (Some (JStr (init_mainFilePath m))) MainFilePath = None"
    using assms by (simp add: private_path_label)
  show ?thesis
    using assms f(3)
    by (simp add: validateInitialize_def main files path render_settings_json wf_files_def
        validRevision_json)
qed

lemma validate_complete:
  assumes "wf_message win m"
  shows "validateTexpressoClientMessage win (message_json m) = Inr m"
proof (cases m)
  case (Initialize i)
  with assms validateInitialize_complete [of win i] show ?thesis
    by (simp add: validateTexpressoClientMessage_def)
next
  case (Change c)
  with assms have "validatePrivateProjectPath win (Some (JStr (change_path c))) ChangePath = None"
    by (simp add: private_path_label)
  with Change assms show ?thesis
    by (simp add: validateTexpressoClientMessage_def validateChange_def isRange_json
        validRevision_json)
next
  case Shutdown
  then show ?thesis by (simp add: validateTexpressoClientMessage_def)
qed

text \<open>The private rule is the stricter one.\<close>

lemma win32_isAbsolute_cases:
  "win32_isAbsolute p \<Longrightarrow> prefix (js ''/'') p \<or> 92 \<in> set p \<or> has_drive p"
  by (auto simp: win32_isAbsolute_def has_drive_def slash split: list.splits)

lemma private_path_implies_project_path:
  "safe_private_path win p \<Longrightarrow> validateProjectPath win (Some (JStr p)) label = None"
  by (auto simp: safe_private_path_def validatePrivateProjectPath_def validateProjectPath_def Let_def
      posix_isAbsolute_def list_ex_iff dest!: win32_isAbsolute_cases split: if_splits)


lemma materialize_accepted:
  assumes "list_all (file_ok win) files"
  shows "snd (materializeProjectFiles mkdir writeFile win cwd root files fs) \<noteq> Some (InvalidPath e)"
  using assms
proof (induction files arbitrary: fs)
  case (Cons f files)
  then have "safe_private_path win (file_path f)" by (cases f) simp_all
  then have "validateProjectPath win (Some (JStr (file_path f))) ProjectFilePath = None"
    by (rule private_path_implies_project_path)
  with Cons show ?case by (simp split: sum.split)
qed simp

lemma validateFiles_rejection:
  "validateFiles win rev_no i seen n acc fs = Inl (code, r) \<Longrightarrow>
     code \<in> {''invalid-project'', ''project-too-large''} \<and> r = Some rev_no"
  by (induction fs arbitrary: i seen n acc)
     (auto simp: validateFiles_step simp del: validateFiles.simps(2) split: option.splits if_splits)

definition early_rejection :: "string \<Rightarrow> bool" where
  "early_rejection code \<longleftrightarrow> code \<in> {''malformed-message'', ''unknown-message-type'',
     ''unsupported-protocol-version'', ''invalid-revision''}"

definition revision_rejection :: "string \<Rightarrow> bool" where
  "revision_rejection code \<longleftrightarrow> code \<in> {''invalid-project'', ''project-too-large'',
     ''invalid-render-settings'', ''invalid-change''}"

lemma rejections [simp]:
  "early_rejection ''malformed-message''" "early_rejection ''unknown-message-type''"
  "early_rejection ''unsupported-protocol-version''" "early_rejection ''invalid-revision''"
  "revision_rejection ''invalid-project''" "revision_rejection ''project-too-large''"
  "revision_rejection ''invalid-render-settings''" "revision_rejection ''invalid-change''"
  by (simp_all add: early_rejection_def revision_rejection_def)

lemma validateFiles_code:
  "validateFiles win rev_no i seen n acc fs = Inl (code, r) \<Longrightarrow> revision_rejection code \<and> r = Some rev_no"
  by (drule validateFiles_rejection) auto

lemma validateInitialize_code:
  "validateInitialize win v = Inl (code, r) \<Longrightarrow>
     (r = None \<and> early_rejection code) \<or>
     (r \<noteq> None \<and> r = validRevision (field v ''revision'') \<and> revision_rejection code)"
  unfolding validateInitialize_def
  by (force dest!: validateFiles_code split: option.splits if_splits sum.splits)

lemma validateChange_code:
  "validateChange win v = Inl (code, r) \<Longrightarrow>
     (r = None \<and> early_rejection code) \<or>
     (r \<noteq> None \<and> r = validRevision (field v ''revision'') \<and> revision_rejection code)"
  unfolding validateChange_def by (auto split: option.splits)

section \<open>Properties\<close>


text \<open>A well-formed message written as a frame is read back as itself.\<close>

theorem ws_message_roundtrip:
  "wf_message win m \<Longrightarrow> validateTexpressoClientMessage win (message_json m) = Inr m"
  by (rule validate_complete)

definition sample_message :: TexpressoClientMessage where
  "sample_message = Initialize
     \<lparr>init_protocolVersion = 1, init_revision = 7, init_mainFilePath = js ''src/main.tex'', init_dpi = 144,
      init_theme = Some \<lparr>foreground = 0, background = 0xffffff\<rparr>,
      init_files = [BinaryProjectFile (js ''logo.png'') (js ''iVBORw==''),
                    TextProjectFile (js ''src/main.tex'') (js ''hello'')]\<rparr>"

lemma sample_message_wf: "wf_message True sample_message"
proof -
  have "file_size (BinaryProjectFile (js ''logo.png'') (js ''iVBORw=='')) = 4"
    by (simp add: base64_byteLength_def js_def)
  moreover have "file_size (TextProjectFile (js ''src/main.tex'') (js ''hello'')) = 5"
    by (simp, subst byte_length_ascii) (auto simp: js_def)
  moreover have "file_ok True (BinaryProjectFile (js ''logo.png'') (js ''iVBORw==''))" by code_simp
  moreover have "safe_private_path True (js ''src/main.tex'')" by code_simp
  ultimately show ?thesis
    by (simp add: sample_message_def wf_files_def wf_revision_def max_safe_def wf_color_def
        maxProjectBytes_def maxProjectFiles_def minDpi_def maxDpi_def TEXPRESSO_WS_PROTOCOL_VERSION_def
        MIN_TEXPRESSO_RENDER_DPI_def MAX_TEXPRESSO_RENDER_DPI_def)
qed

theorem ws_message_roundtrip_witness:
  "validateTexpressoClientMessage True (message_json sample_message) = Inr sample_message"
  by (rule ws_message_roundtrip [OF sample_message_wf])

text \<open>
  A rejected frame gets one of eight codes, and the answer carries a revision exactly when the
  frame's own revision was found valid; then it is that revision.
\<close>

theorem ws_rejection:
  assumes "validateTexpressoClientMessage win v = Inl (code, r)"
  shows "(r = None \<and> code \<in> {''malformed-message'', ''unknown-message-type'',
            ''unsupported-protocol-version'', ''invalid-revision''}) \<or>
    (r \<noteq> None \<and> r = validRevision (field v ''revision'') \<and>
     code \<in> {''invalid-project'', ''project-too-large'', ''invalid-render-settings'', ''invalid-change''})"
proof -
  from assms have "(r = None \<and> early_rejection code) \<or>
      (r \<noteq> None \<and> r = validRevision (field v ''revision'') \<and> revision_rejection code)"
    unfolding validateTexpressoClientMessage_def
    by (auto dest: validateInitialize_code validateChange_code split: option.splits if_splits)
  then show ?thesis unfolding early_rejection_def revision_rejection_def .
qed

theorem ws_rejection_witness:
  "validateTexpressoClientMessage False
     (obj [(''type'', JStr (js ''change'')), (''revision'', JInt 3), (''path'', JStr (js ''../x''))]) =
     Inl (''invalid-change'', Some 3) \<and>
   Some 3 = validRevision (Some (JInt 3))"
proof -
  let ?v = "obj [(''type'', JStr (js ''change'')), (''revision'', JInt 3), (''path'', JStr (js ''../x''))]"
  have r: "validateTexpressoClientMessage False ?v = Inl (''invalid-change'', Some 3)" by code_simp
  from ws_rejection [OF r] have "Some 3 = validRevision (field ?v ''revision'')" by auto
  with r show ?thesis by simp
qed

text \<open>
  The project of an accepted \<open>initialize\<close> passes the path rule applied again when it is written
  to disk: whatever the file system does, \<open>materializeProjectFiles\<close> never refuses one of its paths
  as invalid.
\<close>

theorem ws_project_materializes:
  assumes "validateTexpressoClientMessage win v = Inr (Initialize m)"
  shows "snd (materializeProjectFiles mkdir writeFile win cwd root (init_files m) fs) \<noteq> Some (InvalidPath e)"
  using validate_sound [OF assms] by (intro materialize_accepted) (simp add: wf_files_def)

theorem ws_project_materializes_witness:
  "snd (materializeProjectFiles (\<lambda>d (fs :: nat). Inr fs :: unit + nat) (\<lambda>d bs fs. Inr (Suc fs)) True (js ''/'')
     (js ''/tmp'') [BinaryProjectFile (js ''logo.png'') (js ''iVBORw==''),
                    TextProjectFile (js ''src/main.tex'') (js ''hello'')] 0) \<noteq> Some (InvalidPath (ProjectFilePath, ParentTraversal))"
proof -
  let ?m = "case sample_message of Initialize m \<Rightarrow> m"
  have "validateTexpressoClientMessage True (message_json sample_message) = Inr (Initialize ?m)"
    using validate_complete [OF sample_message_wf] by (simp add: sample_message_def)
  from ws_project_materializes [OF this, of "\<lambda>d (fs :: nat). Inr fs :: unit + nat" "\<lambda>d bs fs. Inr (Suc fs)" "js ''/''"
      "js ''/tmp''" 0 "(ProjectFilePath, ParentTraversal)"]
  show ?thesis by (simp add: sample_message_def)
qed

end
