(* ===== verification/LiveSession.thy ===== *)
theory LiveSession
  imports LiveBackend WsProtocol
begin

text \<open>
  \<^verbatim>\<open>typr-server/texpressoLiveSession.ts\<close>: one WebSocket connection and its live session, as a state
  machine. The state is the record \<open>live\<close>; every \<open>async\<close> function is cut at its \<open>await\<close>s, and a function
  that waits is a \<open>task\<close> naming the place and the local variables. A step is an event of the socket, a
  timer, the native session or the server, or the continuation of one task with the \<open>reply\<close> its
  awaited operation gives: any task may continue at any time with any reply, so the order in which
  sends, file operations and the session answer is left open.

  \<open>live_outbound\<close> is the sequence of frames handed to the outbound queue. The queue writes them in that
  order while the socket is open. The session is known by its open files; its texts are those of the
  theory \<open>LiveBackend\<close> under the calls in \<open>live_calls\<close>. The text of a diagnostic is read from the log by
  the parameter \<open>diag\<close>. Measured times are left out.
\<close>

section \<open>State\<close>

datatype frame = Json TexpressoServerMessage | Binary bytes

record live =
  live_open :: bool
  live_queue :: "TexpressoChangeMessage list"
  live_workspace :: bool
  live_files :: "jsstring list option"
  live_dpi :: int
  live_theme :: "TexpressoRenderTheme option"
  live_initialized :: bool
  live_initializing :: bool
  live_processing :: bool
  live_closing :: bool
  live_latestReceived :: int
  live_applied :: int
  live_lastGood :: "int option"
  live_outbound :: "frame list"
  live_listening :: bool
  live_resolved :: bool
  live_directory :: bool
  live_calls :: "TexpressoChangeMessage list"
  live_started :: "int list"

text \<open>
  \<open>live_directory\<close> tells whether the temporary project directory exists on disk, \<open>live_calls\<close> are the
  changes applied to the session and \<open>live_started\<close> the revisions worked on, the first one and those
  taken from the queue: three records of the past that no decision reads.
\<close>

datatype caller = InInit int | InDrain | InHandler

datatype task =
    InitMkdtemp TexpressoInitializeMessage
  | InitMaterialize TexpressoInitializeMessage
  | InitStart TexpressoInitializeMessage
  | InitLateClose
  | InitReady int
  | InitErrorSent int
  | DrainStarted TexpressoChangeMessage
  | DrainApply TexpressoChangeMessage
  | DrainNotRendered int TexpressoSnapshot
  | DrainReported
  | DrainPending int
  | RenderWait caller int nat "TexpressoRenderedPage list" nat
  | RenderCount caller int nat "TexpressoRenderedPage list"
  | RenderPages caller int "TexpressoRenderedPage list" "TexpressoRenderedPage list"
  | RenderComplete caller
  | FailureSent caller
  | ProtocolSent bool caller
  | AfterClose caller
  | CloseSent
  | CloseReap bool

datatype reply =
    Done
  | Rejects
  | Snap TexpressoSnapshot
  | RenderedPage TexpressoRenderedPage
  | Pages nat

type_synonym turn = "live \<times> task list"

definition new_live :: live where
  "new_live = \<lparr>live_open = True, live_queue = [], live_workspace = False, live_files = None,
     live_dpi = defaultDpi, live_theme = None, live_initialized = False, live_initializing = False,
     live_processing = False, live_closing = False, live_latestReceived = 0, live_applied = 0,
     live_lastGood = None, live_outbound = [], live_listening = False, live_resolved = False,
     live_directory = False, live_calls = [], live_started = []\<rparr>"

section \<open>Sending and closing\<close>

definition enqueueFrames :: "frame list \<Rightarrow> live \<Rightarrow> live" where
  "enqueueFrames fs s = s\<lparr>live_outbound := live_outbound s @ fs\<rparr>"

definition sendJson :: "TexpressoServerMessage \<Rightarrow> live \<Rightarrow> live" where
  "sendJson m = enqueueFrames [Json m]"

definition pageDescriptor :: "TexpressoRenderedPage \<Rightarrow> TexpressoPageDescriptor" where
  "pageDescriptor p = \<lparr>desc_page = page_no p, desc_width = page_width p, desc_height = page_height p,
     desc_dpi = page_dpi p, desc_byteLength = length (page_data p)\<rparr>"

definition sendPage :: "int \<Rightarrow> TexpressoRenderedPage \<Rightarrow> live \<Rightarrow> live" where
  "sendPage revision p = enqueueFrames [Json (Page revision (pageDescriptor p)), Binary (page_data p)]"

text \<open>\<open>close\<close> up to its first \<open>await\<close>; the two tasks are its remaining parts.\<close>

definition close_live :: "close_reason \<Rightarrow> bool \<Rightarrow> live \<Rightarrow> turn" where
  "close_live reason notifyClient s =
     (if live_closing s then (s, [])
      else let s = s\<lparr>live_closing := True, live_queue := [], live_listening := False\<rparr>
           in if notifyClient \<and> live_open s
              then (sendJson (SessionClosed (live_initialized s) reason) s, [CloseSent])
              else (s, [CloseReap (live_workspace s)]))"

definition close_sent :: "live \<Rightarrow> turn" where
  "close_sent s = (s\<lparr>live_open := False\<rparr>, [CloseReap (live_workspace s)])"

definition close_reaped :: "bool \<Rightarrow> reply \<Rightarrow> live \<Rightarrow> turn" where
  "close_reaped workspace r s =
     (s\<lparr>live_open := False, live_resolved := True,
        live_directory := (live_directory s \<and> \<not> (workspace \<and> r = Done))\<rparr>, [])"

definition protocolFailure :: "caller \<Rightarrow> string \<Rightarrow> bool \<Rightarrow> int option \<Rightarrow> live \<Rightarrow> turn" where
  "protocolFailure c code fatal revision s =
     (sendJson (ProtocolError code revision fatal) s, [ProtocolSent fatal c])"

section \<open>The change loop\<close>

text \<open>The loop of \<open>drainChanges\<close> from its head, and \<open>drainChanges\<close> itself.\<close>

definition drain_loop :: "live \<Rightarrow> turn" where
  "drain_loop s =
     (if live_closing s then (s\<lparr>live_processing := False\<rparr>, [])
      else case live_queue s of
             [] \<Rightarrow> (s\<lparr>live_processing := False\<rparr>, [])
           | change # rest \<Rightarrow>
               (sendJson (RevisionStarted (change_revision change) (length rest))
                  (s\<lparr>live_queue := rest, live_started := live_started s @ [change_revision change]\<rparr>),
                [DrainStarted change]))"

definition drainChanges :: "live \<Rightarrow> turn" where
  "drainChanges s =
     (if live_processing s \<or> live_initializing s \<or> live_closing s \<or> live_files s = None then (s, [])
      else drain_loop (s\<lparr>live_processing := True\<rparr>))"

text \<open>What runs last in the function a task belongs to.\<close>

definition finish_caller :: "caller \<Rightarrow> live \<Rightarrow> turn" where
  "finish_caller c s =
     (case c of
        InInit _ \<Rightarrow>
          (let s = s\<lparr>live_initializing := False\<rparr> in if live_closing s then (s, []) else drainChanges s)
      | InDrain \<Rightarrow>
          (let s = s\<lparr>live_processing := False\<rparr>
           in if \<not> live_closing s \<and> live_queue s \<noteq> [] then drainChanges s else (s, []))
      | InHandler \<Rightarrow> (s, []))"

definition sessionFailure :: "caller \<Rightarrow> string \<Rightarrow> int option \<Rightarrow> live \<Rightarrow> turn" where
  "sessionFailure c code revision s =
     (if live_closing s then finish_caller c s
      else (sendJson (SessionErrorMsg (live_initialized s) code revision) s, [FailureSent c]))"

text \<open>The handler of an error thrown in \<open>initialize\<close> or in the loop.\<close>

definition applied_revision :: "live \<Rightarrow> int option" where
  "applied_revision s = (if live_applied s = 0 then None else Some (live_applied s))"

definition throw :: "caller \<Rightarrow> live \<Rightarrow> turn" where
  "throw c s =
     (case c of
        InInit revision \<Rightarrow> sessionFailure c ''initialization-failed'' (Some revision) s
      | _ \<Rightarrow> sessionFailure c ''session-operation-failed'' (applied_revision s) s)"

section \<open>Rendering a revision\<close>

text \<open>\<open>renderRevision\<close> returns to the end of \<open>initialize\<close> or to the head of the loop.\<close>

definition after_render :: "caller \<Rightarrow> live \<Rightarrow> turn" where
  "after_render c s = (case c of InDrain \<Rightarrow> drain_loop s | _ \<Rightarrow> finish_caller c s)"

definition render_page :: "caller \<Rightarrow> int \<Rightarrow> nat \<Rightarrow> TexpressoRenderedPage list \<Rightarrow> nat \<Rightarrow> live \<Rightarrow> turn" where
  "render_page c revision page pages bytes s =
     (if revision \<noteq> live_latestReceived s \<and> pages \<noteq> [] then after_render c s
      else (s, [RenderWait c revision page pages bytes]))"

definition renderRevision :: "caller \<Rightarrow> int \<Rightarrow> live \<Rightarrow> turn" where
  "renderRevision c revision s =
     (if live_files s = None \<or> live_closing s then after_render c s
      else render_page c revision 0 [] 0 s)"

definition render_done :: "caller \<Rightarrow> int \<Rightarrow> TexpressoRenderedPage list \<Rightarrow> live \<Rightarrow> turn" where
  "render_done c revision pages s =
     (if revision \<noteq> live_latestReceived s then after_render c s
      else (sendJson (Document revision revision (map pageDescriptor pages)) (s\<lparr>live_lastGood := Some revision\<rparr>),
            [RenderPages c revision pages pages]))"

definition render_got ::
  "caller \<Rightarrow> int \<Rightarrow> nat \<Rightarrow> TexpressoRenderedPage list \<Rightarrow> nat \<Rightarrow> TexpressoRenderedPage \<Rightarrow> live \<Rightarrow> turn" where
  "render_got c revision page pages bytes rendered s =
     (let bytes' = bytes + length (page_data rendered)
      in if page = maxPages \<or> length (page_data rendered) > maxPageBytes \<or> bytes' > maxDocumentImageBytes
         then (s, [RenderCount c revision page pages])
         else render_page c revision (page + 1) (pages @ [rendered]) bytes' s)"

definition render_counted ::
  "caller \<Rightarrow> int \<Rightarrow> nat \<Rightarrow> TexpressoRenderedPage list \<Rightarrow> nat \<Rightarrow> live \<Rightarrow> turn" where
  "render_counted c revision page pages pageCount s =
     (if page < maxPages \<and> pageCount = length pages \<and> pages \<noteq> [] then render_done c revision pages s
      else throw c s)"

definition render_send ::
  "caller \<Rightarrow> int \<Rightarrow> TexpressoRenderedPage list \<Rightarrow> TexpressoRenderedPage list \<Rightarrow> live \<Rightarrow> turn" where
  "render_send c revision pages todo s =
     (case todo of
        p # ps \<Rightarrow> (sendPage revision p s, [RenderPages c revision pages ps])
      | [] \<Rightarrow> (sendJson (RevisionComplete revision revision (length pages) (length pages)) s, [RenderComplete c]))"

definition compile_error :: "(jsstring \<Rightarrow> TexpressoDiagnostic list) \<Rightarrow> int \<Rightarrow> TexpressoSnapshot \<Rightarrow> live \<Rightarrow> live" where
  "compile_error diag revision snap s =
     (let log = keep_last maxDiagnosticLogChars (snap_output snap @ [10] @ snap_log snap)
      in sendJson (CompileErrorMsg revision (live_lastGood s) (diag log) log) s)"

section \<open>Frames from the client\<close>

definition initialize :: "TexpressoInitializeMessage \<Rightarrow> live \<Rightarrow> turn" where
  "initialize m s = (s\<lparr>live_initializing := True\<rparr>, [InitMkdtemp m])"

definition enqueueChange :: "TexpressoChangeMessage \<Rightarrow> live \<Rightarrow> turn" where
  "enqueueChange m s =
     (case (live_initialized s, live_files s) of
        (True, Some files) \<Rightarrow>
          if change_revision m \<le> live_latestReceived s
          then protocolFailure InHandler ''stale-revision'' False (Some (change_revision m)) s
          else if length (live_queue s) \<ge> maxQueuedRevisions
          then protocolFailure InHandler ''revision-queue-full'' True (Some (change_revision m)) s
          else if normalizeProtocolPath (change_path m) \<notin> set files
          then protocolFailure InHandler ''unknown-file'' False (Some (change_revision m)) s
          else let s = s\<lparr>live_latestReceived := change_revision m, live_queue := live_queue s @ [m]\<rparr>
               in if live_initializing s then (s, []) else drainChanges s
      | _ \<Rightarrow> protocolFailure InHandler ''not-initialized'' False (Some (change_revision m)) s)"

text \<open>A frame: binary, a text that is not JSON, or a JSON value.\<close>

datatype inbound = BinaryFrame | MalformedJson | JsonFrame json

definition handleFrame :: "bool \<Rightarrow> inbound \<Rightarrow> live \<Rightarrow> turn" where
  "handleFrame win f s =
     (if live_closing s then (s, [])
      else case f of
             BinaryFrame \<Rightarrow> protocolFailure InHandler ''unexpected-binary-frame'' True None s
           | MalformedJson \<Rightarrow> protocolFailure InHandler ''malformed-json'' False None s
           | JsonFrame v \<Rightarrow>
               (case validateTexpressoClientMessage win v of
                  Inl (code, revision) \<Rightarrow> protocolFailure InHandler code False revision s
                | Inr Shutdown \<Rightarrow> close_live ClientShutdown True s
                | Inr (Initialize m) \<Rightarrow>
                    if live_initialized s \<or> live_initializing s
                    then protocolFailure InHandler ''already-initialized'' False (Some (init_revision m)) s
                    else initialize m s
                | Inr (Change m) \<Rightarrow> enqueueChange m s))"

definition nativeSessionFailed :: "live \<Rightarrow> turn" where
  "nativeSessionFailed s =
     (if live_closing s then (s, []) else sessionFailure InHandler ''texpresso-exited'' (applied_revision s) s)"

section \<open>Continuations\<close>

definition text_paths :: "ProjectFile list \<Rightarrow> jsstring list" where
  "text_paths files = map (\<lambda>f. normalizeProtocolPath (file_path f)) (filter is_text files)"

definition session_started :: "TexpressoInitializeMessage \<Rightarrow> live \<Rightarrow> turn" where
  "session_started m s =
     (if live_closing s then (s, [InitLateClose])
      else (sendJson (SessionReady (init_revision m) (init_dpi m) (init_theme m))
              (s\<lparr>live_files := Some (text_paths (init_files m)), live_dpi := init_dpi m, live_theme := init_theme m,
                 live_latestReceived := init_revision m, live_applied := init_revision m,
                 live_initialized := True, live_listening := True,
                 live_started := live_started s @ [init_revision m]\<rparr>),
            [InitReady (init_revision m)]))"

definition change_applied :: "TexpressoChangeMessage \<Rightarrow> TexpressoSnapshot \<Rightarrow> live \<Rightarrow> turn" where
  "change_applied change snap s =
     (let revision = change_revision change; s = s\<lparr>live_applied := revision\<rparr>; depth = length (live_queue s)
      in if snap_result snap = SnapLatexError
         then (sendJson (RevisionApplied revision NotRendered depth) s, [DrainNotRendered revision snap])
         else if live_queue s \<noteq> []
         then (sendJson (RevisionApplied revision Coalesced depth) s, [DrainReported])
         else (sendJson (RevisionApplied revision Pending 0) s, [DrainPending revision]))"

definition after_protocol :: "bool \<Rightarrow> caller \<Rightarrow> reply \<Rightarrow> live \<Rightarrow> turn" where
  "after_protocol fatal c r s =
     (if fatal \<or> r = Rejects
      then let (s', ts) = close_live ErrorClose fatal s in (s', ts @ [AfterClose c])
      else finish_caller c s)"

fun continue :: "(jsstring \<Rightarrow> TexpressoDiagnostic list) \<Rightarrow> task \<Rightarrow> reply \<Rightarrow> live \<Rightarrow> turn" where
  "continue diag (InitMkdtemp m) r s =
     (if r = Rejects then throw (InInit (init_revision m)) s
      else (s\<lparr>live_workspace := True, live_directory := True\<rparr>, [InitMaterialize m]))"
| "continue diag (InitMaterialize m) r s =
     (if r = Rejects then throw (InInit (init_revision m)) s else (s, [InitStart m]))"
| "continue diag (InitStart m) r s =
     (if r = Rejects then throw (InInit (init_revision m)) s else session_started m s)"
| "continue diag InitLateClose r s = finish_caller (InInit 0) s"
| "continue diag (InitReady revision) r s =
     (case r of
        Snap snap \<Rightarrow>
          if snap_result snap = SnapLatexError
          then (compile_error diag revision snap s, [InitErrorSent revision])
          else renderRevision (InInit revision) revision s
      | _ \<Rightarrow> throw (InInit revision) s)"
| "continue diag (InitErrorSent revision) r s =
     (if r = Rejects then throw (InInit revision) s else finish_caller (InInit revision) s)"
| "continue diag (DrainStarted change) r s =
     (if r = Rejects then throw InDrain s
      else (s\<lparr>live_calls := live_calls s @ [change]\<rparr>, [DrainApply change]))"
| "continue diag (DrainApply change) r s =
     (case r of
        Snap snap \<Rightarrow> change_applied change snap s
      | _ \<Rightarrow> protocolFailure InDrain ''invalid-change-range'' True (Some (change_revision change)) s)"
| "continue diag (DrainNotRendered revision snap) r s =
     (if r = Rejects then throw InDrain s else (compile_error diag revision snap s, [DrainReported]))"
| "continue diag DrainReported r s = (if r = Rejects then throw InDrain s else drain_loop s)"
| "continue diag (DrainPending revision) r s =
     (if r = Rejects then throw InDrain s else renderRevision InDrain revision s)"
| "continue diag (RenderWait c revision page pages bytes) r s =
     (case r of
        RenderedPage p \<Rightarrow> render_got c revision page pages bytes p s
      | _ \<Rightarrow> (s, [RenderCount c revision page pages]))"
| "continue diag (RenderCount c revision page pages) r s =
     (case r of Pages n \<Rightarrow> render_counted c revision page pages n s | _ \<Rightarrow> throw c s)"
| "continue diag (RenderPages c revision pages todo) r s =
     (if r = Rejects then throw c s else render_send c revision pages todo s)"
| "continue diag (RenderComplete c) r s = (if r = Rejects then throw c s else after_render c s)"
| "continue diag (FailureSent c) r s =
     (let (s', ts) = close_live ErrorClose True s in (s', ts @ [AfterClose c]))"
| "continue diag (ProtocolSent fatal c) r s = after_protocol fatal c r s"
| "continue diag (AfterClose c) r s = finish_caller c s"
| "continue diag CloseSent r s = close_sent s"
| "continue diag (CloseReap workspace) r s = close_reaped workspace r s"


section \<open>Steps\<close>

type_synonym world = "live \<times> task list"

inductive live_step :: "(jsstring \<Rightarrow> TexpressoDiagnostic list) \<Rightarrow> bool \<Rightarrow> world \<Rightarrow> world \<Rightarrow> bool" for diag win where
  Frame: "handleFrame win f s = (s', new) \<Longrightarrow> live_step diag win (s, ts) (s', ts @ new)"
| SocketClosed: "close_live ClientDisconnect False (s\<lparr>live_open := False\<rparr>) = (s', new) \<Longrightarrow>
     live_step diag win (s, ts) (s', ts @ new)"
| SocketError: "close_live ErrorClose False s = (s', new) \<Longrightarrow> live_step diag win (s, ts) (s', ts @ new)"
| TimerFired: "close_live ErrorClose True s = (s', new) \<Longrightarrow> live_step diag win (s, ts) (s', ts @ new)"
| ServerClose: "close_live ServerShutdown True s = (s', new) \<Longrightarrow> live_step diag win (s, ts) (s', ts @ new)"
| NativeExit: "live_listening s \<Longrightarrow> nativeSessionFailed s = (s', new) \<Longrightarrow>
     live_step diag win (s, ts) (s', ts @ new)"
| Continues: "continue diag t r s = (s', new) \<Longrightarrow>
     live_step diag win (s, before @ t # later) (s', before @ later @ new)"

inductive live_reach :: "(jsstring \<Rightarrow> TexpressoDiagnostic list) \<Rightarrow> bool \<Rightarrow> world \<Rightarrow> bool" for diag win where
  start: "live_reach diag win (new_live, [])"
| steps: "live_reach diag win w \<Longrightarrow> live_step diag win w w' \<Longrightarrow> live_reach diag win w'"

section \<open>The invariant\<close>

text \<open>The function a task belongs to.\<close>

fun caller_of :: "task \<Rightarrow> caller" where
  "caller_of (InitMkdtemp m) = InInit (init_revision m)"
| "caller_of (InitMaterialize m) = InInit (init_revision m)"
| "caller_of (InitStart m) = InInit (init_revision m)"
| "caller_of InitLateClose = InInit 0"
| "caller_of (InitReady r) = InInit r"
| "caller_of (InitErrorSent r) = InInit r"
| "caller_of (DrainStarted _) = InDrain"
| "caller_of (DrainApply _) = InDrain"
| "caller_of (DrainNotRendered _ _) = InDrain"
| "caller_of DrainReported = InDrain"
| "caller_of (DrainPending _) = InDrain"
| "caller_of (RenderWait c _ _ _ _) = c"
| "caller_of (RenderCount c _ _ _) = c"
| "caller_of (RenderPages c _ _ _) = c"
| "caller_of (RenderComplete c) = c"
| "caller_of (FailureSent c) = c"
| "caller_of (ProtocolSent _ c) = c"
| "caller_of (AfterClose c) = c"
| "caller_of CloseSent = InHandler"
| "caller_of (CloseReap _) = InHandler"

fun is_init :: "caller \<Rightarrow> bool" where
  "is_init (InInit _) = True"
| "is_init _ = False"

fun is_drain :: "caller \<Rightarrow> bool" where
  "is_drain InDrain = True"
| "is_drain _ = False"

definition init_count :: "task list \<Rightarrow> nat" where
  "init_count ts = length (filter (\<lambda>t. is_init (caller_of t)) ts)"

definition drain_count :: "task list \<Rightarrow> nat" where
  "drain_count ts = length (filter (\<lambda>t. is_drain (caller_of t)) ts)"

text \<open>The revision whose document a task may still send, and the tasks before \<open>session-ready\<close>.\<close>

fun pre_document :: "task \<Rightarrow> int option" where
  "pre_document (InitReady r) = Some r"
| "pre_document (DrainStarted c) = Some (change_revision c)"
| "pre_document (DrainApply c) = Some (change_revision c)"
| "pre_document (DrainPending r) = Some r"
| "pre_document (RenderWait _ r _ _ _) = Some r"
| "pre_document (RenderCount _ r _ _) = Some r"
| "pre_document _ = None"

fun pre_ready :: "task \<Rightarrow> bool" where
  "pre_ready (InitMkdtemp _) = True"
| "pre_ready (InitMaterialize _) = True"
| "pre_ready (InitStart _) = True"
| "pre_ready _ = False"

text \<open>
  Only \<open>initialize\<close> and the change loop render: the tasks that wait for a document, and those before
  \<open>session-ready\<close>, belong to one of the two.
\<close>

definition proper :: "task \<Rightarrow> bool" where
  "proper t \<longleftrightarrow> (pre_document t \<noteq> None \<or> pre_ready t \<longrightarrow> caller_of t \<noteq> InHandler)"

definition page_bytes :: "TexpressoRenderedPage list \<Rightarrow> nat" where
  "page_bytes pages = sum_list (map (\<lambda>p. length (page_data p)) pages)"

definition pages_fit :: "TexpressoRenderedPage list \<Rightarrow> bool" where
  "pages_fit pages \<longleftrightarrow> page_bytes pages \<le> maxDocumentImageBytes \<and>
     (\<forall>p\<in>set pages. length (page_data p) \<le> maxPageBytes)"

fun render_fits :: "task \<Rightarrow> bool" where
  "render_fits (RenderWait _ _ page pages bytes) =
     (page = length pages \<and> page \<le> maxPages \<and> bytes = page_bytes pages \<and> pages_fit pages)"
| "render_fits (RenderCount _ _ page pages) = (page = length pages \<and> pages_fit pages)"
| "render_fits _ = True"

text \<open>The documents among the frames.\<close>

fun documents :: "frame list \<Rightarrow> (int \<times> int \<times> TexpressoPageDescriptor list) list" where
  "documents [] = []"
| "documents (Json (Document r g ds) # fs) = (r, g, ds) # documents fs"
| "documents (_ # fs) = documents fs"

lemma documents_append [simp]: "documents (a @ b) = documents a @ documents b"
  by (induction a rule: documents.induct) simp_all

definition document_fits :: "int \<times> int \<times> TexpressoPageDescriptor list \<Rightarrow> bool" where
  "document_fits d \<longleftrightarrow>
     (case d of (r, g, ds) \<Rightarrow> g = r \<and> ds \<noteq> [] \<and> length ds < maxPages \<and>
        sum_list (map desc_byteLength ds) \<le> maxDocumentImageBytes \<and>
        (\<forall>d\<in>set ds. desc_byteLength d \<le> maxPageBytes))"

definition fresh :: "int \<Rightarrow> live \<Rightarrow> bool" where
  "fresh r s \<longleftrightarrow> live_started s \<noteq> [] \<and> last (live_started s) = r \<and>
     (\<forall>g. live_lastGood s = Some g \<longrightarrow> g < r)"

text \<open>
  The parts of the invariant: the flags count the functions at work; the queue; the revisions; the
  documents sent.
\<close>

definition flags_ok :: "caller \<Rightarrow> live \<Rightarrow> task list \<Rightarrow> bool" where
  "flags_ok c s ts \<longleftrightarrow>
     init_count ts + of_bool (is_init c) = of_bool (live_initializing s) \<and>
     drain_count ts + of_bool (is_drain c) = of_bool (live_processing s) \<and>
     \<not> (live_initializing s \<and> live_processing s) \<and> (live_processing s \<longrightarrow> live_initialized s) \<and>
     (live_initialized s \<longleftrightarrow> live_files s \<noteq> None) \<and>
     (\<forall>t\<in>set ts. pre_ready t \<longrightarrow> \<not> live_initialized s)"

definition revisions_ok :: "live \<Rightarrow> bool" where
  "revisions_ok s \<longleftrightarrow>
     (live_initialized s \<longleftrightarrow> live_started s \<noteq> []) \<and> (live_queue s \<noteq> [] \<longrightarrow> live_initialized s) \<and>
     length (live_queue s) \<le> maxQueuedRevisions \<and> (live_closing s \<longrightarrow> live_queue s = []) \<and>
     sorted_wrt (<) (live_started s @ map change_revision (live_queue s)) \<and>
     (\<forall>r\<in>set (live_started s @ map change_revision (live_queue s)). r \<le> live_latestReceived s)"

definition documents_ok :: "live \<Rightarrow> task list \<Rightarrow> bool" where
  "documents_ok s ts \<longleftrightarrow> (\<forall>t\<in>set ts. proper t) \<and>
     (\<forall>g. live_lastGood s = Some g \<longrightarrow> live_started s \<noteq> [] \<and> g \<le> last (live_started s)) \<and>
     (\<forall>t\<in>set ts. \<forall>r. pre_document t = Some r \<longrightarrow> fresh r s) \<and> (\<forall>t\<in>set ts. render_fits t) \<and>
     sorted_wrt (<) (map fst (documents (live_outbound s))) \<and>
     (\<forall>d\<in>set (documents (live_outbound s)). document_fits d \<and> (\<exists>g. live_lastGood s = Some g \<and> fst d \<le> g))"

definition live_ok :: "caller \<Rightarrow> live \<Rightarrow> task list \<Rightarrow> bool" where
  "live_ok c s ts \<longleftrightarrow> flags_ok c s ts \<and> revisions_ok s \<and> documents_ok s ts"

text \<open>A function called in the middle of a turn leaves the invariant to the tasks it returns.\<close>

definition turn_ok :: "task list \<Rightarrow> turn \<Rightarrow> bool" where
  "turn_ok ts r \<longleftrightarrow> live_ok InHandler (fst r) (ts @ snd r)"

lemma counts [simp]:
  "init_count (a @ b) = init_count a + init_count b" "init_count [] = 0"
  "init_count (t # ts) = of_bool (is_init (caller_of t)) + init_count ts"
  "drain_count (a @ b) = drain_count a + drain_count b" "drain_count [] = 0"
  "drain_count (t # ts) = of_bool (is_drain (caller_of t)) + drain_count ts"
  by (simp_all add: init_count_def drain_count_def)

lemma counts_zero:
  "init_count ts = 0 \<longleftrightarrow> (\<forall>t\<in>set ts. \<not> is_init (caller_of t))"
  "drain_count ts = 0 \<longleftrightarrow> (\<forall>t\<in>set ts. \<not> is_drain (caller_of t))"
  by (auto simp: init_count_def drain_count_def filter_empty_conv)

lemma caller_cases: "c = InHandler \<or> is_init c \<or> is_drain c"
  by (cases c) auto

text \<open>When a function is at work no other task is about to send a document.\<close>

lemma others_idle:
  assumes "flags_ok c s ts" "c \<noteq> InHandler" "\<forall>t\<in>set ts. proper t" "t \<in> set ts"
  shows "pre_document t = None" "\<not> pre_ready t"
proof -
  from assms(1,2) have "init_count ts = 0 \<and> drain_count ts = 0"
    by (cases c) (auto simp: flags_ok_def of_bool_def split: if_splits)
  with assms(4) have "\<not> is_init (caller_of t)" "\<not> is_drain (caller_of t)"
    by (auto simp: counts_zero)
  with assms(3,4) caller_cases [of "caller_of t"] show "pre_document t = None" "\<not> pre_ready t"
    by (auto simp: proper_def)
qed


lemma live_okD:
  assumes "live_ok c s ts"
  shows "flags_ok c s ts" "revisions_ok s" "documents_ok s ts"
  using assms by (simp_all add: live_ok_def)

lemma documents_okI:
  assumes "documents_ok s ts" "\<forall>t\<in>set ts. pre_document t = None"
    and "live_outbound s' = live_outbound s @ fs" "documents fs = []" "live_lastGood s' = live_lastGood s"
    and "\<forall>g. live_lastGood s = Some g \<longrightarrow> live_started s' \<noteq> [] \<and> g \<le> last (live_started s')"
    and "\<forall>t\<in>set new. proper t \<and> render_fits t \<and> (\<forall>r. pre_document t = Some r \<longrightarrow> fresh r s')"
  shows "documents_ok s' (ts @ new)"
  using assms by (auto simp: documents_ok_def)

text \<open>A turn that neither starts a revision nor sends a document.\<close>

lemma documents_ok_same:
  assumes "documents_ok s ts" "live_outbound s' = live_outbound s @ fs" "documents fs = []"
    "live_lastGood s' = live_lastGood s" "live_started s' = live_started s"
    and "\<forall>t\<in>set new. proper t \<and> render_fits t \<and> (\<forall>r. pre_document t = Some r \<longrightarrow> fresh r s)"
  shows "documents_ok s' (ts @ new)"
  using assms by (auto simp: documents_ok_def fresh_def)

lemmas sends = sendJson_def enqueueFrames_def

lemma idle:
  assumes "live_ok c s ts" "c \<noteq> InHandler" "t \<in> set ts"
  shows "pre_document t = None" "\<not> pre_ready t"
  using others_idle [OF live_okD(1) [OF assms(1)] assms(2) _ assms(3)] live_okD(3) [OF assms(1)]
  by (simp_all add: documents_ok_def)

lemma drain_loop_ok:
  assumes ok: "live_ok InDrain s ts"
  shows "turn_ok ts (drain_loop s)"
proof -
  have proc: "live_processing s" and f: "flags_ok InDrain s ts"
    using live_okD(1) [OF ok] by (auto simp: flags_ok_def of_bool_def split: if_splits)
  note r = live_okD(2) [OF ok] and d = live_okD(3) [OF ok]
  have stop: "live_ok InHandler (s\<lparr>live_processing := False\<rparr>) ts"
    using f r d proc by (auto simp: live_ok_def flags_ok_def revisions_ok_def documents_ok_def fresh_def)
  show ?thesis
  proof (cases "live_closing s \<or> live_queue s = []")
    case True
    with stop show ?thesis by (auto simp: turn_ok_def drain_loop_def)
  next
    case False
    then obtain c q where q: "live_queue s = c # q" by (auto simp: neq_Nil_conv)
    let ?s = "s\<lparr>live_queue := q, live_started := live_started s @ [change_revision c]\<rparr>"
    let ?t = "sendJson (RevisionStarted (change_revision c) (length q)) ?s"
    have less: "x < change_revision c" if "x \<in> set (live_started s)" for x
      using r that by (auto simp: revisions_ok_def q sorted_wrt_append)
    have last: "g < change_revision c" if "live_lastGood s = Some g" for g
      using d that less [of "last (live_started s)"] by (auto simp: documents_ok_def dest: order_le_less_trans)
    have "flags_ok InHandler ?t (ts @ [DrainStarted c])"
      using f proc by (auto simp: flags_ok_def sends)
    moreover have "revisions_ok ?t"
      using r by (auto simp: revisions_ok_def sends q)
    moreover have "documents_ok ?t (ts @ [DrainStarted c])"
      using idle [OF ok] last
      by (intro documents_okI [OF d, where fs = "[Json (RevisionStarted (change_revision c) (length q))]"])
         (auto simp: sends fresh_def proper_def dest: order_less_imp_le)
    ultimately show ?thesis
      using False q by (simp add: turn_ok_def live_ok_def drain_loop_def)
  qed
qed

lemma drainChanges_ok:
  assumes ok: "live_ok InHandler s ts"
  shows "turn_ok ts (drainChanges s)"
proof (cases "live_processing s \<or> live_initializing s \<or> live_closing s \<or> live_files s = None")
  case True
  with ok show ?thesis by (simp add: drainChanges_def turn_ok_def)
next
  case False
  with ok have "live_ok InDrain (s\<lparr>live_processing := True\<rparr>) ts"
    by (auto simp: live_ok_def flags_ok_def revisions_ok_def documents_ok_def fresh_def)
  from drain_loop_ok [OF this] False show ?thesis by (auto simp: drainChanges_def)
qed

lemma finish_caller_ok:
  assumes ok: "live_ok c s ts"
  shows "turn_ok ts (finish_caller c s)"
proof (cases c)
  case (InInit r)
  from ok have "live_ok InHandler (s\<lparr>live_initializing := False\<rparr>) ts"
    by (auto simp: InInit live_ok_def flags_ok_def revisions_ok_def documents_ok_def fresh_def of_bool_def
        split: if_splits)
  with drainChanges_ok [OF this] show ?thesis by (auto simp: InInit finish_caller_def turn_ok_def Let_def)
next
  case InDrain
  from ok have "live_ok InHandler (s\<lparr>live_processing := False\<rparr>) ts"
    by (auto simp: InDrain live_ok_def flags_ok_def revisions_ok_def documents_ok_def fresh_def of_bool_def
        split: if_splits)
  with drainChanges_ok [OF this] show ?thesis by (auto simp: InDrain finish_caller_def turn_ok_def Let_def)
next
  case InHandler
  with ok show ?thesis by (simp add: finish_caller_def turn_ok_def)
qed

text \<open>A turn that only sends and waits.\<close>

lemma send_wait_ok:
  assumes "live_ok c s ts" "caller_of t = c" "proper t" "render_fits t" "\<not> pre_ready t"
    and "\<forall>r. pre_document t = Some r \<longrightarrow> fresh r s" and "documents fs = []"
  shows "turn_ok ts (enqueueFrames fs s, [t])"
  using assms
  by (auto simp: turn_ok_def live_ok_def enqueueFrames_def flags_ok_def revisions_ok_def documents_ok_def fresh_def)

lemma wait_ok:
  assumes "live_ok c s ts" "caller_of t = c" "proper t" "render_fits t" "\<not> pre_ready t"
    and "\<forall>r. pre_document t = Some r \<longrightarrow> fresh r s"
  shows "turn_ok ts (s, [t])"
  using send_wait_ok [OF assms, of "[]"] by (simp add: enqueueFrames_def)

lemma sessionFailure_ok: "live_ok c s ts \<Longrightarrow> turn_ok ts (sessionFailure c code r s)"
  by (auto simp: sessionFailure_def finish_caller_ok sendJson_def proper_def intro!: send_wait_ok)

lemma throw_ok: "live_ok c s ts \<Longrightarrow> turn_ok ts (throw c s)"
  by (cases c) (simp_all add: throw_def sessionFailure_ok)

lemma protocolFailure_ok: "live_ok c s ts \<Longrightarrow> turn_ok ts (protocolFailure c code fatal r s)"
  by (auto simp: protocolFailure_def sendJson_def proper_def intro!: send_wait_ok)

lemma after_render_ok: "live_ok c s ts \<Longrightarrow> turn_ok ts (after_render c s)"
  by (auto simp: after_render_def drain_loop_ok finish_caller_ok split: caller.split)

lemma close_live_ok:
  assumes "live_ok c s ts"
  shows "live_ok c (fst (close_live reason notify s)) (ts @ snd (close_live reason notify s))"
  using assms
  by (auto simp: close_live_def Let_def sends live_ok_def flags_ok_def revisions_ok_def documents_ok_def fresh_def
      proper_def sorted_wrt_append)


lemma render_page_ok:
  assumes "live_ok c s ts" "c \<noteq> InHandler" "fresh r s"
    and "page = length pages" "page \<le> maxPages" "bytes = page_bytes pages" "pages_fit pages"
  shows "turn_ok ts (render_page c r page pages bytes s)"
  using assms by (auto simp: render_page_def proper_def intro!: after_render_ok wait_ok)

lemma renderRevision_ok:
  assumes "live_ok c s ts" "c \<noteq> InHandler" "fresh r s"
  shows "turn_ok ts (renderRevision c r s)"
  using assms
  by (auto simp: renderRevision_def pages_fit_def page_bytes_def intro!: after_render_ok render_page_ok)

lemma render_got_ok:
  assumes "live_ok c s ts" "c \<noteq> InHandler" "fresh r s" "render_fits (RenderWait c r page pages bytes)"
  shows "turn_ok ts (render_got c r page pages bytes p s)"
proof (cases "page = maxPages \<or> length (page_data p) > maxPageBytes \<or>
    bytes + length (page_data p) > maxDocumentImageBytes")
  case True
  with assms show ?thesis by (auto simp: render_got_def Let_def proper_def intro!: wait_ok)
next
  case False
  with assms show ?thesis
    by (auto simp: render_got_def Let_def page_bytes_def pages_fit_def intro!: render_page_ok)
qed

lemma document_fits_pages:
  "pages_fit pages \<Longrightarrow> pages \<noteq> [] \<Longrightarrow> length pages < maxPages \<Longrightarrow>
   document_fits (r, r, map pageDescriptor pages)"
  by (auto simp: document_fits_def pages_fit_def page_bytes_def pageDescriptor_def comp_def)

lemma render_done_ok:
  assumes ok: "live_ok c s ts" and c: "c \<noteq> InHandler" and r: "fresh r s"
    and pages: "pages_fit pages" "pages \<noteq> []" "length pages < maxPages"
  shows "turn_ok ts (render_done c r pages s)"
proof (cases "r = live_latestReceived s")
  case False
  with ok show ?thesis by (simp add: render_done_def after_render_ok)
next
  case True
  let ?d = "(r, r, map pageDescriptor pages)"
  let ?s = "sendJson (Document r r (map pageDescriptor pages)) (s\<lparr>live_lastGood := Some r\<rparr>)"
  note d = live_okD(3) [OF ok]
  have before: "fst d < r" if "d \<in> set (documents (live_outbound s))" for d
    using d r that unfolding documents_ok_def fresh_def by (meson order_le_less_trans)
  have "documents_ok ?s (ts @ [RenderPages c r pages pages])"
    using d r before idle(1) [OF ok c] document_fits_pages [OF pages, of r]
    by (auto simp: documents_ok_def sends fresh_def proper_def sorted_wrt_append dest: order_less_imp_le)
  moreover have "flags_ok InHandler ?s (ts @ [RenderPages c r pages pages])" "revisions_ok ?s"
    using live_okD(1,2) [OF ok] by (auto simp: flags_ok_def revisions_ok_def sends)
  ultimately show ?thesis
    using True by (simp add: turn_ok_def live_ok_def render_done_def)
qed

lemma render_counted_ok:
  assumes "live_ok c s ts" "c \<noteq> InHandler" "fresh r s" "render_fits (RenderCount c r page pages)"
  shows "turn_ok ts (render_counted c r page pages n s)"
  using assms by (auto simp: render_counted_def intro!: render_done_ok throw_ok)

lemma render_send_ok:
  assumes "live_ok c s ts"
  shows "turn_ok ts (render_send c r pages todo s)"
  using assms
  by (auto simp: render_send_def sendPage_def sendJson_def proper_def split: list.split intro!: send_wait_ok)

lemma compile_error_ok:
  assumes "live_ok c s ts" "caller_of t = c" "proper t" "render_fits t" "\<not> pre_ready t" "pre_document t = None"
  shows "turn_ok ts (compile_error diag r snap s, [t])"
  using assms by (auto simp: compile_error_def Let_def sendJson_def intro!: send_wait_ok)

lemma initialize_ok:
  assumes "live_ok InHandler s ts" "\<not> live_initialized s" "\<not> live_initializing s"
  shows "turn_ok ts (initialize m s)"
  using assms
  by (auto simp: initialize_def turn_ok_def live_ok_def flags_ok_def revisions_ok_def documents_ok_def fresh_def
      proper_def)

lemma session_started_ok:
  assumes ok: "live_ok (InInit r) s ts" and "\<not> live_initialized s"
  shows "turn_ok ts (session_started m s)"
proof (cases "live_closing s")
  case True
  with ok show ?thesis
    by (auto simp: session_started_def turn_ok_def live_ok_def flags_ok_def documents_ok_def proper_def)
next
  case False
  have "live_initializing s"
    using live_okD(1) [OF ok] by (auto simp: flags_ok_def of_bool_def split: if_splits)
  moreover have "live_lastGood s = None" "live_started s = []" "live_queue s = []"
    using live_okD(2,3) [OF ok] assms(2) by (auto simp: revisions_ok_def documents_ok_def)
  ultimately show ?thesis
    using ok assms(2) False idle [OF ok]
    by (auto simp: session_started_def turn_ok_def live_ok_def flags_ok_def revisions_ok_def documents_ok_def
        sends fresh_def proper_def)
qed

lemma enqueue_ok:
  assumes ok: "live_ok InHandler s ts" and "live_initialized s" "live_latestReceived s < change_revision m"
    "length (live_queue s) < maxQueuedRevisions" "\<not> live_closing s"
  shows "live_ok InHandler (s\<lparr>live_latestReceived := change_revision m, live_queue := live_queue s @ [m]\<rparr>) ts"
proof -
  have "x < change_revision m" if "x \<in> set (live_started s) \<or> x \<in> change_revision ` set (live_queue s)" for x
    using live_okD(2) [OF ok] assms(3) that by (auto simp: revisions_ok_def dest: order_le_less_trans)
  then show ?thesis
    using assms
    by (auto simp: live_ok_def flags_ok_def revisions_ok_def documents_ok_def fresh_def sorted_wrt_append
        dest: order_less_imp_le)
qed

lemma enqueueChange_ok:
  assumes ok: "live_ok InHandler s ts" and "\<not> live_closing s"
  shows "turn_ok ts (enqueueChange m s)"
proof -
  let ?s = "s\<lparr>live_latestReceived := change_revision m, live_queue := live_queue s @ [m]\<rparr>"
  have "turn_ok ts (if live_initializing ?s then (?s, []) else drainChanges ?s)"
    if "live_initialized s" "\<not> change_revision m \<le> live_latestReceived s"
      "\<not> length (live_queue s) \<ge> maxQueuedRevisions"
  proof -
    have "live_ok InHandler ?s ts" using ok assms(2) that by (intro enqueue_ok) auto
    with drainChanges_ok [OF this] show ?thesis by (auto simp: turn_ok_def)
  qed
  with ok show ?thesis
    by (auto simp: enqueueChange_def Let_def protocolFailure_ok split: option.split bool.split)
qed

lemma close_turn_ok: "live_ok InHandler s ts \<Longrightarrow> turn_ok ts (close_live reason notify s)"
  unfolding turn_ok_def by (rule close_live_ok)

lemma handleFrame_ok:
  assumes ok: "live_ok InHandler s ts"
  shows "turn_ok ts (handleFrame win f s)"
  using ok
  by (auto simp: handleFrame_def protocolFailure_ok close_turn_ok initialize_ok enqueueChange_ok
      turn_ok_def [of ts "(s, [])"] split: inbound.split sum.split TexpressoClientMessage.split)

lemma nativeSessionFailed_ok: "live_ok InHandler s ts \<Longrightarrow> turn_ok ts (nativeSessionFailed s)"
  by (auto simp: nativeSessionFailed_def sessionFailure_ok turn_ok_def [of ts "(s, [])"])


lemma close_then_ok:
  assumes "live_ok c s ts"
  shows "turn_ok ts (let (s', new) = close_live reason notify s in (s', new @ [AfterClose c]))"
proof -
  let ?r = "close_live reason notify s"
  have "turn_ok (ts @ snd ?r) (fst ?r, [AfterClose c])"
    using close_live_ok [OF assms] by (intro wait_ok) (auto simp: proper_def)
  then show ?thesis by (auto simp: turn_ok_def split: prod.split)
qed

lemma after_protocol_ok: "live_ok c s ts \<Longrightarrow> turn_ok ts (after_protocol fatal c r s)"
  using close_then_ok [of c s ts] by (simp add: after_protocol_def finish_caller_ok)

text \<open>Fields no part of the invariant reads.\<close>

lemma live_ok_frame [simp]:
  "live_ok c (s\<lparr>live_applied := a\<rparr>) ts = live_ok c s ts" "live_ok c (s\<lparr>live_calls := b\<rparr>) ts = live_ok c s ts"
  "live_ok c (s\<lparr>live_workspace := d\<rparr>) ts = live_ok c s ts" "live_ok c (s\<lparr>live_directory := e\<rparr>) ts = live_ok c s ts"
  "live_ok c (s\<lparr>live_open := f\<rparr>) ts = live_ok c s ts" "live_ok c (s\<lparr>live_resolved := g\<rparr>) ts = live_ok c s ts"
  by (simp_all add: live_ok_def flags_ok_def revisions_ok_def documents_ok_def fresh_def)

lemma fresh_frame [simp]:
  "fresh r (s\<lparr>live_applied := a\<rparr>) = fresh r s" "fresh r (s\<lparr>live_calls := b\<rparr>) = fresh r s"
  by (simp_all add: fresh_def)

lemma change_applied_ok:
  assumes "live_ok InDrain s ts" "fresh (change_revision change) s"
  shows "turn_ok ts (change_applied change snap s)"
  using assms by (auto simp: change_applied_def Let_def sendJson_def proper_def intro!: send_wait_ok)

lemma continue_ok:
  assumes ok: "live_ok (caller_of t) s ts" and t: "proper t" "render_fits t"
    and fresh: "\<forall>r. pre_document t = Some r \<longrightarrow> fresh r s" and ready: "pre_ready t \<longrightarrow> \<not> live_initialized s"
  shows "turn_ok ts (continue diag t r s)"
proof (cases t)
  case (InitMkdtemp m)
  have "turn_ok ts (s\<lparr>live_workspace := True, live_directory := True\<rparr>, [InitMaterialize m])"
    using ok ready by (auto simp: InitMkdtemp turn_ok_def live_ok_def flags_ok_def revisions_ok_def documents_ok_def
        fresh_def proper_def)
  with ok InitMkdtemp show ?thesis by (simp add: throw_ok)
next
  case (InitMaterialize m)
  have "turn_ok ts (s, [InitStart m])"
    using ok ready by (auto simp: InitMaterialize turn_ok_def live_ok_def flags_ok_def documents_ok_def proper_def)
  with ok InitMaterialize show ?thesis by (simp add: throw_ok)
next
  case (InitStart m)
  with ok ready show ?thesis by (auto simp: throw_ok intro: session_started_ok)
next
  case (InitReady n)
  with ok fresh show ?thesis
    by (auto simp: throw_ok proper_def split: reply.split intro!: compile_error_ok renderRevision_ok)
next
  case (DrainStarted c)
  with ok fresh show ?thesis by (auto simp: throw_ok proper_def intro!: wait_ok)
next
  case (DrainApply c)
  with ok fresh show ?thesis by (auto simp: protocolFailure_ok change_applied_ok split: reply.split)
next
  case (DrainNotRendered n snap)
  with ok show ?thesis by (auto simp: throw_ok proper_def intro!: compile_error_ok)
next
  case (DrainPending n)
  with ok fresh show ?thesis by (auto simp: throw_ok intro!: renderRevision_ok)
next
  case (RenderWait c n page pages bytes)
  with t(1) have "c \<noteq> InHandler" by (simp add: proper_def)
  with ok t fresh RenderWait show ?thesis
    by (auto simp: proper_def split: reply.split intro!: render_got_ok wait_ok)
next
  case (RenderCount c n page pages)
  with t(1) have "c \<noteq> InHandler" by (simp add: proper_def)
  with ok t fresh RenderCount show ?thesis
    by (auto simp: throw_ok split: reply.split intro!: render_counted_ok)
next
  case (FailureSent c)
  with ok show ?thesis using close_then_ok [of c s ts] by simp
next
  case CloseSent
  with ok show ?thesis
    by (auto simp: close_sent_def proper_def intro!: wait_ok)
next
  case (CloseReap w)
  with ok show ?thesis by (simp add: close_reaped_def turn_ok_def)
qed (use ok in \<open>simp_all add: throw_ok finish_caller_ok drain_loop_ok render_send_ok after_render_ok after_protocol_ok\<close>)

lemma take_task:
  assumes "live_ok InHandler s (before @ t # later)"
  shows "live_ok (caller_of t) s (before @ later)" "proper t" "render_fits t"
    "\<forall>r. pre_document t = Some r \<longrightarrow> fresh r s" "pre_ready t \<longrightarrow> \<not> live_initialized s"
  using assms by (auto simp: live_ok_def flags_ok_def documents_ok_def)

lemma live_step_ok: "live_step diag win w w' \<Longrightarrow> live_ok InHandler (fst w) (snd w) \<Longrightarrow> live_ok InHandler (fst w') (snd w')"
proof (induction rule: live_step.induct)
  case (Continues t r s s' new before later)
  then show ?case
    using continue_ok [OF take_task [of s before t later], of diag r] by (simp add: turn_ok_def)
next
  case (Frame f s s' new ts)
  then show ?case using handleFrame_ok [of s ts win f] by (simp add: turn_ok_def)
next
  case (NativeExit s s' new ts)
  then show ?case using nativeSessionFailed_ok [of s ts] by (simp add: turn_ok_def)
next
  case (SocketClosed s s' new ts)
  then show ?case
    using close_turn_ok [of "s\<lparr>live_open := False\<rparr>" ts ClientDisconnect False] by (simp add: turn_ok_def)
next
  case (SocketError s s' new ts)
  then show ?case using close_turn_ok [of s ts ErrorClose False] by (simp add: turn_ok_def)
next
  case (TimerFired s s' new ts)
  then show ?case using close_turn_ok [of s ts ErrorClose True] by (simp add: turn_ok_def)
next
  case (ServerClose s s' new ts)
  then show ?case using close_turn_ok [of s ts ServerShutdown True] by (simp add: turn_ok_def)
qed

lemma live_reach_ok: "live_reach diag win w \<Longrightarrow> live_ok InHandler (fst w) (snd w)"
proof (induction rule: live_reach.induct)
  case start
  show ?case
    by (simp add: live_ok_def flags_ok_def revisions_ok_def documents_ok_def new_live_def)
next
  case (steps w w')
  then show ?case by (blast intro: live_step_ok)
qed


section \<open>Closing\<close>

fun is_close :: "task \<Rightarrow> bool" where
  "is_close CloseSent = True"
| "is_close (CloseReap _) = True"
| "is_close _ = False"

text \<open>A turn closes the session only by starting the tasks that finish the closing.\<close>

definition closes :: "live \<Rightarrow> turn \<Rightarrow> bool" where
  "closes s r \<longleftrightarrow> (live_closing s \<longrightarrow> live_closing (fst r)) \<and> (live_resolved s \<longrightarrow> live_resolved (fst r)) \<and>
     (live_closing (fst r) \<longrightarrow> live_closing s \<or> list_ex is_close (snd r))"

lemma closesI: "live_closing s' = live_closing s \<Longrightarrow> live_resolved s' = live_resolved s \<Longrightarrow> closes s (s', ts)"
  by (simp add: closes_def)

lemma drain_closes: "closes s (drain_loop s)" "closes s (drainChanges s)"
  by (auto simp: drainChanges_def drain_loop_def sends intro!: closesI split: list.split)

lemma finish_closes: "closes s (finish_caller c s)"
  using drain_closes(2) [of "s\<lparr>live_initializing := False\<rparr>"] drain_closes(2) [of "s\<lparr>live_processing := False\<rparr>"]
  by (cases c) (auto simp: finish_caller_def Let_def closes_def)

lemma failure_closes: "closes s (sessionFailure c code r s)" "closes s (throw c s)" "closes s (protocolFailure c code fatal r s)"
  using finish_closes
  by (cases c; auto simp: sessionFailure_def throw_def protocolFailure_def sends intro!: closesI)+

lemma close_live_closes: "closes s (close_live reason notify s)"
  by (auto simp: close_live_def closes_def sends Let_def)

lemma close_then_closes: "closes s (let (s', new) = close_live reason notify s in (s', new @ [AfterClose c]))"
  using close_live_closes [of s reason notify] by (auto simp: closes_def split: prod.split)

lemma render_closes:
  "closes s (after_render c s)" "closes s (render_page c r n ps b s)" "closes s (renderRevision c r s)"
  "closes s (render_done c r ps s)" "closes s (render_got c r n ps b p s)" "closes s (render_counted c r n ps k s)"
  "closes s (render_send c r ps todo s)"
proof -
  show after: "closes s (after_render c s)" for c s
    using drain_closes finish_closes by (cases c) (simp_all add: after_render_def)
  show page: "closes s (render_page c r n ps b s)" for n ps b
    using after by (auto simp: render_page_def intro: closesI)
  show "closes s (renderRevision c r s)" using after page by (simp add: renderRevision_def)
  show finished: "closes s (render_done c r ps s)"
    using after by (auto simp: render_done_def sends intro!: closesI)
  show "closes s (render_got c r n ps b p s)" using page by (auto simp: render_got_def Let_def intro: closesI)
  show "closes s (render_counted c r n ps k s)" using finished failure_closes by (simp add: render_counted_def)
  show "closes s (render_send c r ps todo s)"
    by (auto simp: render_send_def sendPage_def sends intro!: closesI split: list.split)
qed

lemma frame_closes: "closes s (handleFrame win f s)" "closes s (nativeSessionFailed s)"
proof -
  have "closes s (drainChanges s')"
    if "live_closing s' = live_closing s" "live_resolved s' = live_resolved s" for s'
    using drain_closes(2) [of s'] that by (auto simp: closes_def)
  then have "closes s (enqueueChange m s)" for m
    using failure_closes
    by (auto simp: enqueueChange_def Let_def intro!: closesI split: option.split bool.split)
  then show "closes s (handleFrame win f s)"
    using failure_closes close_live_closes
    by (auto simp: handleFrame_def initialize_def intro!: closesI split: inbound.split sum.split TexpressoClientMessage.split)
  show "closes s (nativeSessionFailed s)"
    using failure_closes by (auto simp: nativeSessionFailed_def intro: closesI)
qed

lemma continue_closes: "closes s (continue diag t r s)"
  using failure_closes finish_closes drain_closes render_closes close_then_closes
  by (cases t)
     (auto simp: session_started_def change_applied_def compile_error_def after_protocol_def close_sent_def
        close_reaped_def sends Let_def closes_def [of s "(_ :: live, _)"] split: reply.split)


definition closing_ok :: "live \<Rightarrow> task list \<Rightarrow> bool" where
  "closing_ok s ts \<longleftrightarrow> (live_closing s \<longrightarrow> live_resolved s \<or> list_ex is_close ts)"

lemma closing_ok_turn: "closes s (s', new) \<Longrightarrow> closing_ok s ts \<Longrightarrow> closing_ok s' (ts @ new)"
  by (auto simp: closes_def closing_ok_def)

lemma live_step_closing: "live_step diag win w w' \<Longrightarrow> closing_ok (fst w) (snd w) \<Longrightarrow> closing_ok (fst w') (snd w')"
proof (induction rule: live_step.induct)
  case (Continues t r s s' new before later)
  show ?case
  proof (cases "is_close t")
    case True
    with Continues show ?thesis
      by (cases t) (auto simp: closing_ok_def close_sent_def close_reaped_def)
  next
    case False
    with Continues continue_closes [of s diag t r] closing_ok_turn [of s s' new "before @ later"]
    show ?thesis by (simp add: closing_ok_def)
  qed
next
  case (Frame f s s' new ts)
  then show ?case using frame_closes(1) [of s win f] by (simp add: closing_ok_turn)
next
  case (NativeExit s s' new ts)
  then show ?case using frame_closes(2) [of s] by (simp add: closing_ok_turn)
next
  case (SocketClosed s s' new ts)
  then have "closes s (s', new)"
    using close_live_closes [of "s\<lparr>live_open := False\<rparr>" ClientDisconnect False] by (simp add: closes_def)
  with SocketClosed show ?case by (simp add: closing_ok_turn)
next
  case (SocketError s s' new ts)
  then show ?case using close_live_closes [of s ErrorClose False] by (simp add: closing_ok_turn)
next
  case (TimerFired s s' new ts)
  then show ?case using close_live_closes [of s ErrorClose True] by (simp add: closing_ok_turn)
next
  case (ServerClose s s' new ts)
  then show ?case using close_live_closes [of s ServerShutdown True] by (simp add: closing_ok_turn)
qed

lemma live_reach_closing: "live_reach diag win w \<Longrightarrow> closing_ok (fst w) (snd w)"
proof (induction rule: live_reach.induct)
  case start
  show ?case by (simp add: closing_ok_def new_live_def)
next
  case (steps w w')
  then show ?case by (blast intro: live_step_closing)
qed

text \<open>The continuations a task has left once the session is closing.\<close>

fun work :: "task \<Rightarrow> nat" where
  "work (InitMkdtemp _) = 4"
| "work (InitMaterialize _) = 3"
| "work (InitStart _) = 2"
| "work (InitReady _) = 2"
| "work (DrainStarted _) = 4"
| "work (DrainApply _) = 3"
| "work (DrainNotRendered _ _) = 2"
| "work (RenderWait _ _ page pages _) = (maxPages - page) * 2 + length pages + 5"
| "work (RenderCount _ _ _ pages) = length pages + 3"
| "work (RenderPages _ _ _ todo) = length todo + 2"
| "work (FailureSent _) = 2"
| "work (ProtocolSent _ _) = 2"
| "work CloseSent = 2"
| "work _ = 1"

definition work_left :: "task list \<Rightarrow> nat" where
  "work_left ts = sum_list (map work ts)"

lemma closing_stops:
  assumes "live_closing s"
  shows "drain_loop s = (s\<lparr>live_processing := False\<rparr>, [])" "drainChanges s = (s, [])"
    "snd (finish_caller c s) = []" "snd (throw c s) = []" "snd (after_render c s) = []"
    "close_live reason notify s = (s, [])" "snd (renderRevision c r s) = []" "snd (sessionFailure c code rv s) = []"
  using assms
  by (cases c; simp add: drain_loop_def drainChanges_def finish_caller_def throw_def sessionFailure_def
      after_render_def close_live_def renderRevision_def Let_def)+

lemma closing_frames:
  assumes "live_closing s"
  shows "handleFrame win f s = (s, [])" "nativeSessionFailed s = (s, [])"
  using assms by (simp_all add: handleFrame_def nativeSessionFailed_def)

lemma work_append [simp]:
  "work_left [] = 0" "work_left (t # ts) = work t + work_left ts" "work_left (a @ b) = work_left a + work_left b"
  by (simp_all add: work_left_def)

lemma work_continue:
  assumes closing: "live_closing s" and fits: "render_fits t"
  shows "work_left (snd (continue diag t r s)) < work t"
  using assms
  by (cases t)
     (auto simp: closing_stops session_started_def protocolFailure_def change_applied_def render_got_def
        render_page_def render_counted_def render_done_def render_send_def after_protocol_def close_sent_def
        close_reaped_def Let_def split: reply.split list.split)

section \<open>Runs, for the witnesses\<close>

definition no_diag :: "jsstring \<Rightarrow> TexpressoDiagnostic list" where
  "no_diag log = []"

text \<open>The continuation of the first task, again and again, with the given replies.\<close>

fun play :: "(jsstring \<Rightarrow> TexpressoDiagnostic list) \<Rightarrow> reply list \<Rightarrow> world \<Rightarrow> world" where
  "play diag (r # rs) (s, t # ts) = (let (s', new) = continue diag t r s in play diag rs (s', ts @ new))"
| "play diag _ w = w"

lemma play_reach: "live_reach diag win w \<Longrightarrow> live_reach diag win (play diag rs w)"
proof (induction rs arbitrary: w)
  case (Cons r rs)
  obtain s ts where w: "w = (s, ts)" by fastforce
  show ?case
  proof (cases ts)
    case (Cons t ts')
    obtain s' new where c: "continue diag t r s = (s', new)" by fastforce
    have "live_step diag win w (s', ts' @ new)"
      using Continues [OF c, of win "[]" ts'] by (simp add: w Cons)
    then have "live_reach diag win (play diag rs (s', ts' @ new))"
      by (intro Cons.IH live_reach.steps [OF Cons.prems])
    then show ?thesis by (simp add: w Cons c)
  qed (use Cons.prems w in simp)
qed simp

definition sample_init :: TexpressoInitializeMessage where
  "sample_init = (case sample_message of Initialize m \<Rightarrow> m)"

lemma safe_any_host: "safe_private_path True p \<Longrightarrow> safe_private_path win p"
  by (auto simp: safe_private_path_def validatePrivateProjectPath_def Let_def split: if_splits)

lemma sample_frame: "handleFrame win (JsonFrame (message_json sample_message)) new_live =
    (new_live\<lparr>live_initializing := True\<rparr>, [InitMkdtemp sample_init])"
proof -
  have "file_ok True f \<Longrightarrow> file_ok win f" for f by (cases f) (auto intro: safe_any_host)
  then have "wf_message win sample_message"
    using sample_message_wf safe_any_host [of _ win]
    by (auto simp: sample_message_def wf_files_def list_all_iff)
  from validate_complete [OF this] show ?thesis
    by (simp add: handleFrame_def sample_init_def sample_message_def new_live_def initialize_def)
qed

text \<open>A session that renders a document of one page.\<close>

definition rendered_world :: "(jsstring \<Rightarrow> TexpressoDiagnostic list) \<Rightarrow> world" where
  "rendered_world diag =
     play diag [Done, Done, Done, Snap emptySnapshot, RenderedPage sample_page, Rejects, Pages 1]
       (new_live\<lparr>live_initializing := True\<rparr>, [InitMkdtemp sample_init])"

lemma rendered_reach: "live_reach diag win (rendered_world diag)"
proof -
  have "live_step diag win (new_live, []) (new_live\<lparr>live_initializing := True\<rparr>, [InitMkdtemp sample_init])"
    using Frame [OF sample_frame, where diag = diag and ts = "[]"] by simp
  with live_reach.start show ?thesis
    unfolding rendered_world_def by (blast intro: play_reach live_reach.steps)
qed

text \<open>A client that disconnects while the project directory is being made.\<close>

definition late_world :: "(jsstring \<Rightarrow> TexpressoDiagnostic list) \<Rightarrow> nat \<Rightarrow> world" where
  "late_world diag n =
     play diag (replicate n Done)
       (new_live\<lparr>live_initializing := True, live_open := False, live_closing := True\<rparr>,
        [InitMkdtemp sample_init, CloseReap False])"

lemma late_reach: "live_reach diag win (late_world diag n)"
proof -
  let ?s = "new_live\<lparr>live_initializing := True\<rparr>"
  have 1: "live_step diag win (new_live, []) (?s, [InitMkdtemp sample_init])"
    using Frame [OF sample_frame, where diag = diag and ts = "[]"] by simp
  have "live_step diag win (?s, [InitMkdtemp sample_init])
      (?s\<lparr>live_open := False, live_closing := True\<rparr>, [InitMkdtemp sample_init] @ [CloseReap False])"
    by (rule SocketClosed) (simp add: close_live_def new_live_def)
  then have 2: "live_step diag win (?s, [InitMkdtemp sample_init])
      (new_live\<lparr>live_initializing := True, live_open := False, live_closing := True\<rparr>,
       [InitMkdtemp sample_init, CloseReap False])"
    by (simp add: new_live_def)
  show ?thesis
    unfolding late_world_def by (rule play_reach) (blast intro: live_reach.intros 1 2)
qed

section \<open>Properties\<close>

text \<open>
  C1: in every reachable state of a live session, whatever the client, the network and the native
  session do: the revisions of the documents sent increase strictly and none is newer than the latest
  revision accepted; every document has at least one page and fewer than 64, each image at most 16 MiB
  and all of them at most 128 MiB.
\<close>

theorem live_documents:
  assumes "live_reach diag win (s, ts)"
  shows "sorted_wrt (<) (map fst (documents (live_outbound s))) \<and>
    (\<forall>(r, g, ds) \<in> set (documents (live_outbound s)). r \<le> live_latestReceived s \<and> g = r \<and>
      0 < length ds \<and> length ds < 64 \<and> (\<forall>d\<in>set ds. desc_byteLength d \<le> 16 * 1024 * 1024) \<and>
      sum_list (map desc_byteLength ds) \<le> 128 * 1024 * 1024)"
proof -
  have ok: "revisions_ok s" "documents_ok s ts" using live_reach_ok [OF assms] by (simp_all add: live_ok_def)
  have latest: "g \<le> live_latestReceived s" if "live_lastGood s = Some g" for g
  proof -
    have "live_started s \<noteq> []" "g \<le> last (live_started s)"
      using ok(2) that by (simp_all add: documents_ok_def)
    moreover from this(1) have "last (live_started s) \<le> live_latestReceived s"
      using ok(1) by (auto simp: revisions_ok_def)
    ultimately show ?thesis by linarith
  qed
  show ?thesis
    using ok latest unfolding documents_ok_def document_fits_def
    by (fastforce simp: maxPages_def maxPageBytes_def maxDocumentImageBytes_def)
qed

theorem live_documents_witness:
  "map fst (documents (live_outbound (fst (rendered_world no_diag)))) = [7]"
proof -
  have reach: "live_reach no_diag False (fst (rendered_world no_diag), snd (rendered_world no_diag))"
    using rendered_reach by simp
  have "documents (live_outbound (fst (rendered_world no_diag))) = [(7, 7, [pageDescriptor sample_page])]"
    by (simp add: rendered_world_def session_started_def sends renderRevision_def render_page_def render_got_def
        render_counted_def render_done_def maxPages_def maxPageBytes_def maxDocumentImageBytes_def sample_page_def
        sample_init_def sample_message_def new_live_def emptySnapshot_def)
  with live_documents [OF reach] show ?thesis by simp
qed

text \<open>
  C7: the queue of a reachable session never exceeds 64 changes and is empty once it closes; the
  revisions worked on and those still queued increase strictly, in the order they were accepted, up to
  the latest; one initialization or one change loop is at work at a time, never both, and exactly
  while its flag is set.
\<close>

theorem live_queue_discipline:
  assumes "live_reach diag win (s, ts)"
  shows "length (live_queue s) \<le> 64 \<and> (live_closing s \<longrightarrow> live_queue s = []) \<and>
    sorted_wrt (<) (live_started s @ map change_revision (live_queue s)) \<and>
    (\<forall>r\<in>set (live_started s @ map change_revision (live_queue s)). r \<le> live_latestReceived s) \<and>
    length (filter (\<lambda>t. is_init (caller_of t)) ts) = of_bool (live_initializing s) \<and>
    length (filter (\<lambda>t. is_drain (caller_of t)) ts) = of_bool (live_processing s) \<and>
    \<not> (live_initializing s \<and> live_processing s)"
  using live_reach_ok [OF assms]
  by (simp add: live_ok_def revisions_ok_def flags_ok_def maxQueuedRevisions_def init_count_def drain_count_def)

theorem live_queue_discipline_witness:
  "live_started (fst (rendered_world no_diag)) = [7] \<and> sorted_wrt (<) [7 :: int]"
proof -
  have reach: "live_reach no_diag False (fst (rendered_world no_diag), snd (rendered_world no_diag))"
    using rendered_reach by simp
  have "live_started (fst (rendered_world no_diag)) = [7]" "live_queue (fst (rendered_world no_diag)) = []"
    by (simp_all add: rendered_world_def session_started_def sends renderRevision_def render_page_def render_got_def
        render_counted_def render_done_def maxPages_def maxPageBytes_def maxDocumentImageBytes_def sample_page_def
        sample_init_def sample_message_def new_live_def emptySnapshot_def)
  with live_queue_discipline [OF reach] show ?thesis by simp
qed

text \<open>
  C23: closing terminates. Once a reachable session is closing, every continuation uses up work and no
  event makes new work, so only finitely many continuations remain; and when none is left the \<open>closed\<close>
  promise is resolved.
\<close>

theorem live_closing_terminates:
  assumes "live_reach diag win (s, ts)" and "live_closing s"
  shows "(live_step diag win (s, ts) w \<longrightarrow> live_closing (fst w) \<and> work_left (snd w) \<le> work_left ts) \<and>
    (ts = before @ t # later \<longrightarrow> work_left (before @ later @ snd (continue diag t r s)) < work_left ts) \<and>
    (ts = [] \<longrightarrow> live_resolved s)"
proof (intro conjI impI)
  have fits: "render_fits t" if "t \<in> set ts" for t
    using live_reach_ok [OF assms(1)] that by (simp add: live_ok_def documents_ok_def)
  then show "work_left (before @ later @ snd (continue diag t r s)) < work_left ts" if "ts = before @ t # later"
    using work_continue [OF assms(2), of t diag r] that by simp
  show "live_resolved s" if "ts = []"
    using live_reach_closing [OF assms(1)] assms(2) that by (simp add: closing_ok_def)
  show "work_left (snd w) \<le> work_left ts" if "live_step diag win (s, ts) w"
    using that assms(2) fits
  proof (cases rule: live_step.cases)
    case (Continues t r s' new before later)
    then show ?thesis using work_continue [OF assms(2), of t diag r] fits by simp
  qed (auto simp: closing_frames closing_stops)
  show "live_closing (fst w)" if "live_step diag win (s, ts) w"
    using that assms(2)
  proof (cases rule: live_step.cases)
    case (Continues t r s' new before later)
    then show ?thesis using continue_closes [of s diag t r] assms(2) by (simp add: closes_def)
  qed (auto simp: closing_frames closing_stops)
qed

theorem live_closing_terminates_witness:
  "work_left (snd (late_world no_diag 1)) < work_left (snd (late_world no_diag 0)) \<and> live_resolved (fst (late_world no_diag 5))"
proof
  have c: "live_closing (fst (late_world no_diag n))" if "n \<in> {0, 5}" for n
    using that by (auto simp: late_world_def eval_nat_numeral close_reaped_def session_started_def finish_caller_def
        new_live_def)
  have reach: "live_reach no_diag False (fst (late_world no_diag n), snd (late_world no_diag n))" for n
    using late_reach by simp
  have ts: "snd (late_world no_diag 0) = [] @ InitMkdtemp sample_init # [CloseReap False]"
    by (simp add: late_world_def)
  have "snd (late_world no_diag 1) = [] @ [CloseReap False] @ snd (continue no_diag (InitMkdtemp sample_init) Done (fst (late_world no_diag 0)))"
    by (simp add: late_world_def)
  with live_closing_terminates [OF reach [of 0] c, of undefined "[]" "InitMkdtemp sample_init" "[CloseReap False]" Done] ts
  show "work_left (snd (late_world no_diag 1)) < work_left (snd (late_world no_diag 0))" by simp
  have "snd (late_world no_diag 5) = []"
    by (simp add: late_world_def eval_nat_numeral close_reaped_def session_started_def finish_caller_def new_live_def)
  with live_closing_terminates [OF reach [of 5] c] show "live_resolved (fst (late_world no_diag 5))" by simp
qed

text \<open>
  When the client disconnects while \<open>initialize\<close> waits for its project directory, the session can
  end with its \<open>closed\<close> promise resolved and nothing left to run while the directory still exists:
  \<open>close\<close> saw no directory to remove, and the late return of \<open>initialize\<close> closes the session only.
\<close>

theorem live_directory_leak:
  "\<exists>s. live_reach diag win (s, []) \<and> live_resolved s \<and> live_closing s \<and> live_directory s"
proof -
  have "late_world diag 5 = (fst (late_world diag 5), [])" "live_resolved (fst (late_world diag 5))"
    "live_closing (fst (late_world diag 5))" "live_directory (fst (late_world diag 5))"
    by (simp_all add: late_world_def eval_nat_numeral close_reaped_def session_started_def finish_caller_def
        new_live_def)
  with late_reach [of diag win 5] show ?thesis by metis
qed

text \<open>
  A document of exactly 64 pages ends the session. When the sixty-fifth page is refused, the
  page count 64 is not below the page reached, so the refusal is thrown: to the change loop it is a
  session error.
\<close>

theorem live_sixty_four_pages:
  assumes "length pages = 64" and "\<not> live_closing s"
  shows "continue diag (RenderWait InDrain r 64 pages b) Rejects s = (s, [RenderCount InDrain r 64 pages]) \<and>
    continue diag (RenderCount InDrain r 64 pages) (Pages (length pages)) s =
      (sendJson (SessionErrorMsg (live_initialized s) ''session-operation-failed'' (applied_revision s)) s,
       [FailureSent InDrain])"
  using assms by (simp add: render_counted_def maxPages_def throw_def sessionFailure_def)

theorem live_sixty_four_pages_witness:
  "continue no_diag (RenderCount InDrain 7 64 (replicate 64 sample_page)) (Pages 64) new_live =
     (sendJson (SessionErrorMsg False ''session-operation-failed'' None) new_live, [FailureSent InDrain])"
proof -
  have "length (replicate 64 sample_page) = 64" "\<not> live_closing new_live"
    by (simp_all add: new_live_def)
  from live_sixty_four_pages [OF this, of no_diag 7 0] show ?thesis
    by (simp add: new_live_def applied_revision_def)
qed

end
