(* ===== verification/Effects.thy ===== *)
theory Effects
  imports Prelude
begin

text \<open>
  Asynchronous functions with a world: a function ends with a value, throws, or never settles (a
  child process it waits for never ends), and leaves the world changed. \<open>try\<close>/\<open>catch\<close> and
  \<open>try\<close>/\<open>finally\<close> are those of the language: a failing \<open>finally\<close> replaces the outcome, and a promise
  that stays pending reaches neither.
\<close>

datatype ('a, 'e) outcome = Value 'a | Throw 'e | Unsettled

type_synonym ('a, 'e, 'w) act = "'w \<Rightarrow> ('a, 'e) outcome \<times> 'w"

named_theorems act_simps \<open>the outcome of sequenced actions\<close>

definition give :: "'a \<Rightarrow> ('a, 'e, 'w) act" where
  "give x w = (Value x, w)"

definition raise :: "'e \<Rightarrow> ('a, 'e, 'w) act" where
  "raise e w = (Throw e, w)"

definition and_then :: "('a, 'e, 'w) act \<Rightarrow> ('a \<Rightarrow> ('b, 'e, 'w) act) \<Rightarrow> ('b, 'e, 'w) act" where
  "and_then m f w =
     (case m w of
        (Value x, w1) \<Rightarrow> f x w1
      | (Throw e, w1) \<Rightarrow> (Throw e, w1)
      | (Unsettled, w1) \<Rightarrow> (Unsettled, w1))"

definition catching :: "('a, 'e, 'w) act \<Rightarrow> ('e \<Rightarrow> ('a, 'f, 'w) act) \<Rightarrow> ('a, 'f, 'w) act" where
  "catching m handler w =
     (case m w of
        (Value x, w1) \<Rightarrow> (Value x, w1)
      | (Throw e, w1) \<Rightarrow> handler e w1
      | (Unsettled, w1) \<Rightarrow> (Unsettled, w1))"

definition finally_do :: "('a, 'e, 'w) act \<Rightarrow> (unit, 'e, 'w) act \<Rightarrow> ('a, 'e, 'w) act" where
  "finally_do m f w =
     (case m w of
        (Unsettled, w1) \<Rightarrow> (Unsettled, w1)
      | (r, w1) \<Rightarrow>
          (case f w1 of
             (Value u, w2) \<Rightarrow> (r, w2)
           | (Throw e, w2) \<Rightarrow> (Throw e, w2)
           | (Unsettled, w2) \<Rightarrow> (Unsettled, w2)))"

text \<open>An operation of the host that changes the world or fails and leaves it.\<close>

definition attempt :: "('w \<Rightarrow> 'f + 'w) \<Rightarrow> ('f \<Rightarrow> 'e) \<Rightarrow> (unit, 'e, 'w) act" where
  "attempt op err w = (case op w of Inl f \<Rightarrow> (Throw (err f), w) | Inr w1 \<Rightarrow> (Value (), w1))"

section \<open>Laws\<close>

lemma act_simps_basic [act_simps]:
  "give x w = (Value x, w)" "raise e w = (Throw e, w)"
  "and_then (give x) f = f x" "and_then (raise e) f = raise e"
  by (simp_all add: give_def raise_def and_then_def fun_eq_iff)

lemma and_then_assoc: "and_then (and_then m f) g = and_then m (\<lambda>x. and_then (f x) g)"
  by (auto simp: and_then_def fun_eq_iff split: prod.splits outcome.splits)

lemma and_then_cases:
  obtains (val) x w1 where "m w = (Value x, w1)" "and_then m f w = f x w1"
    | (thrown) e w1 where "m w = (Throw e, w1)" "and_then m f w = (Throw e, w1)"
    | (pending) w1 where "m w = (Unsettled, w1)" "and_then m f w = (Unsettled, w1)"
  by (cases "m w"; cases "fst (m w)") (auto simp: and_then_def)

lemma and_then_Value: "and_then m f w = (Value y, w') \<longleftrightarrow> (\<exists>x w1. m w = (Value x, w1) \<and> f x w1 = (Value y, w'))"
  by (auto simp: and_then_def split: prod.split outcome.split)

lemma attempt_Value: "attempt op err w = (Value x, w') \<longleftrightarrow> op w = Inr w'"
  by (auto simp: attempt_def split: sum.split)

lemma catching_cases:
  obtains (val) x w1 where "m w = (Value x, w1)" "catching m g w = (Value x, w1)"
    | (thrown) e w1 where "m w = (Throw e, w1)" "catching m g w = g e w1"
    | (pending) w1 where "m w = (Unsettled, w1)" "catching m g w = (Unsettled, w1)"
  by (cases "m w"; cases "fst (m w)") (auto simp: catching_def)

text \<open>
  A property of the world that every part keeps is kept by the whole. \<open>keeps P m\<close> speaks of every
  outcome, \<open>settles m\<close> says that none stays pending.
\<close>

definition keeps :: "('w \<Rightarrow> bool) \<Rightarrow> ('a, 'e, 'w) act \<Rightarrow> bool" where
  "keeps P m \<longleftrightarrow> (\<forall>w. P w \<longrightarrow> P (snd (m w)))"

definition settles :: "('a, 'e, 'w) act \<Rightarrow> bool" where
  "settles m \<longleftrightarrow> (\<forall>w. fst (m w) \<noteq> Unsettled)"

named_theorems act_intros \<open>keeps and settles, by the structure of an action\<close>

lemma keeps_give [act_intros]: "keeps P (give x)" and keeps_raise [act_intros]: "keeps P (raise e)"
  by (simp_all add: keeps_def act_simps)

lemma keepsI: "(\<And>w r w1. P w \<Longrightarrow> m w = (r, w1) \<Longrightarrow> P w1) \<Longrightarrow> keeps P m"
  by (metis keeps_def prod.collapse)

lemma keepsD: "keeps P m \<Longrightarrow> P w \<Longrightarrow> m w = (r, w1) \<Longrightarrow> P w1"
  by (metis keeps_def snd_conv)

lemma keeps_and_then [act_intros]: "keeps P m \<Longrightarrow> (\<And>x. keeps P (f x)) \<Longrightarrow> keeps P (and_then m f)"
  unfolding keeps_def by (auto simp: and_then_def split: prod.splits outcome.splits)

lemma keeps_catching [act_intros]: "keeps P m \<Longrightarrow> (\<And>e. keeps P (g e)) \<Longrightarrow> keeps P (catching m g)"
  unfolding keeps_def by (auto simp: catching_def split: prod.splits outcome.splits)

lemma keeps_finally [act_intros]: "keeps P m \<Longrightarrow> keeps P f \<Longrightarrow> keeps P (finally_do m f)"
  unfolding keeps_def by (auto simp: finally_do_def split: prod.splits outcome.splits)

lemma settles_give [act_intros]: "settles (give x)" and settles_raise [act_intros]: "settles (raise e)"
  by (simp_all add: settles_def act_simps)

lemma settles_and_then [act_intros]: "settles m \<Longrightarrow> (\<And>x. settles (f x)) \<Longrightarrow> settles (and_then m f)"
  unfolding settles_def by (auto simp: and_then_def split: prod.splits outcome.splits) (metis fst_conv)+

lemma settles_catching [act_intros]: "settles m \<Longrightarrow> (\<And>e. settles (g e)) \<Longrightarrow> settles (catching m g)"
  unfolding settles_def by (auto simp: catching_def split: prod.splits outcome.splits) (metis fst_conv)+

lemma settles_finally [act_intros]: "settles m \<Longrightarrow> settles f \<Longrightarrow> settles (finally_do m f)"
  unfolding settles_def by (auto simp: finally_do_def split: prod.splits outcome.splits) (metis fst_conv)+

lemma settles_attempt [act_intros]: "settles (attempt op err)"
  by (auto simp: settles_def attempt_def split: sum.split)

end
