(* ===== verification/Regex.thy ===== *)
theory Regex
  imports Prelude
begin

text \<open>
  Regular expressions as JavaScript runs them, for the patterns that several files of the program
  apply to compiler and package manager output. The matcher returns every way a pattern can match at
  a position, in the order a backtracking engine tries them: the first one is the match. Text before
  the position is kept reversed, so that the anchors \<open>^\<close> and \<open>$\<close> can look at both sides.

  Code units stand for characters; the classes the program uses do not distinguish the two halves of
  a surrogate pair.
\<close>

section \<open>Patterns\<close>

datatype rx =
    Eps
  | Chars "nat \<Rightarrow> bool"
  | Seq rx rx
  | Alt rx rx
  | Star bool rx
  | Group nat rx
  | InputStart
  | LineStart
  | LineEnd

text \<open>Text before the position (reversed), text after it, and the captures so far (the last one of a
  group counts).\<close>

type_synonym rx_state = "jsstring \<times> jsstring \<times> (nat \<times> jsstring) list"

definition line_terminator :: "nat \<Rightarrow> bool" where
  "line_terminator c \<longleftrightarrow> c = 10 \<or> c = 13 \<or> c = 8232 \<or> c = 8233"

definition at_end :: "jsstring \<Rightarrow> bool" where
  "at_end s \<longleftrightarrow> (case s of [] \<Rightarrow> True | c # _ \<Rightarrow> line_terminator c)"

text \<open>A star repeats while an iteration consumes something; greedy stars prefer more iterations. The
  number bounds the iterations: each one consumes a unit.\<close>

fun stars :: "bool \<Rightarrow> (rx_state \<Rightarrow> rx_state list) \<Rightarrow> nat \<Rightarrow> rx_state \<Rightarrow> rx_state list" where
  "stars greedy f 0 st = [st]"
| "stars greedy f (Suc n) st =
     (let further = concat (map (stars greedy f n)
                      (filter (\<lambda>st'. length (fst (snd st')) < length (fst (snd st))) (f st)))
      in if greedy then further @ [st] else st # further)"

fun matches :: "rx \<Rightarrow> rx_state \<Rightarrow> rx_state list" where
  "matches Eps st = [st]"
| "matches (Chars P) (b, a, g) =
     (case a of [] \<Rightarrow> [] | c # a' \<Rightarrow> if P c then [(c # b, a', g)] else [])"
| "matches (Seq r r') st = concat (map (matches r') (matches r st))"
| "matches (Alt r r') st = matches r st @ matches r' st"
| "matches (Star greedy r) st = stars greedy (matches r) (length (fst (snd st))) st"
| "matches (Group i r) (b, a, g) =
     map (\<lambda>(b', a', g'). (b', a', (i, rev (take (length b' - length b) b')) # g')) (matches r (b, a, g))"
| "matches InputStart (b, a, g) = (if b = [] then [(b, a, g)] else [])"
| "matches LineStart (b, a, g) = (if at_end b then [(b, a, g)] else [])"
| "matches LineEnd (b, a, g) = (if at_end a then [(b, a, g)] else [])"

text \<open>The first position from here on at which the pattern matches: the text before the match
  (reversed) and the state after it.\<close>

fun search :: "rx \<Rightarrow> jsstring \<Rightarrow> jsstring \<Rightarrow> (jsstring \<times> rx_state) option" where
  "search r b a =
     (case matches r (b, a, []) of
        st # _ \<Rightarrow> Some (b, st)
      | [] \<Rightarrow> (case a of [] \<Rightarrow> None | c # a' \<Rightarrow> search r (c # b) a'))"

declare search.simps [simp del]

text \<open>\<open>pattern.exec(s)\<close>, \<open>s.match(pattern)\<close>: the captures. \<open>pattern.test(s)\<close>.\<close>

definition exec :: "rx \<Rightarrow> jsstring \<Rightarrow> (nat \<Rightarrow> jsstring option) option" where
  "exec r s = map_option (\<lambda>(_, _, _, g). map_of g) (search r [] s)"

definition test :: "rx \<Rightarrow> jsstring \<Rightarrow> bool" where
  "test r s \<longleftrightarrow> search r [] s \<noteq> None"

section \<open>Abbreviations\<close>

definition opt :: "rx \<Rightarrow> rx" where "opt r = Alt r Eps"
definition plus :: "rx \<Rightarrow> rx" where "plus r = Seq r (Star True r)"
definition plus_lazy :: "rx \<Rightarrow> rx" where "plus_lazy r = Seq r (Star False r)"

fun lit :: "jsstring \<Rightarrow> rx" where
  "lit [] = Eps"
| "lit (c # s) = Seq (Chars ((=) c)) (lit s)"

fun seqs :: "rx list \<Rightarrow> rx" where
  "seqs [] = Eps"
| "seqs [r] = r"
| "seqs (r # r' # rs) = Seq r (seqs (r' # rs))"

text \<open>\<open>r{0,n}\<close>\<close>

fun upto_times :: "nat \<Rightarrow> rx \<Rightarrow> rx" where
  "upto_times 0 r = Eps"
| "upto_times (Suc n) r = Alt (Seq r (upto_times n r)) Eps"

text \<open>The flag \<open>i\<close> with \<open>u\<close>: simple case folding. Two letters have a counterpart outside ASCII, the
  Kelvin sign and the long s.\<close>

definition same_letter :: "nat \<Rightarrow> nat \<Rightarrow> bool" where
  "same_letter c d \<longleftrightarrow> c = d \<or> (is_lower c \<and> c = d + 32) \<or> (is_upper c \<and> c + 32 = d) \<or>
     (d = 8490 \<and> (c = 75 \<or> c = 107)) \<or> (d = 383 \<and> (c = 83 \<or> c = 115))"

fun lit_i :: "jsstring \<Rightarrow> rx" where
  "lit_i [] = Eps"
| "lit_i (c # s) = Seq (Chars (same_letter c)) (lit_i s)"

definition dot_class :: "nat \<Rightarrow> bool" where "dot_class c \<longleftrightarrow> \<not> line_terminator c"
definition not_in :: "string \<Rightarrow> nat \<Rightarrow> bool" where "not_in s c \<longleftrightarrow> c \<notin> set (js s)"

section \<open>The language of a pattern\<close>

text \<open>The strings a pattern can consume, anchors counted as empty, and the groups it contains.\<close>

inductive lang :: "rx \<Rightarrow> jsstring \<Rightarrow> bool" where
  lang_Eps: "lang Eps []"
| lang_Chars: "P c \<Longrightarrow> lang (Chars P) [c]"
| lang_Seq: "lang r u \<Longrightarrow> lang r' v \<Longrightarrow> lang (Seq r r') (u @ v)"
| lang_AltL: "lang r u \<Longrightarrow> lang (Alt r r') u"
| lang_AltR: "lang r' u \<Longrightarrow> lang (Alt r r') u"
| lang_stop: "lang (Star greedy r) []"
| lang_more: "lang r u \<Longrightarrow> lang (Star greedy r) v \<Longrightarrow> lang (Star greedy r) (u @ v)"
| lang_Group: "lang r u \<Longrightarrow> lang (Group i r) u"
| lang_InputStart: "lang InputStart []"
| lang_LineStart: "lang LineStart []"
| lang_LineEnd: "lang LineEnd []"

inductive_simps lang_Eps_iff [simp]: "lang Eps w"
inductive_simps lang_Chars_iff [simp]: "lang (Chars P) w"
inductive_simps lang_Seq_iff: "lang (Seq r r') w"
inductive_simps lang_Alt_iff [simp]: "lang (Alt r r') w"
inductive_simps lang_Group_iff [simp]: "lang (Group i r) w"
inductive_simps lang_anchor_iff [simp]: "lang InputStart w" "lang LineStart w" "lang LineEnd w"
inductive_cases lang_StarE: "lang (Star greedy r) w"

fun groups :: "rx \<Rightarrow> (nat \<times> rx) list" where
  "groups (Seq r r') = groups r @ groups r'"
| "groups (Alt r r') = groups r @ groups r'"
| "groups (Star greedy r) = groups r"
| "groups (Group i r) = (i, r) # groups r"
| "groups _ = []"

text \<open>What a way of matching consumes is in the language, and what it captures in that of the group.\<close>

definition consumes :: "(jsstring \<Rightarrow> bool) \<Rightarrow> (nat \<times> rx) list \<Rightarrow> rx_state \<Rightarrow> rx_state \<Rightarrow> bool" where
  "consumes L gs st st' \<longleftrightarrow>
     (\<exists>w. L w \<and> fst (snd st) = w @ fst (snd st') \<and> fst st' = rev w @ fst st) \<and>
     (\<forall>i u. (i, u) \<in> set (snd (snd st')) \<longrightarrow>
        (i, u) \<in> set (snd (snd st)) \<or> (\<exists>r. (i, r) \<in> set gs \<and> lang r u))"

lemma consumes_trans:
  assumes "consumes L gs st st1" "consumes L' gs' st1 st2"
    and "\<And>u v. L u \<Longrightarrow> L' v \<Longrightarrow> K (u @ v)" and "set gs \<union> set gs' \<subseteq> set hs"
  shows "consumes K hs st st2"
proof -
  from assms(1) obtain u where "L u" "fst (snd st) = u @ fst (snd st1)" "fst st1 = rev u @ fst st"
    unfolding consumes_def by blast
  moreover from assms(2) obtain v where "L' v" "fst (snd st1) = v @ fst (snd st2)" "fst st2 = rev v @ fst st1"
    unfolding consumes_def by blast
  ultimately have "\<exists>w. K w \<and> fst (snd st) = w @ fst (snd st2) \<and> fst st2 = rev w @ fst st"
    using assms(3) by (intro exI [of _ "u @ v"]) simp
  with assms(1,2,4) show ?thesis unfolding consumes_def by blast
qed

lemma consumes_mono: "consumes L gs st st' \<Longrightarrow> (\<And>w. L w \<Longrightarrow> K w) \<Longrightarrow> set gs \<subseteq> set hs \<Longrightarrow> consumes K hs st st'"
  unfolding consumes_def by blast

lemma stars_consumes:
  assumes "\<And>st st'. st' \<in> set (f st) \<Longrightarrow> consumes (lang r) gs st st'"
  shows "st' \<in> set (stars greedy f n st) \<Longrightarrow> consumes (lang (Star greedy r)) gs st st'"
proof (induction n arbitrary: st)
  case 0
  then show ?case by (auto simp: consumes_def intro: lang_stop)
next
  case (Suc n)
  show ?case
  proof (cases "st' = st")
    case True
    then show ?thesis by (auto simp: consumes_def intro: lang_stop)
  next
    case False
    with Suc.prems obtain st1 where "st1 \<in> set (f st)" and "st' \<in> set (stars greedy f n st1)"
      by (auto simp: Let_def split: if_splits)
    then have "consumes (lang r) gs st st1" "consumes (lang (Star greedy r)) gs st1 st'"
      by (simp_all add: assms Suc.IH)
    then show ?thesis by (rule consumes_trans) (auto intro: lang_more)
  qed
qed

lemma matches_consumes: "st' \<in> set (matches r st) \<Longrightarrow> consumes (lang r) (groups r) st st'"
proof (induction r arbitrary: st st')
  case (Chars P)
  then show ?case by (cases st) (auto simp: consumes_def split: list.splits if_splits)
next
  case (Seq r r')
  from Seq.prems obtain st1 where 1: "st1 \<in> set (matches r st)" and 2: "st' \<in> set (matches r' st1)" by auto
  from Seq.IH(1) [OF 1] Seq.IH(2) [OF 2] show ?case by (rule consumes_trans) (auto intro: lang_Seq)
next
  case (Alt r r')
  from Alt.prems have "st' \<in> set (matches r st) \<or> st' \<in> set (matches r' st)" by simp
  with Alt.IH have "consumes (lang r) (groups r) st st' \<or> consumes (lang r') (groups r') st st'" by blast
  then show ?case by (auto elim: consumes_mono)
next
  case (Star greedy r)
  then have "st' \<in> set (stars greedy (matches r) (length (fst (snd st))) st)" by simp
  from stars_consumes [OF Star.IH this] show ?case by simp
next
  case (Group i r)
  obtain b a g where st: "st = (b, a, g)" by (cases st)
  from Group.prems obtain b' a' g' where "(b', a', g') \<in> set (matches r st)"
    and st': "st' = (b', a', (i, rev (take (length b' - length b) b')) # g')"
    unfolding st by force
  then have c: "consumes (lang r) (groups r) (b, a, g) (b', a', g')" using Group.IH st by simp
  then obtain w where "lang r w" "a = w @ a'" "b' = rev w @ b" unfolding consumes_def by auto
  with c show ?case unfolding st st' by (auto simp: consumes_def)
qed (auto simp: consumes_def split: if_splits)

lemma search_consumes:
  "search r b a = Some (b', st) \<Longrightarrow>
     \<exists>v w. a = v @ w @ fst (snd st) \<and> b' = rev v @ b \<and> fst st = rev w @ b' \<and> lang r w \<and>
       (\<forall>i u. (i, u) \<in> set (snd (snd st)) \<longrightarrow> (\<exists>r'. (i, r') \<in> set (groups r) \<and> lang r' u))"
proof (induction r b a rule: search.induct)
  case (1 r b a)
  show ?case
  proof (cases "matches r (b, a, [])")
    case (Cons st1 sts)
    with 1 have st: "st = st1" "b' = b" by (auto simp: search.simps [of r b a])
    have "st1 \<in> set (matches r (b, a, []))" unfolding Cons by simp
    from matches_consumes [OF this] show ?thesis by (auto simp: st consumes_def)
  next
    case Nil
    with 1 obtain c a' where a: "a = c # a'" and s: "search r (c # b) a' = Some (b', st)"
      by (auto simp: search.simps [of r b a] split: list.splits)
    from 1(1) [OF Nil a s] obtain v w where
      "a' = v @ w @ fst (snd st)" "b' = rev v @ c # b" "fst st = rev w @ b'" "lang r w"
      "\<forall>i u. (i, u) \<in> set (snd (snd st)) \<longrightarrow> (\<exists>r'. (i, r') \<in> set (groups r) \<and> lang r' u)" by blast
    then show ?thesis unfolding a by (intro exI [of _ "c # v"] exI [of _ w]) simp
  qed
qed

lemma exec_capture:
  assumes "exec r s = Some caps" and "caps i = Some u"
  obtains r' where "(i, r') \<in> set (groups r)" "lang r' u"
proof -
  from assms obtain b st where "search r [] s = Some (b, st)" and "map_of (snd (snd st)) i = Some u"
    by (auto simp: exec_def)
  with search_consumes [OF this(1)] that show thesis by (blast dest: map_of_SomeD)
qed

text \<open>Without anchors the engine finds every string of the language, so \<open>test\<close> decides whether the
  text contains one.\<close>

fun anchor_free :: "rx \<Rightarrow> bool" where
  "anchor_free (Seq r r') = (anchor_free r \<and> anchor_free r')"
| "anchor_free (Alt r r') = (anchor_free r \<and> anchor_free r')"
| "anchor_free (Star greedy r) = anchor_free r"
| "anchor_free (Group i r) = anchor_free r"
| "anchor_free r = (r \<noteq> InputStart \<and> r \<noteq> LineStart \<and> r \<noteq> LineEnd)"

definition reaches :: "rx_state list \<Rightarrow> jsstring \<Rightarrow> jsstring \<Rightarrow> bool" where
  "reaches sts b a \<longleftrightarrow> (\<exists>g. (b, a, g) \<in> set sts)"

lemma stars_step:
  "st1 \<in> set (f st) \<Longrightarrow> st' \<in> set (stars greedy f n st1) \<Longrightarrow>
     length (fst (snd st1)) < length (fst (snd st)) \<Longrightarrow> st' \<in> set (stars greedy f (Suc n) st)"
  by (auto simp: Let_def simp del: split_paired_Ex)

lemma stars_complete:
  assumes "lang (Star greedy r) w"
    and "\<And>u b a g. lang r u \<Longrightarrow> reaches (f (b, u @ a, g)) (rev u @ b) a"
    and "length w \<le> n"
  shows "reaches (stars greedy f n (b, w @ a, g)) (rev w @ b) a"
  using assms(1,3)
proof (induction "Star greedy r" w arbitrary: b g n)
  case lang_stop
  have "st \<in> set (stars greedy f n st)" for st by (cases n) (auto simp: Let_def)
  then show ?case by (auto simp: reaches_def)
next
  case (lang_more u v)
  show ?case
  proof (cases "u = []")
    case True
    with lang_more show ?thesis by simp
  next
    case False
    with lang_more.prems obtain m where n: "n = Suc m" "length v \<le> m" by (cases n; cases u) auto
    from assms(2) [OF lang_more(1), of b "v @ a" g] obtain g1 where
      1: "(rev u @ b, v @ a, g1) \<in> set (f (b, u @ v @ a, g))" by (auto simp: reaches_def)
    from lang_more(4) [OF n(2), of "rev u @ b" g1] obtain g2 where
      2: "(rev v @ rev u @ b, a, g2) \<in> set (stars greedy f m (rev u @ b, v @ a, g1))" by (auto simp: reaches_def)
    have "(rev v @ rev u @ b, a, g2) \<in> set (stars greedy f (Suc m) (b, u @ v @ a, g))"
      by (rule stars_step [where f = f, OF 1 2]) (simp add: False)
    then show ?thesis by (auto simp: n(1) reaches_def simp del: stars.simps)
  qed
qed

lemma matches_complete:
  "lang r w \<Longrightarrow> anchor_free r \<Longrightarrow> reaches (matches r (b, w @ a, g)) (rev w @ b) a"
proof (induction r arbitrary: w b a g)
  case (Seq r r')
  from Seq.prems obtain u v where w: "w = u @ v" "lang r u" "lang r' v" by (auto simp: lang_Seq_iff)
  with Seq.IH(1) [of u b "v @ a" g] Seq.prems obtain g1 where
    "(rev u @ b, v @ a, g1) \<in> set (matches r (b, u @ v @ a, g))" by (auto simp: reaches_def)
  moreover from w Seq.IH(2) [of v "rev u @ b" a g1] Seq.prems obtain g2 where
    "(rev v @ rev u @ b, a, g2) \<in> set (matches r' (rev u @ b, v @ a, g1))" by (auto simp: reaches_def)
  ultimately show ?case by (auto simp: w reaches_def intro!: exI [of _ g2] bexI)
next
  case (Alt r r')
  then show ?case by (fastforce simp: reaches_def)
next
  case (Star greedy r)
  then have "lang (Star greedy r) w" "anchor_free r" by simp_all
  with Star.IH show ?case by (simp, intro stars_complete) auto
next
  case (Group i r)
  from Group.prems Group.IH [of w b a g] obtain g1 where "(rev w @ b, a, g1) \<in> set (matches r (b, w @ a, g))"
    by (auto simp: reaches_def)
  then show ?case by (force simp: reaches_def)
qed (auto simp: reaches_def)

lemma search_None: "search r b a = None \<longleftrightarrow> (\<forall>v u. a = v @ u \<longrightarrow> matches r (rev v @ b, u, []) = [])"
proof (induction r b a rule: search.induct)
  case (1 r b a)
  show ?case
  proof (cases "matches r (b, a, [])")
    case (Cons st sts)
    then have "\<exists>v u. a = v @ u \<and> matches r (rev v @ b, u, []) \<noteq> []"
      by (intro exI [of _ "[]"] exI [of _ a]) simp
    with Cons show ?thesis by (auto simp: search.simps [of r b a])
  next
    case Nil
    show ?thesis
    proof (cases a)
      case Nil
      with \<open>matches r (b, a, []) = []\<close> show ?thesis by (auto simp: search.simps [of r b "[]"])
    next
      case (Cons c a')
      have "search r b a = search r (c # b) a'"
        using Nil by (simp add: search.simps [of r b a]) (simp add: Cons)
      moreover have "matches r (rev v @ b, u, []) = []"
        if all: "\<forall>v u. a' = v @ u \<longrightarrow> matches r (rev v @ c # b, u, []) = []" and "a = v @ u" for v u
      proof (cases v)
        case Nil
        with \<open>matches r (b, a, []) = []\<close> that show ?thesis by simp
      next
        case (Cons d v')
        with that \<open>a = c # a'\<close> all [rule_format, of v' u] show ?thesis by simp
      qed
      moreover have "matches r (rev v @ c # b, u, []) = []"
        if all: "\<forall>v u. a = v @ u \<longrightarrow> matches r (rev v @ b, u, []) = []" and "a' = v @ u" for v u
        using all [rule_format, of "c # v" u] that(2) Cons by simp
      ultimately show ?thesis using 1(1) [OF Nil Cons] by metis
    qed
  qed
qed

theorem test_iff_contains:
  assumes "anchor_free r"
  shows "test r s \<longleftrightarrow> (\<exists>u w v. s = u @ w @ v \<and> lang r w)"
proof
  assume "test r s"
  then obtain b st where "search r [] s = Some (b, st)" by (auto simp: test_def)
  from search_consumes [OF this] show "\<exists>u w v. s = u @ w @ v \<and> lang r w" by blast
next
  assume "\<exists>u w v. s = u @ w @ v \<and> lang r w"
  then obtain u w v where s: "s = u @ w @ v" "lang r w" by blast
  from matches_complete [OF s(2) assms, of "rev u" v "[]"] have "matches r (rev u, w @ v, []) \<noteq> []"
    by (auto simp: reaches_def)
  then show "test r s" by (auto simp: test_def s(1) search_None)
qed

subsection \<open>Languages of common patterns\<close>

lemma lang_star_chars [simp]: "lang (Star greedy (Chars P)) w \<longleftrightarrow> list_all P w"
proof
  assume "lang (Star greedy (Chars P)) w"
  then show "list_all P w" by (induction "Star greedy (Chars P)" w) auto
next
  assume "list_all P w"
  then show "lang (Star greedy (Chars P)) w"
  proof (induction w)
    case Nil
    show ?case by (rule lang_stop)
  next
    case (Cons c w)
    then have "lang (Star greedy (Chars P)) ([c] @ w)" by (intro lang_more) simp_all
    then show ?case by simp
  qed
qed

lemma lang_plus_chars [simp]: "lang (plus (Chars P)) w \<longleftrightarrow> w \<noteq> [] \<and> list_all P w"
  by (cases w) (auto simp: plus_def lang_Seq_iff intro: exI [of _ "[hd w]"] exI [of _ "tl w"])

lemma lang_plus_lazy_chars [simp]: "lang (plus_lazy (Chars P)) w \<longleftrightarrow> w \<noteq> [] \<and> list_all P w"
  by (cases w) (auto simp: plus_lazy_def lang_Seq_iff intro: exI [of _ "[hd w]"] exI [of _ "tl w"])

lemma lang_lit [simp]: "lang (lit s) w \<longleftrightarrow> w = s"
  by (induction s arbitrary: w) (auto simp: lang_Seq_iff)

lemma groups_derived [simp]:
  "groups (opt r) = groups r" "groups (plus r) = groups r @ groups r" "groups (plus_lazy r) = groups r @ groups r"
  "groups (lit s) = []" "groups (lit_i s) = []" "groups (seqs rs) = concat (map groups rs)"
proof -
  show "groups (lit s) = []" by (induction s) auto
  show "groups (lit_i s) = []" by (induction s) auto
  show "groups (seqs rs) = concat (map groups rs)" by (induction rs rule: seqs.induct) auto
qed (simp_all add: opt_def plus_def plus_lazy_def)

section \<open>All matches and replacement\<close>

text \<open>\<open>s.matchAll(pattern)\<close> for a global pattern: the captures of the successive matches. After an empty
  match the search goes on one unit later.\<close>

function match_all :: "rx \<Rightarrow> jsstring \<Rightarrow> jsstring \<Rightarrow> (nat \<Rightarrow> jsstring option) list" where
  "match_all r b a =
     (case search r b a of
        None \<Rightarrow> []
      | Some (b0, b1, a1, g) \<Rightarrow>
          map_of g # (if length b1 = length b0
                      then (case a1 of [] \<Rightarrow> [] | c # a2 \<Rightarrow> match_all r (c # b1) a2)
                      else match_all r b1 a1))"
  by pat_completeness auto
termination
  by (relation "measure (\<lambda>(r, b, a). length a)") (auto dest!: search_consumes)

text \<open>\<open>s.replace(pattern, f)\<close> for a global pattern.\<close>

function replace_all ::
  "rx \<Rightarrow> ((nat \<Rightarrow> jsstring option) \<Rightarrow> jsstring) \<Rightarrow> jsstring \<Rightarrow> jsstring \<Rightarrow> jsstring"
where
  "replace_all r f b a =
     (case search r b a of
        None \<Rightarrow> a
      | Some (b0, b1, a1, g) \<Rightarrow>
          take (length b0 - length b) a @ f (map_of g) @
          (if length b1 = length b0
           then (case a1 of [] \<Rightarrow> [] | c # a2 \<Rightarrow> c # replace_all r f (c # b1) a2)
           else replace_all r f b1 a1))"
  by pat_completeness auto
termination
  by (relation "measure (\<lambda>(r, f, b, a). length a)") (auto dest!: search_consumes)

declare match_all.simps [simp del] replace_all.simps [simp del]

end
