(* ===== verification/CompileLog.thy ===== *)
theory CompileLog
  imports Regex Protocol
begin

text \<open>
  What the program reads out of a LaTeX log: \<open>extractLatexError\<close> of \<^verbatim>\<open>typr-server/server.ts\<close> for a finished
  compilation and \<open>diagnosticsFromLog\<close> of \<^verbatim>\<open>typr-server/texpressoLiveSession.ts\<close> for a live session. The
  numbers of a log are natural numbers here; JavaScript rounds those above \<open>2 ^ 53\<close>.
\<close>

definition digit :: rx where "digit = Chars is_digit"

text \<open>\<open>Number.parseInt(digits, 10)\<close>, \<open>Number(digits)\<close>\<close>

definition digits_value :: "jsstring \<Rightarrow> int" where
  "digits_value ds = int (foldl (\<lambda>a c. 10 * a + (c - 48)) 0 ds)"

text \<open>The path with its position, the line that begins with an exclamation mark, and TeX's own line number.\<close>

definition tex_path :: rx where
  "tex_path = Seq (plus (Chars (not_in [CHR '':'', CHR 0x0A]))) (lit (js ''.tex''))"

definition file_line_pattern :: rx where
  "file_line_pattern = seqs
     [Alt InputStart (Chars ((=) 10)), opt (lit (js ''./'')), Group 1 tex_path, Chars ((=) 58),
      Group 2 (plus digit), Chars ((=) 58), plus (Chars is_space), Group 3 (plus (Chars dot_class))]"

definition bang_pattern :: rx where
  "bang_pattern = seqs
     [LineStart, Chars ((=) 33), Star True (Chars is_space), Group 1 (plus (Chars dot_class)), LineEnd]"

definition line_pattern :: rx where
  "line_pattern = seqs [LineStart, lit (js ''l.''), Group 1 (plus digit)]"

record latex_error =
  le_message :: jsstring
  le_path :: "jsstring option"
  le_line :: "int option"

definition message_or :: "jsstring option \<Rightarrow> string \<Rightarrow> jsstring" where
  "message_or m other =
     (case m of Some s \<Rightarrow> if trim s \<noteq> [] then trim s else js other | None \<Rightarrow> js other)"

definition capture_of :: "rx \<Rightarrow> nat \<Rightarrow> jsstring \<Rightarrow> jsstring option" where
  "capture_of pattern i log = Option.bind (exec pattern log) (\<lambda>caps. caps i)"

definition extractLatexError :: "jsstring \<Rightarrow> latex_error" where
  "extractLatexError log =
     (case exec file_line_pattern log of
        Some caps \<Rightarrow>
          \<lparr>le_message = trim (case caps 3 of Some m \<Rightarrow> m | None \<Rightarrow> []), le_path = caps 1,
           le_line = map_option digits_value (caps 2)\<rparr>
      | None \<Rightarrow>
          \<lparr>le_message = message_or (capture_of bang_pattern 1 log)
             ''Native LaTeX compilation failed; see log for details.'',
           le_path = None, le_line = map_option digits_value (capture_of line_pattern 1 log)\<rparr>)"

text \<open>The live session's pattern also takes a column, and any space before the message.\<close>

definition diagnostic_pattern :: rx where
  "diagnostic_pattern = seqs
     [Alt LineStart (Chars ((=) 10)), opt (lit (js ''./'')), Group 1 tex_path, Chars ((=) 58),
      Group 2 (plus digit), Chars ((=) 58), opt (Seq (Group 3 (plus digit)) (Chars ((=) 58))),
      Star True (Chars is_space), Group 4 (plus (Chars dot_class))]"

definition nonempty :: "jsstring option \<Rightarrow> jsstring option" where
  "nonempty v = (case v of Some [] \<Rightarrow> None | _ \<Rightarrow> v)"

definition diagnosticsFromLog :: "jsstring \<Rightarrow> TexpressoDiagnostic list" where
  "diagnosticsFromLog log =
     (let fileLine = capture_of diagnostic_pattern; bang = capture_of bang_pattern 1 log;
          lineNumber = capture_of line_pattern 1 log;
          message = (case fileLine 4 log of
                       Some m \<Rightarrow> if trim m \<noteq> [] then trim m
                                 else message_or bang ''TeXpresso reported a LaTeX error; see the bounded log.''
                     | None \<Rightarrow> message_or bang ''TeXpresso reported a LaTeX error; see the bounded log.'')
      in [\<lparr>severity_of = SevError, diag_message = message, diag_path = nonempty (fileLine 1 log),
           diag_line = (case nonempty (fileLine 2 log) of
                          Some ds \<Rightarrow> Some (digits_value ds - 1)
                        | None \<Rightarrow> map_option (\<lambda>ds. digits_value ds - 1) (nonempty lineNumber)),
           diag_column = map_option (\<lambda>ds. digits_value ds - 1) (nonempty (fileLine 3 log))\<rparr>])"

section \<open>Lemmas\<close>

text \<open>The paths a log message can name.\<close>

definition log_path :: "jsstring \<Rightarrow> bool" where
  "log_path p \<longleftrightarrow> suffix (js ''.tex'') p \<and> length p > 4 \<and> 58 \<notin> set p \<and> 10 \<notin> set p"

lemma lang_tex_path: "lang tex_path p \<Longrightarrow> log_path p"
  by (auto simp: tex_path_def lang_Seq_iff log_path_def list_all_iff not_in_def js_def suffix_def)

lemma groups_tex_path [simp]: "groups tex_path = []"
  by (simp add: tex_path_def)

lemma file_line_captures:
  assumes "exec file_line_pattern log = Some caps"
  shows "caps 1 = Some p \<Longrightarrow> log_path p"
  by (auto elim!: exec_capture [OF assms] simp: file_line_pattern_def digit_def dest!: lang_tex_path)

lemma diagnostic_capture: "capture_of diagnostic_pattern 1 log = Some p \<Longrightarrow> log_path p"
  by (auto simp: capture_of_def bind_eq_Some_conv elim!: exec_capture)
     (auto simp: diagnostic_pattern_def digit_def dest!: lang_tex_path)

lemma digits_value_nonneg: "0 \<le> digits_value ds"
  by (simp add: digits_value_def)

lemma message_or_nonempty: "other \<noteq> [] \<Longrightarrow> message_or m other \<noteq> []"
  by (auto simp: message_or_def split: option.split)

text \<open>
  Whatever a compiler writes into a log, the position reported from it is a path to a \<^verbatim>\<open>.tex\<close> file without colon
  or line feed and a line number that is not negative; a live session gets exactly one diagnostic,
  with a message.
\<close>

theorem log_diagnostics:
  "pred_option log_path (le_path (extractLatexError log)) \<and> pred_option ((\<le>) 0) (le_line (extractLatexError log)) \<and>
   (\<exists>d. diagnosticsFromLog log = [d] \<and> diag_message d \<noteq> [] \<and> pred_option log_path (diag_path d) \<and>
      pred_option ((\<le>) (- 1)) (diag_line d))"
proof (intro conjI)
  show "pred_option log_path (le_path (extractLatexError log))"
    by (auto simp: extractLatexError_def option.pred_set dest: file_line_captures split: option.splits)
  show "pred_option ((\<le>) 0) (le_line (extractLatexError log))"
    by (auto simp: extractLatexError_def option.pred_map digits_value_nonneg option.pred_set split: option.split)
  obtain d where d: "diagnosticsFromLog log = [d]" by (simp add: diagnosticsFromLog_def Let_def)
  have "diag_message d \<noteq> []"
    using d by (auto simp: diagnosticsFromLog_def Let_def message_or_nonempty split: option.splits if_splits)
  moreover have "pred_option log_path (diag_path d)"
    using d diagnostic_capture [of log]
    by (auto simp: diagnosticsFromLog_def Let_def nonempty_def option.pred_set split: option.splits list.splits)
  moreover have "pred_option ((\<le>) (- 1)) (diag_line d)"
  proof -
    have "- 1 \<le> digits_value ds - 1" for ds using digits_value_nonneg [of ds] by simp
    with d show ?thesis by (auto simp: diagnosticsFromLog_def Let_def option.pred_set split: option.splits)
  qed
  ultimately show "\<exists>d. diagnosticsFromLog log = [d] \<and> diag_message d \<noteq> [] \<and> pred_option log_path (diag_path d) \<and>
      pred_option ((\<le>) (- 1)) (diag_line d)"
    using d by blast
qed

end
