(* ===== verification/NativeProcess.thy ===== *)
theory NativeProcess
  imports Paths
begin

text \<open>
  \<^verbatim>\<open>typr-server/nativeProcess.ts\<close> and \<^verbatim>\<open>typr-server/nativeTools.ts\<close>: the environment a compiler runs in,
  how it is spawned under the sandbox launcher, and the collection of its output until it exits, is
  stopped at its deadline or floods the capture limit. The process environment is a map from names
  to values; child processes appear as the events Node reports for them. \<open>mkdir\<close> is a parameter.
\<close>

section \<open>Tools\<close>

datatype NativeTool = Latexmk | Pdflatex | Texpresso | Tlmgr

type_synonym process_env = "string \<Rightarrow> jsstring option"

text \<open>\<open>value?.trim()\<close>, where a missing value and an empty one are equally false.\<close>

definition trimmed :: "jsstring option \<Rightarrow> jsstring" where
  "trimmed v = (case v of None \<Rightarrow> [] | Some s \<Rightarrow> trim s)"

fun tool_name :: "NativeTool \<Rightarrow> jsstring" where
  "tool_name Latexmk = js ''latexmk''"
| "tool_name Pdflatex = js ''pdflatex''"
| "tool_name Texpresso = js ''texpresso''"
| "tool_name Tlmgr = js ''tlmgr''"

fun ENVIRONMENT_KEYS :: "NativeTool \<Rightarrow> string" where
  "ENVIRONMENT_KEYS Latexmk = ''TYPR_COMPANION_LATEXMK_EXECUTABLE''"
| "ENVIRONMENT_KEYS Pdflatex = ''TYPR_COMPANION_PDFLATEX_EXECUTABLE''"
| "ENVIRONMENT_KEYS Texpresso = ''TYPR_COMPANION_TEXPRESSO_EXECUTABLE''"
| "ENVIRONMENT_KEYS Tlmgr = ''TYPR_COMPANION_TLMGR_EXECUTABLE''"

definition nativeTool :: "process_env \<Rightarrow> NativeTool \<Rightarrow> jsstring" where
  "nativeTool penv tool =
     (let configured = trimmed (penv (ENVIRONMENT_KEYS tool))
      in if configured \<noteq> [] then configured else tool_name tool)"

text \<open>What happens to a child started with \<open>--version\<close>; the promise takes the first answer.\<close>

datatype probe_event = ProbeSpawned | ProbeError | ProbeClosed "int option"

fun commandAvailable :: "probe_event list \<Rightarrow> bool option" where
  "commandAvailable [] = None"
| "commandAvailable (ProbeSpawned # evs) = commandAvailable evs"
| "commandAvailable (ProbeError # evs) = Some False"
| "commandAvailable (ProbeClosed code # evs) = Some (code = Some 0)"

fun commandCanSpawn :: "probe_event list \<Rightarrow> bool option" where
  "commandCanSpawn [] = None"
| "commandCanSpawn (ProbeSpawned # evs) = Some True"
| "commandCanSpawn (ProbeError # evs) = Some False"
| "commandCanSpawn (ProbeClosed code # evs) = commandCanSpawn evs"

definition nativeToolAvailable :: "process_env \<Rightarrow> (jsstring \<Rightarrow> bool) \<Rightarrow> NativeTool \<Rightarrow> bool" where
  "nativeToolAvailable penv available tool = available (nativeTool penv tool)"

section \<open>The environment of a compiler\<close>

type_synonym environment = "(string \<times> jsstring) list"

definition posix_join :: "jsstring list \<Rightarrow> jsstring" where
  "posix_join ps = posix_normalize (join_with [47] (filter (\<lambda>p. p \<noteq> []) ps))"

definition path_delimiter :: "bool \<Rightarrow> nat" where
  "path_delimiter win = (if win then 59 else 58)"

definition native_path :: "bool \<Rightarrow> process_env \<Rightarrow> jsstring" where
  "native_path win penv =
     (let configured = trimmed (penv ''TYPR_COMPANION_NATIVE_PATH'');
          path = if configured \<noteq> [] then configured
                 else if win then (case penv ''PATH'' of Some p \<Rightarrow> p
                                   | None \<Rightarrow> (case penv ''Path'' of Some p \<Rightarrow> p | None \<Rightarrow> []))
                 else js ''/usr/local/bin:/usr/bin:/bin'';
          d = path_delimiter win
      in join_with [d] (filter (\<lambda>p. p \<noteq> []) (split_on d path)))"

text \<open>Variables whose value is \<open>undefined\<close> are not passed on.\<close>

definition defined :: "(string \<times> jsstring option) list \<Rightarrow> environment" where
  "defined vs = List.map_filter (\<lambda>(k, v). map_option (Pair k) v) vs"

definition windows_variables :: "process_env \<Rightarrow> jsstring \<Rightarrow> jsstring \<Rightarrow> environment" where
  "windows_variables penv home cwd =
     [(''USERPROFILE'', home), (''TEMP'', cwd), (''TMP'', cwd)] @
     defined (map (\<lambda>k. (k, penv k)) [''SystemRoot'', ''WINDIR'', ''ComSpec'', ''PATHEXT''])"

definition compiler_variables :: "bool \<Rightarrow> process_env \<Rightarrow> jsstring \<Rightarrow> environment" where
  "compiler_variables win penv cwd =
     (let home = posix_join [cwd, js ''.typr-home''];
          texmf = posix_join [cwd, js ''.typr-texmf''];
          cache = posix_join [cwd, js ''.typr-cache'']
      in [(''PATH'', native_path win penv), (''LANG'', js ''C.UTF-8''), (''LC_ALL'', js ''C.UTF-8''),
          (''HOME'', home), (''TMPDIR'', cwd)] @
         (if win then windows_variables penv home cwd else []) @
         [(''TEXMFHOME'', texmf), (''TEXMFVAR'', posix_join [texmf, js ''var'']),
          (''TEXMFCONFIG'', posix_join [texmf, js ''config'']), (''TEXMFCACHE'', cache), (''TEXMFOUTPUT'', cwd),
          (''shell_escape'', js ''f''), (''openin_any'', js ''p''), (''openout_any'', js ''p''),
          (''SDL_VIDEODRIVER'', js ''dummy'')] @
         (let tex = trimmed (penv ''TYPR_COMPANION_TEX_ROOT'')
          in if tex \<noteq> [] then [(''TYPR_COMPANION_TEX_ROOT'', tex)] else []))"

text \<open>All three directories are requested; the first failure is thrown.\<close>

fun mkdirs :: "(jsstring \<Rightarrow> 'fs \<Rightarrow> 'e option \<times> 'fs) \<Rightarrow> jsstring list \<Rightarrow> 'fs \<Rightarrow> 'e option \<times> 'fs" where
  "mkdirs mkdir [] fs = (None, fs)"
| "mkdirs mkdir (p # ps) fs =
     (case mkdir p fs of (err, fs1) \<Rightarrow>
        (case mkdirs mkdir ps fs1 of (errs, fs2) \<Rightarrow> (case err of Some e \<Rightarrow> (Some e, fs2) | None \<Rightarrow> (errs, fs2))))"

definition prepareCompilerEnvironment ::
  "(jsstring \<Rightarrow> 'fs \<Rightarrow> 'e option \<times> 'fs) \<Rightarrow> bool \<Rightarrow> process_env \<Rightarrow> jsstring \<Rightarrow> environment \<Rightarrow> 'fs \<Rightarrow>
   ('e + environment) \<times> 'fs"
where
  "prepareCompilerEnvironment mkdir win penv cwd extra fs =
     (case mkdirs mkdir [posix_join [cwd, js ''.typr-home''], posix_join [cwd, js ''.typr-texmf''],
                         posix_join [cwd, js ''.typr-cache'']] fs of
        (Some e, fs1) \<Rightarrow> (Inl e, fs1)
      | (None, fs1) \<Rightarrow>
          (Inr (fold (\<lambda>(k, v). AList.update k v) extra (compiler_variables win penv cwd)), fs1))"

record spawn_request =
  sp_command :: jsstring
  sp_args :: "jsstring list"
  sp_cwd :: jsstring
  sp_detached :: bool
  sp_env :: environment

definition spawnSandboxed ::
  "bool \<Rightarrow> process_env \<Rightarrow> jsstring \<Rightarrow> jsstring list \<Rightarrow> jsstring \<Rightarrow> environment \<Rightarrow> jsstring \<Rightarrow> spawn_request"
where
  "spawnSandboxed win penv command args cwd env sandboxRoot =
     (let launcher = trimmed (penv ''TYPR_COMPANION_SANDBOX_EXECUTABLE'');
          toolchainRoot = trimmed (map_of env ''TYPR_COMPANION_TEX_ROOT'')
      in \<lparr>sp_command = if launcher \<noteq> [] then launcher else command,
          sp_args =
            if launcher \<noteq> []
            then [sandboxRoot] @ (if toolchainRoot \<noteq> [] then [js ''--toolchain-root'', toolchainRoot] else []) @
                 [js ''--'', command] @ args
            else args,
          sp_cwd = cwd, sp_detached = \<not> win, sp_env = env\<rparr>)"

section \<open>Running a child\<close>

definition MAX_CAPTURE_BYTES :: nat where "MAX_CAPTURE_BYTES = 1024 * 1024"

record NativeProcessResult =
  nr_exitCode :: "int option"
  nr_signal :: "string option"
  nr_stdout :: jsstring
  nr_stderr :: jsstring

datatype native_code = CompileTimeout | CompilerOutputLimit

datatype child_signal = SIGTERM | SIGKILL

datatype sent = KillGroup nat child_signal | Taskkill nat bool | KillChild child_signal

text \<open>The promise: a result, a \<open>NativeProcessError\<close>, or the message of a failed spawn.\<close>

datatype native_outcome =
    NativeResult NativeProcessResult
  | NativeError native_code
  | SpawnFailed jsstring

text \<open>\<open>killTimer\<close>: unset, armed, or set but fired or cleared.\<close>

datatype timer = NoTimer | Armed | Spent

record child =
  nc_stdout :: bytes
  nc_stderr :: bytes
  nc_captured :: nat
  nc_failure :: "native_code option"
  nc_timer :: timer
  nc_listening :: bool
  nc_sent :: "sent list"
  nc_outcome :: "native_outcome option"
  nc_errored :: bool
  nc_closed :: bool

datatype native_event =
    Stdout bytes
  | Stderr bytes
  | AbortSignal
  | KillTimerFires
  | ChildError jsstring
  | ChildClosed "int option" "string option"

definition sent_of :: "bool \<Rightarrow> nat option \<Rightarrow> child_signal \<Rightarrow> sent" where
  "sent_of win pid sig =
     (case pid of
        Some p \<Rightarrow> if win then Taskkill p (sig = SIGKILL) else KillGroup p sig
      | None \<Rightarrow> KillChild sig)"

definition signalGroup :: "bool \<Rightarrow> nat option \<Rightarrow> child_signal \<Rightarrow> child \<Rightarrow> child" where
  "signalGroup win pid sig c =
     c\<lparr>nc_sent := nc_sent c @ [sent_of win pid sig]\<rparr>"

definition stop :: "bool \<Rightarrow> nat option \<Rightarrow> bool \<Rightarrow> child \<Rightarrow> child" where
  "stop win pid immediate c =
     (let c1 = if nc_failure c = None then c\<lparr>nc_failure := Some CompileTimeout\<rparr> else c
      in if immediate then signalGroup win pid SIGKILL c1
         else let c2 = signalGroup win pid SIGTERM c1
              in if nc_timer c2 = NoTimer then c2\<lparr>nc_timer := Armed\<rparr> else c2)"

definition capture :: "bool \<Rightarrow> nat option \<Rightarrow> bool \<Rightarrow> bytes \<Rightarrow> child \<Rightarrow> child" where
  "capture win pid out buffer c =
     (let piece = take (MAX_CAPTURE_BYTES - nc_captured c) buffer;
          c1 = (if out then c\<lparr>nc_stdout := nc_stdout c @ piece\<rparr> else c\<lparr>nc_stderr := nc_stderr c @ piece\<rparr>)
                 \<lparr>nc_captured := nc_captured c + length buffer\<rparr>
      in if nc_captured c1 > MAX_CAPTURE_BYTES \<and> nc_failure c1 = None
         then stop win pid True (c1\<lparr>nc_failure := Some CompilerOutputLimit\<rparr>)
         else c1)"

text \<open>A promise keeps its first outcome; \<open>once\<close> listeners run once.\<close>

definition settle :: "native_outcome \<Rightarrow> child \<Rightarrow> child" where
  "settle r c = (if nc_outcome c = None then c\<lparr>nc_outcome := Some r\<rparr> else c)"

definition release :: "child \<Rightarrow> child" where
  "release c = c\<lparr>nc_listening := False, nc_timer := (if nc_timer c = Armed then Spent else nc_timer c)\<rparr>"

fun native_step :: "bool \<Rightarrow> nat option \<Rightarrow> native_event \<Rightarrow> child \<Rightarrow> child" where
  "native_step win pid (Stdout b) c = capture win pid True b c"
| "native_step win pid (Stderr b) c = capture win pid False b c"
| "native_step win pid AbortSignal c =
     (if nc_listening c then stop win pid False (c\<lparr>nc_listening := False\<rparr>) else c)"
| "native_step win pid KillTimerFires c =
     (if nc_timer c = Armed then signalGroup win pid SIGKILL (c\<lparr>nc_timer := Spent\<rparr>) else c)"
| "native_step win pid (ChildError message) c =
     (if nc_errored c then c
      else settle (SpawnFailed message) (release c\<lparr>nc_errored := True\<rparr>))"
| "native_step win pid (ChildClosed exitCode sig) c =
     (if nc_closed c then c
      else let c1 = release c\<lparr>nc_closed := True\<rparr>
           in settle (case nc_failure c1 of
                        Some code \<Rightarrow> NativeError code
                      | None \<Rightarrow> NativeResult \<lparr>nr_exitCode = exitCode, nr_signal = sig,
                                             nr_stdout = utf8_decode (nc_stdout c1),
                                             nr_stderr = utf8_decode (nc_stderr c1)\<rparr>) c1)"

definition native_start :: "bool \<Rightarrow> nat option \<Rightarrow> bool \<Rightarrow> child" where
  "native_start win pid aborted =
     (let c = \<lparr>nc_stdout = [], nc_stderr = [], nc_captured = 0, nc_failure = None, nc_timer = NoTimer,
               nc_listening = False, nc_sent = [], nc_outcome = None, nc_errored = False, nc_closed = False\<rparr>
      in if aborted then stop win pid False c else c\<lparr>nc_listening := True\<rparr>)"

definition run_child :: "bool \<Rightarrow> nat option \<Rightarrow> bool \<Rightarrow> native_event list \<Rightarrow> child" where
  "run_child win pid aborted evs = fold (native_step win pid) evs (native_start win pid aborted)"

text \<open>
  \<open>runNativeProcess\<close>: \<open>exec\<close> is the operating system, which runs the child in the world and reports its
  process id, whether the signal was aborted by then, and the events. A promise without outcome stays
  pending.
\<close>

definition runNativeProcess ::
  "(jsstring \<Rightarrow> 'w \<Rightarrow> jsstring option \<times> 'w) \<Rightarrow> (spawn_request \<Rightarrow> 'w \<Rightarrow> (nat option \<times> bool \<times> native_event list) \<times> 'w) \<Rightarrow>
   bool \<Rightarrow> process_env \<Rightarrow> jsstring \<Rightarrow> jsstring list \<Rightarrow> jsstring \<Rightarrow> jsstring option \<Rightarrow> 'w \<Rightarrow>
   native_outcome option \<times> 'w"
where
  "runNativeProcess mkdir exec win penv command args cwd sandboxRoot w =
     (case prepareCompilerEnvironment mkdir win penv cwd [] w of
        (Inl message, w1) \<Rightarrow> (Some (SpawnFailed message), w1)
      | (Inr env, w1) \<Rightarrow>
          (case exec (spawnSandboxed win penv command args cwd env
                        (case sandboxRoot of Some r \<Rightarrow> r | None \<Rightarrow> cwd)) w1 of
             ((pid, aborted, evs), w2) \<Rightarrow> (nc_outcome (run_child win pid aborted evs), w2)))"

section \<open>Lemmas\<close>

fun event_bytes :: "native_event \<Rightarrow> bytes" where
  "event_bytes (Stdout b) = b"
| "event_bytes (Stderr b) = b"
| "event_bytes _ = []"

fun stdout_bytes :: "native_event \<Rightarrow> bytes" where
  "stdout_bytes (Stdout b) = b"
| "stdout_bytes _ = []"

fun stderr_bytes :: "native_event \<Rightarrow> bytes" where
  "stderr_bytes (Stderr b) = b"
| "stderr_bytes _ = []"

definition total_output :: "native_event list \<Rightarrow> nat" where
  "total_output evs = length (concat (map event_bytes evs))"

fun ends :: "native_event \<Rightarrow> bool" where
  "ends (ChildError _) = True"
| "ends (ChildClosed _ _) = True"
| "ends _ = False"

text \<open>The reason to fail is the first of: the signal was aborted, more output than the limit.\<close>

fun first_reason :: "nat \<Rightarrow> native_event list \<Rightarrow> native_code option" where
  "first_reason n [] = None"
| "first_reason n (ev # evs) =
     (if ev = AbortSignal then Some CompileTimeout
      else if n + length (event_bytes ev) > MAX_CAPTURE_BYTES then Some CompilerOutputLimit
      else first_reason (n + length (event_bytes ev)) evs)"

lemma total_output_simps [simp]:
  "total_output [] = 0" "total_output (ev # evs) = length (event_bytes ev) + total_output evs"
  "total_output (evs @ evs') = total_output evs + total_output evs'"
  by (simp_all add: total_output_def)

lemma first_reason_snoc:
  "first_reason n (evs @ [ev]) =
     (case first_reason n evs of Some code \<Rightarrow> Some code | None \<Rightarrow> first_reason (n + total_output evs) [ev])"
  by (induction evs arbitrary: n) (auto simp: add.assoc split: option.splits)

lemma first_reason_None:
  "first_reason n evs = None \<longleftrightarrow> AbortSignal \<notin> set evs \<and> (n + total_output evs \<le> MAX_CAPTURE_BYTES \<or> evs = [])"
  by (induction evs arbitrary: n) (auto simp: add.assoc)

lemma first_reason_abort: "AbortSignal \<in> set evs \<Longrightarrow> first_reason n evs \<noteq> None"
  by (simp add: first_reason_None)

definition running_ok :: "bool \<Rightarrow> native_event list \<Rightarrow> child \<Rightarrow> bool" where
  "running_ok aborted evs c \<longleftrightarrow>
     nc_captured c = total_output evs \<and>
     (total_output evs \<le> MAX_CAPTURE_BYTES \<longrightarrow>
        nc_stdout c = concat (map stdout_bytes evs) \<and> nc_stderr c = concat (map stderr_bytes evs)) \<and>
     nc_failure c = (if aborted then Some CompileTimeout else first_reason 0 evs) \<and>
     (nc_listening c \<longleftrightarrow> \<not> aborted \<and> AbortSignal \<notin> set evs) \<and>
     nc_outcome c = None \<and> \<not> nc_errored c \<and> \<not> nc_closed c"

lemma native_fields [simp]:
  "nc_stdout (signalGroup win pid sig c) = nc_stdout c" "nc_stderr (signalGroup win pid sig c) = nc_stderr c"
  "nc_captured (signalGroup win pid sig c) = nc_captured c" "nc_failure (signalGroup win pid sig c) = nc_failure c"
  "nc_timer (signalGroup win pid sig c) = nc_timer c" "nc_listening (signalGroup win pid sig c) = nc_listening c"
  "nc_outcome (signalGroup win pid sig c) = nc_outcome c" "nc_errored (signalGroup win pid sig c) = nc_errored c"
  "nc_closed (signalGroup win pid sig c) = nc_closed c"
  by (simp_all add: signalGroup_def)

lemma stop_fields [simp]:
  "nc_stdout (stop win pid i c) = nc_stdout c" "nc_stderr (stop win pid i c) = nc_stderr c"
  "nc_captured (stop win pid i c) = nc_captured c" "nc_listening (stop win pid i c) = nc_listening c"
  "nc_failure (stop win pid i c) = Some (case nc_failure c of Some code \<Rightarrow> code | None \<Rightarrow> CompileTimeout)"
  "nc_outcome (stop win pid i c) = nc_outcome c" "nc_errored (stop win pid i c) = nc_errored c"
  "nc_closed (stop win pid i c) = nc_closed c"
  by (simp_all add: stop_def Let_def split: option.splits)

lemma capture_fields [simp]:
  "nc_captured (capture win pid out b c) = nc_captured c + length b"
  "nc_stdout (capture win pid out b c) =
     nc_stdout c @ (if out then take (MAX_CAPTURE_BYTES - nc_captured c) b else [])"
  "nc_stderr (capture win pid out b c) =
     nc_stderr c @ (if out then [] else take (MAX_CAPTURE_BYTES - nc_captured c) b)"
  "nc_listening (capture win pid out b c) = nc_listening c"
  "nc_outcome (capture win pid out b c) = nc_outcome c" "nc_errored (capture win pid out b c) = nc_errored c"
  "nc_closed (capture win pid out b c) = nc_closed c"
  "nc_failure (capture win pid out b c) =
     (case nc_failure c of Some code \<Rightarrow> Some code
      | None \<Rightarrow> if nc_captured c + length b > MAX_CAPTURE_BYTES then Some CompilerOutputLimit else None)"
  by (simp_all add: capture_def Let_def split: option.splits)

lemma native_start_ok: "running_ok aborted [] (native_start win pid aborted)"
  by (simp add: running_ok_def native_start_def Let_def)

lemma native_step_ok:
  assumes "running_ok aborted evs c" "\<not> ends ev"
  shows "running_ok aborted (evs @ [ev]) (native_step win pid ev c)"
proof (cases ev)
  case (Stdout b)
  with assms show ?thesis
    by (auto simp: running_ok_def first_reason_snoc split: option.splits)
next
  case (Stderr b)
  with assms show ?thesis
    by (auto simp: running_ok_def first_reason_snoc split: option.splits)
next
  case AbortSignal
  with assms show ?thesis
    by (auto simp: running_ok_def first_reason_snoc dest: first_reason_abort [of _ 0] split: option.splits)
next
  case KillTimerFires
  have "first_reason 0 (evs @ [KillTimerFires]) = first_reason 0 evs"
    using first_reason_None [of 0 evs] by (cases "first_reason 0 evs") (auto simp: first_reason_snoc)
  with KillTimerFires assms show ?thesis by (auto simp: running_ok_def)
qed (use assms in simp_all)

lemma run_child_running:
  "list_all (\<lambda>ev. \<not> ends ev) evs \<Longrightarrow> running_ok aborted evs (run_child win pid aborted evs)"
proof (induction evs rule: rev_induct)
  case Nil
  show ?case by (simp add: run_child_def native_start_ok)
next
  case (snoc ev evs)
  then show ?case using native_step_ok [of aborted evs "run_child win pid aborted evs" ev]
    by (simp add: run_child_def)
qed

lemma settled_stays:
  "nc_outcome c = Some r \<Longrightarrow> nc_outcome (fold (native_step win pid) evs c) = Some r"
proof (induction evs arbitrary: c)
  case (Cons ev evs)
  have "nc_outcome (native_step win pid ev c) = Some r"
    using Cons.prems by (cases ev) (simp_all add: settle_def release_def Let_def)
  with Cons.IH show ?case by simp
qed simp

lemma run_child_append:
  "run_child win pid aborted (pre @ ev # post) =
     fold (native_step win pid) post (native_step win pid ev (run_child win pid aborted pre))"
  by (simp add: run_child_def)

text \<open>
  C21: The promise of \<open>runNativeProcess\<close> when the child closes: if the signal was aborted, or aborts or too
  much output comes before the end, it is rejected with the first of these reasons; otherwise it is
  the exit status with everything the child wrote, decoded. Events after the end change nothing.
\<close>

theorem native_outcome:
  assumes "list_all (\<lambda>ev. \<not> ends ev) pre"
  shows "nc_outcome (run_child win pid aborted (pre @ ChildClosed exitCode sig # post)) =
    Some (case if aborted then Some CompileTimeout else first_reason 0 pre of
            Some code \<Rightarrow> NativeError code
          | None \<Rightarrow> NativeResult
              \<lparr>nr_exitCode = exitCode, nr_signal = sig,
               nr_stdout = utf8_decode (concat (map stdout_bytes pre)),
               nr_stderr = utf8_decode (concat (map stderr_bytes pre))\<rparr>)"
proof -
  let ?c = "run_child win pid aborted pre"
  from run_child_running [OF assms] have ok: "running_ok aborted pre ?c" .
  have "total_output pre \<le> MAX_CAPTURE_BYTES" if "first_reason 0 pre = None"
    using that by (auto simp: first_reason_None)
  with ok have "nc_outcome (native_step win pid (ChildClosed exitCode sig) ?c) =
    Some (case if aborted then Some CompileTimeout else first_reason 0 pre of
            Some code \<Rightarrow> NativeError code
          | None \<Rightarrow> NativeResult
              \<lparr>nr_exitCode = exitCode, nr_signal = sig,
               nr_stdout = utf8_decode (concat (map stdout_bytes pre)),
               nr_stderr = utf8_decode (concat (map stderr_bytes pre))\<rparr>)"
    by (auto simp: running_ok_def settle_def release_def Let_def split: option.split)
  then show ?thesis by (simp add: run_child_append settled_stays)
qed

theorem native_outcome_witness:
  "nc_outcome (run_child False (Some 7) False ([Stdout [111], Stderr [33], Stdout [107]] @ ChildClosed (Some 0) None # [])) =
     Some (NativeResult \<lparr>nr_exitCode = Some 0, nr_signal = None,
                         nr_stdout = utf8_decode [111, 107], nr_stderr = utf8_decode [33]\<rparr>)"
  by (subst native_outcome) (simp_all add: MAX_CAPTURE_BYTES_def)

subsection \<open>Limits and signals\<close>

lemma captured_step:
  "length (nc_stdout c) + length (nc_stderr c) = min (nc_captured c) MAX_CAPTURE_BYTES \<Longrightarrow>
   (let c' = native_step win pid ev c
    in length (nc_stdout c') + length (nc_stderr c') = min (nc_captured c') MAX_CAPTURE_BYTES)"
  by (cases ev; simp add: settle_def release_def Let_def; arith)

text \<open>The buffers never hold more than the limit, whatever the child writes.\<close>

lemma native_capture_bound:
  "length (nc_stdout (run_child win pid aborted evs)) + length (nc_stderr (run_child win pid aborted evs))
     = min (nc_captured (run_child win pid aborted evs)) MAX_CAPTURE_BYTES"
proof (induction evs rule: rev_induct)
  case Nil
  show ?case by (simp add: run_child_def native_start_def Let_def)
next
  case (snoc ev evs)
  from captured_step [OF this, of win pid ev] show ?case by (simp add: run_child_def Let_def)
qed

definition kill_ok :: "bool \<Rightarrow> nat option \<Rightarrow> child \<Rightarrow> bool" where
  "kill_ok win pid c \<longleftrightarrow>
     (nc_failure c \<noteq> None \<longrightarrow> nc_timer c = Armed \<or> sent_of win pid SIGKILL \<in> set (nc_sent c)) \<and>
     (nc_timer c = Spent \<longrightarrow> sent_of win pid SIGKILL \<in> set (nc_sent c)) \<and>
     (nc_timer c = Armed \<longrightarrow> nc_failure c \<noteq> None)"

lemma kill_ok_stop:
  assumes "kill_ok win pid (c\<lparr>nc_failure := None\<rparr>) \<or> kill_ok win pid c"
  shows "kill_ok win pid (stop win pid i c)"
  using assms by (cases "nc_timer c") (auto simp: kill_ok_def stop_def signalGroup_def Let_def)

lemma kill_ok_step:
  assumes "kill_ok win pid c" "\<not> ends ev"
  shows "kill_ok win pid (native_step win pid ev c)"
proof (cases ev)
  case AbortSignal
  with assms show ?thesis by (auto intro!: kill_ok_stop) (simp_all add: kill_ok_def)
next
  case KillTimerFires
  with assms show ?thesis by (auto simp: kill_ok_def signalGroup_def)
qed (use assms in \<open>auto simp: kill_ok_def capture_def stop_def signalGroup_def Let_def\<close>)

lemma run_child_kill_ok:
  "list_all (\<lambda>ev. \<not> ends ev) evs \<Longrightarrow> kill_ok win pid (run_child win pid aborted evs)"
proof (induction evs rule: rev_induct)
  case Nil
  show ?case by (simp add: run_child_def native_start_def kill_ok_def stop_def signalGroup_def Let_def)
next
  case (snoc ev evs)
  then show ?case using kill_ok_step [of win pid "run_child win pid aborted evs" ev] by (simp add: run_child_def)
qed

text \<open>
  A child that is overdue or has flooded the limit is never left alone: it has been sent SIGKILL, or the timer
  that will send it is armed.
\<close>

theorem native_kill_pending:
  assumes "list_all (\<lambda>ev. \<not> ends ev) evs"
    and "aborted \<or> AbortSignal \<in> set evs \<or> MAX_CAPTURE_BYTES < total_output evs"
  shows "nc_timer (run_child win pid aborted evs) = Armed \<or>
    sent_of win pid SIGKILL \<in> set (nc_sent (run_child win pid aborted evs))"
proof -
  have "nc_failure (run_child win pid aborted evs) = (if aborted then Some CompileTimeout else first_reason 0 evs)"
    using run_child_running [OF assms(1)] by (simp add: running_ok_def)
  moreover have "first_reason 0 evs \<noteq> None" if "\<not> aborted"
    using assms(2) that first_reason_None [of 0 evs] by auto
  ultimately have "nc_failure (run_child win pid aborted evs) \<noteq> None" by (cases aborted) auto
  with run_child_kill_ok [OF assms(1)] show ?thesis by (auto simp: kill_ok_def)
qed

theorem native_kill_pending_witness:
  "nc_timer (run_child False (Some 7) False [AbortSignal, Stdout [33]]) = Armed \<or>
    sent_of False (Some 7) SIGKILL \<in> set (nc_sent (run_child False (Some 7) False [AbortSignal, Stdout [33]]))"
  by (rule native_kill_pending) simp_all

definition quiet :: "child \<Rightarrow> bool" where
  "quiet c \<longleftrightarrow> \<not> nc_listening c \<and> nc_timer c \<noteq> Armed"

lemma quiet_step:
  assumes "quiet c" "event_bytes ev = []" "nc_captured c \<le> MAX_CAPTURE_BYTES \<or> nc_failure c \<noteq> None"
  shows "nc_sent (native_step win pid ev c) = nc_sent c \<and> quiet (native_step win pid ev c) \<and>
    (nc_captured (native_step win pid ev c) \<le> MAX_CAPTURE_BYTES \<or> nc_failure (native_step win pid ev c) \<noteq> None)"
  using assms by (cases ev) (auto simp: quiet_def capture_def settle_def release_def Let_def)

lemma quiet_run:
  assumes "quiet c" "list_all (\<lambda>ev. event_bytes ev = []) evs" "nc_captured c \<le> MAX_CAPTURE_BYTES \<or> nc_failure c \<noteq> None"
  shows "nc_sent (fold (native_step win pid) evs c) = nc_sent c"
  using assms
proof (induction evs arbitrary: c)
  case (Cons ev evs)
  with quiet_step [of c ev win pid] show ?case by simp
qed simp

text \<open>
  Once the child has ended, by closing or by an error, no signal is sent any more, whatever aborts or timers come
  later: the process group of a reaped child is never signalled.
\<close>

theorem native_quiet_after_end:
  assumes "list_all (\<lambda>ev. \<not> ends ev) pre" "ends ev" "list_all (\<lambda>ev. event_bytes ev = []) post"
  shows "nc_sent (run_child win pid aborted (pre @ ev # post)) = nc_sent (run_child win pid aborted pre)"
proof -
  let ?c = "run_child win pid aborted pre"
  from run_child_running [OF assms(1)] have ok: "running_ok aborted pre ?c" .
  have "nc_captured ?c \<le> MAX_CAPTURE_BYTES \<or> nc_failure ?c \<noteq> None"
    using ok first_reason_None [of 0 pre] by (auto simp: running_ok_def)
  with assms(2) ok have "nc_sent (native_step win pid ev ?c) = nc_sent ?c" "quiet (native_step win pid ev ?c)"
    "nc_captured (native_step win pid ev ?c) \<le> MAX_CAPTURE_BYTES \<or> nc_failure (native_step win pid ev ?c) \<noteq> None"
    by (cases ev; simp add: running_ok_def quiet_def settle_def release_def Let_def)+
  with quiet_run [OF _ assms(3)] show ?thesis by (simp add: run_child_append)
qed

theorem native_quiet_after_end_witness:
  "nc_sent (run_child False (Some 7) False ([AbortSignal] @ ChildClosed None (Some ''SIGTERM'') # [KillTimerFires])) =
     nc_sent (run_child False (Some 7) False [AbortSignal])"
  by (rule native_quiet_after_end) simp_all

subsection \<open>The environment\<close>

lemma posix_join_under:
  assumes "list_all good_seg ss" "good_seg n" "\<not> suffix (js ''/'') n"
  shows "posix_join [abs_path ss, n] = abs_path (ss @ [n])"
proof -
  have n: "n \<noteq> []" "47 \<notin> set n" "n \<noteq> js ''..''" "n \<noteq> js ''.''" using assms(2) by (auto simp: good_seg_def)
  have join: "join_with [47] (filter (\<lambda>p. p \<noteq> []) [abs_path ss, n]) = abs_path ss @ 47 # n"
    using n(1) by (simp add: abs_path_def)
  have split: "split_on 47 (abs_path ss @ 47 # n) = split_on 47 (abs_path ss) @ [n]"
    by (simp add: split_on_append_sep split_on_absent n(2))
  have "norm_segs False [] (split_on 47 (abs_path ss @ 47 # n)) = ss @ [n]"
    using abs_path_no_dotdot [OF assms(1)] n
    by (simp add: split norm_segs_plain kept_abs_path [OF assms(1), unfolded kept_def])
  with normalizeString_abs [of "abs_path ss @ 47 # n"]
  have norm: "47 # normalizeString (abs_path ss @ 47 # n) False = abs_path (ss @ [n])" by simp
  have "normalizeString (abs_path ss @ 47 # n) False \<noteq> []"
  proof
    assume "normalizeString (abs_path ss @ 47 # n) False = []"
    with norm have "abs_path (ss @ [n]) = [47]" by simp
    with segments_abs_path [of "ss @ [n]"] assms show False by (simp add: segments_def)
  qed
  moreover have "\<not> suffix (js ''/'') (abs_path ss @ 47 # n)"
    using n(1,2) by (cases n rule: rev_cases) (auto simp: slash suffix_def)
  moreover have "posix_isAbsolute (abs_path ss @ 47 # n)" by (simp add: posix_isAbsolute_iff abs_path_def)
  moreover have "abs_path ss @ 47 # n \<noteq> []" by simp
  ultimately show ?thesis using norm unfolding posix_join_def join posix_normalize_def Let_def
    by (simp add: slash)
qed

lemma inside_under: "list_all good_seg (ss @ ns) \<Longrightarrow> inside (abs_path ss) (abs_path (ss @ ns))"
  by (simp add: inside_def segments_abs_path)

definition private_directories :: "string list" where
  "private_directories =
     [''HOME'', ''TMPDIR'', ''TEXMFHOME'', ''TEXMFVAR'', ''TEXMFCONFIG'', ''TEXMFCACHE'', ''TEXMFOUTPUT'']"

text \<open>The variables of the service that reach a compiler.\<close>

definition passed_on :: "bool \<Rightarrow> string set" where
  "passed_on win = {''TYPR_COMPANION_NATIVE_PATH'', ''TYPR_COMPANION_TEX_ROOT''} \<union>
     (if win then {''PATH'', ''Path'', ''SystemRoot'', ''WINDIR'', ''ComSpec'', ''PATHEXT''} else {})"

lemma map_of_app: "map_of (xs @ ys) k = (case map_of xs k of Some v \<Rightarrow> Some v | None \<Rightarrow> map_of ys k)"
  by (induction xs) auto

lemma defined_None: "k \<notin> fst ` set vs \<Longrightarrow> map_of (defined vs) k = None"
  by (induction vs) (auto simp: defined_def List.map_filter_simps split: option.splits)

lemmas environment_lookup = compiler_variables_def windows_variables_def map_of_app defined_None Let_def

lemma good_names: "good_seg (js ''.typr-home'')" "good_seg (js ''.typr-texmf'')" "good_seg (js ''.typr-cache'')"
  "good_seg (js ''var'')" "good_seg (js ''config'')"
  "\<not> suffix (js ''/'') (js ''.typr-home'')" "\<not> suffix (js ''/'') (js ''.typr-texmf'')"
  "\<not> suffix (js ''/'') (js ''.typr-cache'')" "\<not> suffix (js ''/'') (js ''var'')" "\<not> suffix (js ''/'') (js ''config'')"
  by (simp_all add: good_seg_def js_def suffix_def)

text \<open>
  C29: What a compiler learns from the service's environment: its private directories all lie in the
  working directory, shell escape is off and files outside are closed to it, there are no variables
  but the listed ones, and the result is the same for any two process environments that agree on the
  variables passed on, so no secret of the service can reach a compiler.
\<close>

theorem compiler_environment_private:
  assumes "list_all good_seg ss"
    and "prepareCompilerEnvironment mkdir win penv (abs_path ss) [] fs = (Inr env, fs1)"
    and "\<forall>k\<in>passed_on win. penv k = penv' k"
  shows "list_all (\<lambda>k. \<exists>p. map_of env k = Some p \<and> inside (abs_path ss) p) private_directories \<and>
    map_of env ''shell_escape'' = Some (js ''f'') \<and> map_of env ''openin_any'' = Some (js ''p'') \<and>
    map_of env ''openout_any'' = Some (js ''p'') \<and>
    prepareCompilerEnvironment mkdir win penv' (abs_path ss) [] fs = (Inr env, fs1)"
proof (intro conjI)
  have env: "env = compiler_variables win penv (abs_path ss)"
    using assms(2) by (auto simp: prepareCompilerEnvironment_def split: prod.splits option.splits)
  have join: "posix_join [abs_path ss, js ''.typr-home''] = abs_path (ss @ [js ''.typr-home''])"
    "posix_join [abs_path ss, js ''.typr-texmf''] = abs_path (ss @ [js ''.typr-texmf''])"
    "posix_join [abs_path ss, js ''.typr-cache''] = abs_path (ss @ [js ''.typr-cache''])"
    "posix_join [abs_path (ss @ [js ''.typr-texmf'']), js ''var''] = abs_path (ss @ [js ''.typr-texmf'', js ''var''])"
    "posix_join [abs_path (ss @ [js ''.typr-texmf'']), js ''config''] = abs_path (ss @ [js ''.typr-texmf'', js ''config''])"
    using assms(1) by (simp_all add: posix_join_under good_names)
  have inside: "inside (abs_path ss) (abs_path ss)" "inside (abs_path ss) (abs_path (ss @ [js ''.typr-home'']))"
    "inside (abs_path ss) (abs_path (ss @ [js ''.typr-texmf'']))" "inside (abs_path ss) (abs_path (ss @ [js ''.typr-cache'']))"
    "inside (abs_path ss) (abs_path (ss @ [js ''.typr-texmf'', js ''var'']))"
    "inside (abs_path ss) (abs_path (ss @ [js ''.typr-texmf'', js ''config'']))"
    using inside_under [of ss "[]"] assms(1) by (simp_all add: inside_under good_names)
  show "list_all (\<lambda>k. \<exists>p. map_of env k = Some p \<and> inside (abs_path ss) p) private_directories"
    by (simp add: env private_directories_def join inside environment_lookup del: map_of_append)
  show "map_of env ''shell_escape'' = Some (js ''f'')" "map_of env ''openin_any'' = Some (js ''p'')"
    "map_of env ''openout_any'' = Some (js ''p'')"
    by (simp_all add: env environment_lookup del: map_of_append)
  have same: "compiler_variables win penv' (abs_path ss) = compiler_variables win penv (abs_path ss)"
    using assms(3) by (simp add: compiler_variables_def native_path_def windows_variables_def passed_on_def Let_def cong: option.case_cong split: if_splits)
  show "prepareCompilerEnvironment mkdir win penv' (abs_path ss) [] fs = (Inr env, fs1)"
    using assms(2) unfolding prepareCompilerEnvironment_def same .
qed

definition demo_mkdir :: "jsstring \<Rightarrow> jsstring list \<Rightarrow> jsstring option \<times> jsstring list" where
  "demo_mkdir p made = (None, p # made)"

definition demo_penv :: process_env where
  "demo_penv = [''TYPR_COMPANION_NATIVE_PATH'' \<mapsto> js ''/opt/tex/bin'', ''SECRET'' \<mapsto> js ''token'']"

theorem compiler_environment_private_witness:
  "\<exists>env made. prepareCompilerEnvironment demo_mkdir False demo_penv (abs_path [js ''work'']) [] [] = (Inr env, made) \<and>
     prepareCompilerEnvironment demo_mkdir False (demo_penv(''SECRET'' := None)) (abs_path [js ''work'']) [] [] = (Inr env, made) \<and>
     map_of env ''shell_escape'' = Some (js ''f'')"
proof -
  obtain env made where
    e: "prepareCompilerEnvironment demo_mkdir False demo_penv (abs_path [js ''work'']) [] [] = (Inr env, made)"
    by (simp add: prepareCompilerEnvironment_def demo_mkdir_def)
  have "list_all good_seg [js ''work'']" by (simp add: good_seg_def js_def)
  moreover have "\<forall>k\<in>passed_on False. demo_penv k = (demo_penv(''SECRET'' := None)) k" by (simp add: passed_on_def)
  ultimately show ?thesis using compiler_environment_private [OF _ e] e by blast
qed

subsection \<open>A run as a whole\<close>

lemma compiler_variables_locked:
  "map_of (compiler_variables win penv cwd) ''shell_escape'' = Some (js ''f'')"
  "map_of (compiler_variables win penv cwd) ''openin_any'' = Some (js ''p'')"
  "map_of (compiler_variables win penv cwd) ''openout_any'' = Some (js ''p'')"
  by (simp_all add: environment_lookup del: map_of_append)

lemma ended_outcome:
  assumes "list_ex ends evs"
  shows "nc_outcome (run_child win pid aborted evs) \<noteq> None"
proof -
  from assms obtain pre ev post where evs: "evs = pre @ ev # post" "ends ev" "\<forall>e\<in>set pre. \<not> ends e"
    unfolding list_ex_iff using split_list_first_prop [of evs ends] by auto
  then have "list_all (\<lambda>e. \<not> ends e) pre" by (simp add: list_all_iff)
  from run_child_running [OF this] have "running_ok aborted pre (run_child win pid aborted pre)" .
  with evs(2) have "nc_outcome (native_step win pid ev (run_child win pid aborted pre)) \<noteq> None"
    by (cases ev) (auto simp: running_ok_def settle_def release_def Let_def)
  then obtain r where "nc_outcome (native_step win pid ev (run_child win pid aborted pre)) = Some r" by auto
  then show ?thesis by (simp add: evs(1) run_child_append settled_stays)
qed

lemma mkdirs_keeps:
  assumes "\<And>p w err w1. p \<in> set ps \<Longrightarrow> P w \<Longrightarrow> mkdir p w = (err, w1) \<Longrightarrow> P w1" and "P w"
  shows "P (snd (mkdirs mkdir ps w))"
  using assms by (induction ps arbitrary: w) (auto split: prod.splits option.splits, (metis snd_conv)+)

text \<open>The world in which a child is run, and what it is asked to do.\<close>

lemma runNativeProcess_keeps:
  assumes "\<And>p w err w1. p \<in> {posix_join [cwd, js ''.typr-home''], posix_join [cwd, js ''.typr-texmf''],
      posix_join [cwd, js ''.typr-cache'']} \<Longrightarrow> P w \<Longrightarrow> mkdir p w = (err, w1) \<Longrightarrow> P w1"
    and "\<And>w x w1. P w \<Longrightarrow>
      os (spawnSandboxed win penv command args cwd (compiler_variables win penv cwd)
              (case root of Some r \<Rightarrow> r | None \<Rightarrow> cwd)) w = (x, w1) \<Longrightarrow> Q w1"
    and "\<And>w. P w \<Longrightarrow> Q w" and "P w"
  shows "Q (snd (runNativeProcess mkdir os win penv command args cwd root w))"
proof -
  let ?ps = "[posix_join [cwd, js ''.typr-home''], posix_join [cwd, js ''.typr-texmf''], posix_join [cwd, js ''.typr-cache'']]"
  have P: "P (snd (mkdirs mkdir ?ps w))"
    by (rule mkdirs_keeps) (use assms(1,4) in \<open>auto simp del: mkdirs.simps\<close>)
  show ?thesis
  proof (cases "mkdirs mkdir ?ps w")
    case (Pair err w1)
    with P have "P w1" by simp
    show ?thesis
    proof (cases err)
      case (Some m)
      with Pair \<open>P w1\<close> assms(3) show ?thesis
        by (simp add: runNativeProcess_def prepareCompilerEnvironment_def del: mkdirs.simps)
    next
      case None
      obtain pid aborted evs w2 where
        x: "os (spawnSandboxed win penv command args cwd (compiler_variables win penv cwd)
              (case root of Some r \<Rightarrow> r | None \<Rightarrow> cwd)) w1 = ((pid, aborted, evs), w2)"
        by (metis prod.exhaust)
      from assms(2) [OF \<open>P w1\<close> x] Pair None x show ?thesis
        by (simp add: runNativeProcess_def prepareCompilerEnvironment_def del: mkdirs.simps)
    qed
  qed
qed

lemma runNativeProcess_settles:
  assumes "\<And>req w pid aborted evs w1. os req w = ((pid, aborted, evs), w1) \<Longrightarrow> list_ex ends evs"
  shows "fst (runNativeProcess mkdir os win penv command args cwd root w) \<noteq> None"
  by (auto simp: runNativeProcess_def split: prod.splits sum.splits dest!: assms dest: ended_outcome simp del: not_None_eq)

end
