(* ===== verification/PromiseLock.thy ===== *)
theory PromiseLock
  imports Prelude
begin

text \<open>
  The chain of promises that makes asynchronous operations on shared state sequential:
  \<open>withMutationLock\<close> of \<^verbatim>\<open>typr-server/workspaceStore.ts\<close> (the directory) and \<open>installQueue\<close> of
  \<^verbatim>\<open>typr-server/texPackageManager.ts\<close> (the TeX tree).
\<close>

text \<open>Operations one after the other, with their results.\<close>

fun run_ops :: "('st \<Rightarrow> 'op \<Rightarrow> 'st \<times> 'r) \<Rightarrow> 'st \<Rightarrow> 'op list \<Rightarrow> 'st \<times> 'r list" where
  "run_ops step st [] = (st, [])"
| "run_ops step st (x # xs) =
     (let (st', ok) = step st x; (st'', oks) = run_ops step st' xs in (st'', ok # oks))"

text \<open>
  An operation waits for the promise the operation before it releases in its
  \<open>finally\<close>, whether it succeeded or threw. \<open>Finish\<close> is the end of the running operation, which has
  its effect on the shared state then.
\<close>

record ('op, 'r, 'st) mutation_lock =
  ml_running :: "'op option"
  ml_waiting :: "'op list"
  ml_state :: 'st
  ml_results :: "('op \<times> 'r) list"

datatype 'op lock_event = Arrive 'op | Finish

fun lock_step :: "('st \<Rightarrow> 'op \<Rightarrow> 'st \<times> 'r) \<Rightarrow> 'op lock_event \<Rightarrow> ('op, 'r, 'st) mutation_lock \<Rightarrow> ('op, 'r, 'st) mutation_lock" where
  "lock_step step (Arrive op) l =
     (case ml_running l of
        None \<Rightarrow> l\<lparr>ml_running := Some op\<rparr>
      | Some _ \<Rightarrow> l\<lparr>ml_waiting := ml_waiting l @ [op]\<rparr>)"
| "lock_step step Finish l =
     (case ml_running l of
        None \<Rightarrow> l
      | Some op \<Rightarrow>
          (let (st, ok) = step (ml_state l) op
           in l\<lparr>ml_state := st, ml_results := ml_results l @ [(op, ok)],
                ml_running := (case ml_waiting l of [] \<Rightarrow> None | next # _ \<Rightarrow> Some next), ml_waiting := tl (ml_waiting l)\<rparr>))"

definition arrivals :: "'op lock_event list \<Rightarrow> 'op list" where
  "arrivals evs = concat (map (\<lambda>ev. case ev of Arrive op \<Rightarrow> [op] | Finish \<Rightarrow> []) evs)"

definition lock_ok :: "('st \<Rightarrow> 'op \<Rightarrow> 'st \<times> 'r) \<Rightarrow> 'st \<Rightarrow> 'op list \<Rightarrow> ('op, 'r, 'st) mutation_lock \<Rightarrow> bool" where
  "lock_ok step st0 ops l \<longleftrightarrow>
     map fst (ml_results l) @ (case ml_running l of None \<Rightarrow> [] | Some op \<Rightarrow> [op]) @ ml_waiting l = ops \<and>
     (ml_running l = None \<longrightarrow> ml_waiting l = []) \<and>
     run_ops step st0 (map fst (ml_results l)) = (ml_state l, map snd (ml_results l))"

lemma run_ops_snoc:
  "run_ops step st (ops @ [op]) =
     (let (st1, oks) = run_ops step st ops; (st2, ok) = step st1 op in (st2, oks @ [ok]))"
  by (induction ops arbitrary: st) (auto simp: Let_def split: prod.split)

lemma lock_step_ok:
  "lock_ok step st0 ops l \<Longrightarrow> lock_ok step st0 (ops @ arrivals [ev]) (lock_step step ev l)"
proof (cases ev)
  case (Arrive op)
  assume "lock_ok step st0 ops l"
  with Arrive show ?thesis by (auto simp: lock_ok_def arrivals_def split: option.splits)
next
  case Finish
  assume "lock_ok step st0 ops l"
  with Finish show ?thesis
    by (cases "ml_running l"; cases "ml_waiting l")
       (auto simp: lock_ok_def arrivals_def run_ops_snoc Let_def split: prod.split)
qed

text \<open>
  Whatever the arrivals and the failures, the finished operations are the first that arrived, and the
  state is the one they leave when they run one after the other in that order.
\<close>

lemma mutations_serialized:
  fixes st0 :: 'st
  defines "l0 \<equiv> \<lparr>ml_running = None, ml_waiting = [], ml_state = st0, ml_results = []\<rparr>"
  shows "lock_ok step st0 (arrivals evs) (fold (lock_step step) evs l0)"
proof (induction evs rule: rev_induct)
  case Nil
  show ?case by (simp add: lock_ok_def arrivals_def l0_def)
next
  case (snoc ev evs)
  from lock_step_ok [OF snoc, of ev] show ?case by (simp add: arrivals_def)
qed

end
