(* ===== verification/TexPackages.thy ===== *)
theory TexPackages
  imports NativeProcess Regex PromiseLock
begin

text \<open>
  \<^verbatim>\<open>typr-server/texPackageManager.ts\<close>: which files a failed compilation was missing, which TeX Live
  packages contain them, and the \<^verbatim>\<open>tlmgr\<close> commands that install them. Running a command is a parameter that
  changes the world and answers a result or throws; the class is a function over it, and its queue is
  the one of \<open>PromiseLock\<close>.
\<close>

section \<open>Names\<close>

definition SUPPORTED_MISSING_EXTENSIONS :: "jsstring list" where
  "SUPPORTED_MISSING_EXTENSIONS = map js
     [''.bbx'', ''.bst'', ''.cbx'', ''.cfg'', ''.clo'', ''.cls'', ''.def'', ''.enc'', ''.fd'',
      ''.map'', ''.otf'', ''.pfb'', ''.sty'', ''.tfm'', ''.ttf'', ''.vf'']"

definition MAX_FILES_PER_ROUND :: nat where "MAX_FILES_PER_ROUND = 4"
definition MAX_OUTPUT_BYTES :: nat where "MAX_OUTPUT_BYTES = 2 * 1024 * 1024"

definition name_char :: "nat \<Rightarrow> bool" where
  "name_char c \<longleftrightarrow> is_alnum c \<or> c \<in> set (js ''._+-'')"

text \<open>\<open>SAFE_FILE_NAME\<close> and \<open>SAFE_PACKAGE_NAME\<close>, the same pattern.\<close>

fun SAFE_FILE_NAME :: "jsstring \<Rightarrow> bool" where
  "SAFE_FILE_NAME [] = False"
| "SAFE_FILE_NAME (c # s) = (is_alnum c \<and> length s \<le> 159 \<and> list_all name_char s)"

abbreviation SAFE_PACKAGE_NAME :: "jsstring \<Rightarrow> bool" where
  "SAFE_PACKAGE_NAME \<equiv> SAFE_FILE_NAME"

text \<open>\<open>basename\<close> and \<open>extname\<close> of \<^verbatim>\<open>node:path\<close>.\<close>

definition posix_basename :: "jsstring \<Rightarrow> jsstring" where
  "posix_basename p = (case rev (segments p) of [] \<Rightarrow> [] | s # _ \<Rightarrow> s)"

definition posix_extname :: "jsstring \<Rightarrow> jsstring" where
  "posix_extname p =
     (let base = posix_basename p; after = rev (takeWhile (\<lambda>c. c \<noteq> 46) (rev base))
      in if length after + 1 < length base \<and> base \<noteq> js ''..'' then 46 # after else [])"

definition posix_slashes :: "jsstring \<Rightarrow> jsstring" where
  "posix_slashes s = map (\<lambda>c. if c = 92 then 47 else c) s"

definition safeMissingFile :: "jsstring \<Rightarrow> jsstring option" where
  "safeMissingFile v =
     (let normalized = posix_slashes (trim v); name = posix_basename normalized
      in if name \<noteq> normalized \<and> \<not> suffix (47 # name) normalized then None
         else if \<not> SAFE_FILE_NAME name \<or> ascii_lower (posix_extname name) \<notin> set SUPPORTED_MISSING_EXTENSIONS
         then None
         else Some name)"

text \<open>\<open>Set.add\<close> in insertion order.\<close>

definition set_add :: "'a \<Rightarrow> 'a list \<Rightarrow> 'a list" where
  "set_add x xs = (if x \<in> set xs then xs else xs @ [x])"

section \<open>Reading compiler output\<close>

abbreviation space :: rx where "space \<equiv> Chars is_space"
definition quote_mark :: "nat \<Rightarrow> bool" where "quote_mark c \<longleftrightarrow> c = 96 \<or> c = 39"
definition line_break :: "nat \<Rightarrow> bool" where "line_break c \<longleftrightarrow> c = 13 \<or> c = 10"

definition latex_error_pattern :: rx where
  "latex_error_pattern = seqs
     [Alt (lit_i (js ''LaTeX'')) (seqs [lit_i (js ''Package''), plus space, plus (Chars (\<lambda>c. \<not> is_space c))]),
      plus space, lit_i (js ''Error:''), plus space, lit_i (js ''File''), plus space, Chars quote_mark,
      Group 1 (plus (Chars (\<lambda>c. \<not> quote_mark c \<and> \<not> line_break c))), Chars quote_mark,
      plus space, lit_i (js ''not''), plus space, lit_i (js ''found''), opt (Chars ((=) 46))]"

definition style_file_pattern :: rx where
  "style_file_pattern = seqs
     [lit_i (js ''I couldn'' @ [39] @ js ''t open style file''), plus space,
      Group 1 (seqs [plus (Chars (\<lambda>c. \<not> is_space c \<and> c \<noteq> 46)), Chars ((=) 46),
                     Alt (lit_i (js ''bst'')) (Alt (lit_i (js ''bbx'')) (lit_i (js ''cbx'')))])]"

text \<open>The class of the font pattern, under case folding.\<close>

definition font_char :: "nat \<Rightarrow> bool" where
  "font_char c \<longleftrightarrow> name_char c \<or> c = 383 \<or> c = 8490"

definition font_pattern :: rx where
  "font_pattern = seqs
     [lit_i (js ''Font''), plus space, plus_lazy (Chars (\<lambda>c. \<not> line_break c \<and> c \<noteq> 61)), Chars ((=) 61),
      Group 1 (plus (Chars font_char)),
      opt (seqs [plus space, lit_i (js ''at''), plus space, plus_lazy (Chars (\<lambda>c. \<not> line_break c))]),
      plus space, lit_i (js ''not''), plus space, lit_i (js ''loadable:''), plus space, lit_i (js ''Metric''),
      plus space, lit_i (js ''(TFM)''), plus space, lit_i (js ''file''), plus space, lit_i (js ''not''),
      plus space, lit_i (js ''found'')]"

definition missing_in :: "(jsstring \<Rightarrow> jsstring) \<Rightarrow> rx \<Rightarrow> jsstring \<Rightarrow> jsstring list \<Rightarrow> jsstring list" where
  "missing_in raw pattern output files =
     fold (\<lambda>caps files. case Option.bind (caps 1) (\<lambda>m. safeMissingFile (raw m)) of
                           Some candidate \<Rightarrow> set_add candidate files | None \<Rightarrow> files)
       (match_all pattern [] output) files"

definition extractMissingTexFiles :: "jsstring \<Rightarrow> jsstring list" where
  "extractMissingTexFiles output =
     missing_in (\<lambda>m. if posix_extname m = [] then m @ js ''.tfm'' else m) font_pattern output
       (missing_in id style_file_pattern output (missing_in id latex_error_pattern output []))"

section \<open>Reading tlmgr output\<close>

text \<open>\<open>split(/\r?\n/u)\<close>: every piece but the last loses a final carriage return.\<close>

definition drop_cr :: "jsstring \<Rightarrow> jsstring" where
  "drop_cr s = (if s \<noteq> [] \<and> last s = 13 then butlast s else s)"

definition split_lines :: "jsstring \<Rightarrow> jsstring list" where
  "split_lines s = (let pieces = split_on 10 s in map drop_cr (butlast pieces) @ [last pieces])"

text \<open>The header pattern, on a line without surrounding space.\<close>

definition package_header :: "jsstring \<Rightarrow> jsstring option" where
  "package_header row =
     (if row \<noteq> [] \<and> last row = 58 \<and> SAFE_PACKAGE_NAME (butlast row) then Some (butlast row) else None)"

definition dist_pattern :: rx where
  "dist_pattern = seqs [Alt InputStart (Chars ((=) 47)), lit (js ''texmf-dist/''),
     Alt (lit (js ''tex'')) (lit (js ''fonts'')), Chars ((=) 47)]"

definition doc_pattern :: rx where
  "doc_pattern = seqs [Alt InputStart (Chars ((=) 47)), Alt (lit (js ''doc'')) (lit (js ''source'')), Chars ((=) 47)]"

definition path_score :: "jsstring \<Rightarrow> nat" where
  "path_score path = (if test dist_pattern path then 2 else if test doc_pattern path then 0 else 1)"

definition listed_path :: "jsstring \<Rightarrow> jsstring" where
  "listed_path row = (let t = trim row in if prefix (js ''RELOCATED/'') t then drop (length ''RELOCATED/'') t else t)"

fun package_scan ::
  "jsstring \<Rightarrow> jsstring option \<Rightarrow> (jsstring \<times> nat) option \<Rightarrow> jsstring list \<Rightarrow> (jsstring \<times> nat) option"
where
  "package_scan requestedFile packageName bestMatch [] = bestMatch"
| "package_scan requestedFile packageName bestMatch (row # lines) =
     (case package_header (trim row) of
        Some header \<Rightarrow> package_scan requestedFile (Some header) bestMatch lines
      | None \<Rightarrow>
          (case packageName of
             None \<Rightarrow> package_scan requestedFile None bestMatch lines
           | Some name \<Rightarrow>
               let path = listed_path row;
                   score = path_score path
               in if posix_basename (posix_slashes path) = requestedFile \<and>
                     (case bestMatch of None \<Rightarrow> True | Some (_, best) \<Rightarrow> score > best)
                  then package_scan requestedFile packageName (Some (name, score)) lines
                  else package_scan requestedFile packageName bestMatch lines))"

definition packageForExactFile :: "jsstring \<Rightarrow> jsstring \<Rightarrow> jsstring option" where
  "packageForExactFile output requestedFile =
     map_option fst (package_scan requestedFile None None (split_lines output))"

section \<open>The manager\<close>

record TexPackageResolution =
  tr_files :: "jsstring list"
  tr_packages :: "jsstring list"
  tr_installed :: bool
  tr_diagnostic :: "jsstring option"

record TexPackageUpdateResult =
  tu_updated :: bool
  tu_diagnostic :: jsstring

record TexPackageManagerCommandResult =
  tm_exitCode :: "int option"
  tm_stdout :: jsstring
  tm_stderr :: jsstring

text \<open>A command: the world after it, and its result or the message of what it threw.\<close>

type_synonym 'w command_runner =
  "jsstring list \<Rightarrow> 'w \<Rightarrow> (jsstring + TexPackageManagerCommandResult) \<times> 'w"

definition last_lines :: "nat \<Rightarrow> jsstring \<Rightarrow> jsstring" where
  "last_lines n s =
     (let lines = filter (\<lambda>l. l \<noteq> []) (split_lines (trim s)) in join_with [32] (drop (length lines - n) lines))"

definition conciseCommandFailure :: "string \<Rightarrow> TexPackageManagerCommandResult \<Rightarrow> jsstring" where
  "conciseCommandFailure label result =
     (let detail = last_lines 3 (tm_stderr result @ [10] @ tm_stdout result)
      in js label @ js '' exited with code '' @
         (case tm_exitCode result of Some code \<Rightarrow> int_dec code | None \<Rightarrow> js ''unknown'') @
         (if detail \<noteq> [] then js '': '' @ detail else []))"

definition requiresTlmgrSelfUpdate :: "jsstring \<Rightarrow> bool" where
  "requiresTlmgrSelfUpdate output = test (lit_i (js ''tlmgr itself needs to be updated'')) output"

definition texPackageAutoInstallEnabled :: "jsstring option \<Rightarrow> unit + bool" where
  "texPackageAutoInstallEnabled v =
     (let normalized = trimmed v
      in if normalized = [] \<or> normalized = js ''1'' then Inr True
         else if normalized = js ''0'' then Inr False else Inl ())"

definition unresolved :: "jsstring list \<Rightarrow> jsstring list \<Rightarrow> jsstring \<Rightarrow> TexPackageResolution" where
  "unresolved files packages diagnostic =
     \<lparr>tr_files = files, tr_packages = packages, tr_installed = False, tr_diagnostic = Some diagnostic\<rparr>"

text \<open>The search loop: the packages found, or the resolution it returns early.\<close>

fun search_files ::
  "'w command_runner \<Rightarrow> ('w \<Rightarrow> bool) \<Rightarrow> jsstring list \<Rightarrow> jsstring list \<Rightarrow> jsstring list \<Rightarrow> 'w \<Rightarrow>
   (TexPackageResolution + jsstring list) \<times> 'w"
where
  "search_files run aborted files packages [] w = (Inr packages, w)"
| "search_files run aborted files packages (name # rest) w =
     (if aborted w then (Inl (unresolved files packages (js ''compilation was cancelled'')), w)
      else case run [js ''search'', js ''--global'', js ''--file'', 47 # name] w of
        (Inl message, w1) \<Rightarrow> (Inl (unresolved files [] message), w1)
      | (Inr found, w1) \<Rightarrow>
          if tm_exitCode found \<noteq> Some 0
          then (Inl (unresolved files packages (conciseCommandFailure ''tlmgr search'' found)), w1)
          else search_files run aborted files
                 (case packageForExactFile (tm_stdout found) name of
                    Some packageName \<Rightarrow> set_add packageName packages | None \<Rightarrow> packages) rest w1)"

definition install_finished ::
  "jsstring list \<Rightarrow> jsstring list \<Rightarrow> TexPackageManagerCommandResult \<Rightarrow> TexPackageResolution"
where
  "install_finished files packages install =
     (if tm_exitCode install \<noteq> Some 0
      then unresolved files packages (conciseCommandFailure ''tlmgr install'' install)
      else \<lparr>tr_files = files, tr_packages = packages, tr_installed = True, tr_diagnostic = None\<rparr>)"

definition install_packages ::
  "'w command_runner \<Rightarrow> jsstring list \<Rightarrow> jsstring list \<Rightarrow> 'w \<Rightarrow> TexPackageResolution \<times> 'w"
where
  "install_packages run files packages w =
     (case run (js ''install'' # packages) w of
        (Inl message, w1) \<Rightarrow> (unresolved files [] message, w1)
      | (Inr install, w1) \<Rightarrow>
          if tm_exitCode install \<noteq> Some 0 \<and> requiresTlmgrSelfUpdate (tm_stdout install @ [10] @ tm_stderr install)
          then (case run [js ''update'', js ''--self''] w1 of
                  (Inl message, w2) \<Rightarrow> (unresolved files [] message, w2)
                | (Inr selfUpdate, w2) \<Rightarrow>
                    if tm_exitCode selfUpdate \<noteq> Some 0
                    then (unresolved files packages (conciseCommandFailure ''tlmgr self-update'' selfUpdate), w2)
                    else (case run (js ''install'' # packages) w2 of
                            (Inl message, w3) \<Rightarrow> (unresolved files [] message, w3)
                          | (Inr install', w3) \<Rightarrow> (install_finished files packages install', w3)))
          else (install_finished files packages install, w1))"

definition resolveCompilerFailure ::
  "'w command_runner \<Rightarrow> ('w \<Rightarrow> bool) \<Rightarrow> bool \<Rightarrow> jsstring \<Rightarrow> 'w \<Rightarrow> TexPackageResolution \<times> 'w"
where
  "resolveCompilerFailure run aborted enabled output w =
     (let files = take MAX_FILES_PER_ROUND (extractMissingTexFiles output)
      in if files = []
         then (\<lparr>tr_files = [], tr_packages = [], tr_installed = False, tr_diagnostic = None\<rparr>, w)
         else if \<not> enabled
         then (unresolved files [] (js ''automatic TeX package installation is disabled''), w)
         else case search_files run aborted files [] files w of
                (Inl resolution, w1) \<Rightarrow> (resolution, w1)
              | (Inr packages, w1) \<Rightarrow>
                  if packages = []
                  then (unresolved files []
                          (js ''no exact package match was found in the TeX Live repository''), w1)
                  else install_packages run files packages w1)"

definition updateAll :: "'w command_runner \<Rightarrow> bool \<Rightarrow> 'w \<Rightarrow> TexPackageUpdateResult \<times> 'w" where
  "updateAll run enabled w =
     (if \<not> enabled
      then (\<lparr>tu_updated = False, tu_diagnostic = js ''automatic TeX package management is disabled''\<rparr>, w)
      else case run [js ''update'', js ''--self'', js ''--all''] w of
        (Inl message, w1) \<Rightarrow> (\<lparr>tu_updated = False, tu_diagnostic = message\<rparr>, w1)
      | (Inr update, w1) \<Rightarrow>
          if tm_exitCode update \<noteq> Some 0
          then (\<lparr>tu_updated = False, tu_diagnostic = conciseCommandFailure ''tlmgr update'' update\<rparr>, w1)
          else let summary = last_lines 5 (tm_stdout update @ [10] @ tm_stderr update)
               in (\<lparr>tu_updated = True,
                    tu_diagnostic = if summary \<noteq> [] then summary else js ''TeX Live is current.''\<rparr>, w1))"

text \<open>
  \<open>activeTexPackageManager\<close>: the shared manager, replaced when the command changes. A manager is known
  by its number; each has an \<open>installQueue\<close> of its own.
\<close>

record tex_manager =
  mg_number :: nat
  mg_command :: jsstring
  mg_enabled :: bool

record shared_managers =
  sm_current :: "tex_manager option"
  sm_created :: nat

definition activeTexPackageManager :: "process_env \<Rightarrow> shared_managers \<Rightarrow> (unit + tex_manager) \<times> shared_managers" where
  "activeTexPackageManager penv sm =
     (let command = nativeTool penv Tlmgr
      in case sm_current sm of
           Some m \<Rightarrow>
             if mg_command m = command then (Inr m, sm)
             else (case texPackageAutoInstallEnabled (penv ''TYPR_COMPANION_TEX_AUTO_INSTALL'') of
                     Inl e \<Rightarrow> (Inl e, sm)
                   | Inr enabled \<Rightarrow>
                       let m' = \<lparr>mg_number = sm_created sm, mg_command = command, mg_enabled = enabled\<rparr>
                       in (Inr m', \<lparr>sm_current = Some m', sm_created = Suc (sm_created sm)\<rparr>))
         | None \<Rightarrow>
             (case texPackageAutoInstallEnabled (penv ''TYPR_COMPANION_TEX_AUTO_INSTALL'') of
                Inl e \<Rightarrow> (Inl e, sm)
              | Inr enabled \<Rightarrow>
                  let m' = \<lparr>mg_number = sm_created sm, mg_command = command, mg_enabled = enabled\<rparr>
                  in (Inr m', \<lparr>sm_current = Some m', sm_created = Suc (sm_created sm)\<rparr>)))"

section \<open>Running tlmgr\<close>

text \<open>The home directory to create first, and the variables.\<close>

definition package_manager_home :: "bool \<Rightarrow> process_env \<Rightarrow> jsstring option" where
  "package_manager_home win penv =
     (let configuredRoot = trimmed (penv ''TYPR_COMPANION_DATA_ROOT'')
      in if configuredRoot \<noteq> [] then Some (posix_join [configuredRoot, js ''tex-package-manager''])
         else if win then (case penv ''USERPROFILE'' of Some [] \<Rightarrow> None | h \<Rightarrow> h)
         else Some (js ''/tmp/typr-tex-package-manager''))"

definition packageManagerEnvironment :: "bool \<Rightarrow> process_env \<Rightarrow> environment" where
  "packageManagerEnvironment win penv =
     (let home = package_manager_home win penv;
          given = (\<lambda>k. case penv k of Some [] \<Rightarrow> None | v \<Rightarrow> v)
      in [(''PATH'', native_path win penv), (''LANG'', js ''C.UTF-8''), (''LC_ALL'', js ''C.UTF-8'')] @
         defined ([(''HOME'', home)] @
           (if win then (''USERPROFILE'', home) # map (\<lambda>k. (k, penv k))
                          [''TEMP'', ''TMP'', ''SystemRoot'', ''WINDIR'', ''ComSpec'', ''PATHEXT'']
            else []) @
           map (\<lambda>k. (k, given k)) [''SSL_CERT_FILE'', ''SSL_CERT_DIR'', ''HTTPS_PROXY'', ''HTTP_PROXY'', ''NO_PROXY'']))"

definition tlmgr_spawn ::
  "bool \<Rightarrow> process_env \<Rightarrow> jsstring \<Rightarrow> jsstring list \<Rightarrow> jsstring \<times> jsstring list \<times> environment"
where
  "tlmgr_spawn win penv command args =
     (let isWindowsScript = win \<and> (suffix (js ''.bat'') (ascii_lower command) \<or> suffix (js ''.cmd'') (ascii_lower command))
      in (if isWindowsScript
          then (case penv ''ComSpec'' of Some (c # s) \<Rightarrow> c # s | _ \<Rightarrow> js ''cmd.exe'')
          else command,
          if isWindowsScript then [js ''/d'', js ''/s'', js ''/c'', command] @ args else args,
          packageManagerEnvironment win penv))"

text \<open>The child: output is kept up to the limit, and a timeout, an abort or more output kills it.\<close>

record command_child =
  cc_stdout :: bytes
  cc_stderr :: bytes
  cc_bytes :: nat
  cc_timer :: bool
  cc_listening :: bool
  cc_kills :: nat
  cc_outcome :: "(jsstring + TexPackageManagerCommandResult) option"

datatype command_event =
    CommandStdout bytes
  | CommandStderr bytes
  | CommandTimeout
  | CommandAbort
  | CommandError jsstring
  | CommandClosed "int option"

definition command_capture :: "bool \<Rightarrow> bytes \<Rightarrow> command_child \<Rightarrow> command_child" where
  "command_capture out buffer c =
     (let piece = take (MAX_OUTPUT_BYTES - cc_bytes c) buffer;
          c1 = (if out then c\<lparr>cc_stdout := cc_stdout c @ piece\<rparr> else c\<lparr>cc_stderr := cc_stderr c @ piece\<rparr>)
                 \<lparr>cc_bytes := cc_bytes c + length buffer\<rparr>
      in if cc_bytes c1 > MAX_OUTPUT_BYTES then c1\<lparr>cc_kills := Suc (cc_kills c1)\<rparr> else c1)"

definition command_settle :: "(jsstring + TexPackageManagerCommandResult) \<Rightarrow> command_child \<Rightarrow> command_child" where
  "command_settle r c =
     (if cc_outcome c = None then c\<lparr>cc_outcome := Some r, cc_timer := False, cc_listening := False\<rparr> else c)"

fun command_step :: "command_event \<Rightarrow> command_child \<Rightarrow> command_child" where
  "command_step (CommandStdout b) c = command_capture True b c"
| "command_step (CommandStderr b) c = command_capture False b c"
| "command_step CommandTimeout c =
     (if cc_timer c then c\<lparr>cc_timer := False, cc_kills := Suc (cc_kills c)\<rparr> else c)"
| "command_step CommandAbort c =
     (if cc_listening c then c\<lparr>cc_listening := False, cc_kills := Suc (cc_kills c)\<rparr> else c)"
| "command_step (CommandError message) c = command_settle (Inl message) c"
| "command_step (CommandClosed exitCode) c =
     command_settle (Inr \<lparr>tm_exitCode = exitCode, tm_stdout = utf8_decode (cc_stdout c),
                         tm_stderr = utf8_decode (cc_stderr c)\<rparr>) c"

definition runTexPackageManagerCommand :: "bool \<Rightarrow> command_event list \<Rightarrow> command_child" where
  "runTexPackageManagerCommand aborted evs =
     fold command_step evs
       \<lparr>cc_stdout = [], cc_stderr = [], cc_bytes = 0, cc_timer = True, cc_listening = \<not> aborted,
        cc_kills = (if aborted then 1 else 0), cc_outcome = None\<rparr>"

section \<open>Lemmas\<close>

definition manageable :: "jsstring \<Rightarrow> bool" where
  "manageable f \<longleftrightarrow> SAFE_FILE_NAME f \<and> ascii_lower (posix_extname f) \<in> set SUPPORTED_MISSING_EXTENSIONS"

lemma safeMissingFile_manageable: "safeMissingFile v = Some f \<Longrightarrow> manageable f"
  by (auto simp: safeMissingFile_def manageable_def Let_def split: if_splits)

lemma set_add_simps [simp]: "set (set_add x xs) = insert x (set xs)" "distinct (set_add x xs) = distinct xs"
  by (auto simp: set_add_def)

lemma fold_set_add:
  assumes "\<And>c f. g c = Some f \<Longrightarrow> P f" and "list_all P files" and "distinct files"
  shows "list_all P (fold (\<lambda>c files. case g c of Some f \<Rightarrow> set_add f files | None \<Rightarrow> files) cs files) \<and>
    distinct (fold (\<lambda>c files. case g c of Some f \<Rightarrow> set_add f files | None \<Rightarrow> files) cs files)"
  using assms(2,3)
proof (induction cs arbitrary: files)
  case (Cons c cs)
  let ?files = "case g c of Some f \<Rightarrow> set_add f files | None \<Rightarrow> files"
  have "list_all P ?files \<and> distinct ?files"
    using Cons.prems assms(1) by (auto simp: list_all_iff split: option.splits)
  with Cons.IH [of ?files] show ?case by simp
qed simp

lemma missing_in_manageable:
  "list_all manageable files \<Longrightarrow> distinct files \<Longrightarrow>
   list_all manageable (missing_in raw pattern output files) \<and> distinct (missing_in raw pattern output files)"
  unfolding missing_in_def
  by (rule fold_set_add) (auto simp: bind_eq_Some_conv dest: safeMissingFile_manageable)

lemma extract_manageable:
  "list_all manageable (extractMissingTexFiles output) \<and> distinct (extractMissingTexFiles output)"
  unfolding extractMissingTexFiles_def by (intro missing_in_manageable conjI) (simp_all add: missing_in_manageable)

text \<open>The files and packages a command line may name.\<close>

definition allowed_command :: "jsstring list \<Rightarrow> bool" where
  "allowed_command args \<longleftrightarrow>
     (\<exists>f. args = [js ''search'', js ''--global'', js ''--file'', 47 # f] \<and> manageable f) \<or>
     (\<exists>ps. args = js ''install'' # ps \<and> ps \<noteq> [] \<and> distinct ps \<and> list_all SAFE_PACKAGE_NAME ps) \<or>
     args = [js ''update'', js ''--self''] \<or> args = [js ''update'', js ''--self'', js ''--all'']"

text \<open>The lines of a listing with the package each belongs to.\<close>

fun listing :: "jsstring option \<Rightarrow> jsstring list \<Rightarrow> (jsstring \<times> jsstring) list" where
  "listing current [] = []"
| "listing current (row # rows) =
     (case package_header (trim row) of
        Some header \<Rightarrow> listing (Some header) rows
      | None \<Rightarrow> (case current of None \<Rightarrow> listing None rows
                 | Some p \<Rightarrow> (p, listed_path row) # listing current rows))"

definition listed_in :: "jsstring \<Rightarrow> jsstring \<Rightarrow> (jsstring \<times> jsstring) list" where
  "listed_in output requestedFile =
     filter (\<lambda>(p, path). posix_basename (posix_slashes path) = requestedFile) (listing None (split_lines output))"

lemma listing_packages: "(p, path) \<in> set (listing current rows) \<Longrightarrow> current = Some p \<or> SAFE_PACKAGE_NAME p"
  by (induction current rows rule: listing.induct)
     (fastforce simp: package_header_def split: option.splits if_splits)+

fun best :: "(jsstring \<times> nat) option \<Rightarrow> (jsstring \<times> jsstring) list \<Rightarrow> (jsstring \<times> nat) option" where
  "best b [] = b"
| "best b ((p, path) # entries) =
     (if (case b of None \<Rightarrow> True | Some (_, s) \<Rightarrow> path_score path > s) then best (Some (p, path_score path)) entries
      else best b entries)"

lemma package_scan_best:
  "package_scan f current b rows =
     best b (filter (\<lambda>(p, path). posix_basename (posix_slashes path) = f) (listing current rows))"
  by (induction f current b rows rule: package_scan.induct)
     (auto simp: Let_def split: option.split)

lemma best_Some: "\<exists>p s. best (Some ps) entries = Some (p, s)"
  by (induction entries arbitrary: ps) (auto split: prod.split)

lemma best_None: "best b entries = None \<longleftrightarrow> b = None \<and> entries = []"
proof (cases b)
  case None
  then show ?thesis by (cases entries) (auto simp: best_Some split: prod.split)
next
  case (Some ps)
  with best_Some [of ps entries] show ?thesis by auto
qed

lemma best_spec:
  "best b entries = Some (p, s) \<Longrightarrow>
     (b = Some (p, s) \<or> (\<exists>path. (p, path) \<in> set entries \<and> path_score path = s)) \<and>
     (\<forall>q path. (q, path) \<in> set entries \<longrightarrow> path_score path \<le> s) \<and> (\<forall>q t. b = Some (q, t) \<longrightarrow> t \<le> s)"
proof (induction b entries rule: best.induct)
  case (2 b q path entries)
  show ?case
  proof (cases "case b of None \<Rightarrow> True | Some (_, s) \<Rightarrow> path_score path > s")
    case True
    with 2(1) [OF True] 2(3) show ?thesis by (fastforce split: option.splits)
  next
    case False
    with 2(2) [OF False] 2(3) show ?thesis by (fastforce split: option.splits)
  qed
qed auto

text \<open>
  The package chosen for a file is one whose listing under its own header names exactly that file, in the
  best place among all that do; when no listing names it, none is chosen.
\<close>

theorem package_for_exact_file:
  "case packageForExactFile output requestedFile of
     None \<Rightarrow> listed_in output requestedFile = []
   | Some p \<Rightarrow> SAFE_PACKAGE_NAME p \<and>
       (\<exists>path. (p, path) \<in> set (listed_in output requestedFile) \<and>
          list_all (\<lambda>(q, path'). path_score path' \<le> path_score path) (listed_in output requestedFile))"
proof (cases "best None (listed_in output requestedFile)")
  case None
  then show ?thesis
    by (simp add: packageForExactFile_def package_scan_best best_None flip: listed_in_def)
next
  case (Some ps)
  then obtain p s where b: "best None (listed_in output requestedFile) = Some (p, s)" by (cases ps) auto
  from best_spec [OF b] obtain path where p: "(p, path) \<in> set (listed_in output requestedFile)" "path_score path = s"
    and max: "\<forall>q path'. (q, path') \<in> set (listed_in output requestedFile) \<longrightarrow> path_score path' \<le> s" by auto
  from p(1) have "SAFE_PACKAGE_NAME p" by (auto simp: listed_in_def dest: listing_packages)
  moreover have "packageForExactFile output requestedFile = Some p"
    using b by (simp add: packageForExactFile_def package_scan_best flip: listed_in_def)
  ultimately show ?thesis using p max by (auto simp: list_all_iff)
qed

lemma package_for_exact_file_safe: "packageForExactFile output f = Some p \<Longrightarrow> SAFE_PACKAGE_NAME p"
  by (auto simp: packageForExactFile_def package_scan_best dest!: best_spec listing_packages)

subsection \<open>The commands\<close>

text \<open>A runner that records the commands it is given.\<close>

definition recording :: "'w command_runner \<Rightarrow> ('w \<times> jsstring list list) command_runner" where
  "recording run args w = (case run args (fst w) of (r, w1) \<Rightarrow> (r, (w1, snd w @ [args])))"

lemma search_files_commands:
  assumes "list_all manageable todo" "list_all SAFE_PACKAGE_NAME packages" "distinct packages"
    and "search_files (recording run) aborted files packages todo w = (r, w1)"
  shows "\<exists>log. snd w1 = snd w @ log \<and> list_all allowed_command log \<and> length log \<le> length todo \<and>
    (\<forall>ps. r = Inr ps \<longrightarrow> list_all SAFE_PACKAGE_NAME ps \<and> distinct ps)"
  using assms
proof (induction todo arbitrary: packages w)
  case Nil
  then show ?case by auto
next
  case (Cons f todo)
  let ?args = "[js ''search'', js ''--global'', js ''--file'', 47 # f]"
  have allowed: "allowed_command ?args" using Cons.prems(1) by (auto simp: allowed_command_def)
  obtain x w2 where run: "run ?args (fst w) = (x, w2)" by (cases "run ?args (fst w)")
  show ?case
  proof (cases "\<not> aborted w \<and> (\<exists>found. x = Inr found \<and> tm_exitCode found = Some 0)")
    case True
    then obtain found where x: "x = Inr found" "tm_exitCode found = Some 0" by blast
    let ?packages = "case packageForExactFile (tm_stdout found) f of Some p \<Rightarrow> set_add p packages | None \<Rightarrow> packages"
    have ok: "list_all SAFE_PACKAGE_NAME ?packages" "distinct ?packages"
      using Cons.prems(2,3) by (auto simp: list_all_iff dest: package_for_exact_file_safe split: option.splits)
    have "search_files (recording run) aborted files ?packages todo (w2, snd w @ [?args]) = (r, w1)"
      using Cons.prems(4) True x run by (simp add: recording_def [of run ?args])
    from Cons.IH [OF _ ok this] Cons.prems(1) obtain log where
      "snd w1 = (snd w @ [?args]) @ log" "list_all allowed_command log" "length log \<le> length todo"
      "\<forall>ps. r = Inr ps \<longrightarrow> list_all SAFE_PACKAGE_NAME ps \<and> distinct ps" by auto
    with allowed show ?thesis by (intro exI [of _ "?args # log"]) simp
  next
    case False
    with Cons.prems(4) run have "r \<noteq> Inr ps" "w1 = w \<or> w1 = (w2, snd w @ [?args])" for ps
      by (auto simp: recording_def split: if_splits sum.splits)
    with allowed show ?thesis by (intro exI [of _ "drop (length (snd w)) (snd w1)"]) auto
  qed
qed

lemma install_packages_commands:
  assumes "list_all SAFE_PACKAGE_NAME packages" "distinct packages" "packages \<noteq> []"
    and "install_packages (recording run) files packages w = (r, w1)"
  shows "\<exists>log. snd w1 = snd w @ log \<and> list_all allowed_command log \<and> length log \<le> 3"
proof -
  have "allowed_command (js ''install'' # packages)" "allowed_command [js ''update'', js ''--self'']"
    using assms(1-3) by (auto simp: allowed_command_def)
  with assms(4) show ?thesis
    by (auto simp: install_packages_def recording_def split: prod.splits sum.splits if_splits)
qed

text \<open>
  C33: One failed compilation leads to at most seven \<^verbatim>\<open>tlmgr\<close> commands, each of a known form whose arguments are
  plain file and package names, so no text of the compiler or of the package database becomes an
  option or a path; with installation disabled there are none.
\<close>

theorem tlmgr_commands:
  "let log = snd (snd (resolveCompilerFailure (recording run) aborted enabled output (w, [])))
   in list_all allowed_command log \<and> length log \<le> 7 \<and> (enabled \<or> log = [])"
proof -
  let ?files = "take MAX_FILES_PER_ROUND (extractMissingTexFiles output)"
  have files: "list_all manageable ?files" "length ?files \<le> 4"
    using extract_manageable by (auto simp: list_all_iff MAX_FILES_PER_ROUND_def dest: in_set_takeD)
  obtain r w1 where sf: "search_files (recording run) aborted ?files [] ?files (w, []) = (r, w1)"
    by (cases "search_files (recording run) aborted ?files [] ?files (w, [])")
  from search_files_commands [OF files(1) _ _ this] obtain log where
    log: "snd w1 = log" "list_all allowed_command log" "length log \<le> length ?files"
    "\<And>ps. r = Inr ps \<Longrightarrow> list_all SAFE_PACKAGE_NAME ps \<and> distinct ps" by auto
  have "length log \<le> 4" using log(3) files(2) by linarith
  show ?thesis
  proof (cases "?files = [] \<or> \<not> enabled")
    case True
    then show ?thesis by (auto simp: resolveCompilerFailure_def Let_def)
  next
    case False
    show ?thesis
    proof (cases "\<exists>ps. r = Inr ps \<and> ps \<noteq> []")
      case True
      then obtain ps where r: "r = Inr ps" "ps \<noteq> []" by blast
      obtain x w2 where ip: "install_packages (recording run) ?files ps w1 = (x, w2)"
        by (cases "install_packages (recording run) ?files ps w1")
      from install_packages_commands [OF _ _ r(2) ip] log(4) [OF r(1)] obtain log' where
        "snd w2 = log @ log'" "list_all allowed_command log'" "length log' \<le> 3" using log(1) by auto
      with log(2) \<open>length log \<le> 4\<close> False sf r ip show ?thesis by (simp add: resolveCompilerFailure_def Let_def)
    next
      case None: False
      have "snd (resolveCompilerFailure (recording run) aborted enabled output (w, [])) = w1"
        using False None sf by (cases r) (auto simp: resolveCompilerFailure_def Let_def)
      with log(1,2) \<open>length log \<le> 4\<close> False show ?thesis by (simp add: Let_def)
    qed
  qed
qed

subsection \<open>The resolution\<close>

lemma search_files_result:
  assumes "list_all SAFE_PACKAGE_NAME packages" "distinct packages"
    and "search_files run aborted files packages todo w = (r, w1)"
  shows "case r of Inl u \<Rightarrow> tr_files u = files \<and> \<not> tr_installed u \<and> tr_diagnostic u \<noteq> None
    | Inr ps \<Rightarrow> list_all SAFE_PACKAGE_NAME ps \<and> distinct ps"
  using assms
proof (induction todo arbitrary: packages w)
  case (Cons f todo)
  obtain x w2 where run: "run [js ''search'', js ''--global'', js ''--file'', 47 # f] w = (x, w2)"
    by (cases "run [js ''search'', js ''--global'', js ''--file'', 47 # f] w")
  show ?case
  proof (cases "\<not> aborted w \<and> (\<exists>found. x = Inr found \<and> tm_exitCode found = Some 0)")
    case True
    then obtain found where x: "x = Inr found" "tm_exitCode found = Some 0" by blast
    let ?packages = "case packageForExactFile (tm_stdout found) f of Some p \<Rightarrow> set_add p packages | None \<Rightarrow> packages"
    have "list_all SAFE_PACKAGE_NAME ?packages" "distinct ?packages"
      using Cons.prems(1,2) by (auto simp: list_all_iff dest: package_for_exact_file_safe split: option.splits)
    moreover have "search_files run aborted files ?packages todo w2 = (r, w1)"
      using Cons.prems(3) True x run by simp
    ultimately show ?thesis by (rule Cons.IH)
  next
    case False
    with Cons.prems(3) run show ?thesis by (auto simp: unresolved_def split: if_splits sum.splits)
  qed
qed auto

lemma install_packages_result:
  "install_packages run files packages w = (u, w1) \<Longrightarrow>
     tr_files u = files \<and> (if tr_installed u then tr_packages u = packages \<and> tr_diagnostic u = None
                           else tr_diagnostic u \<noteq> None)"
  by (auto simp: install_packages_def install_finished_def unresolved_def split: prod.splits sum.splits if_splits)

text \<open>
  A resolution names the first four missing files of the output. When it reports an installation, it
  names at least one package, all distinct and safe; when it does not and files were missing, it says
  why.
\<close>

theorem package_resolution:
  "let r = fst (resolveCompilerFailure run aborted enabled output w)
   in tr_files r = take MAX_FILES_PER_ROUND (extractMissingTexFiles output) \<and>
      (if tr_installed r
       then tr_packages r \<noteq> [] \<and> distinct (tr_packages r) \<and> list_all SAFE_PACKAGE_NAME (tr_packages r) \<and> enabled
       else (tr_diagnostic r = None) = (tr_files r = []))"
proof -
  let ?files = "take MAX_FILES_PER_ROUND (extractMissingTexFiles output)"
  obtain r w1 where sf: "search_files run aborted ?files [] ?files w = (r, w1)"
    by (cases "search_files run aborted ?files [] ?files w")
  from search_files_result [OF _ _ sf] have res: "case r of
      Inl u \<Rightarrow> tr_files u = ?files \<and> \<not> tr_installed u \<and> tr_diagnostic u \<noteq> None
    | Inr ps \<Rightarrow> list_all SAFE_PACKAGE_NAME ps \<and> distinct ps" by simp
  show ?thesis
  proof (cases "?files = [] \<or> \<not> enabled")
    case True
    then show ?thesis by (auto simp: resolveCompilerFailure_def unresolved_def Let_def)
  next
    case False
    show ?thesis
    proof (cases r)
      case (Inl u)
      with False sf res show ?thesis by (simp add: resolveCompilerFailure_def Let_def)
    next
      case (Inr ps)
      show ?thesis
      proof (cases "ps = []")
        case True
        with False sf Inr show ?thesis by (simp add: resolveCompilerFailure_def unresolved_def Let_def)
      next
        case ne: False
        obtain u w2 where "install_packages run ?files ps w1 = (u, w2)" by (cases "install_packages run ?files ps w1")
        with install_packages_result [OF this] False ne sf Inr res show ?thesis
          by (simp add: resolveCompilerFailure_def Let_def split: if_splits)
      qed
    qed
  qed
qed

text \<open>What the commands keep, a whole resolution keeps.\<close>

lemma search_files_keeps:
  assumes "\<And>args w r w1. allowed_command args \<Longrightarrow> P w \<Longrightarrow> run args w = (r, w1) \<Longrightarrow> P w1"
    and "list_all manageable todo" "P w" "search_files run aborted files packages todo w = (r, w1)"
  shows "P w1"
  using assms(2-4)
proof (induction todo arbitrary: packages w)
  case Nil
  then show ?case by simp
next
  case (Cons f todo)
  obtain x w2 where run: "run [js ''search'', js ''--global'', js ''--file'', 47 # f] w = (x, w2)"
    by (cases "run [js ''search'', js ''--global'', js ''--file'', 47 # f] w")
  have "allowed_command [js ''search'', js ''--global'', js ''--file'', 47 # f]"
    using Cons.prems(1) by (auto simp: allowed_command_def)
  from assms(1) [OF this Cons.prems(2) run] have "P w2" .
  with Cons.prems run show ?case
    by (auto split: if_splits sum.splits intro: Cons.IH)
qed

lemma install_packages_keeps:
  assumes step: "\<And>args w r w1. allowed_command args \<Longrightarrow> P w \<Longrightarrow> run args w = (r, w1) \<Longrightarrow> P w1"
    and "list_all SAFE_PACKAGE_NAME packages" "distinct packages" "packages \<noteq> []"
    and "P w" "install_packages run files packages w = (r, w1)"
  shows "P w1"
proof -
  have "allowed_command (js ''install'' # packages)" "allowed_command [js ''update'', js ''--self'']"
    using assms(2-4) by (auto simp: allowed_command_def)
  note kept = this [THEN step, rotated]
  from assms(5,6) show ?thesis
    by (auto simp: install_packages_def split: prod.splits sum.splits if_splits dest: kept)
qed

lemma resolve_keeps:
  assumes step: "\<And>args w r w1. allowed_command args \<Longrightarrow> P w \<Longrightarrow> run args w = (r, w1) \<Longrightarrow> P w1"
    and "P w"
  shows "P (snd (resolveCompilerFailure run aborted enabled output w))"
proof -
  let ?files = "take MAX_FILES_PER_ROUND (extractMissingTexFiles output)"
  have files: "list_all manageable ?files"
    using extract_manageable by (auto simp: list_all_iff dest: in_set_takeD)
  obtain r w1 where sf: "search_files run aborted ?files [] ?files w = (r, w1)"
    by (cases "search_files run aborted ?files [] ?files w")
  have P: "P w1" by (rule search_files_keeps [where P = P and run = run, OF step files \<open>P w\<close> sf])
  have install: "P w2" if "r = Inr ps" "ps \<noteq> []" "install_packages run ?files ps w1 = (x, w2)" for ps x w2
    by (rule install_packages_keeps [where P = P and run = run, OF step _ _ that(2) P that(3)])
       (use search_files_result [OF _ _ sf] that(1) in simp_all)
  show ?thesis
    using P \<open>P w\<close> install sf
    by (auto simp: resolveCompilerFailure_def Let_def split: sum.splits prod.splits) (metis prod.collapse)+
qed

subsection \<open>The queue\<close>

datatype 'w manager_op = ResolveFailure "'w \<Rightarrow> bool" jsstring | UpdateAll

fun manager_step ::
  "'w command_runner \<Rightarrow> bool \<Rightarrow> 'w \<Rightarrow> 'w manager_op \<Rightarrow> 'w \<times> (TexPackageResolution + TexPackageUpdateResult)"
where
  "manager_step run enabled w (ResolveFailure aborted output) =
     (case resolveCompilerFailure run aborted enabled output w of (r, w1) \<Rightarrow> (w1, Inl r))"
| "manager_step run enabled w UpdateAll = (case updateAll run enabled w of (r, w1) \<Rightarrow> (w1, Inr r))"

text \<open>The operations of one manager change the TeX tree as if they ran one after the other.\<close>

lemma manager_serialized:
  "lock_ok (manager_step run enabled) w (arrivals evs)
     (fold (lock_step (manager_step run enabled)) evs
       \<lparr>ml_running = None, ml_waiting = [], ml_state = w, ml_results = []\<rparr>)"
  by (rule mutations_serialized)

text \<open>
  The installations of one TeX tree are not serialized across a change of the provider: when the command
  changes to another and back, the tree gets a second manager, with a queue of its own, while
  installations of the first may still run.
\<close>

theorem tree_gets_second_manager:
  assumes "nativeTool penv Tlmgr \<noteq> nativeTool penv' Tlmgr"
    and "is_ok (texPackageAutoInstallEnabled (penv ''TYPR_COMPANION_TEX_AUTO_INSTALL''))"
    and "is_ok (texPackageAutoInstallEnabled (penv' ''TYPR_COMPANION_TEX_AUTO_INSTALL''))"
    and "sm_current sm = None"
  shows "\<exists>m m' sm1. activeTexPackageManager penv sm = (Inr m, sm1) \<and>
    fst (activeTexPackageManager penv (snd (activeTexPackageManager penv' sm1))) = Inr m' \<and>
    mg_command m' = mg_command m \<and> mg_number m' \<noteq> mg_number m"
proof -
  from assms(2,3) obtain e e' where
    "texPackageAutoInstallEnabled (penv ''TYPR_COMPANION_TEX_AUTO_INSTALL'') = Inr e"
    "texPackageAutoInstallEnabled (penv' ''TYPR_COMPANION_TEX_AUTO_INSTALL'') = Inr e'"
    by (auto elim!: is_okE)
  with assms(1,4) show ?thesis by (simp add: activeTexPackageManager_def Let_def)
qed

definition demo_tlmgr :: "string \<Rightarrow> process_env" where
  "demo_tlmgr command = [''TYPR_COMPANION_TLMGR_EXECUTABLE'' \<mapsto> js command]"

theorem tree_gets_second_manager_witness:
  "\<exists>m m' sm1. activeTexPackageManager (demo_tlmgr ''/a/tlmgr'') \<lparr>sm_current = None, sm_created = 0\<rparr> = (Inr m, sm1) \<and>
    fst (activeTexPackageManager (demo_tlmgr ''/a/tlmgr'')
           (snd (activeTexPackageManager (demo_tlmgr ''/b/tlmgr'') sm1))) = Inr m' \<and>
    mg_command m' = mg_command m \<and> mg_number m' \<noteq> mg_number m"
  by (rule tree_gets_second_manager)
     (simp_all add: demo_tlmgr_def nativeTool_def trimmed_def texPackageAutoInstallEnabled_def trim_def js_def is_space_def)

subsection \<open>Captured output\<close>

lemma command_step_bound:
  "length (cc_stdout c) + length (cc_stderr c) = min (cc_bytes c) MAX_OUTPUT_BYTES \<Longrightarrow>
   (let c' = command_step ev c
    in length (cc_stdout c') + length (cc_stderr c') = min (cc_bytes c') MAX_OUTPUT_BYTES)"
  by (cases ev; simp add: command_capture_def command_settle_def Let_def; arith)

lemma command_output_bound:
  "length (cc_stdout (runTexPackageManagerCommand aborted evs)) + length (cc_stderr (runTexPackageManagerCommand aborted evs))
     \<le> MAX_OUTPUT_BYTES"
proof -
  have "length (cc_stdout c) + length (cc_stderr c) = min (cc_bytes c) MAX_OUTPUT_BYTES"
    if "c = runTexPackageManagerCommand aborted evs" for c
    using that
  proof (induction evs arbitrary: c rule: rev_induct)
    case (snoc ev evs)
    show ?case using command_step_bound [OF snoc.IH [OF refl], of ev] snoc.prems
      by (simp add: runTexPackageManagerCommand_def Let_def)
  qed (simp add: runTexPackageManagerCommand_def)
  then show ?thesis by simp
qed

end
