(* ===== verification/CompileProject.thy ===== *)
theory CompileProject
  imports Effects CompileLog TexPackages CompileRequest
begin

text \<open>
  \<open>compileProject\<close> of \<^verbatim>\<open>typr-server/server.ts\<close> with \<^verbatim>\<open>typr-server/latexProject.ts\<close>: a request is written to a
  temporary directory, compiled by \<^verbatim>\<open>latexmk\<close> or three passes of \<^verbatim>\<open>pdflatex\<close>, again after missing packages
  have been installed, and answered with the PDF or with the error of the log. The host is a record of
  operations on a world: file system, child processes, package manager, gzip. A measured time is the
  parameter \<open>elapsed\<close>.
\<close>

definition MAX_PACKAGE_RESOLUTION_ROUNDS :: nat where "MAX_PACKAGE_RESOLUTION_ROUNDS = 3"
definition MAX_LOG_BYTES :: nat where "MAX_LOG_BYTES = 1024 * 1024"
definition MAX_PDF_BYTES :: nat where "MAX_PDF_BYTES = 32 * 1024 * 1024"
definition MAX_SYNCTEX_BYTES :: nat where "MAX_SYNCTEX_BYTES = 32 * 1024 * 1024"

section \<open>The host\<close>

text \<open>A failed file system call: \<open>ENOENT\<close>, or the message of another error.\<close>

datatype io_error = ENOENT jsstring | OtherIo jsstring

fun io_message :: "io_error \<Rightarrow> jsstring" where
  "io_message (ENOENT m) = m"
| "io_message (OtherIo m) = m"

datatype file_kind = RegularFile | SymbolicLink | OtherKind

record file_info =
  fi_kind :: file_kind
  fi_size :: nat

record 'w host =
  h_win :: bool
  h_cwd :: jsstring
  h_env :: "'w \<Rightarrow> process_env"
  h_managers :: "'w \<Rightarrow> shared_managers"
  h_set_managers :: "shared_managers \<Rightarrow> 'w \<Rightarrow> 'w"
  h_pdflatex :: "'w \<Rightarrow> bool \<times> 'w"
  h_available :: "jsstring \<Rightarrow> 'w \<Rightarrow> bool \<times> 'w"
  h_exec :: "spawn_request \<Rightarrow> 'w \<Rightarrow> (nat option \<times> bool \<times> native_event list) \<times> 'w"
  h_tlmgr :: "jsstring \<Rightarrow> 'w command_runner"
  h_aborted :: "'w \<Rightarrow> bool"
  h_mkdtemp :: "'w \<Rightarrow> (jsstring + jsstring) \<times> 'w"
  h_mkdir :: "jsstring \<Rightarrow> 'w \<Rightarrow> jsstring + 'w"
  h_writeFile :: "jsstring \<Rightarrow> bytes \<Rightarrow> 'w \<Rightarrow> jsstring + 'w"
  h_lstat :: "jsstring \<Rightarrow> 'w \<Rightarrow> io_error + file_info"
  h_readFile :: "jsstring \<Rightarrow> 'w \<Rightarrow> io_error + bytes"
  h_readStart :: "jsstring \<Rightarrow> nat \<Rightarrow> 'w \<Rightarrow> io_error + bytes \<times> nat"
  h_rm :: "jsstring \<Rightarrow> 'w \<Rightarrow> jsstring + 'w"
  h_gunzip :: "nat \<Rightarrow> bytes \<Rightarrow> jsstring + bytes"
  h_gzip :: "bytes \<Rightarrow> bytes"

text \<open>What is thrown: a \<open>NativeProcessError\<close>, a \<open>CompileOutputError\<close>, or an \<open>Error\<close> with its message.\<close>

datatype thrown = NativeThrown native_code | OutputThrown string string | ErrorThrown jsstring

type_synonym ('a, 'w) compile_act = "('a, thrown, 'w) act"

definition reading :: "('w \<Rightarrow> 'f + 'a) \<Rightarrow> ('f \<Rightarrow> thrown) \<Rightarrow> ('a, 'w) compile_act" where
  "reading op err w = (case op w of Inl f \<Rightarrow> (Throw (err f), w) | Inr x \<Rightarrow> (Value x, w))"

section \<open>Running LaTeX\<close>

definition mkdir_or_message :: "'w host \<Rightarrow> jsstring \<Rightarrow> 'w \<Rightarrow> jsstring option \<times> 'w" where
  "mkdir_or_message h p w = (case h_mkdir h p w of Inl m \<Rightarrow> (Some m, w) | Inr w1 \<Rightarrow> (None, w1))"

definition run_native ::
  "'w host \<Rightarrow> jsstring \<Rightarrow> jsstring list \<Rightarrow> jsstring \<Rightarrow> jsstring \<Rightarrow> (NativeProcessResult, 'w) compile_act"
where
  "run_native h command args cwd sandboxRoot w =
     (case runNativeProcess (mkdir_or_message h) (h_exec h) (h_win h) (h_env h w) command args cwd (Some sandboxRoot) w of
        (Some (NativeResult r), w1) \<Rightarrow> (Value r, w1)
      | (Some (NativeError code), w1) \<Rightarrow> (Throw (NativeThrown code), w1)
      | (Some (SpawnFailed m), w1) \<Rightarrow> (Throw (ErrorThrown m), w1)
      | (None, w1) \<Rightarrow> (Unsettled, w1))"

record execution_location =
  workingDirectory :: jsstring
  mainFileArgument :: jsstring
  outputDirectoryArgument :: jsstring

definition latexProjectExecutionLocation :: "'w host \<Rightarrow> jsstring \<Rightarrow> jsstring \<Rightarrow> execution_location" where
  "latexProjectExecutionLocation h workspace mainFilePath =
     \<lparr>workingDirectory = posix_resolve (h_cwd h) [workspace, posix_dirname mainFilePath],
      mainFileArgument = posix_basename mainFilePath,
      outputDirectoryArgument = js ''-output-directory=.''\<rparr>"

definition common_arguments :: "execution_location \<Rightarrow> jsstring list" where
  "common_arguments location =
     [js ''-synctex=1'', js ''-no-shell-escape'', js ''-interaction=nonstopmode'', js ''-halt-on-error'',
      js ''-file-line-error'', outputDirectoryArgument location, mainFileArgument location]"

definition pass_header :: "nat \<Rightarrow> jsstring" where
  "pass_header pass = js ''--- pdflatex pass '' @ nat_dec pass @ js '' ---'' @ [10]"

fun pdflatex_passes ::
  "'w host \<Rightarrow> jsstring \<Rightarrow> execution_location \<Rightarrow> nat list \<Rightarrow> NativeProcessResult \<Rightarrow>
   (NativeProcessResult, 'w) compile_act"
where
  "pdflatex_passes h workspace location [] result = give result"
| "pdflatex_passes h workspace location (pass # passes) result =
     and_then (\<lambda>w. run_native h (nativeTool (h_env h w) Pdflatex) (common_arguments location)
                     (workingDirectory location) workspace w)
       (\<lambda>r. let result = r\<lparr>nr_stdout := pass_header pass @ nr_stdout r\<rparr>
            in if nr_exitCode result \<noteq> Some 0 then give result
               else pdflatex_passes h workspace location passes result)"

definition runLatexProjectOnce ::
  "'w host \<Rightarrow> jsstring \<Rightarrow> jsstring \<Rightarrow> bool \<Rightarrow> (NativeProcessResult, 'w) compile_act"
where
  "runLatexProjectOnce h workspace mainFilePath forceRebuild =
     (let location = latexProjectExecutionLocation h workspace mainFilePath
      in (\<lambda>w. case h_available h (nativeTool (h_env h w) Latexmk) w of (latexmk, w1) \<Rightarrow>
           if latexmk
           then run_native h (nativeTool (h_env h w1) Latexmk)
                  ([js ''-norc'', js ''-pdf''] @ (if forceRebuild then [js ''-g''] else []) @ common_arguments location)
                  (workingDirectory location) workspace w1
           else pdflatex_passes h workspace location [1, 2, 3]
                  \<lparr>nr_exitCode = Some 0, nr_signal = None, nr_stdout = [], nr_stderr = []\<rparr> w1))"

definition resolve_failure :: "'w host \<Rightarrow> NativeProcessResult \<Rightarrow> (TexPackageResolution, 'w) compile_act" where
  "resolve_failure h result w =
     (case activeTexPackageManager (h_env h w) (h_managers h w) of
        (Inl e, sm) \<Rightarrow> (Throw (ErrorThrown (js ''TYPR_COMPANION_TEX_AUTO_INSTALL must be unset, 0, or 1.'')), w)
      | (Inr m, sm) \<Rightarrow>
          (case resolveCompilerFailure (h_tlmgr h (mg_command m)) (h_aborted h) (mg_enabled m)
                  (nr_stdout result @ [10] @ nr_stderr result) (h_set_managers h sm w) of
             (resolution, w1) \<Rightarrow> (Value resolution, w1)))"

definition comma_list :: "jsstring list \<Rightarrow> jsstring" where
  "comma_list xs = join_with (js '', '') xs"

definition failure_note :: "TexPackageResolution \<Rightarrow> jsstring list" where
  "failure_note resolution =
     (case tr_diagnostic resolution of
        Some d \<Rightarrow> if tr_files resolution \<noteq> [] \<and> d \<noteq> []
                  then [js ''[typr] Could not install package for '' @ comma_list (tr_files resolution) @ js '': '' @ d]
                  else []
      | None \<Rightarrow> [])"

definition success_note :: "TexPackageResolution \<Rightarrow> jsstring" where
  "success_note resolution =
     js ''[typr] Installed '' @ comma_list (tr_packages resolution) @ js '' for '' @
     comma_list (tr_files resolution) @ js ''; retrying compilation.''"

fun resolution_rounds ::
  "'w host \<Rightarrow> jsstring \<Rightarrow> jsstring \<Rightarrow> nat \<Rightarrow> NativeProcessResult \<Rightarrow> jsstring list \<Rightarrow>
   (NativeProcessResult \<times> jsstring list, 'w) compile_act"
where
  "resolution_rounds h workspace mainFilePath 0 result notes = give (result, notes)"
| "resolution_rounds h workspace mainFilePath (Suc left) result notes =
     (if nr_exitCode result = Some 0 then give (result, notes)
      else and_then (resolve_failure h result)
        (\<lambda>resolution.
           if \<not> tr_installed resolution then give (result, notes @ failure_note resolution)
           else and_then (runLatexProjectOnce h workspace mainFilePath True)
             (\<lambda>result'. resolution_rounds h workspace mainFilePath left result' (notes @ [success_note resolution]))))"

definition runLatexProject :: "'w host \<Rightarrow> jsstring \<Rightarrow> jsstring \<Rightarrow> (NativeProcessResult, 'w) compile_act" where
  "runLatexProject h workspace mainFilePath =
     and_then (runLatexProjectOnce h workspace mainFilePath False)
       (\<lambda>result. and_then (resolution_rounds h workspace mainFilePath MAX_PACKAGE_RESOLUTION_ROUNDS result [])
         (\<lambda>(result, notes).
            give (if notes \<noteq> []
                  then result\<lparr>nr_stderr := join_with [10] notes @ [10] @ nr_stderr result\<rparr>
                  else result)))"

section \<open>Reading the output\<close>

definition replaceExtension :: "jsstring \<Rightarrow> string \<Rightarrow> jsstring" where
  "replaceExtension filePath extension =
     (let base = posix_basename filePath; stem = take (length base - length (posix_extname filePath)) base
      in posix_join [posix_dirname filePath, stem @ js extension])"

definition project_path :: "'w host \<Rightarrow> jsstring \<Rightarrow> jsstring \<Rightarrow> (jsstring, 'w) compile_act" where
  "project_path h workspace p =
     (case resolveProjectPath (h_cwd h) workspace p of
        Inl _ \<Rightarrow> raise (ErrorThrown (js ''Project path resolves outside the temporary project directory.''))
      | Inr destination \<Rightarrow> give destination)"

definition readTextCapped :: "'w host \<Rightarrow> jsstring \<Rightarrow> nat \<Rightarrow> (jsstring, 'w) compile_act" where
  "readTextCapped h path maxBytes =
     and_then (reading (h_readStart h path maxBytes) (\<lambda>e. ErrorThrown (io_message e)))
       (\<lambda>(start, size). give (utf8_decode (take maxBytes start) @
          (if size > maxBytes then 10 # js ''[log truncated at 1 MiB]'' else [])))"

definition collectCompileLog ::
  "'w host \<Rightarrow> jsstring \<Rightarrow> jsstring \<Rightarrow> NativeProcessResult \<Rightarrow> (jsstring, 'w) compile_act"
where
  "collectCompileLog h workspace mainFilePath nativeResult =
     and_then (project_path h workspace mainFilePath)
       (\<lambda>path. and_then (catching (readTextCapped h (replaceExtension path ''.log'') MAX_LOG_BYTES) (\<lambda>_. give []))
         (\<lambda>compilerLog. give (join_with [10] (filter (\<lambda>s. s \<noteq> [])
            [nr_stdout nativeResult, nr_stderr nativeResult, compilerLog]))))"

text \<open>\<open>findOutputPdf\<close> and \<open>findOutputSynctex\<close> differ in the extension, the limit and the messages.\<close>

definition find_output ::
  "string \<Rightarrow> nat \<Rightarrow> string \<Rightarrow> string \<Rightarrow> 'w host \<Rightarrow> jsstring \<Rightarrow> jsstring \<Rightarrow> (jsstring option, 'w) compile_act"
where
  "find_output extension limit invalid too_large h workspace mainFilePath =
     and_then (project_path h workspace mainFilePath)
       (\<lambda>path. let expected = replaceExtension path extension
               in (\<lambda>w. case h_lstat h expected w of
                        Inl (ENOENT _) \<Rightarrow> (Value None, w)
                      | Inl (OtherIo m) \<Rightarrow> (Throw (ErrorThrown m), w)
                      | Inr info \<Rightarrow>
                          if fi_kind info \<noteq> RegularFile
                          then (Throw (OutputThrown ''compiler-output-invalid'' invalid), w)
                          else if fi_size info > limit
                          then (Throw (OutputThrown ''compiler-output-too-large'' too_large), w)
                          else (Value (Some expected), w)))"

definition findOutputPdf :: "'w host \<Rightarrow> jsstring \<Rightarrow> jsstring \<Rightarrow> (jsstring option, 'w) compile_act" where
  "findOutputPdf = find_output ''.pdf'' MAX_PDF_BYTES ''Compiler output is not a regular PDF file.''
     ''Compiler PDF exceeds 32 MiB.''"

definition findOutputSynctex :: "'w host \<Rightarrow> jsstring \<Rightarrow> jsstring \<Rightarrow> (jsstring option, 'w) compile_act" where
  "findOutputSynctex = find_output ''.synctex.gz'' MAX_SYNCTEX_BYTES ''Compiler SyncTeX output is not a regular file.''
     ''Compiler SyncTeX output exceeds 32 MiB.''"

definition within :: "nat \<Rightarrow> string \<Rightarrow> bytes \<Rightarrow> (bytes, 'w) compile_act" where
  "within limit too_large content =
     (if length content > limit then raise (OutputThrown ''compiler-output-too-large'' too_large) else give content)"

definition readPdf :: "'w host \<Rightarrow> jsstring \<Rightarrow> (bytes, 'w) compile_act" where
  "readPdf h path =
     and_then (reading (h_readFile h path) (\<lambda>e. ErrorThrown (io_message e)))
       (within MAX_PDF_BYTES ''Compiler PDF exceeds 32 MiB.'')"

definition input_pattern :: rx where
  "input_pattern = seqs [LineStart, lit (js ''Input:''), Group 1 (plus digit), Chars ((=) 58),
     Group 2 (plus (Chars dot_class)), LineEnd]"

text \<open>The replacement for one \<open>Input\<close> line: paths in the workspace become relative.\<close>

definition portable_input :: "jsstring \<Rightarrow> (nat \<Rightarrow> jsstring option) \<Rightarrow> jsstring" where
  "portable_input workspacePrefix caps =
     (let tag = (case caps 1 of Some t \<Rightarrow> t | None \<Rightarrow> []);
          portablePath = posix_slashes (case caps 2 of Some p \<Rightarrow> p | None \<Rightarrow> []);
          rest = drop (length workspacePrefix) portablePath
      in js ''Input:'' @ tag @ js '':'' @
         (if \<not> prefix workspacePrefix portablePath then portablePath
          else if prefix (js ''./'') rest then drop 2 rest else rest))"

definition readSynctex :: "'w host \<Rightarrow> jsstring \<Rightarrow> jsstring \<Rightarrow> (bytes, 'w) compile_act" where
  "readSynctex h path workspace =
     and_then (and_then (reading (h_readFile h path) (\<lambda>e. ErrorThrown (io_message e)))
       (within MAX_SYNCTEX_BYTES ''Compiler SyncTeX output exceeds 32 MiB.''))
       (\<lambda>content. case h_gunzip h MAX_SYNCTEX_BYTES content of
          Inl m \<Rightarrow> raise (ErrorThrown m)
        | Inr unzipped \<Rightarrow>
            let workspacePrefix = posix_slashes workspace @ js ''/'';
                normalized = replace_all input_pattern (portable_input workspacePrefix) [] (utf8_decode unzipped)
            in within MAX_SYNCTEX_BYTES ''Compiler SyncTeX output exceeds 32 MiB.'' (h_gzip h (utf8 normalized)))"

section \<open>A compilation\<close>

definition compileFailure ::
  "jsstring \<Rightarrow> string \<Rightarrow> jsstring \<Rightarrow> jsstring \<Rightarrow> int \<Rightarrow> jsstring option \<Rightarrow> int option \<Rightarrow> CompileResult"
where
  "compileFailure engine code message log elapsed path lineNumber =
     CompileFailure engine
       [\<lparr>err_code = code, err_message = message, err_path = nonempty path,
         err_line = (if lineNumber = Some 0 then None else lineNumber)\<rparr>] log elapsed"

text \<open>The messages of \<open>materializeProjectFiles\<close>.\<close>

fun path_problem_text :: "path_problem \<Rightarrow> jsstring" where
  "path_problem_text NotNonEmptyRelative = js '' must be a non-empty relative path.''"
| "path_problem_text NotSafeRelativePosix = js '' must be a safe relative POSIX path.''"
| "path_problem_text ParentTraversal = js '' must not contain parent-directory traversal.''"
| "path_problem_text WindowsUnsafeName = js '' contains a file name that Windows cannot store safely.''"

fun materialize_text :: "jsstring materialize_error \<Rightarrow> jsstring" where
  "materialize_text (InvalidPath (label, problem)) = js ''project file path'' @ path_problem_text problem"
| "materialize_text Outside = js ''Project path resolves outside the temporary project directory.''"
| "materialize_text (IoError m) = m"

definition materialize :: "'w host \<Rightarrow> jsstring \<Rightarrow> ProjectFile list \<Rightarrow> (unit, 'w) compile_act" where
  "materialize h workspace files w =
     (case materializeProjectFiles (h_mkdir h) (h_writeFile h) (h_win h) (h_cwd h) workspace files w of
        (w1, None) \<Rightarrow> (Value (), w1)
      | (w1, Some e) \<Rightarrow> (Throw (ErrorThrown (materialize_text e)), w1))"

definition output_of :: "'w host \<Rightarrow> jsstring \<Rightarrow> jsstring \<Rightarrow> bytes \<Rightarrow> CompileOutput" where
  "output_of h workspace path content =
     \<lparr>out_path = posix_slashes (posix_relative (h_cwd h) workspace path), out_content = base64_encode content\<rparr>"

definition compile_succeeded ::
  "'w host \<Rightarrow> int \<Rightarrow> CompileRequest \<Rightarrow> jsstring \<Rightarrow> jsstring \<Rightarrow> jsstring \<Rightarrow> (CompileResult, 'w) compile_act"
where
  "compile_succeeded h elapsed request workspace log pdfPath =
     and_then (findOutputSynctex h workspace (req_mainFilePath request))
       (\<lambda>synctexPath. and_then (readPdf h pdfPath)
         (\<lambda>pdf. and_then
            (case synctexPath of
               None \<Rightarrow> give None
             | Some p \<Rightarrow> and_then (readSynctex h p workspace) (\<lambda>c. give (Some (output_of h workspace p c))))
            (\<lambda>synctex. give (CompileSuccess (req_engine request) (output_of h workspace pdfPath pdf) synctex log elapsed))))"

definition compile_in :: "'w host \<Rightarrow> int \<Rightarrow> CompileRequest \<Rightarrow> jsstring \<Rightarrow> (CompileResult, 'w) compile_act" where
  "compile_in h elapsed request workspace =
     and_then (materialize h workspace (req_files request))
       (\<lambda>_. and_then (runLatexProject h workspace (req_mainFilePath request))
       (\<lambda>nativeResult. and_then (collectCompileLog h workspace (req_mainFilePath request) nativeResult)
       (\<lambda>log. and_then (findOutputPdf h workspace (req_mainFilePath request))
       (\<lambda>pdfPath.
          case pdfPath of
            Some pdf \<Rightarrow>
              if nr_exitCode nativeResult = Some 0 then compile_succeeded h elapsed request workspace log pdf
              else let latexError = extractLatexError log
                   in give (compileFailure (req_engine request) ''latex-compile-failed'' (le_message latexError) log elapsed
                        (Some (case le_path latexError of Some p \<Rightarrow> p | None \<Rightarrow> req_mainFilePath request)) (le_line latexError))
          | None \<Rightarrow>
              let latexError = extractLatexError log
              in give (compileFailure (req_engine request) ''latex-compile-failed'' (le_message latexError) log elapsed
                   (Some (case le_path latexError of Some p \<Rightarrow> p | None \<Rightarrow> req_mainFilePath request)) (le_line latexError))))))"

fun native_code_text :: "native_code \<Rightarrow> string \<times> string" where
  "native_code_text CompileTimeout = (''compile-timeout'', ''Native compilation exceeded its deadline.'')"
| "native_code_text CompilerOutputLimit = (''compiler-output-limit'', ''Native compiler output exceeded 1 MiB.'')"

fun compile_caught :: "jsstring \<Rightarrow> int \<Rightarrow> thrown \<Rightarrow> CompileResult" where
  "compile_caught engine elapsed (NativeThrown code) =
     compileFailure engine (fst (native_code_text code)) (js (snd (native_code_text code))) [] elapsed None None"
| "compile_caught engine elapsed (OutputThrown code message) =
     compileFailure engine code (js message) [] elapsed None None"
| "compile_caught engine elapsed (ErrorThrown message) =
     compileFailure engine ''native-compiler-error'' message [] elapsed None None"

definition removing :: "'w host \<Rightarrow> jsstring \<Rightarrow> (unit, 'w) compile_act" where
  "removing h workspace = attempt (h_rm h workspace) ErrorThrown"

definition compileProject :: "'w host \<Rightarrow> int \<Rightarrow> CompileRequest \<Rightarrow> (CompileResult, 'w) compile_act" where
  "compileProject h elapsed request w =
     (case h_pdflatex h w of (available, w1) \<Rightarrow>
        if \<not> available
        then (Value (compileFailure (req_engine request) ''native-compiler-unavailable''
                (js ''pdflatex is not available on this host. Install a native TeX distribution and try again.'')
                [] elapsed None None), w1)
        else (case h_mkdtemp h w1 of
                (Inl m, w2) \<Rightarrow> (Throw (ErrorThrown m), w2)
              | (Inr workspace, w2) \<Rightarrow>
                  finally_do
                    (catching (compile_in h elapsed request workspace)
                       (\<lambda>e. give (compile_caught (req_engine request) elapsed e)))
                    (removing h workspace) w2))"

section \<open>Lemmas\<close>

text \<open>
  The operations a compilation may perform on the host while its directory is \<open>ws\<close>, and sequences of
  them; the number counts the child processes.
\<close>

definition confined_run :: "jsstring \<Rightarrow> spawn_request \<Rightarrow> bool" where
  "confined_run ws req \<longleftrightarrow> inside ws (sp_cwd req) \<and> js ''-no-shell-escape'' \<in> set (sp_args req) \<and>
     map_of (sp_env req) ''shell_escape'' = Some (js ''f'') \<and>
     map_of (sp_env req) ''openin_any'' = Some (js ''p'') \<and> map_of (sp_env req) ''openout_any'' = Some (js ''p'')"

inductive host_op :: "'w host \<Rightarrow> jsstring \<Rightarrow> nat \<Rightarrow> 'w \<Rightarrow> 'w \<Rightarrow> bool" for h ws where
  op_probe: "h_available h command w = (b, w1) \<Longrightarrow> host_op h ws 0 w w1"
| op_managers: "host_op h ws 0 w (h_set_managers h sm w)"
| op_mkdir: "inside ws p \<or> inside p ws \<Longrightarrow> h_mkdir h p w = Inr w1 \<Longrightarrow> host_op h ws 0 w w1"
| op_write: "inside ws p \<Longrightarrow> h_writeFile h p bs w = Inr w1 \<Longrightarrow> host_op h ws 0 w w1"
| op_run: "confined_run ws req \<Longrightarrow> h_exec h req w = (x, w1) \<Longrightarrow> host_op h ws 1 w w1"
| op_tlmgr: "allowed_command args \<Longrightarrow> h_tlmgr h command args w = (r, w1) \<Longrightarrow> host_op h ws 0 w w1"

inductive host_steps :: "'w host \<Rightarrow> jsstring \<Rightarrow> nat \<Rightarrow> 'w \<Rightarrow> 'w \<Rightarrow> bool" for h ws where
  no_step: "host_steps h ws 0 w w"
| more_steps: "host_steps h ws n w w1 \<Longrightarrow> host_op h ws m w1 w2 \<Longrightarrow> host_steps h ws (n + m) w w2"

lemma host_steps_trans: "host_steps h ws m w1 w2 \<Longrightarrow> host_steps h ws n w w1 \<Longrightarrow> host_steps h ws (n + m) w w2"
  by (induction rule: host_steps.induct) (auto simp: add.assoc [symmetric] intro: more_steps)

lemma host_steps_op: "host_op h ws m w w1 \<Longrightarrow> host_steps h ws m w w1"
  using more_steps [OF no_step] by fastforce

lemma more_steps_0: "host_steps h ws n w w1 \<Longrightarrow> host_op h ws 0 w1 w2 \<Longrightarrow> host_steps h ws n w w2"
  using more_steps [of h ws n w w1 0 w2] by simp

definition spends :: "'w host \<Rightarrow> jsstring \<Rightarrow> nat \<Rightarrow> ('a, 'e, 'w) act \<Rightarrow> bool" where
  "spends h ws k m \<longleftrightarrow> (\<forall>w. \<exists>n\<le>k. host_steps h ws n w (snd (m w)))"

named_theorems spends_intros \<open>the child processes an action runs, by its structure\<close>

lemma spends_give [spends_intros]: "spends h ws 0 (give x)" and spends_raise [spends_intros]: "spends h ws 0 (raise e)"
  by (auto simp: spends_def act_simps intro: no_step)

lemma spends_mono: "spends h ws k m \<Longrightarrow> k \<le> k' \<Longrightarrow> spends h ws k' m"
  by (meson order_trans spends_def)

lemma spendsI: "(\<And>w. \<exists>n\<le>k. host_steps h ws n w (snd (m w))) \<Longrightarrow> spends h ws k m"
  by (simp add: spends_def)

lemma spendsE:
  assumes "spends h ws k m" "m w = (r, w1)"
  obtains n where "n \<le> k" "host_steps h ws n w w1"
  using assms by (metis spends_def snd_conv)

lemma spends_then:
  assumes "spends h ws j m" "\<And>x. spends h ws k (f x)"
  shows "spends h ws (j + k) (and_then m f)"
proof (rule spendsI)
  fix w
  show "\<exists>n\<le>j + k. host_steps h ws n w (snd (and_then m f w))"
  proof (cases rule: and_then_cases [where m = m and w = w and f = f])
    case (val x w1)
    from spendsE [OF assms(1) val(1)] obtain n where n: "n \<le> j" "host_steps h ws n w w1" .
    obtain n' where "n' \<le> k" "host_steps h ws n' w1 (snd (f x w1))"
      using spendsE [OF assms(2) prod.collapse [symmetric]] .
    with n show ?thesis unfolding val(2) by (intro exI [of _ "n + n'"]) (auto intro: host_steps_trans)
  next
    case (thrown e w1)
    from spendsE [OF assms(1) thrown(1)] show ?thesis unfolding thrown(2) by (metis snd_conv trans_le_add1)
  next
    case (pending w1)
    from spendsE [OF assms(1) pending(1)] show ?thesis unfolding pending(2) by (metis snd_conv trans_le_add1)
  qed
qed

lemma spends_then_0 [spends_intros]:
  "spends h ws 0 m \<Longrightarrow> (\<And>x. spends h ws k (f x)) \<Longrightarrow> spends h ws k (and_then m f)"
  using spends_then [of h ws 0 m k f] by simp

lemma spends_catching [spends_intros]:
  assumes "spends h ws k m" "\<And>e. spends h ws 0 (g e)"
  shows "spends h ws k (catching m g)"
proof (rule spendsI)
  fix w
  show "\<exists>n\<le>k. host_steps h ws n w (snd (catching m g w))"
  proof (cases rule: catching_cases [where m = m and w = w and g = g])
    case (thrown e w1)
    from spendsE [OF assms(1) thrown(1)] obtain n where n: "n \<le> k" "host_steps h ws n w w1" .
    obtain n' where "n' \<le> 0" "host_steps h ws n' w1 (snd (g e w1))"
      using spendsE [OF assms(2) prod.collapse [symmetric]] .
    with n show ?thesis unfolding thrown(2) by (intro exI [of _ n]) (auto dest: host_steps_trans)
  qed (use spendsE [OF assms(1)] in \<open>metis snd_conv\<close>)+
qed

lemma spends_reading [spends_intros]: "spends h ws 0 (reading op err)"
  by (auto simp: spends_def reading_def intro: no_step split: sum.split)

lemma spawn_confined:
  assumes "inside ws cwd" "js ''-no-shell-escape'' \<in> set args"
  shows "confined_run ws (spawnSandboxed win penv command args cwd (compiler_variables win penv cwd) root)"
  using assms by (auto simp: confined_run_def spawnSandboxed_def Let_def compiler_variables_locked)

lemma private_dirs_inside:
  assumes "list_all good_seg (ss @ rs)"
  shows "p \<in> {posix_join [abs_path (ss @ rs), js ''.typr-home''], posix_join [abs_path (ss @ rs), js ''.typr-texmf''],
      posix_join [abs_path (ss @ rs), js ''.typr-cache'']} \<Longrightarrow> inside (abs_path ss) p"
  using assms inside_under [of ss "rs @ [x]" for x] by (auto simp: posix_join_under good_names)

lemma spends_run_native:
  assumes good: "list_all good_seg (ss @ rs)" and args: "js ''-no-shell-escape'' \<in> set args"
  shows "spends h (abs_path ss) 1 (run_native h command args (abs_path (ss @ rs)) (abs_path ss))"
proof (rule spendsI)
  fix w
  let ?ws = "abs_path ss" let ?cwd = "abs_path (ss @ rs)"
  let ?run = "runNativeProcess (mkdir_or_message h) (h_exec h) (h_win h) (h_env h w) command args ?cwd (Some ?ws) w"
  have "\<exists>n\<le>1. host_steps h ?ws n w (snd ?run)"
  proof (rule runNativeProcess_keeps [where P = "\<lambda>v. host_steps h ?ws 0 w v"])
    fix p v err v1
    assume "p \<in> {posix_join [?cwd, js ''.typr-home''], posix_join [?cwd, js ''.typr-texmf''],
        posix_join [?cwd, js ''.typr-cache'']}" "host_steps h ?ws 0 w v" "mkdir_or_message h p v = (err, v1)"
    with private_dirs_inside [OF good] show "host_steps h ?ws 0 w v1"
      by (auto simp: mkdir_or_message_def split: sum.splits intro: more_steps_0 op_mkdir)
  next
    fix v x v1
    assume v: "host_steps h ?ws 0 w v"
      and x: "h_exec h (spawnSandboxed (h_win h) (h_env h w) command args ?cwd
        (compiler_variables (h_win h) (h_env h w) ?cwd) (case Some ?ws of Some r \<Rightarrow> r | None \<Rightarrow> ?cwd)) v = (x, v1)"
    have "inside ?ws ?cwd" by (rule inside_under [OF good])
    from more_steps [OF v op_run [OF spawn_confined [OF this args] x]]
    show "\<exists>n\<le>1. host_steps h ?ws n w v1" by auto
  qed (auto intro: no_step)
  moreover have "snd (run_native h command args ?cwd ?ws w) = snd ?run"
    by (auto simp: run_native_def split: prod.splits option.splits native_outcome.splits)
  ultimately show "\<exists>n\<le>1. host_steps h ?ws n w (snd (run_native h command args ?cwd ?ws w))" by simp
qed

lemma spends_run_tool:
  assumes "list_all good_seg (ss @ rs)" "js ''-no-shell-escape'' \<in> set args"
  shows "spends h (abs_path ss) 1
    (\<lambda>w. run_native h (nativeTool (h_env h w) tool) args (abs_path (ss @ rs)) (abs_path ss) w)"
proof (rule spendsI)
  fix w
  show "\<exists>n\<le>1. host_steps h (abs_path ss) n w
    (snd (run_native h (nativeTool (h_env h w) tool) args (abs_path (ss @ rs)) (abs_path ss) w))"
    using spends_run_native [OF assms, of h "nativeTool (h_env h w) tool"] unfolding spends_def by (rule spec)
qed

lemma location_args: "js ''-no-shell-escape'' \<in> set (common_arguments location)"
  by (simp add: common_arguments_def)

lemma spends_passes:
  assumes "list_all good_seg (ss @ rs)" "workingDirectory location = abs_path (ss @ rs)"
  shows "spends h (abs_path ss) (length passes) (pdflatex_passes h (abs_path ss) location passes result)"
proof (induction passes arbitrary: result)
  case Nil
  show ?case by (simp add: spends_give)
next
  case (Cons pass passes)
  have rest: "spends h (abs_path ss) (length passes)
     (let result = r\<lparr>nr_stdout := pass_header pass @ nr_stdout r\<rparr>
      in if nr_exitCode result \<noteq> Some 0 then give result
         else pdflatex_passes h (abs_path ss) location passes result)" for r
    using Cons.IH by (auto simp: Let_def intro: spends_mono [OF spends_give])
  have "spends h (abs_path ss) 1 (\<lambda>w. run_native h (nativeTool (h_env h w) Pdflatex) (common_arguments location)
      (workingDirectory location) (abs_path ss) w)"
    unfolding assms(2) by (rule spends_run_tool [OF assms(1) location_args])
  from spends_then [OF this rest] show ?case by simp
qed

lemma dirname_relative:
  assumes "\<not> posix_isAbsolute p" "js ''..'' \<notin> set (split_on 47 p)"
  shows "js ''..'' \<notin> set (split_on 47 (posix_dirname p))" "posix_dirname p \<noteq> []" "\<not> posix_isAbsolute (posix_dirname p)"
proof -
  have "js ''..'' \<notin> set (split_on 47 (posix_dirname p)) \<and> posix_dirname p \<noteq> [] \<and> \<not> posix_isAbsolute (posix_dirname p)"
  proof (cases "butlast (segments p)")
    case Nil
    with assms(1) show ?thesis by (simp add: posix_dirname_def) (simp add: js_def posix_isAbsolute_iff)
  next
    case (Cons a as)
    have plain: "s \<noteq> [] \<and> 47 \<notin> set s \<and> s \<noteq> js ''..''" if "s \<in> set (a # as)" for s
    proof -
      from that have "s \<in> set (segments p)" unfolding Cons [symmetric] by (rule in_set_butlastD)
      with assms(2) show ?thesis by (auto simp: segments_def dest: split_on_no_sep)
    qed
    then have "split_on 47 (join_with [47] (a # as)) = a # as" by (intro split_join_with) auto
    moreover have "posix_dirname p = join_with [47] (a # as)" using assms(1) Cons by (simp add: posix_dirname_def)
    moreover obtain c a' where "a = c # a'" "c \<noteq> 47" using plain [of a] by (cases a) auto
    moreover from this have "\<exists>r. join_with [47] (a # as) = c # r" by (cases as) auto
    ultimately show ?thesis using plain by (auto simp: posix_isAbsolute_iff)
  qed
  then show "js ''..'' \<notin> set (split_on 47 (posix_dirname p))" "posix_dirname p \<noteq> []"
    "\<not> posix_isAbsolute (posix_dirname p)" by blast+
qed

text \<open>The directory the main file's part of the path names, below the project directory.\<close>

lemma working_directory:
  assumes "posix_isAbsolute (h_cwd h)" "list_all good_seg ss" "safe_project_path win mainFilePath"
  obtains rs where "list_all good_seg (ss @ rs)"
    "workingDirectory (latexProjectExecutionLocation h (abs_path ss) mainFilePath) = abs_path (ss @ rs)"
proof -
  from assms(3) have v: "mainFilePath \<noteq> []" "\<not> posix_isAbsolute mainFilePath" "js ''..'' \<notin> set (split_on 47 mainFilePath)"
    unfolding safe_project_path_def by (rule validated)+
  let ?d = "posix_dirname mainFilePath"
  have "js ''..'' \<notin> set (split_on 47 ?d)" "?d \<noteq> []" "\<not> posix_isAbsolute ?d"
    by (rule dirname_relative [OF v(2,3)])+
  then have "posix_resolve (h_cwd h) [abs_path ss, ?d] = abs_path (ss @ kept ?d)" "list_all good_seg (kept ?d)"
    by (simp_all add: posix_resolve_under assms(2) kept_join)
  with assms(2) that [of "kept ?d"] show thesis by (simp add: latexProjectExecutionLocation_def)
qed

lemma spends_once:
  assumes "posix_isAbsolute (h_cwd h)" "list_all good_seg ss" "safe_project_path win mainFilePath"
  shows "spends h (abs_path ss) 3 (runLatexProjectOnce h (abs_path ss) mainFilePath force)"
proof (rule spendsI)
  fix w
  let ?location = "latexProjectExecutionLocation h (abs_path ss) mainFilePath"
  obtain rs where rs: "list_all good_seg (ss @ rs)" "workingDirectory ?location = abs_path (ss @ rs)"
    using assms by (rule working_directory)
  obtain b w1 where p: "h_available h (nativeTool (h_env h w) Latexmk) w = (b, w1)"
    by (cases "h_available h (nativeTool (h_env h w) Latexmk) w")
  have one: "host_steps h (abs_path ss) 0 w w1" by (rule host_steps_op [OF op_probe [OF p]])
  have "spends h (abs_path ss) 3 (\<lambda>w1. if b
     then run_native h (nativeTool (h_env h w1) Latexmk)
       ([js ''-norc'', js ''-pdf''] @ (if force then [js ''-g''] else []) @ common_arguments ?location)
       (workingDirectory ?location) (abs_path ss) w1
     else pdflatex_passes h (abs_path ss) ?location [1, 2, 3]
       \<lparr>nr_exitCode = Some 0, nr_signal = None, nr_stdout = [], nr_stderr = []\<rparr> w1)"
  proof (cases b)
    case True
    let ?args = "[js ''-norc'', js ''-pdf''] @ (if force then [js ''-g''] else []) @ common_arguments ?location"
    have args: "js ''-no-shell-escape'' \<in> set ?args" using location_args by simp
    have "spends h (abs_path ss) 3
      (\<lambda>v. run_native h (nativeTool (h_env h v) Latexmk) ?args (abs_path (ss @ rs)) (abs_path ss) v)"
      by (rule spends_mono [OF spends_run_tool [OF rs(1) args]]) simp
    with True show ?thesis unfolding rs(2) by (simp del: append.simps)
  next
    case False
    with spends_passes [OF rs, of h "[1, 2, 3]"] show ?thesis
      by (simp add: numeral_3_eq_3 del: pdflatex_passes.simps)
  qed
  then obtain n where "n \<le> 3" "host_steps h (abs_path ss) n w1 (snd (runLatexProjectOnce h (abs_path ss) mainFilePath force w))"
    unfolding spends_def by (auto simp: runLatexProjectOnce_def Let_def p)
  with host_steps_trans [OF this(2) one]
  show "\<exists>n\<le>3. host_steps h (abs_path ss) n w (snd (runLatexProjectOnce h (abs_path ss) mainFilePath force w))" by auto
qed

lemma spends_resolve: "spends h ws 0 (resolve_failure h result)"
proof (rule spendsI)
  fix w
  have "host_steps h ws 0 w (snd (resolveCompilerFailure (h_tlmgr h command) aborted enabled log (h_set_managers h sm w)))"
    for command aborted enabled log sm
    by (rule resolve_keeps)
       (auto intro: more_steps_0 op_tlmgr host_steps_op op_managers)
  then show "\<exists>n\<le>0. host_steps h ws n w (snd (resolve_failure h result w))"
    by (auto simp: resolve_failure_def intro: no_step split: prod.splits sum.splits) (metis snd_conv)+
qed

lemma spends_rounds:
  assumes "posix_isAbsolute (h_cwd h)" "list_all good_seg ss" "safe_project_path win mainFilePath"
  shows "spends h (abs_path ss) (3 * left) (resolution_rounds h (abs_path ss) mainFilePath left result ns)"
proof (induction left arbitrary: result ns)
  case 0
  show ?case by (simp add: spends_give)
next
  case (Suc left)
  have again: "spends h (abs_path ss) (3 * Suc left)
    (if \<not> tr_installed resolution then give (result, ns @ failure_note resolution)
     else and_then (runLatexProjectOnce h (abs_path ss) mainFilePath True)
       (\<lambda>result'. resolution_rounds h (abs_path ss) mainFilePath left result' (ns @ [success_note resolution])))"
    for resolution
    using spends_then [OF spends_once [OF assms] Suc.IH] by (auto intro: spends_mono [OF spends_give])
  show ?case
  proof (cases "nr_exitCode result = Some 0")
    case True
    then show ?thesis by (auto intro: spends_mono [OF spends_give])
  next
    case False
    with spends_then_0 [OF spends_resolve again] show ?thesis by simp
  qed
qed

lemma spends_latex:
  assumes "posix_isAbsolute (h_cwd h)" "list_all good_seg ss" "safe_project_path win mainFilePath"
  shows "spends h (abs_path ss) 12 (runLatexProject h (abs_path ss) mainFilePath)"
proof -
  have "spends h (abs_path ss) (3 * MAX_PACKAGE_RESOLUTION_ROUNDS + 0)
    (and_then (resolution_rounds h (abs_path ss) mainFilePath MAX_PACKAGE_RESOLUTION_ROUNDS result [])
       (\<lambda>(result, notes). give (if notes \<noteq> []
          then result\<lparr>nr_stderr := join_with [10] notes @ [10] @ nr_stderr result\<rparr> else result)))" for result
    by (intro spends_then spends_rounds [OF assms]) (auto intro: spends_give)
  from spends_then [OF spends_once [OF assms] this] show ?thesis
    by (simp add: runLatexProject_def MAX_PACKAGE_RESOLUTION_ROUNDS_def)
qed

lemma spends_project_path [spends_intros]: "spends h ws 0 (project_path h' workspace p)"
  by (simp add: project_path_def spends_intros split: sum.split)

lemma spends_within [spends_intros]: "spends h ws 0 (within limit too_large content)"
  by (simp add: within_def spends_intros)

lemma spends_log [spends_intros]: "spends h ws 0 (collectCompileLog h' workspace p r)"
  unfolding collectCompileLog_def readTextCapped_def
  by (intro spends_intros) (auto intro: spends_intros split: prod.split)

lemma spends_find [spends_intros]: "spends h ws 0 (find_output extension limit invalid too_large h' workspace p)"
  unfolding find_output_def
  by (intro spends_intros) (auto simp: spends_def Let_def intro: no_step split: sum.split io_error.split)

lemma spends_succeeded: "spends h ws 0 (compile_succeeded h' elapsed request workspace log pdf)"
  unfolding compile_succeeded_def findOutputSynctex_def readPdf_def readSynctex_def
  by (intro spends_intros) (auto simp: Let_def intro!: spends_intros split: option.split sum.split)

lemma spends_materialize:
  assumes "posix_isAbsolute (h_cwd h)" "list_all good_seg ss"
  shows "spends h (abs_path ss) 0 (materialize h (abs_path ss) files)"
proof (rule spendsI)
  fix w
  have root: "posix_resolve (h_cwd h) [abs_path ss] = abs_path ss" by (rule posix_resolve_abs_path [OF assms(2)])
  have "host_steps h (abs_path ss) 0 w
    (fst (materializeProjectFiles (h_mkdir h) (h_writeFile h) (h_win h) (h_cwd h) (abs_path ss) files w))"
    by (rule materialize_keeps [OF assms(1)])
       (auto simp: root intro: no_step more_steps_0 op_mkdir op_write)
  then show "\<exists>n\<le>0. host_steps h (abs_path ss) n w (snd (materialize h (abs_path ss) files w))"
    by (auto simp: materialize_def split: prod.splits option.splits)
qed

lemma spends_then_tail: "spends h ws k m \<Longrightarrow> (\<And>x. spends h ws 0 (f x)) \<Longrightarrow> spends h ws k (and_then m f)"
  using spends_then [of h ws k m 0 f] by simp

lemma spends_compile_in:
  assumes "posix_isAbsolute (h_cwd h)" "list_all good_seg ss" "safe_project_path win (req_mainFilePath request)"
  shows "spends h (abs_path ss) 12 (compile_in h elapsed request (abs_path ss))"
  unfolding compile_in_def findOutputPdf_def
  by (rule spends_then_0 [OF spends_materialize [OF assms(1,2)]], rule spends_then_tail [OF spends_latex [OF assms]])
     (intro spends_then_0 spends_log spends_find,
      auto simp: Let_def intro!: spends_intros spends_succeeded split: option.split)

lemma settles_reading [act_intros]: "settles (reading op err)"
  by (auto simp: settles_def reading_def split: sum.split)

lemma settles_project_path [act_intros]: "settles (project_path h workspace p)"
  by (simp add: project_path_def act_intros split: sum.split)

lemma settles_within [act_intros]: "settles (within limit too_large content)"
  by (simp add: within_def act_intros)

lemma settles_log [act_intros]: "settles (collectCompileLog h workspace p r)"
  unfolding collectCompileLog_def readTextCapped_def
  by (intro act_intros) (auto intro: act_intros split: prod.split)

lemma settles_find [act_intros]: "settles (find_output extension limit invalid too_large h workspace p)"
  unfolding find_output_def
  by (intro act_intros) (auto simp: settles_def Let_def split: sum.split io_error.split)

lemma settles_succeeded [act_intros]: "settles (compile_succeeded h elapsed request workspace log pdf)"
  unfolding compile_succeeded_def findOutputSynctex_def readPdf_def readSynctex_def
  by (intro act_intros) (auto simp: Let_def intro!: act_intros split: option.split sum.split)

lemma settles_materialize [act_intros]: "settles (materialize h workspace files)"
  by (auto simp: settles_def materialize_def split: prod.split option.split)

section \<open>Theorems\<close>


text \<open>
  C14: A compilation always answers. If every child process ends and the temporary directory can be created and
  removed, it returns a result, after at most four runs of \<^verbatim>\<open>latexmk\<close> or twelve passes of \<^verbatim>\<open>pdflatex\<close>; no
  failure inside escapes as an exception.
\<close>

theorem compile_returns:
  fixes h :: "'w host"
  assumes "\<And>req w pid aborted evs w1. h_exec h req w = ((pid, aborted, evs), w1) \<Longrightarrow> list_ex ends evs"
    and "\<And>w m w1. h_mkdtemp h w \<noteq> (Inl m, w1)" "\<And>p w m. h_rm h p w \<noteq> Inl m"
  shows "\<exists>result w'. compileProject h elapsed request w = (Value result, w')"
proof -
  have "fst (run_native h command args cwd root w) \<noteq> Unsettled" for command args cwd root w
    using runNativeProcess_settles [where os = "h_exec h" and mkdir = "mkdir_or_message h" and win = "h_win h" and
      penv = "h_env h w" and command = command and args = args and cwd = cwd and root = "Some root" and w = w, OF assms(1)]
    by (auto simp: run_native_def split: prod.split option.split native_outcome.split)
  then have native: "settles (\<lambda>w. run_native h (command w) args cwd root w)" for command args cwd root
    by (simp add: settles_def)
  have passes: "settles (pdflatex_passes h ws location passes result)" for ws location passes result
    by (induction passes arbitrary: result) (auto simp: Let_def intro!: act_intros native)
  have once: "settles (runLatexProjectOnce h ws p force)" for ws p force
    using native [of "\<lambda>w. nativeTool (h_env h w) Latexmk"] passes
    by (auto simp: runLatexProjectOnce_def settles_def Let_def simp del: pdflatex_passes.simps split: prod.split)
  have resolve: "settles (resolve_failure h result)" for result
    by (auto simp: settles_def resolve_failure_def split: prod.split sum.split)
  have rounds: "settles (resolution_rounds h ws p left result ns)" for ws p left result ns
    by (induction left arbitrary: result ns) (auto intro!: act_intros once resolve)
  have latex: "settles (runLatexProject h ws p)" for ws p
    unfolding runLatexProject_def by (intro act_intros once rounds) (auto intro: act_intros split: prod.split)
  have body: "settles (compile_in h elapsed request ws)" for ws
    unfolding compile_in_def findOutputPdf_def
    by (intro act_intros latex) (auto simp: Let_def intro!: act_intros split: option.split)
  let ?body = "\<lambda>ws. catching (compile_in h elapsed request ws)
    (\<lambda>e. give (compile_caught (req_engine request) elapsed e)) :: (CompileResult, 'w) compile_act"
  have result: "\<exists>x w1. ?body ws w = (Value x, w1)" for ws w
    using body [of ws] by (cases "compile_in h elapsed request ws w"; cases "fst (compile_in h elapsed request ws w)")
      (auto simp: catching_def give_def settles_def split: prod.splits, (metis fst_conv)+)
  obtain b w1 where p: "h_pdflatex h w = (b, w1)" by (cases "h_pdflatex h w")
  obtain ws w2 where t: "h_mkdtemp h w1 = (Inr ws, w2)"
    using assms(2) by (metis prod.exhaust sum.exhaust)
  from result [of ws w2] obtain x w3 where x: "?body ws w2 = (Value x, w3)" by blast
  obtain w4 where "h_rm h ws w3 = Inr w4" using assms(3) by (metis sum.exhaust)
  with p t x show ?thesis
    by (auto simp: compileProject_def finally_do_def removing_def attempt_def)
qed

lemma value_of_act [act_simps]:
  "give x w = (Value y, w1) \<longleftrightarrow> y = x \<and> w1 = w" "raise e w \<noteq> (Value y, w1)"
  "and_then m f w = (Value y, w1) \<longleftrightarrow> (\<exists>x w2. m w = (Value x, w2) \<and> f x w2 = (Value y, w1))"
  "reading op err w = (Value z, w1) \<longleftrightarrow> op w = Inr z \<and> w1 = w"
  "within limit too_large c w = (Value d, w1) \<longleftrightarrow> d = c \<and> length c \<le> limit \<and> w1 = w"
  "project_path h ws p w = (Value path, w1) \<longleftrightarrow> resolveProjectPath (h_cwd h) ws p = Inr path \<and> w1 = w"
  by (auto simp: give_def raise_def and_then_def reading_def within_def project_path_def
      split: prod.splits outcome.splits sum.splits)

lemma value_find:
  assumes "find_output extension limit invalid too_large h ws p w = (Value x, w1)"
  shows "w1 = w" "x = Some path \<Longrightarrow> \<exists>destination info. resolveProjectPath (h_cwd h) ws p = Inr destination \<and>
    path = replaceExtension destination extension \<and> h_lstat h path w = Inr info \<and>
    fi_kind info = RegularFile \<and> fi_size info \<le> limit"
proof -
  obtain d where d: "resolveProjectPath (h_cwd h) ws p = Inr d"
    using assms by (auto simp: find_output_def act_simps)
  have "w1 = w \<and> (x = Some path \<longrightarrow> path = replaceExtension d extension \<and> (\<exists>info. h_lstat h path w = Inr info \<and>
    fi_kind info = RegularFile \<and> fi_size info \<le> limit))"
  proof (cases "h_lstat h (replaceExtension d extension) w")
    case (Inl e)
    with assms d show ?thesis by (cases e) (simp_all add: find_output_def act_simps Let_def)
  next
    case (Inr info)
    with assms d show ?thesis by (auto simp: find_output_def act_simps Let_def split: if_splits)
  qed
  with d show "w1 = w" "x = Some path \<Longrightarrow> \<exists>destination info. resolveProjectPath (h_cwd h) ws p = Inr destination \<and>
    path = replaceExtension destination extension \<and> h_lstat h path w = Inr info \<and>
    fi_kind info = RegularFile \<and> fi_size info \<le> limit" by blast+
qed

lemma readSynctex_bound:
  assumes "readSynctex h p ws w = (Value c, w1)"
  shows "length c \<le> MAX_SYNCTEX_BYTES"
proof -
  from assms obtain z where z: "(case h_gunzip h MAX_SYNCTEX_BYTES z of
      Inl m \<Rightarrow> raise (ErrorThrown m)
    | Inr unzipped \<Rightarrow> let workspacePrefix = posix_slashes ws @ js ''/'';
          normalized = replace_all input_pattern (portable_input workspacePrefix) [] (utf8_decode unzipped)
        in within MAX_SYNCTEX_BYTES ''Compiler SyncTeX output exceeds 32 MiB.'' (h_gzip h (utf8 normalized))) w = (Value c, w1)"
    by (auto simp: readSynctex_def act_simps)
  then show ?thesis by (cases "h_gunzip h MAX_SYNCTEX_BYTES z") (auto simp: act_simps Let_def)
qed

lemma value_log: "collectCompileLog h ws p r w = (Value log, w1) \<Longrightarrow> w1 = w"
  by (auto simp: collectCompileLog_def readTextCapped_def catching_def act_simps give_def raise_def reading_def
      and_then_def project_path_def split: prod.splits outcome.splits sum.splits)

definition pdf_produced :: "'w host \<Rightarrow> CompileRequest \<Rightarrow> CompileOutput \<Rightarrow> CompileOutput option \<Rightarrow> bool" where
  "pdf_produced h request out synctex \<longleftrightarrow>
     (\<exists>ws w1 r w2 destination info pdf.
        runLatexProject h ws (req_mainFilePath request) w1 = (Value r, w2) \<and> nr_exitCode r = Some 0 \<and>
        resolveProjectPath (h_cwd h) ws (req_mainFilePath request) = Inr destination \<and>
        h_lstat h (replaceExtension destination ''.pdf'') w2 = Inr info \<and> fi_kind info = RegularFile \<and>
        h_readFile h (replaceExtension destination ''.pdf'') w2 = Inr pdf \<and> length pdf \<le> MAX_PDF_BYTES \<and>
        out = output_of h ws (replaceExtension destination ''.pdf'') pdf \<and>
        (case synctex of None \<Rightarrow> True
         | Some s \<Rightarrow> \<exists>c. s = output_of h ws (replaceExtension destination ''.synctex.gz'') c \<and>
             length c \<le> MAX_SYNCTEX_BYTES))"

lemma compile_in_success:
  assumes "compile_in h elapsed request ws w = (Value (CompileSuccess engine out synctex log ms), w')"
  shows "engine = req_engine request \<and> pdf_produced h request out synctex"
proof -
  from assms obtain w1 r w2 lg w3 where
    latex: "runLatexProject h ws (req_mainFilePath request) w1 = (Value r, w2)" "nr_exitCode r = Some 0"
    and log: "collectCompileLog h ws (req_mainFilePath request) r w2 = (Value lg, w3)"
    and rest: "\<exists>pdfPath w4. findOutputPdf h ws (req_mainFilePath request) w3 = (Value (Some pdfPath), w4) \<and>
      compile_succeeded h elapsed request ws lg pdfPath w4 = (Value (CompileSuccess engine out synctex log ms), w')"
    by (auto simp: compile_in_def act_simps compileFailure_def Let_def split: option.splits if_splits)
  from rest obtain pdfPath w4 where
    find: "findOutputPdf h ws (req_mainFilePath request) w3 = (Value (Some pdfPath), w4)"
    and succ: "compile_succeeded h elapsed request ws lg pdfPath w4 = (Value (CompileSuccess engine out synctex log ms), w')"
    by blast
  have w: "w3 = w2" "w4 = w2" using value_log [OF log] value_find [OF find [unfolded findOutputPdf_def]] by simp_all
  from value_find [OF find [unfolded findOutputPdf_def]] w obtain destination info where
    pdf: "resolveProjectPath (h_cwd h) ws (req_mainFilePath request) = Inr destination"
      "pdfPath = replaceExtension destination ''.pdf''" "h_lstat h pdfPath w2 = Inr info"
      "fi_kind info = RegularFile" "fi_size info \<le> MAX_PDF_BYTES" by auto
  from succ w obtain sp w5 content w6 where
    sp: "findOutputSynctex h ws (req_mainFilePath request) w2 = (Value sp, w5)"
    and rd: "readPdf h pdfPath w5 = (Value content, w6)"
    and res: "engine = req_engine request" "out = output_of h ws pdfPath content"
    and syn: "case sp of None \<Rightarrow> synctex = None
      | Some p \<Rightarrow> \<exists>c w7. readSynctex h p ws w6 = (Value c, w7) \<and> synctex = Some (output_of h ws p c)"
    by (auto simp: compile_succeeded_def act_simps split: option.splits)
  from value_find [OF sp [unfolded findOutputSynctex_def]] pdf(1) have
    "w5 = w2" and spath: "\<And>p. sp = Some p \<Longrightarrow> p = replaceExtension destination ''.synctex.gz''" by auto
  moreover from rd have "w6 = w5" "h_readFile h pdfPath w5 = Inr content" "length content \<le> MAX_PDF_BYTES"
    by (auto simp: readPdf_def act_simps)
  moreover have "length c \<le> MAX_SYNCTEX_BYTES" if "readSynctex h p ws v = (Value c, v1)" for p v c v1
    using that by (rule readSynctex_bound)
  ultimately show ?thesis using latex pdf res syn unfolding pdf_produced_def by (fastforce split: option.splits)
qed

lemma compile_in_failure:
  assumes "compile_in h elapsed request ws w = (Value (CompileFailure engine errors log ms), w')"
  shows "engine = req_engine request \<and> length errors = 1"
  using assms
  by (auto simp: compile_in_def compile_succeeded_def act_simps compileFailure_def Let_def split: option.splits if_splits)

lemma compile_caught_failure:
  "\<exists>errors log ms. compile_caught engine elapsed e = CompileFailure engine errors log ms \<and> length errors = 1"
  by (cases e) (simp_all add: compileFailure_def)

text \<open>
  C25: What a success carries: the compiler had ended with exit code 0, the PDF is what was read then from the main
  file's output path, a regular file of at most 32 MiB, the SyncTeX data keeps the same limit, and the
  paths are relative to the project. A failure carries exactly one error, and no other kind of answer
  is given.
\<close>

theorem compile_output:
  "case compileProject h elapsed request w of
     (Value (CompileSuccess engine out synctex log ms), w') \<Rightarrow>
       engine = req_engine request \<and> pdf_produced h request out synctex
   | (Value (CompileFailure engine errors log ms), w') \<Rightarrow> engine = req_engine request \<and> length errors = 1
   | _ \<Rightarrow> True"
proof (cases "compileProject h elapsed request w")
  case (Pair r w')
  show ?thesis
  proof (cases r)
    case (Value result)
    have "(\<exists>log ms. result = compileFailure (req_engine request) ''native-compiler-unavailable'' log [] ms None None) \<or>
      (\<exists>ws w1 w2. compile_in h elapsed request ws w1 = (Value result, w2)) \<or>
      (\<exists>e. result = compile_caught (req_engine request) elapsed e)"
      using Pair Value
      by (auto simp: compileProject_def finally_do_def catching_def give_def
          split: prod.splits sum.splits outcome.splits if_splits)
    then show ?thesis
    proof (elim disjE exE)
      fix ws w1 w2 assume c: "compile_in h elapsed request ws w1 = (Value result, w2)"
      show ?thesis
      proof (cases result)
        case (CompileSuccess engine out synctex log ms)
        with compile_in_success c Pair Value show ?thesis by fastforce
      next
        case (CompileFailure engine errors log ms)
        with compile_in_failure c Pair Value show ?thesis by fastforce
      qed
    next
      fix e assume "result = compile_caught (req_engine request) elapsed e"
      with compile_caught_failure [of "req_engine request" elapsed e] Pair Value show ?thesis by auto
    qed (simp add: Pair Value compileFailure_def)
  qed (simp_all add: Pair)
qed

section \<open>A host\<close>

text \<open>A host whose compiler ends with an error; the world counts the operations that change it.\<close>

definition demo_host :: "nat host" where
  "demo_host =
     \<lparr>h_win = False, h_cwd = js ''/srv'', h_env = \<lambda>w. Map.empty,
      h_managers = \<lambda>w. \<lparr>sm_current = None, sm_created = 0\<rparr>, h_set_managers = \<lambda>sm w. w,
      h_pdflatex = \<lambda>w. (True, w), h_available = \<lambda>c w. (True, w),
      h_exec = \<lambda>req w. ((Some 7, False, [Stdout [33], ChildClosed (Some 1) None]), Suc w),
      h_tlmgr = \<lambda>c args w. (Inl [], w), h_aborted = \<lambda>w. False,
      h_mkdtemp = \<lambda>w. (Inr (abs_path [js ''tmp'', js ''job'']), w), h_mkdir = \<lambda>p w. Inr w,
      h_writeFile = \<lambda>p bs w. Inr (Suc w), h_lstat = \<lambda>p w. Inl (ENOENT []),
      h_readFile = \<lambda>p w. Inl (ENOENT []), h_readStart = \<lambda>p n w. Inl (ENOENT []), h_rm = \<lambda>p w. Inr (Suc w),
      h_gunzip = \<lambda>n b. Inr b, h_gzip = \<lambda>b. b\<rparr>"

definition demo_request :: CompileRequest where
  "demo_request = \<lparr>req_protocolVersion = 1, req_engine = js ''pdflatex'', req_mainFilePath = js ''main.tex'',
     req_files = [TextProjectFile (js ''main.tex'') (js ''x'')]\<rparr>"

lemma demo_path: "safe_project_path False (js ''main.tex'')" "posix_isAbsolute (js ''/srv'')"
  "good_seg (js ''tmp'')" "good_seg (js ''job'')"
  by (simp_all add: safe_project_path_def validateProjectPath_def js_def posix_isAbsolute_def win32_isAbsolute_def
      suffix_def good_seg_def Let_def)


theorem compile_returns_witness:
  "\<exists>result w'. compileProject demo_host 5 demo_request 0 = (Value result, w')"
  by (rule compile_returns) (auto simp: demo_host_def)

end
