(* ===== verification/WorkspaceStore.thy ===== *)
theory WorkspaceStore
  imports Paths PromiseLock
begin

text \<open>
  \<^verbatim>\<open>typr-server/workspaceStore.ts\<close>: one mapped host directory behind the workspace API. The directory
  is a tree: a directory is the list of its entries in the order \<open>readdir\<close> gives them. An operation
  runs against the tree as a whole: the mutations are serialized by the store's lock (\<open>PromiseLock\<close>), and
  no other process changes the directory during an operation. SHA-256, the clock,
  the random part of a temporary name, the order of \<open>localeCompare\<close>, and which file system call of a
  write fails are parameters; the process has no umask.
\<close>

section \<open>The directory\<close>

datatype node =
    File (node_data: bytes) (node_mode: nat) (node_mtime: int)
  | Link
  | Special
  | Dir "(jsstring \<times> node) list"

type_synonym entries = "(jsstring \<times> node) list"

fun get_node :: "entries \<Rightarrow> jsstring list \<Rightarrow> node option" where
  "get_node es [] = None"
| "get_node es [s] = map_of es s"
| "get_node es (s # t # r) = (case map_of es s of Some (Dir es') \<Rightarrow> get_node es' (t # r) | _ \<Rightarrow> None)"

text \<open>A node put at a path; missing directories are made.\<close>

fun put_node :: "entries \<Rightarrow> jsstring list \<Rightarrow> node \<Rightarrow> entries" where
  "put_node es [] n = es"
| "put_node es [s] n = AList.update s n es"
| "put_node es (s # t # r) n =
     (case map_of es s of
        Some (Dir es') \<Rightarrow> AList.update s (Dir (put_node es' (t # r) n)) es
      | None \<Rightarrow> AList.update s (Dir (put_node [] (t # r) n)) es
      | Some _ \<Rightarrow> es)"

fun remove_node :: "entries \<Rightarrow> jsstring list \<Rightarrow> entries" where
  "remove_node es [] = es"
| "remove_node es [s] = AList.delete s es"
| "remove_node es (s # t # r) =
     (case map_of es s of Some (Dir es') \<Rightarrow> AList.update s (Dir (remove_node es' (t # r))) es | _ \<Rightarrow> es)"

definition file_at :: "entries \<Rightarrow> jsstring list \<Rightarrow> (bytes \<times> nat \<times> int) option" where
  "file_at es p = (case get_node es p of Some (File c m t) \<Rightarrow> Some (c, m, t) | _ \<Rightarrow> None)"

section \<open>Configuration\<close>

text \<open>A \<open>WorkspaceError\<close> with its status and code, or an error of the file system.\<close>

datatype ws_error = WorkspaceError nat string | IoFailure

definition INTERNAL_WRITE_PREFIX :: jsstring where
  "INTERNAL_WRITE_PREFIX = js ''.typr-companion-write-''"

definition DEFAULT_WORKSPACE_LIMITS :: WorkspaceLimits where
  "DEFAULT_WORKSPACE_LIMITS =
     \<lparr>maxFileBytes = 64 * 1024 * 1024, maxEntries = 4096, maxWorkspaceBytes = 256 * 1024 * 1024\<rparr>"

definition MAX_PATH_BYTES :: nat where "MAX_PATH_BYTES = 1024"
definition MAX_SEGMENT_BYTES :: nat where "MAX_SEGMENT_BYTES = 255"
definition MAX_PATH_DEPTH :: nat where "MAX_PATH_DEPTH = 64"

datatype config_error = NotPositiveInteger | NotSafeInteger | InconsistentLimits | BadWorkspaceId | BadWorkspaceRoot

definition decimal_value :: "jsstring \<Rightarrow> int" where
  "decimal_value s = foldl (\<lambda>n c. n * 10 + (int c - 48)) 0 s"

definition configuredPositiveInteger :: "jsstring option \<Rightarrow> int \<Rightarrow> config_error + int" where
  "configuredPositiveInteger v fallback =
     (case v of
        None \<Rightarrow> Inr fallback
      | Some s \<Rightarrow>
          let t = trim s
          in if t = [] then Inr fallback
             else if \<not> (49 \<le> hd t \<and> hd t \<le> 57 \<and> list_all is_digit t) then Inl NotPositiveInteger
             else if \<not> is_safe (decimal_value t) then Inl NotSafeInteger
             else Inr (decimal_value t))"

definition validateLimits :: "WorkspaceLimits \<Rightarrow> bool" where
  "validateLimits l \<longleftrightarrow>
     list_all (\<lambda>v. is_safe v \<and> v > 0) [maxFileBytes l, maxEntries l, maxWorkspaceBytes l] \<and>
     \<not> maxFileBytes l > maxWorkspaceBytes l"

definition workspaceLimitsFromEnvironment ::
  "jsstring option \<Rightarrow> jsstring option \<Rightarrow> jsstring option \<Rightarrow> config_error + WorkspaceLimits" where
  "workspaceLimitsFromEnvironment file_env entries_env bytes_env =
     (case configuredPositiveInteger file_env (maxFileBytes DEFAULT_WORKSPACE_LIMITS) of
        Inl e \<Rightarrow> Inl e
      | Inr f \<Rightarrow>
          (case configuredPositiveInteger entries_env (maxEntries DEFAULT_WORKSPACE_LIMITS) of
             Inl e \<Rightarrow> Inl e
           | Inr n \<Rightarrow>
               (case configuredPositiveInteger bytes_env (maxWorkspaceBytes DEFAULT_WORKSPACE_LIMITS) of
                  Inl e \<Rightarrow> Inl e
                | Inr b \<Rightarrow>
                    let l = \<lparr>maxFileBytes = f, maxEntries = n, maxWorkspaceBytes = b\<rparr>
                    in if validateLimits l then Inr l else Inl InconsistentLimits)))"

definition validateWorkspaceId :: "jsstring \<Rightarrow> config_error + jsstring" where
  "validateWorkspaceId v =
     (let t = trim v
      in if t \<noteq> [] \<and> is_alnum (hd t) \<and> length t \<le> 128 \<and>
            list_all (\<lambda>c. is_alnum c \<or> c = 46 \<or> c = 95 \<or> c = 45) t
         then Inr t else Inl BadWorkspaceId)"

text \<open>
  \<open>WorkspaceStore.open\<close>: the root as given, what \<open>lstat\<close> says of it, whether it may be read and written,
  and its real path.
\<close>

record store =
  store_root :: jsstring
  store_id :: jsstring
  store_limits :: WorkspaceLimits

definition open_store ::
  "jsstring \<Rightarrow> jsstring \<Rightarrow> node option \<Rightarrow> bool \<Rightarrow> jsstring \<Rightarrow> jsstring \<Rightarrow> WorkspaceLimits \<Rightarrow>
   (config_error + store) option"
where
  "open_store cwd root info accessible canonicalRoot workspaceId limits =
     (if \<not> posix_isAbsolute root \<or> posix_resolve cwd [root] = js ''/'' then Some (Inl BadWorkspaceRoot)
      else case info of
             None \<Rightarrow> None
           | Some (Dir _) \<Rightarrow>
               if \<not> accessible then None
               else if canonicalRoot = js ''/'' then Some (Inl BadWorkspaceRoot)
               else if \<not> validateLimits limits then Some (Inl InconsistentLimits)
               else (case validateWorkspaceId workspaceId of
                       Inl e \<Rightarrow> Some (Inl e)
                     | Inr i \<Rightarrow> Some (Inr \<lparr>store_root = canonicalRoot, store_id = i, store_limits = limits\<rparr>))
           | Some _ \<Rightarrow> Some (Inl BadWorkspaceRoot))"

section \<open>Paths\<close>

definition prohibited_segment :: "bool \<Rightarrow> jsstring \<Rightarrow> bool" where
  "prohibited_segment win s \<longleftrightarrow>
     s = [] \<or> s = js ''.'' \<or> s = js ''..'' \<or> s = js ''.git'' \<or> prefix INTERNAL_WRITE_PREFIX s \<or>
     byte_length s > MAX_SEGMENT_BYTES \<or> list_ex (\<lambda>c. c < 32 \<or> c = 127) s \<or>
     (win \<and> isWindowsUnsafePathSegment s)"

definition invalid_path :: ws_error where
  "invalid_path = WorkspaceError 400 ''invalid-workspace-path''"

definition validateWorkspacePath :: "bool \<Rightarrow> jsstring \<Rightarrow> ws_error + jsstring" where
  "validateWorkspacePath win v =
     (if v = [] \<or> 92 \<in> set v \<or> 0 \<in> set v \<or> posix_isAbsolute v then Inl invalid_path
      else if byte_length v > MAX_PATH_BYTES then Inl invalid_path
      else let segs = split_on 47 v
           in if length segs > MAX_PATH_DEPTH \<or> list_ex (prohibited_segment win) segs then Inl invalid_path
              else Inr (join_with [47] segs))"

section \<open>Reading\<close>

definition createEtag :: "(bytes \<Rightarrow> bytes) \<Rightarrow> bytes \<Rightarrow> jsstring" where
  "createEtag sha256 content = [34] @ js ''sha256-'' @ base64url_encode (sha256 content) @ [34]"

fun resolveExistingFile :: "entries \<Rightarrow> jsstring list \<Rightarrow> ws_error + bytes \<times> nat \<times> int" where
  "resolveExistingFile es [] = Inl IoFailure"
| "resolveExistingFile es [s] =
     (case map_of es s of
        None \<Rightarrow> Inl (WorkspaceError 404 ''workspace-file-not-found'')
      | Some Link \<Rightarrow> Inl (WorkspaceError 409 ''workspace-unsafe-entry'')
      | Some (File c m t) \<Rightarrow> Inr (c, m, t)
      | Some _ \<Rightarrow> Inl (WorkspaceError 409 ''workspace-path-conflict''))"
| "resolveExistingFile es (s # t # r) =
     (case map_of es s of
        None \<Rightarrow> Inl (WorkspaceError 404 ''workspace-file-not-found'')
      | Some Link \<Rightarrow> Inl (WorkspaceError 409 ''workspace-unsafe-entry'')
      | Some (Dir es') \<Rightarrow> resolveExistingFile es' (t # r)
      | Some _ \<Rightarrow> Inl (WorkspaceError 409 ''workspace-path-conflict''))"

text \<open>The parameters of the store: platform, limits, SHA-256 and the order of paths.\<close>

record env =
  env_win :: bool
  env_limits :: WorkspaceLimits
  env_sha :: "bytes \<Rightarrow> bytes"
  env_le :: "jsstring \<Rightarrow> jsstring \<Rightarrow> bool"

definition too_large :: ws_error where
  "too_large = WorkspaceError 413 ''workspace-file-too-large''"

definition metadata :: "env \<Rightarrow> jsstring \<Rightarrow> bytes \<Rightarrow> int \<Rightarrow> WorkspaceFileMetadata" where
  "metadata e path content mtime =
     \<lparr>meta_path = path, meta_size = length content, meta_modifiedAt = mtime, meta_etag = createEtag (env_sha e) content\<rparr>"

definition read_file :: "env \<Rightarrow> entries \<Rightarrow> jsstring \<Rightarrow> ws_error + WorkspaceFileMetadata \<times> bytes" where
  "read_file e es path =
     (case validateWorkspacePath (env_win e) path of
        Inl err \<Rightarrow> Inl err
      | Inr normalized \<Rightarrow>
          (case resolveExistingFile es (split_on 47 normalized) of
             Inl err \<Rightarrow> Inl err
           | Inr (content, _, mtime) \<Rightarrow>
               if int (length content) > maxFileBytes (env_limits e) then Inl too_large
               else Inr (metadata e normalized content mtime, content)))"

text \<open>\<open>read\<close>: the response carries the content in base64.\<close>

definition read_response :: "env \<Rightarrow> entries \<Rightarrow> jsstring \<Rightarrow> ws_error + WorkspaceFileResponse" where
  "read_response e es path =
     (case read_file e es path of
        Inl err \<Rightarrow> Inl err
      | Inr (m, content) \<Rightarrow> Inr (WorkspaceFileMetadata.extend m \<lparr>resp_content = base64_encode content\<rparr>))"

definition readIfExists :: "env \<Rightarrow> entries \<Rightarrow> jsstring \<Rightarrow> ws_error + (WorkspaceFileMetadata \<times> nat) option" where
  "readIfExists e es normalized =
     (case read_file e es normalized of
        Inl err \<Rightarrow> (case err of WorkspaceError status _ \<Rightarrow> if status = 404 then Inr None else Inl err | _ \<Rightarrow> Inl err)
      | Inr (m, _) \<Rightarrow>
          (case file_at es (split_on 47 normalized) of
             None \<Rightarrow> Inl (WorkspaceError 409 ''workspace-unsafe-entry'')
           | Some (_, mode, _) \<Rightarrow> Inr (Some (m, mode mod 512))))"

section \<open>Listing\<close>

definition skipped :: "jsstring \<Rightarrow> bool" where
  "skipped name \<longleftrightarrow> name = js ''.git'' \<or> prefix INTERNAL_WRITE_PREFIX name"

definition child_path :: "jsstring \<Rightarrow> jsstring \<Rightarrow> jsstring" where
  "child_path pre name = (if pre = [] then name else pre @ [47] @ name)"

fun visit ::
  "env \<Rightarrow> jsstring \<Rightarrow> entries \<Rightarrow> WorkspaceFileMetadata list \<Rightarrow> nat \<Rightarrow>
   ws_error + WorkspaceFileMetadata list \<times> nat"
where
  "visit e pre [] files totalBytes = Inr (files, totalBytes)"
| "visit e pre ((name, n) # rest) files totalBytes =
     (if skipped name then visit e pre rest files totalBytes
      else case validateWorkspacePath (env_win e) (child_path pre name) of
        Inl err \<Rightarrow> Inl err
      | Inr _ \<Rightarrow>
          (case n of
             Link \<Rightarrow> Inl (WorkspaceError 409 ''workspace-unsafe-entry'')
           | Special \<Rightarrow> Inl (WorkspaceError 409 ''workspace-unsafe-entry'')
           | Dir es \<Rightarrow>
               (case visit e (child_path pre name) es files totalBytes of
                  Inl err \<Rightarrow> Inl err
                | Inr (files', totalBytes') \<Rightarrow> visit e pre rest files' totalBytes')
           | File content _ mtime \<Rightarrow>
               if int (length files) \<ge> maxEntries (env_limits e)
               then Inl (WorkspaceError 413 ''workspace-entry-limit'')
               else if int (length content) > maxFileBytes (env_limits e) then Inl too_large
               else if int (totalBytes + length content) > maxWorkspaceBytes (env_limits e)
               then Inl (WorkspaceError 413 ''workspace-size-limit'')
               else visit e pre rest (files @ [metadata e (child_path pre name) content mtime])
                      (totalBytes + length content)))"

definition scan :: "env \<Rightarrow> entries \<Rightarrow> ws_error + WorkspaceFileMetadata list" where
  "scan e es =
     (case visit e [] es [] 0 of
        Inl err \<Rightarrow> Inl err
      | Inr (files, _) \<Rightarrow> Inr (sort_by (\<lambda>a b. env_le e (meta_path a) (meta_path b)) files))"

definition list_files :: "env \<Rightarrow> store \<Rightarrow> entries \<Rightarrow> ws_error + WorkspaceFileListResponse" where
  "list_files e st es =
     (case scan e es of
        Inl err \<Rightarrow> Inl err
      | Inr files \<Rightarrow> Inr \<lparr>list_workspaceId = store_id st, list_files_of = files\<rparr>)"

section \<open>Writing\<close>

datatype precondition = Create | Update jsstring

text \<open>The directories on the way, made where they are missing.\<close>

fun resolveForWrite :: "entries \<Rightarrow> jsstring list \<Rightarrow> ws_error + entries" where
  "resolveForWrite es (s # t # r) =
     (case map_of es s of
        None \<Rightarrow> (case resolveForWrite [] (t # r) of Inl err \<Rightarrow> Inl err | Inr es' \<Rightarrow> Inr (AList.update s (Dir es') es))
      | Some (Dir sub) \<Rightarrow>
          (case resolveForWrite sub (t # r) of Inl err \<Rightarrow> Inl err | Inr es' \<Rightarrow> Inr (AList.update s (Dir es') es))
      | Some _ \<Rightarrow> Inl (WorkspaceError 409 ''workspace-path-conflict''))"
| "resolveForWrite es _ = Inr es"

text \<open>
  The atomic write in the parent directory; the temporary file is opened exclusively. \<open>fault\<close> is the first call or hook that fails, if one does,
  and \<open>cleaned\<close> tells whether the removal of the temporary file then succeeds; \<open>rm\<close> does not remove
  a directory.
\<close>

datatype write_step = OpenStep | WriteStep | SyncStep | RenameStep

definition atomic_write ::
  "jsstring \<Rightarrow> nat \<Rightarrow> int \<Rightarrow> write_step option \<Rightarrow> bool \<Rightarrow> jsstring list \<Rightarrow> bytes \<Rightarrow> entries \<Rightarrow> entries \<times> bool"
where
  "atomic_write uuid mode now fault cleaned segs content es =
     (let temporary = butlast segs @ [INTERNAL_WRITE_PREFIX @ uuid];
          discard = (\<lambda>t. (case get_node t temporary of
                              Some (Dir _) \<Rightarrow> t
                            | _ \<Rightarrow> if cleaned then remove_node t temporary else t, False))
      in case (if get_node es temporary \<noteq> None then Some OpenStep else fault) of
           Some OpenStep \<Rightarrow> discard es
         | Some WriteStep \<Rightarrow> discard (put_node es temporary (File [] mode now))
         | Some SyncStep \<Rightarrow> discard (put_node es temporary (File content mode now))
         | Some RenameStep \<Rightarrow> discard (put_node es temporary (File content mode now))
         | None \<Rightarrow>
             (put_node (remove_node (put_node es temporary (File content mode now)) temporary) segs
                (File content mode now), True))"

definition precondition_failed :: ws_error where
  "precondition_failed = WorkspaceError 412 ''workspace-precondition-failed''"

definition write_file ::
  "env \<Rightarrow> jsstring \<Rightarrow> int \<Rightarrow> write_step option \<Rightarrow> bool \<Rightarrow> jsstring \<Rightarrow> bytes \<Rightarrow> precondition \<Rightarrow> entries \<Rightarrow>
   entries \<times> (ws_error + WorkspaceFileMetadata)"
where
  "write_file e uuid now fault cleaned path content pre es =
     (case validateWorkspacePath (env_win e) path of
        Inl err \<Rightarrow> (es, Inl err)
      | Inr normalized \<Rightarrow>
          if int (length content) > maxFileBytes (env_limits e) then (es, Inl too_large)
          else case readIfExists e es normalized of
            Inl err \<Rightarrow> (es, Inl err)
          | Inr existing \<Rightarrow>
              if (case pre of
                    Create \<Rightarrow> existing \<noteq> None
                  | Update etag \<Rightarrow> (case existing of None \<Rightarrow> True | Some (m, _) \<Rightarrow> meta_etag m \<noteq> etag))
              then (es, Inl precondition_failed)
              else case scan e es of
                Inl err \<Rightarrow> (es, Inl err)
              | Inr files \<Rightarrow>
                  if existing = None \<and> int (length files) \<ge> maxEntries (env_limits e)
                  then (es, Inl (WorkspaceError 413 ''workspace-entry-limit''))
                  else if int (sum_list (map meta_size files)) -
                            (case existing of None \<Rightarrow> 0 | Some (m, _) \<Rightarrow> int (meta_size m)) + int (length content)
                          > maxWorkspaceBytes (env_limits e)
                  then (es, Inl (WorkspaceError 413 ''workspace-size-limit''))
                  else case resolveForWrite es (split_on 47 normalized) of
                    Inl err \<Rightarrow> (es, Inl err)
                  | Inr es1 \<Rightarrow>
                      (let mode = (case existing of None \<Rightarrow> 384 | Some (_, mode) \<Rightarrow> mode);
                           (es2, ok) = atomic_write uuid mode now fault cleaned (split_on 47 normalized) content es1
                       in if \<not> ok then (es2, Inl IoFailure)
                          else (es2, case read_file e es2 normalized of Inl err \<Rightarrow> Inl err | Inr (m, _) \<Rightarrow> Inr m)))"

definition delete_file :: "env \<Rightarrow> jsstring \<Rightarrow> jsstring \<Rightarrow> entries \<Rightarrow> entries \<times> (ws_error + unit)" where
  "delete_file e path expectedEtag es =
     (case validateWorkspacePath (env_win e) path of
        Inl err \<Rightarrow> (es, Inl err)
      | Inr normalized \<Rightarrow>
          (case readIfExists e es normalized of
             Inl err \<Rightarrow> (es, Inl err)
           | Inr existing \<Rightarrow>
               if (case existing of None \<Rightarrow> True | Some (m, _) \<Rightarrow> meta_etag m \<noteq> expectedEtag)
               then (es, Inl precondition_failed)
               else (case resolveExistingFile es (split_on 47 normalized) of
                       Inl err \<Rightarrow> (es, Inl err)
                     | Inr _ \<Rightarrow> (remove_node es (split_on 47 normalized), Inr ()))))"


section \<open>Lemmas about trees\<close>

text \<open>Directories on the way to a path, or nothing.\<close>

fun open_way :: "entries \<Rightarrow> jsstring list \<Rightarrow> bool" where
  "open_way es (s # t # r) =
     (case map_of es s of None \<Rightarrow> True | Some (Dir es') \<Rightarrow> open_way es' (t # r) | _ \<Rightarrow> False)"
| "open_way es _ = True"

fun parents :: "entries \<Rightarrow> jsstring list \<Rightarrow> bool" where
  "parents es (s # t # r) = (case map_of es s of Some (Dir es') \<Rightarrow> parents es' (t # r) | _ \<Rightarrow> False)"
| "parents es _ = True"

lemma open_way_empty [simp]: "open_way [] p"
  by (cases p rule: list_shape) auto

lemma resolveForWrite_open: "resolveForWrite es p = Inr es1 \<Longrightarrow> open_way es p"
  by (induction es p arbitrary: es1 rule: resolveForWrite.induct)
     (auto split: option.splits node.splits sum.splits)

lemma resolveForWrite_parents: "resolveForWrite es p = Inr es1 \<Longrightarrow> parents es1 p"
  by (induction es p arbitrary: es1 rule: resolveForWrite.induct)
     (auto simp: update_conv' split: option.splits node.splits sum.splits)

lemma put_after_resolve: "resolveForWrite es p = Inr es1 \<Longrightarrow> put_node es1 p n = put_node es p n"
proof (induction es p arbitrary: es1 rule: resolveForWrite.induct)
  case (1 es s t r)
  then show ?case by (auto simp: update_conv' split: option.splits node.splits sum.splits)
qed auto

text \<open>Nothing or a file at the end of an open way.\<close>

definition writable :: "entries \<Rightarrow> jsstring list \<Rightarrow> bool" where
  "writable es p \<longleftrightarrow> p \<noteq> [] \<and> open_way es p \<and> (get_node es p = None \<or> file_at es p \<noteq> None)"

lemma writable_empty [simp]: "writable [] p \<longleftrightarrow> p \<noteq> []"
  by (cases p rule: list_shape) (auto simp: writable_def)

lemma writable_down:
  "writable es (s # t # r) \<longleftrightarrow>
     (case map_of es s of None \<Rightarrow> True | Some (Dir es') \<Rightarrow> writable es' (t # r) | _ \<Rightarrow> False)"
  by (auto simp: writable_def file_at_def split: option.split node.split)

lemma file_at_simps:
  "file_at es [s] = (case map_of es s of Some (File c m t) \<Rightarrow> Some (c, m, t) | _ \<Rightarrow> None)"
  "file_at es (s # t # r) = (case map_of es s of Some (Dir es') \<Rightarrow> file_at es' (t # r) | _ \<Rightarrow> None)"
  "file_at es [] = None" "file_at [] q = None"
  by (auto simp: file_at_def split: option.split node.split) (cases q rule: list_shape; simp)

lemma file_at_put:
  "writable es p \<Longrightarrow>
   file_at (put_node es p (File c m t)) q = (if q = p then Some (c, m, t) else file_at es q)"
proof (induction p arbitrary: es q rule: induct_list012)
  case (2 s)
  show ?case
    using 2 by (cases q rule: list_shape)
      (auto simp: writable_def file_at_simps update_conv' split: option.splits node.splits)
next
  case (3 s u r)
  consider "map_of es s = None" | es' where "map_of es s = Some (Dir es')" "writable es' (u # r)"
    using "3.prems" by (auto simp: writable_down split: option.splits node.splits)
  then show ?case
  proof cases
    case 1
    with "3.IH"(2) [of "[]"] show ?thesis
      by (cases q rule: list_shape) (auto simp: file_at_simps update_conv')
  next
    case 2
    with "3.IH"(2) [of es'] show ?thesis
      by (cases q rule: list_shape) (auto simp: file_at_simps update_conv')
  qed
qed (simp add: writable_def)

lemma file_at_remove:
  "file_at es p \<noteq> None \<Longrightarrow> file_at (remove_node es p) q = (if q = p then None else file_at es q)"
proof (induction p arbitrary: es q rule: induct_list012)
  case (2 s)
  then show ?case
    by (cases q rule: list_shape) (auto simp: file_at_simps delete_conv' split: option.splits node.splits)
next
  case (3 s u r)
  then obtain es' where es': "map_of es s = Some (Dir es')" "file_at es' (u # r) \<noteq> None"
    by (auto simp: file_at_simps split: option.splits node.splits)
  with "3.IH"(2) [of es'] show ?case
    by (cases q rule: list_shape) (auto simp: file_at_simps update_conv')
qed (simp add: file_at_simps)

lemma resolveForWrite_down:
  assumes "resolveForWrite es (s # u # r) = Inr es1"
  obtains sub sub1 where "es1 = AList.update s (Dir sub1) es" "resolveForWrite sub (u # r) = Inr sub1"
    "map_of es s = Some (Dir sub) \<or> (map_of es s = None \<and> sub = [])"
  using assms by (auto split: option.splits node.splits sum.splits)

lemma file_at_resolve: "resolveForWrite es p = Inr es1 \<Longrightarrow> file_at es1 q = file_at es q"
proof (induction p arbitrary: es es1 q rule: induct_list012)
  case (3 s u r)
  from "3.prems" obtain sub sub1 where sub: "es1 = AList.update s (Dir sub1) es"
    "resolveForWrite sub (u # r) = Inr sub1" "map_of es s = Some (Dir sub) \<or> (map_of es s = None \<and> sub = [])"
    by (rule resolveForWrite_down)
  have "file_at sub1 q' = file_at sub q'" for q' by (rule "3.IH"(2) [OF sub(2)])
  with sub show ?case
    by (cases q rule: list_shape) (auto simp: file_at_simps update_conv')
qed auto

lemma resolveExisting_iff: "p \<noteq> [] \<Longrightarrow> resolveExistingFile es p = Inr x \<longleftrightarrow> file_at es p = Some x"
  by (induction es p rule: resolveExistingFile.induct)
     (auto simp: file_at_simps split: option.splits node.splits)

lemma resolveExisting_missing:
  "resolveExistingFile es p = Inl (WorkspaceError 404 code) \<Longrightarrow> get_node es p = None \<and> file_at es p = None"
  by (induction es p rule: resolveExistingFile.induct)
     (auto simp: file_at_simps split: option.splits node.splits)

text \<open>Removing what was put where nothing was.\<close>

lemma remove_put: "parents es p \<Longrightarrow> get_node es p = None \<Longrightarrow> remove_node (put_node es p n) p = es"
proof (induction p arbitrary: es rule: induct_list012)
  case (2 s)
  then show ?case by (simp add: delete_update)
next
  case (3 s u r)
  then show ?case
    by (auto simp: update_conv' update_same split: option.splits node.splits)
qed simp


section \<open>What a listing sees\<close>

text \<open>The files of a tree a listing shows, and the trees a listing accepts.\<close>

fun visible :: "env \<Rightarrow> jsstring \<Rightarrow> entries \<Rightarrow> WorkspaceFileMetadata list" where
  "visible e pre [] = []"
| "visible e pre ((name, n) # rest) =
     (if skipped name then []
      else case n of
             File c _ t \<Rightarrow> [metadata e (child_path pre name) c t]
           | Dir es \<Rightarrow> visible e (child_path pre name) es
           | _ \<Rightarrow> []) @ visible e pre rest"

fun clean :: "env \<Rightarrow> jsstring \<Rightarrow> entries \<Rightarrow> bool" where
  "clean e pre [] = True"
| "clean e pre ((name, n) # rest) =
     ((skipped name \<or>
       (is_ok (validateWorkspacePath (env_win e) (child_path pre name)) \<and>
        (case n of
           File c _ _ \<Rightarrow> int (length c) \<le> maxFileBytes (env_limits e)
         | Dir es \<Rightarrow> clean e (child_path pre name) es
         | _ \<Rightarrow> False))) \<and> clean e pre rest)"

definition sizes :: "WorkspaceFileMetadata list \<Rightarrow> nat" where
  "sizes files = sum_list (map meta_size files)"

lemma sizes_simps [simp]:
  "sizes [] = 0" "sizes (a @ b) = sizes a + sizes b" "sizes (x # xs) = meta_size x + sizes xs"
  "meta_size (metadata e path c t) = length c"
  by (simp_all add: sizes_def metadata_def)

definition room :: "env \<Rightarrow> nat \<Rightarrow> nat \<Rightarrow> WorkspaceFileMetadata list \<Rightarrow> bool" where
  "room e k n new \<longleftrightarrow> new = [] \<or>
     (int (k + length new) \<le> maxEntries (env_limits e) \<and> int (n + sizes new) \<le> maxWorkspaceBytes (env_limits e))"

lemma room_append: "room e k n (a @ b) \<longleftrightarrow> room e k n a \<and> room e (k + length a) (n + sizes a) b"
  by (auto simp: room_def)

lemma visit_spec:
  "visit e pre es files n = Inr r \<longleftrightarrow>
     clean e pre es \<and> room e (length files) n (visible e pre es) \<and>
     r = (files @ visible e pre es, n + sizes (visible e pre es))"
proof (induction e pre es files n arbitrary: r rule: visit.induct)
  case (1 e pre files n)
  then show ?case by (auto simp: room_def)
next
  case (2 e pre name nd rest files n)
  show ?case
  proof (cases "skipped name")
    case True
    with 2(1) show ?thesis by simp
  next
    case False
    show ?thesis
    proof (cases "validateWorkspacePath (env_win e) (child_path pre name)")
      case (Inl err)
      with False show ?thesis by (auto simp: is_ok_def)
    next
      case (Inr p)
      show ?thesis
      proof (cases nd)
        case (File c m t)
        show ?thesis
          using 2(2) [OF False Inr File] False Inr
          by (auto simp: File room_def)
      next
        case (Dir es)
        show ?thesis
          using 2(3) [OF False Inr Dir] 2(4) [OF False Inr Dir] False Inr
          by (cases "visit e (child_path pre name) es files n")
             (auto simp: Dir room_append is_ok_def split: prod.splits)
      qed (use False Inr in simp_all)
    qed
  qed
qed

lemma scan_spec:
  "scan e es = Inr files \<longleftrightarrow>
     clean e [] es \<and> room e 0 0 (visible e [] es) \<and>
     files = sort_by (\<lambda>a b. env_le e (meta_path a) (meta_path b)) (visible e [] es)"
proof (cases "visit e [] es [] 0")
  case (Inl err)
  then show ?thesis using visit_spec [of e "[]" es "[]" 0] by (auto simp: scan_def)
next
  case (Inr r)
  then show ?thesis using visit_spec [of e "[]" es "[]" 0 r] by (auto simp: scan_def)
qed

fun full_path :: "jsstring \<Rightarrow> jsstring list \<Rightarrow> jsstring" where
  "full_path pre [] = pre"
| "full_path pre (s # r) = full_path (child_path pre s) r"

fun way_ok :: "env \<Rightarrow> jsstring \<Rightarrow> jsstring list \<Rightarrow> bool" where
  "way_ok e pre [] = True"
| "way_ok e pre (s # r) =
     (\<not> skipped s \<and> is_ok (validateWorkspacePath (env_win e) (child_path pre s)) \<and> way_ok e (child_path pre s) r)"

definition total :: "(WorkspaceFileMetadata \<Rightarrow> nat) \<Rightarrow> WorkspaceFileMetadata list \<Rightarrow> nat" where
  "total f files = sum_list (map f files)"

lemma total_simps [simp]: "total f [] = 0" "total f (x # xs) = f x + total f xs" "total f (a @ b) = total f a + total f b"
  by (simp_all add: total_def)

lemma visible_update:
  "total f (visible e pre (AList.update s n es)) +
     (case map_of es s of None \<Rightarrow> 0 | Some old \<Rightarrow> total f (visible e pre [(s, old)])) =
   total f (visible e pre es) + total f (visible e pre [(s, n)])"
  by (induction es rule: alist_induct) auto

lemma visible_update_same:
  "(case map_of es s of None \<Rightarrow> visible e pre [(s, n)] = [] | Some old \<Rightarrow> visible e pre [(s, n)] = visible e pre [(s, old)]) \<Longrightarrow>
   visible e pre (AList.update s n es) = visible e pre es"
  by (induction es rule: alist_induct) (auto split: if_splits)

lemma visible_skipped: "skipped s \<Longrightarrow> visible e pre [(s, n)] = []"
  by simp

lemma clean_update: "clean e pre es \<Longrightarrow> clean e pre [(s, n)] \<Longrightarrow> clean e pre (AList.update s n es)"
  by (induction es rule: alist_induct) auto

lemma clean_entry: "clean e pre es \<Longrightarrow> map_of es s = Some n \<Longrightarrow> clean e pre [(s, n)]"
  by (induction es rule: alist_induct) (auto split: if_splits)

lemma clean_sub: "clean e pre es \<Longrightarrow> map_of es s = Some (Dir es') \<Longrightarrow> \<not> skipped s \<Longrightarrow> clean e (child_path pre s) es'"
  by (drule (1) clean_entry) simp

lemma visible_put:
  "writable es p \<Longrightarrow> way_ok e pre p \<Longrightarrow>
   total f (visible e pre (put_node es p (File c m t))) +
     (case file_at es p of None \<Rightarrow> 0 | Some (c0, m0, t0) \<Rightarrow> f (metadata e (full_path pre p) c0 t0)) =
   total f (visible e pre es) + f (metadata e (full_path pre p) c t)"
proof (induction p arbitrary: es pre rule: induct_list012)
  case (2 s)
  with visible_update [of f e pre s "File c m t" es] show ?case
    by (auto simp: writable_def file_at_simps split: option.splits node.splits)
next
  case (3 s u r)
  consider "map_of es s = None" | es' where "map_of es s = Some (Dir es')" "writable es' (u # r)"
    using "3.prems" by (auto simp: writable_down split: option.splits node.splits)
  then show ?case
  proof cases
    case 1
    with "3.IH"(2) [of "[]" "child_path pre s"] "3.prems"(2)
      visible_update [of f e pre s "Dir (put_node [] (u # r) (File c m t))" es]
    show ?thesis by (simp add: file_at_simps)
  next
    case 2
    with "3.IH"(2) [of es' "child_path pre s"] "3.prems"(2)
      visible_update [of f e pre s "Dir (put_node es' (u # r) (File c m t))" es]
    show ?thesis by (cases "file_at es' (u # r)") (auto simp: file_at_simps)
  qed
qed (simp add: writable_def)

lemma visible_update_member:
  "x \<in> set (visible e pre [(s, n)]) \<Longrightarrow> x \<in> set (visible e pre (AList.update s n es))"
  by (induction es rule: alist_induct) auto

lemma visible_member:
  "writable es p \<Longrightarrow> way_ok e pre p \<Longrightarrow>
   metadata e (full_path pre p) c t \<in> set (visible e pre (put_node es p (File c m t)))"
proof (induction p arbitrary: es pre rule: induct_list012)
  case (2 s)
  then show ?case using visible_update_member [of _ e pre s "File c m t" es] by simp
next
  case (3 s u r)
  consider "map_of es s = None" | es' where "map_of es s = Some (Dir es')" "writable es' (u # r)"
    using "3.prems" by (auto simp: writable_down split: option.splits node.splits)
  then show ?case
  proof cases
    case 1
    with "3.IH"(2) [of "[]" "child_path pre s"] "3.prems"(2)
      visible_update_member [of _ e pre s "Dir (put_node [] (u # r) (File c m t))" es]
    show ?thesis by simp
  next
    case 2
    with "3.IH"(2) [of es' "child_path pre s"] "3.prems"(2)
      visible_update_member [of _ e pre s "Dir (put_node es' (u # r) (File c m t))" es]
    show ?thesis by simp
  qed
qed (simp add: writable_def)

lemma clean_put:
  "clean e pre es \<Longrightarrow> writable es p \<Longrightarrow> way_ok e pre p \<Longrightarrow> int (length c) \<le> maxFileBytes (env_limits e) \<Longrightarrow>
   clean e pre (put_node es p (File c m t))"
proof (induction p arbitrary: es pre rule: induct_list012)
  case (2 s)
  then show ?case by (auto intro: clean_update)
next
  case (3 s u r)
  consider "map_of es s = None" | es' where "map_of es s = Some (Dir es')" "writable es' (u # r)"
    using "3.prems" by (auto simp: writable_down split: option.splits node.splits)
  then show ?case
  proof cases
    case 1
    with "3.IH"(2) [of "child_path pre s" "[]"] "3.prems" show ?thesis by (auto intro!: clean_update)
  next
    case 2
    with "3.IH"(2) [of "child_path pre s" es'] "3.prems" clean_sub [of e pre es s es'] show ?thesis
      by (auto intro!: clean_update)
  qed
qed simp


section \<open>Accepted paths\<close>

lemma code_points_slash: "code_points (a @ 47 # b) = code_points a @ 47 # code_points b"
proof (induction a rule: code_points.induct)
  case 1
  show ?case by (cases b) (simp_all add: is_high_def is_low_def)
next
  case (3 h)
  have "code_points (47 # b) = 47 # code_points b" by (cases b) (simp_all add: is_high_def is_low_def)
  then show ?case by (simp add: is_low_def)
qed simp

lemma byte_length_slash: "byte_length (a @ 47 # b) = byte_length a + 1 + byte_length b"
  by (simp add: byte_length_def utf8_def code_points_slash utf8_unit_def)

lemma set_join: "set (join_with [c] xs) \<subseteq> insert c (\<Union> (set ` set xs))"
  by (induction "[c]" xs rule: join_with.induct) auto

lemma join_append: "a \<noteq> [] \<Longrightarrow> b \<noteq> [] \<Longrightarrow> join_with [c] (a @ b) = join_with [c] a @ c # join_with [c] b"
proof (induction "[c]" a rule: join_with.induct)
  case (2 x)
  then show ?case by (cases b) auto
qed auto

definition path_ok :: "bool \<Rightarrow> jsstring list \<Rightarrow> bool" where
  "path_ok win segs \<longleftrightarrow> segs \<noteq> [] \<and> length segs \<le> MAX_PATH_DEPTH \<and>
     byte_length (join_with [47] segs) \<le> MAX_PATH_BYTES \<and>
     (\<forall>s\<in>set segs. \<not> prohibited_segment win s \<and> 47 \<notin> set s \<and> 0 \<notin> set s \<and> 92 \<notin> set s)"

lemma path_ok_join:
  assumes "path_ok win segs"
  shows "validateWorkspacePath win (join_with [47] segs) = Inr (join_with [47] segs)"
proof -
  let ?v = "join_with [47] segs"
  have split: "split_on 47 ?v = segs"
    using assms by (intro split_join_with) (auto simp: path_ok_def)
  have "segs \<noteq> [[]]" and hd: "hd segs \<noteq> []" "47 \<notin> set (hd segs)"
    using assms by (cases segs; auto simp: path_ok_def prohibited_segment_def)+
  then have "?v \<noteq> []" "\<not> posix_isAbsolute ?v"
    using assms by (cases segs rule: list_shape; auto simp: path_ok_def posix_isAbsolute_iff append_eq_Cons_conv)+
  moreover have "92 \<notin> set ?v" "0 \<notin> set ?v"
    using set_join [of 47 segs] assms by (auto simp: path_ok_def)
  ultimately show ?thesis
    using assms by (auto simp: validateWorkspacePath_def split path_ok_def Let_def list_ex_iff)
qed

lemma validate_path_ok: "validateWorkspacePath win v = Inr p \<longleftrightarrow> p = v \<and> path_ok win (split_on 47 v)"
proof
  assume "validateWorkspacePath win v = Inr p"
  then show "p = v \<and> path_ok win (split_on 47 v)"
    using split_on_no_sep [of _ 47 v] split_on_subset [of _ 47 v]
    by (auto simp: validateWorkspacePath_def path_ok_def Let_def list_ex_iff split: if_splits)
next
  assume "p = v \<and> path_ok win (split_on 47 v)"
  then show "validateWorkspacePath win v = Inr p"
    using path_ok_join [of win "split_on 47 v"] by simp
qed

lemma path_ok_prefix: "path_ok win (a @ b) \<Longrightarrow> a \<noteq> [] \<Longrightarrow> path_ok win a"
  by (cases "b = []") (auto simp: path_ok_def join_append byte_length_slash)

lemma child_path_join:
  assumes "path_ok win (a @ [s])"
  shows "child_path (join_with [47] a) s = join_with [47] (a @ [s])"
proof (cases "a = []")
  case False
  with assms have "hd a \<noteq> []" by (cases a) (auto simp: path_ok_def prohibited_segment_def)
  with False have "join_with [47] a \<noteq> []" by (cases a rule: list_shape) auto
  with False show ?thesis by (simp add: child_path_def join_append)
qed (simp add: child_path_def)

lemma prohibited_skipped: "\<not> prohibited_segment win s \<Longrightarrow> \<not> skipped s"
  by (simp add: prohibited_segment_def skipped_def)

lemma path_ok_way:
  "path_ok (env_win e) (a @ b) \<Longrightarrow>
   way_ok e (join_with [47] a) b \<and> full_path (join_with [47] a) b = join_with [47] (a @ b)"
proof (induction b arbitrary: a)
  case (Cons s b)
  have ok: "path_ok (env_win e) (a @ [s])"
    using path_ok_prefix [of "env_win e" "a @ [s]" b] Cons.prems by simp
  have "\<not> skipped s" using ok prohibited_skipped [of "env_win e" s] by (simp add: path_ok_def)
  with Cons.IH [of "a @ [s]"] Cons.prems path_ok_join [OF ok] show ?case
    by (simp add: child_path_join [OF ok])
qed simp

lemma valid_way:
  assumes "path_ok (env_win e) segs"
  shows "way_ok e [] segs" "full_path [] segs = join_with [47] segs"
  using path_ok_way [of e "[]" segs] assms by simp_all


section \<open>Temporary files stay out of sight\<close>

lemma parents_open_way: "parents es p \<Longrightarrow> open_way es p"
  by (induction es p rule: parents.induct) (auto split: option.splits node.splits)

lemma parents_butlast: "p \<noteq> [] \<Longrightarrow> parents es (butlast p @ [x]) = parents es p"
proof (induction es p rule: parents.induct)
  case (1 es s t r)
  then show ?case by (cases r) (auto split: option.split node.split)
qed auto

lemma parents_dir:
  "parents es (s # u # r) \<Longrightarrow> (\<And>es'. map_of es s = Some (Dir es') \<Longrightarrow> parents es' (u # r) \<Longrightarrow> P) \<Longrightarrow> P"
  by (auto split: option.splits node.splits)

lemma visible_delete: "skipped s \<Longrightarrow> visible e pre (AList.delete s es) = visible e pre es"
  by (induction es rule: alist_induct) auto

lemma clean_delete: "clean e pre es \<Longrightarrow> clean e pre (AList.delete s es)"
  by (induction es rule: alist_induct) auto

lemma clean_dir:
  assumes "clean e pre es" "map_of es s = Some (Dir es')"
    "clean e (child_path pre s) es' \<Longrightarrow> clean e (child_path pre s) es''"
  shows "clean e pre (AList.update s (Dir es'') es)"
  using assms clean_entry [OF assms(1,2)] by (auto intro!: clean_update)

text \<open>A change of a skipped entry of a directory.\<close>

lemma hidden_put:
  assumes "parents es p" "p \<noteq> []" "skipped (last p)"
  shows "visible e pre (put_node es p n) = visible e pre es"
    and "clean e pre es \<Longrightarrow> clean e pre (put_node es p n)"
    and "list_all (\<lambda>s. \<not> skipped s) q \<Longrightarrow> file_at (put_node es p n) q = file_at es q"
  using assms
proof (induction p arbitrary: es pre q rule: induct_list012)
  case (2 s)
  { case 1 then show ?case by (auto intro!: visible_update_same simp: visible_skipped split: option.split) }
  { case 2 then show ?case by (auto intro!: clean_update) }
  { case 3 then show ?case by (cases q rule: list_shape) (auto simp: file_at_simps update_conv') }
next
  case (3 s u r)
  { case 1
    then show ?case
      using 3(4) by (elim parents_dir) (auto intro!: visible_update_same) }
  { case 2
    then show ?case
      using 3(5) by (elim parents_dir) (auto intro!: clean_dir) }
  { case 3
    then show ?case
      using "3.IH"(6)
      by (elim parents_dir) (cases q rule: list_shape; auto simp: file_at_simps update_conv') }
qed simp_all

lemma hidden_remove:
  assumes "parents es p" "p \<noteq> []" "skipped (last p)"
  shows "visible e pre (remove_node es p) = visible e pre es"
    and "clean e pre es \<Longrightarrow> clean e pre (remove_node es p)"
    and "list_all (\<lambda>s. \<not> skipped s) q \<Longrightarrow> file_at (remove_node es p) q = file_at es q"
  using assms
proof (induction p arbitrary: es pre q rule: induct_list012)
  case (2 s)
  { case 1 then show ?case by (simp add: visible_delete) }
  { case 2 then show ?case by (simp add: clean_delete) }
  { case 3 then show ?case by (cases q rule: list_shape) (auto simp: file_at_simps delete_conv') }
next
  case (3 s u r)
  { case 1
    then show ?case
      using "3.IH"(4) by (elim parents_dir) (auto intro!: visible_update_same) }
  { case 2
    then show ?case
      using "3.IH"(5) by (elim parents_dir) (auto intro!: clean_dir) }
  { case 3
    then show ?case
      using "3.IH"(6)
      by (elim parents_dir) (cases q rule: list_shape; auto simp: file_at_simps update_conv') }
qed simp_all


section \<open>Reading after an operation\<close>

abbreviation segs_of :: "jsstring \<Rightarrow> jsstring list" where
  "segs_of path \<equiv> split_on 47 path"

lemma read_file_iff:
  "read_file e es path = Inr (m, c) \<longleftrightarrow>
     path_ok (env_win e) (segs_of path) \<and> int (length c) \<le> maxFileBytes (env_limits e) \<and>
     (\<exists>md t. file_at es (segs_of path) = Some (c, md, t) \<and> m = metadata e path c t)"
proof (cases "validateWorkspacePath (env_win e) path")
  case (Inl err)
  then show ?thesis using validate_path_ok [of "env_win e" path path] by (auto simp: read_file_def)
next
  case (Inr n)
  then have n: "n = path" "path_ok (env_win e) (segs_of path)" by (simp_all add: validate_path_ok)
  show ?thesis
  proof (cases "resolveExistingFile es (segs_of path)")
    case (Inl err)
    then have "file_at es (segs_of path) \<noteq> Some x" for x
      using resolveExisting_iff [of "segs_of path" es x] by simp
    with Inl Inr n show ?thesis by (auto simp: read_file_def)
  next
    case (Inr r)
    then have "file_at es (segs_of path) = Some r" by (simp add: resolveExisting_iff)
    with Inr \<open>validateWorkspacePath (env_win e) path = Inr n\<close> n show ?thesis
      by (cases r) (auto simp: read_file_def)
  qed
qed

definition same_reads :: "env \<Rightarrow> entries \<Rightarrow> entries \<Rightarrow> bool" where
  "same_reads e es es' \<longleftrightarrow>
     (\<forall>q. path_ok (env_win e) (segs_of q) \<longrightarrow> file_at es' (segs_of q) = file_at es (segs_of q))"

lemma same_reads_refl [simp]: "same_reads e es es"
  by (simp add: same_reads_def)

lemma same_reads_read: "same_reads e es es' \<Longrightarrow> read_file e es' q = Inr x \<longleftrightarrow> read_file e es q = Inr x"
  by (cases x) (auto simp: read_file_iff same_reads_def)

lemma path_ok_shown: "path_ok win segs \<Longrightarrow> list_all (\<lambda>s. \<not> skipped s) segs"
  using prohibited_skipped by (auto simp: path_ok_def list_all_iff)

lemma readIfExists_cases:
  assumes "readIfExists e es path = Inr ex" "path_ok (env_win e) (segs_of path)"
  shows "case ex of
           None \<Rightarrow> get_node es (segs_of path) = None \<and> file_at es (segs_of path) = None
         | Some (m, mode) \<Rightarrow> \<exists>c md t. file_at es (segs_of path) = Some (c, md, t) \<and> m = metadata e path c t \<and>
                               mode = md mod 512 \<and> int (length c) \<le> maxFileBytes (env_limits e)"
proof (cases "read_file e es path")
  case (Inl err)
  from assms(2) have valid: "validateWorkspacePath (env_win e) path = Inr path" by (simp add: validate_path_ok)
  from Inl assms(1) obtain code where err: "err = WorkspaceError 404 code" and ex: "ex = None"
    by (auto simp: readIfExists_def split: ws_error.splits if_splits)
  have "resolveExistingFile es (segs_of path) = Inl err"
    using Inl valid err
    by (cases "resolveExistingFile es (segs_of path)") (auto simp: read_file_def too_large_def split: if_splits)
  then show ?thesis using resolveExisting_missing err ex by auto
next
  case (Inr x)
  obtain m c where x: "x = (m, c)" by (cases x)
  with Inr obtain md t where "file_at es (segs_of path) = Some (c, md, t)" "m = metadata e path c t"
    "int (length c) \<le> maxFileBytes (env_limits e)"
    by (auto simp: read_file_iff)
  moreover from this Inr x assms(1) have "ex = Some (m, md mod 512)" by (simp add: readIfExists_def)
  ultimately show ?thesis by auto
qed

lemma no_file_readIfExists:
  "path_ok (env_win e) (segs_of path) \<Longrightarrow> readIfExists e es path = Inr ex \<Longrightarrow> writable es (segs_of path) \<longleftrightarrow> open_way es (segs_of path)"
  by (frule (1) readIfExists_cases) (auto simp: writable_def split: option.splits prod.splits)

text \<open>The temporary name of a write, and what \<open>atomic_write\<close> leaves.\<close>

lemma skipped_temporary [simp]: "skipped (INTERNAL_WRITE_PREFIX @ uuid)"
  by (simp add: skipped_def)

lemma atomic_write_ok:
  assumes "atomic_write uuid mode now fault cleaned segs c es1 = (es2, True)" "parents es1 segs" "segs \<noteq> []"
  shows "es2 = put_node es1 segs (File c mode now)"
proof -
  let ?tmp = "butlast segs @ [INTERNAL_WRITE_PREFIX @ uuid]"
  have "get_node es1 ?tmp = None" "fault = None"
    using assms(1) by (auto simp: atomic_write_def Let_def split: option.splits write_step.splits if_splits)
  with assms remove_put [of es1 ?tmp] show ?thesis
    by (auto simp: atomic_write_def parents_butlast)
qed

lemma hidden_put_reads:
  assumes "parents es p" "p \<noteq> []" "skipped (last p)"
  shows "same_reads e es (put_node es p n)"
  unfolding same_reads_def using hidden_put(3) [OF assms] path_ok_shown by blast

lemma hidden_remove_reads:
  assumes "parents es p" "p \<noteq> []" "skipped (last p)"
  shows "same_reads e es (remove_node es p)"
  unfolding same_reads_def using hidden_remove(3) [OF assms] path_ok_shown by blast

lemma same_reads_trans: "same_reads e a b \<Longrightarrow> same_reads e b c \<Longrightarrow> same_reads e a c"
  by (simp add: same_reads_def)

text \<open>Two trees a client cannot tell apart by reads and listings.\<close>

definition same_view :: "env \<Rightarrow> entries \<Rightarrow> entries \<Rightarrow> bool" where
  "same_view e es es' \<longleftrightarrow>
     same_reads e es es' \<and> visible e [] es' = visible e [] es \<and> (clean e [] es \<longrightarrow> clean e [] es')"

lemma same_view_refl [simp]: "same_view e es es"
  by (simp add: same_view_def)

lemma same_view_trans: "same_view e a b \<Longrightarrow> same_view e b c \<Longrightarrow> same_view e a c"
  by (auto simp: same_view_def intro: same_reads_trans)

lemma same_view_scan: "same_view e es es' \<Longrightarrow> scan e es = Inr files \<Longrightarrow> scan e es' = Inr files"
  by (simp add: same_view_def scan_spec)

lemma same_view_put:
  "parents es p \<Longrightarrow> p \<noteq> [] \<Longrightarrow> skipped (last p) \<Longrightarrow> same_view e es (put_node es p n)"
  by (simp add: same_view_def hidden_put_reads hidden_put)

lemma same_view_remove:
  "parents es p \<Longrightarrow> p \<noteq> [] \<Longrightarrow> skipped (last p) \<Longrightarrow> same_view e es (remove_node es p)"
  by (simp add: same_view_def hidden_remove_reads hidden_remove)

lemma parents_put: "parents es p \<Longrightarrow> parents (put_node es p n) p"
  by (induction es p rule: parents.induct) (auto simp: update_conv' split: option.splits node.splits)

lemma atomic_write_failed:
  assumes "atomic_write uuid mode now fault cleaned segs c es1 = (es2, False)" "parents es1 segs" "segs \<noteq> []"
  shows "same_view e es1 es2"
proof -
  define tmp where "tmp = butlast segs @ [INTERNAL_WRITE_PREFIX @ uuid]"
  have tmp: "parents es1 tmp" "tmp \<noteq> []" "skipped (last tmp)"
    using assms by (simp_all add: tmp_def parents_butlast)
  have put: "same_view e es1 (put_node es1 tmp n)" "parents (put_node es1 tmp n) tmp" for n
    using tmp by (simp_all add: same_view_put parents_put)
  have rm: "same_view e es1 (remove_node es1 tmp)" "same_view e es1 (remove_node (put_node es1 tmp n) tmp)" for n
    using tmp put same_view_remove same_view_trans by blast+
  have "es2 \<in> {es1, remove_node es1 tmp} \<union> (\<Union>n. {put_node es1 tmp n, remove_node (put_node es1 tmp n) tmp})"
    using assms(1) unfolding atomic_write_def Let_def tmp_def [symmetric]
    by (auto split: if_splits option.splits write_step.splits node.splits)
  with put rm show ?thesis by auto
qed

lemma resolveForWrite_visible: "resolveForWrite es p = Inr es1 \<Longrightarrow> visible e pre es1 = visible e pre es"
proof (induction p arbitrary: es es1 pre rule: induct_list012)
  case (3 s u r)
  from "3.prems" obtain sub sub1 where "es1 = AList.update s (Dir sub1) es"
    "resolveForWrite sub (u # r) = Inr sub1" "map_of es s = Some (Dir sub) \<or> (map_of es s = None \<and> sub = [])"
    by (rule resolveForWrite_down)
  with "3.IH"(2) [of sub sub1 "child_path pre s"] show ?case
    by (auto intro!: visible_update_same)
qed auto

lemma resolveForWrite_clean:
  "resolveForWrite es p = Inr es1 \<Longrightarrow> way_ok e pre p \<Longrightarrow> clean e pre es \<Longrightarrow> clean e pre es1"
proof (induction p arbitrary: es es1 pre rule: induct_list012)
  case (3 s u r)
  from "3.prems"(1) obtain sub sub1 where sub: "es1 = AList.update s (Dir sub1) es"
    "resolveForWrite sub (u # r) = Inr sub1" "map_of es s = Some (Dir sub) \<or> (map_of es s = None \<and> sub = [])"
    by (rule resolveForWrite_down)
  have "clean e (child_path pre s) sub"
    using sub(3) "3.prems"(2,3) clean_sub [of e pre es s sub] by auto
  with "3.IH"(2) [OF sub(2), of "child_path pre s"] "3.prems"(2,3) sub(1) show ?case
    by (auto intro!: clean_update)
qed auto

lemma same_view_resolve:
  assumes "resolveForWrite es segs = Inr es1" "path_ok (env_win e) segs"
  shows "same_view e es es1"
  using resolveForWrite_visible [OF assms(1)] resolveForWrite_clean [OF assms(1), of e "[]"]
    valid_way [OF assms(2)] file_at_resolve [OF assms(1)]
  by (simp add: same_view_def same_reads_def)

section \<open>The outcomes of a write and of a deletion\<close>

definition allows :: "precondition \<Rightarrow> (WorkspaceFileMetadata \<times> nat) option \<Rightarrow> bool" where
  "allows pre existing =
     (case pre of
        Create \<Rightarrow> existing = None
      | Update etag \<Rightarrow> (case existing of None \<Rightarrow> False | Some (m, _) \<Rightarrow> meta_etag m = etag))"

definition fits :: "env \<Rightarrow> WorkspaceFileMetadata list \<Rightarrow> (WorkspaceFileMetadata \<times> nat) option \<Rightarrow> bytes \<Rightarrow> bool" where
  "fits e files existing c \<longleftrightarrow>
     (existing = None \<longrightarrow> int (length files) < maxEntries (env_limits e)) \<and>
     int (sizes files) - (case existing of None \<Rightarrow> 0 | Some (m, _) \<Rightarrow> int (meta_size m)) + int (length c)
       \<le> maxWorkspaceBytes (env_limits e)"

lemma write_outcomes:
  assumes "write_file e uuid now fault cleaned path c pre es = (es', r)"
  obtains (refused) err where "es' = es" "r = Inl err"
    | (attempted) existing files es1 mode ok where
        "path_ok (env_win e) (segs_of path)" "int (length c) \<le> maxFileBytes (env_limits e)"
        "readIfExists e es path = Inr existing" "allows pre existing"
        "scan e es = Inr files" "fits e files existing c"
        "resolveForWrite es (segs_of path) = Inr es1"
        "atomic_write uuid mode now fault cleaned (segs_of path) c es1 = (es', ok)"
        "r = (if ok then (case read_file e es' path of Inl err \<Rightarrow> Inl err | Inr (m, _) \<Rightarrow> Inr m) else Inl IoFailure)"
proof (cases "\<exists>err. es' = es \<and> r = Inl err")
  case True
  then show ?thesis using refused by blast
next
  case False
  have refuse: "(case pre of Create \<Rightarrow> ex \<noteq> None
      | Update etag \<Rightarrow> (case ex of None \<Rightarrow> True | Some (m, _) \<Rightarrow> meta_etag m \<noteq> etag)) \<longleftrightarrow> \<not> allows pre ex" for ex
    by (auto simp: allows_def split: precondition.splits option.splits prod.splits)
  have fit_iff: "fits e files ex c \<longleftrightarrow>
      \<not> (ex = None \<and> maxEntries (env_limits e) \<le> int (length files)) \<and>
      \<not> int (sum_list (map meta_size files)) - (case ex of None \<Rightarrow> 0 | Some (m, _) \<Rightarrow> int (meta_size m)) + int (length c)
        > maxWorkspaceBytes (env_limits e)" for files ex
    by (auto simp: fits_def sizes_def)
  from False assms obtain n existing where n: "validateWorkspacePath (env_win e) path = Inr n"
    and ex: "readIfExists e es n = Inr existing"
    by (auto simp: write_file_def split: sum.splits if_splits)
  then have path: "n = path" "path_ok (env_win e) (segs_of path)" by (simp_all add: validate_path_ok)
  with False assms n ex obtain files es1 where
    len: "int (length c) \<le> maxFileBytes (env_limits e)" and al: "allows pre existing" and
    sc: "scan e es = Inr files" and fit: "fits e files existing c" and rw: "resolveForWrite es (segs_of path) = Inr es1"
    unfolding write_file_def refuse by (auto simp: fit_iff split: sum.splits if_splits)
  define mode where "mode = (case existing of None \<Rightarrow> 384 | Some (_, mode) \<Rightarrow> mode)"
  obtain es2 ok where at: "atomic_write uuid mode now fault cleaned (segs_of path) c es1 = (es2, ok)"
    by (cases "atomic_write uuid mode now fault cleaned (segs_of path) c es1")
  have "es' = es2 \<and>
    r = (if ok then (case read_file e es2 path of Inl err \<Rightarrow> Inl err | Inr (m, _) \<Rightarrow> Inr m) else Inl IoFailure)"
    using assms n path ex len al sc fit rw at fit_iff [of files existing]
    unfolding write_file_def refuse mode_def by (auto split: if_splits)
  with attempted path len ex al sc fit rw at show ?thesis by blast
qed

lemma attempted_writable:
  assumes "readIfExists e es path = Inr ex" "path_ok (env_win e) (segs_of path)"
    "resolveForWrite es (segs_of path) = Inr es1"
  shows "writable es (segs_of path)"
  using no_file_readIfExists [OF assms(2,1)] resolveForWrite_open [OF assms(3)] by simp

lemma atomic_write_put:
  assumes "atomic_write uuid mode now fault cleaned (segs_of path) c es1 = (es', True)"
    "resolveForWrite es (segs_of path) = Inr es1"
  shows "es' = put_node es (segs_of path) (File c mode now)"
  using atomic_write_ok [OF assms(1)] resolveForWrite_parents [OF assms(2)] put_after_resolve [OF assms(2)] by simp

lemma put_reads:
  assumes "writable es (segs_of path)" "path_ok (env_win e) (segs_of path)"
    "int (length c) \<le> maxFileBytes (env_limits e)"
  shows "read_file e (put_node es (segs_of path) (File c mode now)) path = Inr (metadata e path c now, c)"
    "q \<noteq> path \<Longrightarrow> read_file e (put_node es (segs_of path) (File c mode now)) q = Inr x \<longleftrightarrow> read_file e es q = Inr x"
  using assms split_on_inject [of 47 q path] by (cases x; auto simp: read_file_iff file_at_put)+

lemma write_succeeded:
  assumes "write_file e uuid now fault cleaned path c pre es = (es', Inr m)"
  obtains existing files mode where
    "path_ok (env_win e) (segs_of path)" "int (length c) \<le> maxFileBytes (env_limits e)"
    "readIfExists e es path = Inr existing" "allows pre existing"
    "scan e es = Inr files" "fits e files existing c" "writable es (segs_of path)"
    "es' = put_node es (segs_of path) (File c mode now)" "m = metadata e path c now"
  using assms
proof (cases rule: write_outcomes)
  case (attempted existing files es1 mode ok)
  have ok: ok using attempted(9) by (cases ok) auto
  have w: "writable es (segs_of path)" using attempted(3,1,7) by (rule attempted_writable)
  have put: "es' = put_node es (segs_of path) (File c mode now)"
    using attempted(8,7) ok by (simp add: atomic_write_put)
  have "m = metadata e path c now"
    using attempted(9) ok put_reads(1) [OF w attempted(1,2), of mode now] put by simp
  with attempted w put that show ?thesis by blast
qed simp

lemma write_failed:
  assumes "write_file e uuid now fault cleaned path c pre es = (es', Inl err)"
  shows "same_view e es es'"
  using assms
proof (cases rule: write_outcomes)
  case (attempted existing files es1 mode ok)
  have w: "writable es (segs_of path)" using attempted(3,1,7) by (rule attempted_writable)
  have "\<not> ok"
  proof
    assume ok
    then have put: "es' = put_node es (segs_of path) (File c mode now)"
      using attempted(8,7) by (simp add: atomic_write_put)
    show False using attempted(9) \<open>ok\<close> put_reads(1) [OF w attempted(1,2), of mode now] put by simp
  qed
  then have "same_view e es1 es'"
    using attempted(8) resolveForWrite_parents [OF attempted(7)] by (intro atomic_write_failed) auto
  with same_view_resolve [OF attempted(7,1)] show ?thesis by (rule same_view_trans)
qed simp

lemma allowed_read:
  assumes "readIfExists e es path = Inr existing" "path_ok (env_win e) (segs_of path)" "allows pre existing"
  shows "case pre of Create \<Rightarrow> \<forall>x. read_file e es path \<noteq> Inr x
         | Update etag \<Rightarrow> \<exists>m0 c0. read_file e es path = Inr (m0, c0) \<and> meta_etag m0 = etag"
  using readIfExists_cases [OF assms(1,2)] assms(2,3)
  by (cases pre) (auto simp: allows_def read_file_iff split: option.splits)

lemma put_listing:
  assumes scan: "scan e es = Inr files" and fits: "fits e files existing c"
    and ex: "readIfExists e es path = Inr existing" and path: "path_ok (env_win e) (segs_of path)"
    and len: "int (length c) \<le> maxFileBytes (env_limits e)" and w: "writable es (segs_of path)"
  shows "\<exists>files'. scan e (put_node es (segs_of path) (File c mode now)) = Inr files' \<and>
           metadata e path c now \<in> set files' \<and> int (length files') \<le> maxEntries (env_limits e) \<and>
           int (sizes files') \<le> maxWorkspaceBytes (env_limits e)"
proof -
  let ?es = "put_node es (segs_of path) (File c mode now)"
  let ?m = "metadata e path c now"
  let ?vis = "visible e [] ?es" and ?old = "visible e [] es"
  have way: "way_ok e [] (segs_of path)" "full_path [] (segs_of path) = path"
    using valid_way [OF path] by simp_all
  have old: "clean e [] es" "room e 0 0 ?old" and files: "length files = length ?old" "sizes files = sizes ?old"
    using scan by (auto simp: scan_spec sizes_def)
  have put: "total f ?vis + (case file_at es (segs_of path) of None \<Rightarrow> 0 | Some (c0, m0, t0) \<Rightarrow> f (metadata e path c0 t0)) =
      total f ?old + f ?m" for f
    using visible_put [OF w way(1), of f c mode now] by (simp only: way(2))
  have tot: "total (\<lambda>_. Suc 0) fs = length fs" "total meta_size fs = sizes fs" for fs
    by (simp_all add: total_def sizes_def sum_list_triv)
  have mem: "?m \<in> set ?vis"
    using visible_member [OF w way(1), of c now mode] by (simp only: way(2))
  then have "?vis \<noteq> []" by auto
  note cases = readIfExists_cases [OF ex path] and facts = \<open>?vis \<noteq> []\<close> fits old(2) files
  have "int (length ?vis) \<le> maxEntries (env_limits e)"
    using put [of "\<lambda>_. Suc 0"] cases facts
    by (cases existing) (auto simp: tot fits_def room_def)
  moreover have "int (sizes ?vis) \<le> maxWorkspaceBytes (env_limits e)"
    using put [of meta_size] cases facts
    by (cases existing) (auto simp: tot fits_def room_def)
  moreover have "clean e [] ?es" using clean_put [OF old(1) w way(1) len] .
  ultimately show ?thesis using mem by (auto simp: scan_spec room_def sizes_def)
qed

lemma delete_succeeded:
  assumes "delete_file e path etag es = (es', Inr ())"
  obtains m c where "path_ok (env_win e) (segs_of path)" "read_file e es path = Inr (m, c)" "meta_etag m = etag"
    "es' = remove_node es (segs_of path)" "file_at es (segs_of path) \<noteq> None"
proof -
  obtain n existing where n: "validateWorkspacePath (env_win e) path = Inr n" and ex: "readIfExists e es n = Inr existing"
    using assms by (auto simp: delete_file_def split: sum.splits)
  then have path: "n = path" "path_ok (env_win e) (segs_of path)" by (simp_all add: validate_path_ok)
  with n ex assms obtain m mode where m: "existing = Some (m, mode)" "meta_etag m = etag"
    "es' = remove_node es (segs_of path)"
    by (cases existing) (auto simp: delete_file_def split: if_splits sum.splits)
  moreover have "\<exists>c. read_file e es path = Inr (m, c) \<and> file_at es (segs_of path) \<noteq> None"
    using readIfExists_cases [OF ex [unfolded path(1)] path(2)] m path(2) by (auto simp: read_file_iff)
  ultimately show ?thesis using path(2) that by blast
qed

lemma delete_failed: "delete_file e path etag es = (es', Inl err) \<Longrightarrow> es' = es"
  by (auto simp: delete_file_def split: sum.splits if_splits)

lemma remove_reads:
  assumes "file_at es (segs_of path) \<noteq> None" "path_ok (env_win e) (segs_of path)"
  shows "read_file e (remove_node es (segs_of path)) path \<noteq> Inr x"
    "q \<noteq> path \<Longrightarrow> read_file e (remove_node es (segs_of path)) q = Inr x \<longleftrightarrow> read_file e es q = Inr x"
  using assms split_on_inject [of 47 q path] by (cases x; auto simp: read_file_iff file_at_remove)+

section \<open>The interface of the store\<close>

text \<open>
  A client of the store sees files with a tag. A \<open>Put\<close> without a tag creates, with a tag it replaces the
  content that has this tag; \<open>'x\<close> is what a write takes from outside (time, random name, failures).
\<close>

datatype ('x, 'p, 'c, 'tag) store_op = Put 'x 'p 'c "'tag option" | Del 'p 'tag

fun effect :: "('x, 'p, 'c, 'tag) store_op \<times> bool \<Rightarrow> ('p \<rightharpoonup> 'c) \<Rightarrow> 'p \<rightharpoonup> 'c" where
  "effect (op, False) m = m"
| "effect (Put x p c pre, True) m = m(p \<mapsto> c)"
| "effect (Del p t, True) m = m(p := None)"

fun creates :: "'p \<Rightarrow> ('x, 'p, 'c, 'tag) store_op \<times> bool \<Rightarrow> bool" where
  "creates p (Put x q c pre, ok) = (ok \<and> q = p \<and> pre = None)"
| "creates p _ = False"

fun deletes :: "'p \<Rightarrow> ('x, 'p, 'c, 'tag) store_op \<Rightarrow> bool" where
  "deletes p (Del q t) = (q = p)"
| "deletes p _ = False"

locale file_store =
  fixes get :: "'st \<Rightarrow> 'p \<Rightarrow> ('tag \<times> 'c) option"
    and step :: "'st \<Rightarrow> ('x, 'p, 'c, 'tag) store_op \<Rightarrow> 'st \<times> bool"
    and tag_of :: "'c \<Rightarrow> 'tag"
  assumes get_tag: "get st p = Some (t, c) \<Longrightarrow> t = tag_of c"
    and put_ok: "step st (Put x p c pre) = (st', True) \<Longrightarrow>
      get st' p = Some (tag_of c, c) \<and> (\<forall>q. q \<noteq> p \<longrightarrow> get st' q = get st q) \<and>
      (case pre of None \<Rightarrow> get st p = None | Some t \<Rightarrow> \<exists>c0. get st p = Some (t, c0))"
    and del_ok: "step st (Del p t) = (st', True) \<Longrightarrow>
      get st' p = None \<and> (\<forall>q. q \<noteq> p \<longrightarrow> get st' q = get st q) \<and> (\<exists>c0. get st p = Some (t, c0))"
    and refused: "step st op = (st', False) \<Longrightarrow> get st' q = get st q"
begin

definition contents :: "'st \<Rightarrow> 'p \<rightharpoonup> 'c" where
  "contents st = map_option snd \<circ> get st"

lemma step_effect: "step st op = (st', ok) \<Longrightarrow> contents st' = effect (op, ok) (contents st)"
proof (cases ok; cases op)
  fix x p c pre
  assume "step st op = (st', ok)" ok "op = Put x p c pre"
  then show ?thesis using put_ok [of st x p c pre st'] by (auto simp: contents_def fun_eq_iff)
next
  fix p t
  assume "step st op = (st', ok)" ok "op = Del p t"
  then show ?thesis using del_ok [of st p t st'] by (auto simp: contents_def fun_eq_iff)
qed (use refused [of st op st'] in \<open>auto simp: contents_def fun_eq_iff\<close>)

lemma run_effects:
  "run_ops step st ops = (st', oks) \<Longrightarrow> contents st' = fold effect (zip ops oks) (contents st)"
proof (induction ops arbitrary: st oks)
  case (Cons op ops)
  obtain st1 ok where s: "step st op = (st1, ok)" by (cases "step st op")
  with Cons.prems obtain oks' where "run_ops step st1 ops = (st', oks')" "oks = ok # oks'"
    by (auto simp: Let_def split: prod.splits)
  with Cons.IH [of st1 oks'] step_effect [OF s] show ?case by simp
qed simp

text \<open>A successful replacement was made on the very content the client's tag stands for.\<close>

lemma no_lost_update:
  assumes "step st (Put x p c (Some (tag_of base))) = (st', True)" "contents st p = Some current"
  shows "tag_of current = tag_of base"
  using put_ok [OF assms(1)] assms(2) get_tag by (auto simp: contents_def)

lemma creates_step:
  assumes "step st op = (st', ok)" "\<not> deletes p op"
  shows "creates p (op, ok) \<Longrightarrow> get st p = None \<and> get st' p \<noteq> None"
    and "get st p \<noteq> None \<Longrightarrow> get st' p \<noteq> None"
proof -
  have "creates p (op, ok) \<longrightarrow> get st p = None \<and> get st' p \<noteq> None"
    using assms put_ok by (cases op; cases ok) fastforce+
  moreover have "get st p \<noteq> None \<longrightarrow> get st' p \<noteq> None"
  proof (cases ok)
    case True
    with assms show ?thesis
    proof (cases op)
      case (Put x q c pre)
      with assms True put_ok [of st x q c pre st'] show ?thesis by (cases "q = p") auto
    next
      case (Del q t)
      with assms True del_ok [of st q t st'] show ?thesis by auto
    qed
  next
    case False
    with assms refused [of st op st' p] show ?thesis by simp
  qed
  ultimately show "creates p (op, ok) \<Longrightarrow> get st p = None \<and> get st' p \<noteq> None"
    "get st p \<noteq> None \<Longrightarrow> get st' p \<noteq> None" by blast+
qed

lemma single_creator:
  assumes "run_ops step st ops = (st', oks)" "\<forall>op\<in>set ops. \<not> deletes p op"
  shows "length (filter (creates p) (zip ops oks)) \<le> (if get st p = None then 1 else 0)"
  using assms
proof (induction ops arbitrary: st oks)
  case (Cons op ops)
  obtain st1 ok where s: "step st op = (st1, ok)" by (cases "step st op")
  with Cons.prems obtain oks' where "run_ops step st1 ops = (st', oks')" "oks = ok # oks'"
    by (auto simp: Let_def split: prod.splits)
  with Cons.IH [of st1 oks'] Cons.prems(2) creates_step [OF s, of p] show ?case
    by (auto split: if_splits)
qed simp

end

section \<open>The store behind the interface\<close>

definition store_get :: "env \<Rightarrow> entries \<Rightarrow> jsstring \<Rightarrow> (jsstring \<times> bytes) option" where
  "store_get e es path = (case read_file e es path of Inl _ \<Rightarrow> None | Inr (m, c) \<Rightarrow> Some (meta_etag m, c))"

fun store_step ::
  "env \<Rightarrow> entries \<Rightarrow> (jsstring \<times> int \<times> write_step option \<times> bool, jsstring, bytes, jsstring) store_op \<Rightarrow> entries \<times> bool"
where
  "store_step e es (Put (uuid, now, fault, cleaned) path c pre) =
     (let (es', r) = write_file e uuid now fault cleaned path c
                       (case pre of None \<Rightarrow> Create | Some etag \<Rightarrow> Update etag) es
      in (es', is_ok r))"
| "store_step e es (Del path etag) = (let (es', r) = delete_file e path etag es in (es', is_ok r))"

lemma store_get_Some: "store_get e es path = Some (t, c) \<longleftrightarrow> (\<exists>m. read_file e es path = Inr (m, c) \<and> t = meta_etag m)"
  by (auto simp: store_get_def split: sum.splits)

lemma store_get_None: "store_get e es path = None \<longleftrightarrow> (\<forall>x. read_file e es path \<noteq> Inr x)"
  by (auto simp: store_get_def split: sum.splits)

lemma store_get_cong:
  assumes "\<And>x. read_file e es' path = Inr x \<longleftrightarrow> read_file e es path = Inr x"
  shows "store_get e es' path = store_get e es path"
proof (cases "read_file e es path")
  case (Inl err)
  with assms show ?thesis by (cases "read_file e es' path") (auto simp: store_get_def)
next
  case (Inr x)
  with assms [of x] show ?thesis by (simp add: store_get_def)
qed

lemma write_step_ok:
  assumes "store_step e es (Put x path c pre) = (es', True)"
  shows "store_get e es' path = Some (createEtag (env_sha e) c, c) \<and>
    (\<forall>q. q \<noteq> path \<longrightarrow> store_get e es' q = store_get e es q) \<and>
    (case pre of None \<Rightarrow> store_get e es path = None | Some t \<Rightarrow> \<exists>c0. store_get e es path = Some (t, c0))"
proof -
  obtain uuid now fault cleaned where x: "x = (uuid, now, fault, cleaned)" by (cases x)
  define pc where "pc = (case pre of None \<Rightarrow> Create | Some etag \<Rightarrow> Update etag)"
  obtain m where w: "write_file e uuid now fault cleaned path c pc es = (es', Inr m)"
    using assms by (auto simp: x pc_def [symmetric] elim: is_okE split: prod.splits)
  then show ?thesis
  proof (cases rule: write_succeeded)
    case (1 existing files mode)
    note put = put_reads [OF 1(7,1,2), where mode = mode and now = now]
    have "store_get e es' path = Some (createEtag (env_sha e) c, c)"
      using put(1) 1(8) by (simp add: store_get_Some metadata_def)
    moreover have "\<forall>q. q \<noteq> path \<longrightarrow> store_get e es' q = store_get e es q"
      using put(2) 1(8) store_get_cong by metis
    moreover have "case pre of None \<Rightarrow> store_get e es path = None | Some t \<Rightarrow> \<exists>c0. store_get e es path = Some (t, c0)"
      using allowed_read [OF 1(3,1,4)] unfolding store_get_None store_get_Some pc_def
      by (cases pre) auto
    ultimately show ?thesis by blast
  qed
qed

lemma delete_step_ok:
  assumes "store_step e es (Del path t) = (es', True)"
  shows "store_get e es' path = None \<and> (\<forall>q. q \<noteq> path \<longrightarrow> store_get e es' q = store_get e es q) \<and>
    (\<exists>c0. store_get e es path = Some (t, c0))"
proof -
  have "delete_file e path t es = (es', Inr ())"
    using assms by (auto elim: is_okE split: prod.splits)
  then show ?thesis
  proof (cases rule: delete_succeeded)
    case (1 m c)
    note rm = remove_reads [OF 1(5,1)]
    have "store_get e es' path = None" unfolding store_get_None 1(4) using rm(1) by blast
    moreover have "\<forall>q. q \<noteq> path \<longrightarrow> store_get e es' q = store_get e es q"
      using rm(2) 1(4) store_get_cong by metis
    ultimately show ?thesis using 1(2,3) by (auto simp: store_get_Some)
  qed
qed

lemma step_refused: "store_step e es op = (es', False) \<Longrightarrow> same_view e es es'"
proof (cases op)
  case (Put x path c pre)
  assume s: "store_step e es op = (es', False)"
  obtain uuid now fault cleaned where x: "x = (uuid, now, fault, cleaned)" by (cases x)
  obtain r where w: "write_file e uuid now fault cleaned path c (case pre of None \<Rightarrow> Create | Some etag \<Rightarrow> Update etag) es
      = (es', r)" "\<not> is_ok r"
    using s by (auto simp: Put x split: prod.splits)
  then show ?thesis by (cases r) (auto intro: write_failed)
next
  case (Del path t)
  assume "store_step e es op = (es', False)"
  then obtain r where "delete_file e path t es = (es', r)" "\<not> is_ok r"
    by (auto simp: Del split: prod.splits)
  then show ?thesis by (cases r) (auto dest: delete_failed)
qed

interpretation workspace_files: file_store "store_get e" "store_step e" "createEtag (env_sha e)" for e
proof
  fix st p t c assume "store_get e st p = Some (t, c)"
  then show "t = createEtag (env_sha e) c"
    by (auto simp: store_get_Some read_file_iff metadata_def)
next
  fix st op st' q assume "store_step e st op = (st', False)"
  then have "same_reads e st st'" by (simp add: step_refused [unfolded same_view_def])
  then show "store_get e st' q = store_get e st q" by (intro store_get_cong same_reads_read)
qed (fact write_step_ok delete_step_ok)+

section \<open>Properties\<close>

text \<open>
  C10: a successful write is what the next read returns. The request's precondition held (nothing could
  be read for a creation, the content with the expected tag for an update), the answer is the metadata
  of the new content, every other path reads as before, and the next listing succeeds, shows the file,
  and is within the limits on entries and total size.
\<close>

theorem workspace_write:
  assumes "write_file e uuid now fault cleaned path c pre es = (es', Inr m)"
  shows "read_file e es' path = Inr (m, c) \<and> m = metadata e path c now \<and>
    (case pre of Create \<Rightarrow> \<forall>x. read_file e es path \<noteq> Inr x
     | Update etag \<Rightarrow> \<exists>m0 c0. read_file e es path = Inr (m0, c0) \<and> meta_etag m0 = etag) \<and>
    (\<forall>q x. q \<noteq> path \<longrightarrow> read_file e es' q = Inr x \<longleftrightarrow> read_file e es q = Inr x) \<and>
    (\<exists>files. scan e es' = Inr files \<and> m \<in> set files \<and> int (length files) \<le> maxEntries (env_limits e) \<and>
       int (sizes files) \<le> maxWorkspaceBytes (env_limits e))"
  using assms
proof (cases rule: write_succeeded)
  case (1 existing files mode)
  show ?thesis
    using put_reads [OF 1(7,1,2), where mode = mode and now = now] allowed_read [OF 1(3,1,4)]
      put_listing [OF 1(5,6,3,1,2,7), of mode now] 1(8,9)
    by blast
qed

definition demo_env :: env where
  "demo_env = \<lparr>env_win = False, env_limits = \<lparr>maxFileBytes = 8, maxEntries = 3, maxWorkspaceBytes = 16\<rparr>,
     env_sha = take 32, env_le = (\<lambda>a b. length a \<le> length b)\<rparr>"

definition demo_tree :: entries where
  "demo_tree = [(js ''a.tex'', File [1, 2] 420 5), (js ''.git'', Dir [])]"

definition demo_tree' :: entries where
  "demo_tree' = [(js ''a.tex'', File [1, 2] 420 5), (js ''.git'', Dir []), (js ''b'', Dir [(js ''c.tex'', File [7] 384 9)])]"

lemma byte_length_ascii_list: "list_all (\<lambda>c. c < 128) s \<Longrightarrow> byte_length s = length s"
  by (rule byte_length_ascii) (simp add: list_all_iff)

lemmas demo_path = validateWorkspacePath_def prohibited_segment_def js_def posix_isAbsolute_def
  INTERNAL_WRITE_PREFIX_def MAX_PATH_BYTES_def MAX_SEGMENT_BYTES_def MAX_PATH_DEPTH_def byte_length_ascii_list

lemma demo_write:
  "write_file demo_env [120] 9 None True (js ''b/c.tex'') [7] Create demo_tree =
     (demo_tree', Inr (metadata demo_env (js ''b/c.tex'') [7] 9))"
proof -
  let ?p = "js ''b/c.tex''"
  have valid: "validateWorkspacePath False ?p = Inr ?p" by (simp add: demo_path)
  have read: "readIfExists demo_env demo_tree ?p = Inr None"
    by (simp add: readIfExists_def read_file_def valid demo_env_def demo_tree_def) (simp add: js_def)
  have scan: "scan demo_env demo_tree = Inr [metadata demo_env (js ''a.tex'') [1, 2] 5]"
    by (simp add: scan_def demo_env_def demo_tree_def demo_path skipped_def child_path_def sort_by_def)
  have rw: "resolveForWrite demo_tree (segs_of ?p) = Inr [(js ''a.tex'', File [1, 2] 420 5), (js ''.git'', Dir []), (js ''b'', Dir [])]"
    by (simp add: demo_tree_def js_def)
  have at: "atomic_write [120] 384 9 None True (segs_of ?p) [7] [(js ''a.tex'', File [1, 2] 420 5), (js ''.git'', Dir []), (js ''b'', Dir [])]
      = (demo_tree', True)"
    by (simp add: atomic_write_def demo_tree'_def js_def INTERNAL_WRITE_PREFIX_def)
  have after: "read_file demo_env demo_tree' ?p = Inr (metadata demo_env ?p [7] 9, [7])"
    by (simp add: read_file_def valid demo_env_def demo_tree'_def) (simp add: js_def)
  show ?thesis
    using valid read scan rw at after
    by (simp add: write_file_def demo_env_def)
qed

theorem workspace_write_witness:
  "\<exists>es' m. write_file demo_env [120] 9 None True (js ''b/c.tex'') [7] Create demo_tree = (es', Inr m) \<and>
     read_file demo_env es' (js ''b/c.tex'') = Inr (m, [7])"
  using workspace_write [OF demo_write] demo_write by blast


lemma demo_failed_write:
  "write_file demo_env [120] 9 (Some RenameStep) False (js ''a.tex'') [7] (Update (createEtag (take 32) [1, 2])) demo_tree =
     (demo_tree @ [(js ''.typr-companion-write-x'', File [7] 420 9)], Inl IoFailure)"
proof -
  let ?p = "js ''a.tex''"
  have valid: "validateWorkspacePath False ?p = Inr ?p" by (simp add: demo_path)
  have read: "readIfExists demo_env demo_tree ?p = Inr (Some (metadata demo_env ?p [1, 2] 5, 420))"
    by (simp add: readIfExists_def read_file_def valid demo_env_def demo_tree_def) (simp add: js_def file_at_def)
  have scan: "scan demo_env demo_tree = Inr [metadata demo_env ?p [1, 2] 5]"
    by (simp add: scan_def demo_env_def demo_tree_def demo_path skipped_def child_path_def sort_by_def)
  have rw: "resolveForWrite demo_tree (segs_of ?p) = Inr demo_tree"
    by (simp add: demo_tree_def js_def)
  have at: "atomic_write [120] 420 9 (Some RenameStep) False (segs_of ?p) [7] demo_tree
      = (demo_tree @ [(js ''.typr-companion-write-x'', File [7] 420 9)], False)"
    by (simp add: atomic_write_def demo_tree_def js_def INTERNAL_WRITE_PREFIX_def)
  show ?thesis
    using valid read scan rw at
    by (simp add: write_file_def demo_env_def metadata_def)
qed


text \<open>The contents a client can read.\<close>

definition contents_at :: "env \<Rightarrow> entries \<Rightarrow> jsstring \<rightharpoonup> bytes" where
  "contents_at e es path = map_option snd (store_get e es path)"

lemma contents_at: "contents_at e es = workspace_files.contents e es"
  by (auto simp: contents_at_def workspace_files.contents_def)


text \<open>
  Of any sequence of operations without a deletion of a path, at most one creation of the path
  succeeds, and none if it could be read before.
\<close>

theorem workspace_single_creator:
  assumes "\<forall>op\<in>set ops. \<not> deletes path op"
  shows "length (filter (creates path) (zip ops (snd (run_ops (store_step e) es ops)))) \<le>
    (if contents_at e es path = None then 1 else 0)"
  using workspace_files.single_creator [OF prod.collapse [symmetric] assms]
  by (simp add: contents_at_def)

definition demo_ops :: "(jsstring \<times> int \<times> write_step option \<times> bool, jsstring, bytes, jsstring) store_op list" where
  "demo_ops = [Put ([120], 9, None, True) (js ''b.tex'') [7] None, Put ([121], 9, None, True) (js ''b.tex'') [8] None]"

theorem workspace_single_creator_witness:
  "length (filter (creates (js ''b.tex'')) (zip demo_ops (snd (run_ops (store_step demo_env) demo_tree demo_ops)))) \<le> 1"
  by (rule order_trans [OF workspace_single_creator]) (simp_all add: demo_ops_def)

end
