(* ===== verification/SandboxPolicy.thy ===== *)
theory SandboxPolicy
  imports Prelude
begin

text \<open>
  \<^verbatim>\<open>typr-server/sandboxPolicy.ts\<close>: which launcher native compilers run under, and the check of the
  container's mount table before a weaker boundary is accepted. Whether the launcher is executable and
  its probe succeeds, and the contents of \<^verbatim>\<open>/proc/self/mountinfo\<close> (\<open>None\<close>: it cannot be read), are
  parameters, with the default checks of the code.
\<close>

section \<open>The mount table\<close>

datatype mount_error =
    RelativeWorkspaceRoot
  | RelativeTexCacheRoot
  | MalformedMountLine
  | UnexpectedMount jsstring
  | WorkspaceNotMounted
  | TexCacheNotMounted
  | MountInfoUnreadable

text \<open>The octal escapes of space, tab, line feed and backslash.\<close>

fun decodeMountInfoPath :: "jsstring \<Rightarrow> jsstring" where
  "decodeMountInfoPath (a # b # c # d # r) =
     (if a = 92 \<and> [b, c, d] = js ''040'' then 32 # decodeMountInfoPath r
      else if a = 92 \<and> [b, c, d] = js ''011'' then 9 # decodeMountInfoPath r
      else if a = 92 \<and> [b, c, d] = js ''012'' then 10 # decodeMountInfoPath r
      else if a = 92 \<and> [b, c, d] = js ''134'' then 92 # decodeMountInfoPath r
      else a # decodeMountInfoPath (b # c # d # r))"
| "decodeMountInfoPath s = s"

definition isStandardContainerMount :: "jsstring \<Rightarrow> jsstring \<Rightarrow> bool" where
  "isStandardContainerMount mountPoint filesystemType \<longleftrightarrow>
     mountPoint = js ''/'' \<or> (mountPoint = js ''/tmp'' \<and> filesystemType = js ''tmpfs'') \<or>
     mountPoint = js ''/etc/hosts'' \<or> mountPoint = js ''/etc/hostname'' \<or> mountPoint = js ''/etc/resolv.conf'' \<or>
     ((mountPoint = js ''/proc'' \<or> prefix (js ''/proc/'') mountPoint) \<and>
        filesystemType \<in> set (map js [''proc'', ''tmpfs''])) \<or>
     ((mountPoint = js ''/sys'' \<or> prefix (js ''/sys/'') mountPoint) \<and>
        filesystemType \<in> set (map js [''sysfs'', ''cgroup'', ''cgroup2'', ''tmpfs''])) \<or>
     (mountPoint \<in> set (map js [''/dev'', ''/dev/pts'', ''/dev/mqueue'', ''/dev/shm'']) \<and>
        filesystemType \<in> set (map js [''tmpfs'', ''devpts'', ''mqueue'']))"

text \<open>A line of the table: its mount point and file system type.\<close>

definition mount_line :: "jsstring \<Rightarrow> (jsstring \<times> jsstring) option" where
  "mount_line line =
     (let fields = split_on 32 line; separator = length (takeWhile (\<lambda>f. f \<noteq> js ''-'') fields)
      in if length fields < 7 then None
         else if Suc separator < length fields \<and> fields ! Suc separator \<noteq> []
         then Some (decodeMountInfoPath (fields ! 4), fields ! Suc separator)
         else None)"

text \<open>The loop over the lines, with the two flags.\<close>

fun check_mounts :: "jsstring option \<Rightarrow> jsstring option \<Rightarrow> jsstring list \<Rightarrow> bool \<Rightarrow> bool \<Rightarrow> mount_error + bool \<times> bool" where
  "check_mounts ws tex [] w t = Inr (w, t)"
| "check_mounts ws tex (line # rest) w t =
     (if line = [] then check_mounts ws tex rest w t
      else case mount_line line of
        None \<Rightarrow> Inl MalformedMountLine
      | Some (mountPoint, filesystemType) \<Rightarrow>
          if isStandardContainerMount mountPoint filesystemType then check_mounts ws tex rest w t
          else if ws = Some mountPoint then check_mounts ws tex rest True t
          else if tex = Some mountPoint then check_mounts ws tex rest w True
          else Inl (UnexpectedMount mountPoint))"

text \<open>An absent root and an empty one are the same to the code.\<close>

definition given :: "jsstring option \<Rightarrow> jsstring option" where
  "given v = (if v = Some [] then None else v)"

definition validateFallbackMountInfo :: "jsstring \<Rightarrow> jsstring option \<Rightarrow> jsstring option \<Rightarrow> mount_error option" where
  "validateFallbackMountInfo mountInfo ws tex =
     (let ws = given ws; tex = given tex
      in if (case tex of None \<Rightarrow> False | Some p \<Rightarrow> hd p \<noteq> 47) then Some RelativeTexCacheRoot
         else case check_mounts ws tex (split_on 10 mountInfo) False False of
           Inl e \<Rightarrow> Some e
         | Inr (w, t) \<Rightarrow>
             if ws \<noteq> None \<and> \<not> w then Some WorkspaceNotMounted
             else if tex \<noteq> None \<and> \<not> t then Some TexCacheNotMounted
             else None)"

definition validateStatelessFallbackMountInfo :: "jsstring \<Rightarrow> jsstring option \<Rightarrow> mount_error option" where
  "validateStatelessFallbackMountInfo mountInfo tex = validateFallbackMountInfo mountInfo None tex"

definition validateTrustedWorkspaceFallbackMountInfo :: "jsstring \<Rightarrow> jsstring \<Rightarrow> jsstring option \<Rightarrow> mount_error option" where
  "validateTrustedWorkspaceFallbackMountInfo mountInfo ws tex =
     (if \<not> prefix [47] ws then Some RelativeWorkspaceRoot else validateFallbackMountInfo mountInfo (Some ws) tex)"

definition assertStatelessFallbackVolumeFree :: "jsstring option \<Rightarrow> jsstring option \<Rightarrow> mount_error option" where
  "assertStatelessFallbackVolumeFree mountInfo tex =
     (case mountInfo of None \<Rightarrow> Some MountInfoUnreadable | Some m \<Rightarrow> validateStatelessFallbackMountInfo m tex)"

definition assertTrustedWorkspaceFallbackMounts :: "jsstring option \<Rightarrow> jsstring \<Rightarrow> jsstring option \<Rightarrow> mount_error option" where
  "assertTrustedWorkspaceFallbackMounts mountInfo ws tex =
     (case mountInfo of None \<Rightarrow> Some MountInfoUnreadable | Some m \<Rightarrow> validateTrustedWorkspaceFallbackMountInfo m ws tex)"

section \<open>The launcher\<close>

record NativeSandboxPolicyOptions =
  opt_allowUnsandboxedStateless :: bool
  opt_allowUnsandboxedWorkspace :: bool
  opt_sandboxExecutable :: "jsstring option"
  opt_workspaceRoot :: "jsstring option"
  opt_texCacheRoot :: "jsstring option"
  opt_win32 :: bool

datatype sandbox_error = SandboxUnavailable | WorkspaceNeedsSandbox | MountCheck mount_error

datatype fallback_warning = WindowsPortable | TrustedWorkspace | StatelessUnsandboxed

definition trimmed :: "jsstring option \<Rightarrow> jsstring option" where
  "trimmed v = (case v of None \<Rightarrow> None | Some s \<Rightarrow> given (Some (trim s)))"

text \<open>The mount check, then the warning.\<close>

definition fall_back :: "mount_error option \<Rightarrow> fallback_warning \<Rightarrow> sandbox_error + jsstring option \<times> fallback_warning list" where
  "fall_back check warning = (case check of Some e \<Rightarrow> Inl (MountCheck e) | None \<Rightarrow> Inr (None, [warning]))"

definition resolveNativeSandbox ::
  "(jsstring \<Rightarrow> bool) \<Rightarrow> (jsstring \<Rightarrow> bool) \<Rightarrow> jsstring option \<Rightarrow> NativeSandboxPolicyOptions \<Rightarrow>
   sandbox_error + jsstring option \<times> fallback_warning list"
where
  "resolveNativeSandbox executable probe mountInfo opts =
     (let exe = trimmed (opt_sandboxExecutable opts); ws = trimmed (opt_workspaceRoot opts); tex = trimmed (opt_texCacheRoot opts)
      in case exe of
        None \<Rightarrow>
          if opt_win32 opts then Inr (None, [WindowsPortable])
          else (case ws of
            Some root \<Rightarrow>
              if \<not> opt_allowUnsandboxedWorkspace opts then Inl WorkspaceNeedsSandbox
              else fall_back (assertTrustedWorkspaceFallbackMounts mountInfo root tex) TrustedWorkspace
          | None \<Rightarrow>
              if opt_allowUnsandboxedStateless opts
              then fall_back (assertStatelessFallbackVolumeFree mountInfo tex) StatelessUnsandboxed
              else Inr (None, []))
      | Some path \<Rightarrow>
          if executable path \<and> probe path then Inr (Some path, [])
          else (case ws of
            Some root \<Rightarrow>
              if \<not> opt_allowUnsandboxedWorkspace opts then Inl SandboxUnavailable
              else fall_back (assertTrustedWorkspaceFallbackMounts mountInfo root tex) TrustedWorkspace
          | None \<Rightarrow>
              if \<not> opt_allowUnsandboxedStateless opts then Inl SandboxUnavailable
              else fall_back (assertStatelessFallbackVolumeFree mountInfo tex) StatelessUnsandboxed))"

definition parseExactOptIn :: "jsstring option \<Rightarrow> bool option" where
  "parseExactOptIn v =
     (case trimmed v of None \<Rightarrow> Some False | Some s \<Rightarrow> if s = js ''1'' then Some True else None)"

section \<open>Properties\<close>

lemma check_mounts_iff:
  "check_mounts ws tex ls w t = Inr r \<longleftrightarrow>
     (\<forall>l\<in>set ls. l \<noteq> [] \<longrightarrow> (\<exists>p f. mount_line l = Some (p, f) \<and> (isStandardContainerMount p f \<or> ws = Some p \<or> tex = Some p))) \<and>
     r = (w \<or> (\<exists>l\<in>set ls. l \<noteq> [] \<and> (\<exists>p f. mount_line l = Some (p, f) \<and> \<not> isStandardContainerMount p f \<and> ws = Some p)),
          t \<or> (\<exists>l\<in>set ls. l \<noteq> [] \<and> (\<exists>p f. mount_line l = Some (p, f) \<and> \<not> isStandardContainerMount p f \<and> ws \<noteq> Some p \<and> tex = Some p)))"
proof (induction ws tex ls w t rule: check_mounts.induct)
  case (2 ws tex line rest w t)
  show ?case
  proof (cases "line = []")
    case True
    with 2(1) show ?thesis by simp
  next
    case False
    show ?thesis
    proof (cases "mount_line line")
      case None
      with False show ?thesis by simp
    next
      case (Some pf)
      obtain p f where pf: "pf = (p, f)" by (cases pf)
      show ?thesis
        using False Some pf 2(2) [OF False Some pf [symmetric]] 2(3) [OF False Some pf [symmetric]] 2(4) [OF False Some pf [symmetric]]
        by (auto split: if_splits)
    qed
  qed
qed auto

text \<open>What an accepted table looks like.\<close>

definition only_mounts :: "jsstring option \<Rightarrow> jsstring option \<Rightarrow> jsstring \<Rightarrow> bool" where
  "only_mounts ws tex mountInfo \<longleftrightarrow>
     (\<forall>l\<in>set (split_on 10 mountInfo). l \<noteq> [] \<longrightarrow>
        (\<exists>p f. mount_line l = Some (p, f) \<and> (isStandardContainerMount p f \<or> ws = Some p \<or> tex = Some p)))"

definition mounted :: "jsstring \<Rightarrow> jsstring \<Rightarrow> bool" where
  "mounted mountInfo p \<longleftrightarrow> (\<exists>l\<in>set (split_on 10 mountInfo). \<exists>f. mount_line l = Some (p, f) \<and> \<not> isStandardContainerMount p f)"

lemma validateFallback_checked:
  assumes "validateFallbackMountInfo mountInfo ws tex = None"
  obtains w t where "check_mounts (given ws) (given tex) (split_on 10 mountInfo) False False = Inr (w, t)"
    "given ws \<noteq> None \<longrightarrow> w"
proof (cases "check_mounts (given ws) (given tex) (split_on 10 mountInfo) False False")
  case (Inl e)
  with assms show ?thesis by (simp add: validateFallbackMountInfo_def Let_def split: if_splits)
next
  case (Inr r)
  obtain w t where r: "r = (w, t)" by (cases r)
  with assms Inr have "given ws \<noteq> None \<longrightarrow> w"
    by (cases "given ws") (simp_all add: validateFallbackMountInfo_def Let_def split: if_splits)
  with that Inr r show ?thesis by blast
qed

lemma validateFallback_accepts:
  assumes "validateFallbackMountInfo mountInfo ws tex = None"
  shows "only_mounts (given ws) (given tex) mountInfo" "given ws = Some p \<Longrightarrow> mounted mountInfo p"
proof -
  obtain w t where c: "check_mounts (given ws) (given tex) (split_on 10 mountInfo) False False = Inr (w, t)"
    "given ws \<noteq> None \<longrightarrow> w"
    using assms by (rule validateFallback_checked)
  note checked = check_mounts_iff [THEN iffD1, OF c(1)]
  from checked show "only_mounts (given ws) (given tex) mountInfo"
    unfolding only_mounts_def by (rule conjunct1)
  assume p: "given ws = Some p"
  with c(2) have w by simp
  have "w = (False \<or> (\<exists>l\<in>set (split_on 10 mountInfo). l \<noteq> [] \<and> (\<exists>q f. mount_line l = Some (q, f) \<and>
      \<not> isStandardContainerMount q f \<and> given ws = Some q)))"
    using checked [THEN conjunct2] by (rule Pair_inject)
  with \<open>w\<close> p show "mounted mountInfo p" unfolding mounted_def by fastforce
qed

lemma given_simps [simp]: "given None = None" "given (given v) = given v" "given (trimmed v) = trimmed v"
  by (auto simp: given_def trimmed_def split: option.split)

lemma trimmed_nonempty: "trimmed v = Some s \<Longrightarrow> s \<noteq> []"
  by (auto simp: trimmed_def given_def split: option.splits if_splits)

lemma trusted_accepts:
  assumes "assertTrustedWorkspaceFallbackMounts mountInfo root (trimmed tex) = None" "root \<noteq> []"
  shows "\<exists>m. mountInfo = Some m \<and> prefix [47] root \<and> only_mounts (Some root) (trimmed tex) m \<and> mounted m root"
proof -
  have "given (Some root) = Some root" using assms(2) by (simp add: given_def)
  with assms(1) validateFallback_accepts [of _ "Some root" "trimmed tex"] show ?thesis
    by (auto simp: assertTrustedWorkspaceFallbackMounts_def validateTrustedWorkspaceFallbackMountInfo_def
        split: option.splits if_splits)
qed

lemma stateless_accepts:
  "assertStatelessFallbackVolumeFree mountInfo (trimmed tex) = None \<Longrightarrow> \<exists>m. mountInfo = Some m \<and> only_mounts None (trimmed tex) m"
  using validateFallback_accepts(1) [of _ None "trimmed tex"]
  by (auto simp: assertStatelessFallbackVolumeFree_def validateStatelessFallbackMountInfo_def split: option.splits)

text \<open>
  C35: when native compilers run without a launcher beside a mapped workspace (outside the Windows
  mode), the operator has allowed it, the workspace root is absolute, and every mount of the container
  is a standard one, the workspace, or the TeX cache, the workspace being a mount of its own; without a
  workspace, either nothing was configured or allowed, or every mount is standard or the TeX cache. A
  launcher that is used is the configured one, and it is executable and passed its probe.
\<close>

theorem sandbox_fallback_isolated:
  assumes "resolveNativeSandbox executable probe mountInfo opts = Inr (launcher, warnings)"
  shows "case launcher of
      Some path \<Rightarrow> trimmed (opt_sandboxExecutable opts) = Some path \<and> executable path \<and> probe path
    | None \<Rightarrow>
        (opt_win32 opts \<and> trimmed (opt_sandboxExecutable opts) = None) \<or>
        (case trimmed (opt_workspaceRoot opts) of
           Some root \<Rightarrow> opt_allowUnsandboxedWorkspace opts \<and> warnings = [TrustedWorkspace] \<and>
             (\<exists>m. mountInfo = Some m \<and> prefix [47] root \<and> only_mounts (Some root) (trimmed (opt_texCacheRoot opts)) m \<and> mounted m root)
         | None \<Rightarrow>
             (trimmed (opt_sandboxExecutable opts) = None \<and> \<not> opt_allowUnsandboxedStateless opts) \<or>
             (opt_allowUnsandboxedStateless opts \<and> warnings = [StatelessUnsandboxed] \<and>
                (\<exists>m. mountInfo = Some m \<and> only_mounts None (trimmed (opt_texCacheRoot opts)) m)))"
proof -
  note facts = trusted_accepts [of mountInfo _ "opt_texCacheRoot opts"] stateless_accepts [of mountInfo "opt_texCacheRoot opts"]
    trimmed_nonempty [of "opt_workspaceRoot opts"]
  show ?thesis
proof (cases "trimmed (opt_sandboxExecutable opts)")
  case None
  with assms facts show ?thesis
    by (auto simp: resolveNativeSandbox_def Let_def fall_back_def split: option.splits if_splits)
next
  case (Some path)
  show ?thesis
  proof (cases "executable path \<and> probe path")
    case True
    with assms Some have "launcher = Some path" by (simp add: resolveNativeSandbox_def Let_def)
    with True Some show ?thesis by simp
  next
    case False
    with assms Some facts show ?thesis
      by (auto simp: resolveNativeSandbox_def Let_def fall_back_def split: option.splits if_splits)
  qed
  qed
qed

definition demo_mounts :: jsstring where
  "demo_mounts = js ''22 1 0:5 / / rw - overlay overlay rw'' @ [10] @ js ''23 22 0:6 / /work rw - ext4 /dev/sda rw'' @ [10]"

definition demo_policy :: NativeSandboxPolicyOptions where
  "demo_policy = \<lparr>opt_allowUnsandboxedStateless = False, opt_allowUnsandboxedWorkspace = True, opt_sandboxExecutable = None,
     opt_workspaceRoot = Some (js ''/work''), opt_texCacheRoot = None, opt_win32 = False\<rparr>"

lemma demo_policy_resolves:
  "resolveNativeSandbox (\<lambda>_. False) (\<lambda>_. False) (Some demo_mounts) demo_policy = Inr (None, [TrustedWorkspace])"
proof -
  have lines: "split_on 10 demo_mounts =
      [js ''22 1 0:5 / / rw - overlay overlay rw'', js ''23 22 0:6 / /work rw - ext4 /dev/sda rw'', []]"
    by (simp add: demo_mounts_def js_def)
  have mounts: "mount_line (js ''22 1 0:5 / / rw - overlay overlay rw'') = Some (js ''/'', js ''overlay'')"
    "mount_line (js ''23 22 0:6 / /work rw - ext4 /dev/sda rw'') = Some (js ''/work'', js ''ext4'')"
    by (simp_all add: mount_line_def js_def Let_def)
  have trims: "trimmed (Some (js ''/work'')) = Some (js ''/work'')" "trimmed None = None"
    by (simp_all add: trimmed_def given_def trim_fixed is_space_def js_def)
  have "isStandardContainerMount (js ''/'') (js ''overlay'')" "\<not> isStandardContainerMount (js ''/work'') (js ''ext4'')"
    by (simp_all add: isStandardContainerMount_def js_def)
  then have "validateFallbackMountInfo demo_mounts (Some (js ''/work'')) None = None"
    by (simp add: validateFallbackMountInfo_def lines mounts Let_def given_def)
  then show ?thesis
    by (simp add: resolveNativeSandbox_def demo_policy_def trims fall_back_def assertTrustedWorkspaceFallbackMounts_def
        validateTrustedWorkspaceFallbackMountInfo_def) (simp add: js_def)
qed

theorem sandbox_fallback_isolated_witness: "mounted demo_mounts (js ''/work'')"
  using sandbox_fallback_isolated [OF demo_policy_resolves]
  by (simp add: demo_policy_def trimmed_def given_def trim_fixed is_space_def js_def)

end
