(* ===== verification/WriteQueue.thy ===== *)
theory WriteQueue
  imports Prelude
begin

text \<open>
  The promise chain that serializes the writes of a state file:
  \<open>this.writeQueue = this.writeQueue.then(job); await this.writeQueue\<close> in
  \<^verbatim>\<open>typr-server/accessStore.ts\<close> and \<^verbatim>\<open>typr-server/providerManager.ts\<close>. A job runs when the jobs before it
  have; a rejected promise skips every \<open>then\<close> after it, so a job that failed rejects all later ones.
\<close>

record 'j write_queue =
  wq_pending :: "'j list"
  wq_rejected :: bool

datatype 'j wq_event = Written 'j | Rejected 'j

definition wq_new :: "'j write_queue" where
  "wq_new = \<lparr>wq_pending = [], wq_rejected = False\<rparr>"

definition wq_add :: "'j \<Rightarrow> 'j write_queue \<Rightarrow> 'j write_queue" where
  "wq_add j q = q\<lparr>wq_pending := wq_pending q @ [j]\<rparr>"

text \<open>The next job settles; \<open>ok\<close> tells whether its file system calls succeed.\<close>

definition wq_settle :: "bool \<Rightarrow> 'j write_queue \<Rightarrow> 'j write_queue \<times> 'j wq_event option" where
  "wq_settle ok q =
     (case wq_pending q of
        [] \<Rightarrow> (q, None)
      | j # rest \<Rightarrow>
          if wq_rejected q \<or> \<not> ok then (q\<lparr>wq_pending := rest, wq_rejected := True\<rparr>, Some (Rejected j))
          else (q\<lparr>wq_pending := rest\<rparr>, Some (Written j)))"

lemma wq_simps [simp]:
  "wq_pending wq_new = []" "wq_rejected wq_new = False"
  "wq_pending (wq_add j q) = wq_pending q @ [j]" "wq_rejected (wq_add j q) = wq_rejected q"
  by (simp_all add: wq_new_def wq_add_def)

lemma wq_settle_cases:
  assumes "wq_settle ok q = (q', ev)"
  obtains (idle) "wq_pending q = []" "q' = q" "ev = None"
    | (written) j where "wq_pending q = j # wq_pending q'" "ok" "\<not> wq_rejected q" "\<not> wq_rejected q'" "ev = Some (Written j)"
    | (rejected) j where "wq_pending q = j # wq_pending q'" "wq_rejected q \<or> \<not> ok" "wq_rejected q'" "ev = Some (Rejected j)"
  using assms by (auto simp: wq_settle_def split: list.splits if_splits)

lemma wq_stays_rejected: "wq_rejected q \<Longrightarrow> wq_settle ok q = (q', ev) \<Longrightarrow> wq_rejected q' \<and> (\<forall>j. ev \<noteq> Some (Written j))"
  by (erule wq_settle_cases) auto

section \<open>A state kept in a file\<close>

text \<open>
  What the two classes with such a file share: a state in memory, changed at once and submitted to the
  queue, and a file that holds what was written last. A class may have no file, and then submits
  nothing. \<open>content\<close> is the state a queued job writes.
\<close>

locale state_file =
  fixes state :: "'m \<Rightarrow> 's" and queue :: "'m \<Rightarrow> 'j write_queue" and disk :: "'m \<Rightarrow> 's option" and saved :: "'m \<Rightarrow> bool"
    and content :: "'j \<Rightarrow> 's" and submit :: "'j \<Rightarrow> 'm \<Rightarrow> 'm" and settled :: "bool \<Rightarrow> 'm \<Rightarrow> 'm"
  assumes submit_state: "state (submit j m) = content j"
    and submit_file: "disk (submit j m) = disk m" "saved (submit j m) = saved m"
    and submit_queue: "queue (submit j m) = (if saved m then wq_add j (queue m) else queue m)"
    and settled_state: "state (settled ok m) = state m" "saved (settled ok m) = saved m"
    and settled_queue: "queue (settled ok m) = fst (wq_settle ok (queue m))"
    and settled_disk: "disk (settled ok m) =
          (case snd (wq_settle ok (queue m)) of Some (Written j) \<Rightarrow> Some (content j) | _ \<Rightarrow> disk m)"
begin

text \<open>As long as no write has failed, the file holds the state, or the last queued write does.\<close>

definition in_step :: "'s \<Rightarrow> 'm \<Rightarrow> bool" where
  "in_step initial m \<longleftrightarrow>
     (saved m \<and> \<not> wq_rejected (queue m) \<longrightarrow>
        (if wq_pending (queue m) = [] then disk m = Some (state m) \<or> (disk m = None \<and> state m = initial)
         else content (last (wq_pending (queue m))) = state m))"

lemma in_step_submit: "in_step initial m \<Longrightarrow> in_step initial (submit j m)"
  by (simp add: in_step_def submit_state submit_file submit_queue)

lemma in_step_settled:
  assumes "in_step initial m"
  shows "in_step initial (settled ok m)"
proof -
  obtain q ev where q: "wq_settle ok (queue m) = (q, ev)" by (cases "wq_settle ok (queue m)")
  then show ?thesis
    by (cases rule: wq_settle_cases)
       (use assms q in \<open>auto simp: in_step_def settled_state settled_queue settled_disk split: if_splits\<close>)
qed

lemma in_step_file:
  "in_step initial m \<Longrightarrow> saved m \<Longrightarrow> \<not> wq_rejected (queue m) \<Longrightarrow> wq_pending (queue m) = [] \<Longrightarrow>
   disk m = Some (state m) \<or> (disk m = None \<and> state m = initial)"
  by (simp add: in_step_def)

text \<open>After one failed write the file stays as it is.\<close>

definition stuck :: "'s option \<Rightarrow> 'm \<Rightarrow> bool" where
  "stuck d m \<longleftrightarrow> wq_rejected (queue m) \<and> disk m = d"

lemma stuck_submit: "stuck d m \<Longrightarrow> stuck d (submit j m)"
  by (simp add: stuck_def submit_file submit_queue)

lemma stuck_settled:
  assumes "stuck d m"
  shows "stuck d (settled ok m)"
proof -
  obtain q ev where q: "wq_settle ok (queue m) = (q, ev)" by (cases "wq_settle ok (queue m)")
  with assms wq_stays_rejected [of "queue m" ok q ev] show ?thesis
    by (auto simp: stuck_def settled_queue settled_disk split: option.split wq_event.split)
qed

end

end
