(* ===== verification/AccessStore.thy ===== *)
theory AccessStore
  imports Base64 Json WriteQueue
begin

text \<open>
  \<^verbatim>\<open>typr-server/accessStore.ts\<close>: the users and API keys of the management console. SHA-256, the lower
  case of the locale, random bytes and identifiers, and the clock are parameters: an operation receives
  the timestamp it writes, and a predicate telling which timestamps are a minute old. A change of the
  state is made at once and its serialization is queued; the queued writes settle later.
\<close>

section \<open>State\<close>

record ManagedUser =
  user_id :: jsstring
  user_name :: jsstring
  user_disabled :: bool
  user_createdAt :: jsstring

record ManagedApiKey =
  key_id :: jsstring
  key_userId :: jsstring
  key_label :: jsstring
  key_prefix :: jsstring
  key_createdAt :: jsstring
  key_lastUsedAt :: "jsstring option"
  key_revokedAt :: "jsstring option"

record StoredApiKey = ManagedApiKey +
  key_hash :: jsstring

record AccessState =
  requireApiKeys :: bool
  users :: "ManagedUser list"
  keys :: "StoredApiKey list"

record ApiPrincipal =
  prin_userId :: jsstring
  prin_userName :: jsstring
  prin_keyId :: jsstring

datatype AuthorizationResult = Authorized "ApiPrincipal option" | Unauthorized string

datatype access_error = AccessStoreError nat string

text \<open>The store: its state, whether it has a file, the contents of the file, and the queue of writes.\<close>

record access_store =
  as_state :: AccessState
  as_persistent :: bool
  as_disk :: "AccessState option"
  as_queue :: "AccessState write_queue"

definition emptyState :: AccessState where
  "emptyState = \<lparr>requireApiKeys = False, users = [], keys = []\<rparr>"

definition API_KEY_PREFIX :: jsstring where
  "API_KEY_PREFIX = js ''typr_''"

section \<open>The state file\<close>

definition user_json :: "ManagedUser \<Rightarrow> json" where
  "user_json u = obj [(''id'', JStr (user_id u)), (''name'', JStr (user_name u)), (''disabled'', JBool (user_disabled u)),
     (''createdAt'', JStr (user_createdAt u))]"

definition key_json :: "StoredApiKey \<Rightarrow> json" where
  "key_json k = obj ([(''id'', JStr (key_id k)), (''userId'', JStr (key_userId k)), (''label'', JStr (key_label k)),
     (''prefix'', JStr (key_prefix k)), (''hash'', JStr (key_hash k)), (''createdAt'', JStr (key_createdAt k))] @
     optional_field ''lastUsedAt'' (key_lastUsedAt k) @ optional_field ''revokedAt'' (key_revokedAt k))"

definition state_json :: "AccessState \<Rightarrow> json" where
  "state_json s = obj [(''version'', JInt 1), (''requireApiKeys'', JBool (requireApiKeys s)),
     (''users'', JArr (map user_json (users s))), (''keys'', JArr (map key_json (keys s)))]"

definition validate_user :: "json \<Rightarrow> string + ManagedUser" where
  "validate_user v =
     (case (as_string (field v ''id''), as_string (field v ''name''), as_bool (field v ''disabled''),
            as_string (field v ''createdAt'')) of
        (Some i, Some n, Some d, Some c) \<Rightarrow>
          Inr \<lparr>user_id = i, user_name = n, user_disabled = d, user_createdAt = c\<rparr>
      | _ \<Rightarrow> Inl ''Typr Companion management user state is invalid.'')"

definition validate_key :: "json \<Rightarrow> string + StoredApiKey" where
  "validate_key v =
     (case (as_string (field v ''id''), as_string (field v ''userId''), as_string (field v ''label''),
            as_string (field v ''prefix''), as_string (field v ''hash''), as_string (field v ''createdAt''),
            optional_string (field v ''lastUsedAt''), optional_string (field v ''revokedAt'')) of
        (Some i, Some u, Some l, Some p, Some h, Some c, Some lu, Some r) \<Rightarrow>
          Inr \<lparr>key_id = i, key_userId = u, key_label = l, key_prefix = p, key_createdAt = c,
               key_lastUsedAt = lu, key_revokedAt = r, key_hash = h\<rparr>
      | _ \<Rightarrow> Inl ''Typr Companion management API-key state is invalid.'')"

definition validateState :: "json \<Rightarrow> string + AccessState" where
  "validateState v =
     (case (field v ''version'', as_bool (field v ''requireApiKeys''), as_array (field v ''users''), as_array (field v ''keys'')) of
        (Some (JInt n), Some r, Some us, Some ks) \<Rightarrow>
          if n \<noteq> 1 then Inl ''Typr Companion management state is invalid.''
          else (case map_result validate_user us of
                  Inl e \<Rightarrow> Inl e
                | Inr us' \<Rightarrow>
                    (case map_result validate_key ks of
                       Inl e \<Rightarrow> Inl e
                     | Inr ks' \<Rightarrow> Inr \<lparr>requireApiKeys = r, users = us', keys = ks'\<rparr>))
      | _ \<Rightarrow> Inl ''Typr Companion management state is invalid.'')"

text \<open>\<open>AccessStore.open\<close>\<close>

definition open_access :: "jsstring option \<Rightarrow> file_read \<Rightarrow> string + access_store" where
  "open_access statePath r =
     (if statePath = None \<or> statePath = Some []
      then Inr \<lparr>as_state = emptyState, as_persistent = False, as_disk = None, as_queue = wq_new\<rparr>
      else case r of
        Missing \<Rightarrow> Inr \<lparr>as_state = emptyState, as_persistent = True, as_disk = None, as_queue = wq_new\<rparr>
      | Unreadable \<Rightarrow> Inl ''the state file could not be read''
      | Parsed v \<Rightarrow>
          (case validateState v of
             Inl e \<Rightarrow> Inl e
           | Inr s \<Rightarrow> Inr \<lparr>as_state = s, as_persistent = True, as_disk = Some s, as_queue = wq_new\<rparr>))"

definition persist :: "access_store \<Rightarrow> access_store" where
  "persist st = (if as_persistent st then st\<lparr>as_queue := wq_add (as_state st) (as_queue st)\<rparr> else st)"

text \<open>The next queued write settles.\<close>

definition settle_write :: "bool \<Rightarrow> access_store \<Rightarrow> access_store \<times> AccessState wq_event option" where
  "settle_write ok st =
     (let (q, ev) = wq_settle ok (as_queue st)
      in (st\<lparr>as_queue := q, as_disk := (case ev of Some (Written s) \<Rightarrow> Some s | _ \<Rightarrow> as_disk st)\<rparr>, ev))"

section \<open>Operations\<close>

definition normalizeLabel :: "jsstring \<Rightarrow> nat \<Rightarrow> access_error + jsstring" where
  "normalizeLabel v maxLength =
     (let n = trim v
      in if n = [] \<or> length n > maxLength \<or> list_ex (\<lambda>c. c < 32 \<or> c = 127) n
         then Inl (AccessStoreError 400 ''invalid-label'') else Inr n)"

definition find_user :: "jsstring \<Rightarrow> AccessState \<Rightarrow> ManagedUser option" where
  "find_user uid s = List.find (\<lambda>u. user_id u = uid) (users s)"

definition requireUser :: "jsstring \<Rightarrow> AccessState \<Rightarrow> access_error + ManagedUser" where
  "requireUser uid s =
     (case find_user uid s of None \<Rightarrow> Inl (AccessStoreError 404 ''user-not-found'') | Some u \<Rightarrow> Inr u)"

definition hasUsableKey :: "AccessState \<Rightarrow> bool" where
  "hasUsableKey s \<longleftrightarrow>
     list_ex (\<lambda>k. key_revokedAt k = None \<and>
        list_ex (\<lambda>u. user_id u = key_userId k \<and> \<not> user_disabled u) (users s)) (keys s)"

text \<open>The first element with a property, changed in place, as a found object is mutated.\<close>

fun update_first :: "('a \<Rightarrow> bool) \<Rightarrow> ('a \<Rightarrow> 'a) \<Rightarrow> 'a list \<Rightarrow> 'a list" where
  "update_first P f [] = []"
| "update_first P f (x # xs) = (if P x then f x # xs else x # update_first P f xs)"

definition with_state :: "access_store \<Rightarrow> AccessState \<Rightarrow> access_store" where
  "with_state st s = persist (st\<lparr>as_state := s\<rparr>)"

definition createUser ::
  "(jsstring \<Rightarrow> jsstring) \<Rightarrow> jsstring \<Rightarrow> jsstring \<Rightarrow> jsstring \<Rightarrow> access_store \<Rightarrow> access_store \<times> (access_error + ManagedUser)"
where
  "createUser lower uuid now name st =
     (case normalizeLabel name 80 of
        Inl e \<Rightarrow> (st, Inl e)
      | Inr n \<Rightarrow>
          if list_ex (\<lambda>u. lower (user_name u) = lower n) (users (as_state st))
          then (st, Inl (AccessStoreError 409 ''user-name-conflict''))
          else let u = \<lparr>user_id = uuid, user_name = n, user_disabled = False, user_createdAt = now\<rparr>
               in (with_state st ((as_state st)\<lparr>users := users (as_state st) @ [u]\<rparr>), Inr u))"

definition setUserDisabled :: "jsstring \<Rightarrow> bool \<Rightarrow> access_store \<Rightarrow> access_store \<times> (access_error + ManagedUser)" where
  "setUserDisabled uid d st =
     (case requireUser uid (as_state st) of
        Inl e \<Rightarrow> (st, Inl e)
      | Inr u \<Rightarrow>
          (with_state st ((as_state st)\<lparr>users :=
               update_first (\<lambda>u. user_id u = uid) (\<lambda>u. u\<lparr>user_disabled := d\<rparr>) (users (as_state st))\<rparr>),
           Inr (u\<lparr>user_disabled := d\<rparr>)))"

definition hashSecret :: "(bytes \<Rightarrow> bytes) \<Rightarrow> jsstring \<Rightarrow> jsstring" where
  "hashSecret sha256 secret = hex_encode (sha256 (utf8 secret))"

definition make_secret :: "bytes \<Rightarrow> jsstring" where
  "make_secret random = API_KEY_PREFIX @ base64url_encode random"

definition createApiKey ::
  "(bytes \<Rightarrow> bytes) \<Rightarrow> bytes \<Rightarrow> jsstring \<Rightarrow> jsstring \<Rightarrow> jsstring \<Rightarrow> jsstring \<Rightarrow> access_store \<Rightarrow>
   access_store \<times> (access_error + ManagedApiKey \<times> jsstring)"
where
  "createApiKey sha256 random uuid now uid label st =
     (case requireUser uid (as_state st) of
        Inl e \<Rightarrow> (st, Inl e)
      | Inr u \<Rightarrow>
          if user_disabled u then (st, Inl (AccessStoreError 409 ''user-disabled''))
          else case normalizeLabel label 80 of
            Inl e \<Rightarrow> (st, Inl e)
          | Inr l \<Rightarrow>
              let secret = make_secret random;
                  k = \<lparr>key_id = uuid, key_userId = uid, key_label = l, key_prefix = take 13 secret, key_createdAt = now,
                       key_lastUsedAt = None, key_revokedAt = None, key_hash = hashSecret sha256 secret\<rparr>
              in (with_state st ((as_state st)\<lparr>keys := keys (as_state st) @ [k]\<rparr>),
                  Inr (ManagedApiKey.truncate k, secret)))"

definition revokeApiKey ::
  "jsstring \<Rightarrow> jsstring \<Rightarrow> access_store \<Rightarrow> access_store \<times> (access_error + ManagedApiKey)"
where
  "revokeApiKey now kid st =
     (case List.find (\<lambda>k. key_id k = kid) (keys (as_state st)) of
        None \<Rightarrow> (st, Inl (AccessStoreError 404 ''api-key-not-found''))
      | Some k \<Rightarrow>
          let revoke = (\<lambda>k. k\<lparr>key_revokedAt := (case key_revokedAt k of None \<Rightarrow> Some now | Some t \<Rightarrow> Some t)\<rparr>)
          in (with_state st ((as_state st)\<lparr>keys := update_first (\<lambda>k. key_id k = kid) revoke (keys (as_state st))\<rparr>),
              Inr (ManagedApiKey.truncate (revoke k))))"

definition setRequireApiKeys :: "bool \<Rightarrow> access_store \<Rightarrow> access_store \<times> (access_error + unit)" where
  "setRequireApiKeys b st =
     (if b \<and> \<not> hasUsableKey (as_state st) then (st, Inl (AccessStoreError 409 ''usable-api-key-required''))
      else (with_state st ((as_state st)\<lparr>requireApiKeys := b\<rparr>), Inr ()))"

text \<open>\<open>/^Bearer\s+(typr_[A-Za-z0-9_-]+)$/u\<close>\<close>

definition key_char :: "nat \<Rightarrow> bool" where
  "key_char c \<longleftrightarrow> is_alnum c \<or> c = 95 \<or> c = 45"

definition bearer_secret :: "jsstring \<Rightarrow> jsstring option" where
  "bearer_secret h =
     (let r = drop 6 h; s = dropWhile is_space r; t = drop 5 s
      in if take 6 h = js ''Bearer'' \<and> s \<noteq> r \<and> take 5 s = API_KEY_PREFIX \<and> t \<noteq> [] \<and> list_all key_char t
         then Some s else None)"

text \<open>
  \<open>minute_old t\<close>: \<open>Date.now() - Date.parse(t) >= 60_000\<close>. The key in use is the first whose hash
  decodes to the hash of the secret.
\<close>

definition hash_matches :: "(bytes \<Rightarrow> bytes) \<Rightarrow> jsstring \<Rightarrow> StoredApiKey \<Rightarrow> bool" where
  "hash_matches sha256 secret k \<longleftrightarrow> hex_decode (key_hash k) = hex_decode (hashSecret sha256 secret)"

definition authorize ::
  "(bytes \<Rightarrow> bytes) \<Rightarrow> jsstring \<Rightarrow> (jsstring \<Rightarrow> bool) \<Rightarrow> jsstring option \<Rightarrow> access_store \<Rightarrow> access_store \<times> AuthorizationResult"
where
  "authorize sha256 now minute_old authorization st =
     (if authorization = None \<or> authorization = Some []
      then (st, if requireApiKeys (as_state st) then Unauthorized ''A Typr Companion API key is required.'' else Authorized None)
      else case bearer_secret (the authorization) of
        None \<Rightarrow> (st, Unauthorized ''Authorization must use a Typr Bearer API key.'')
      | Some secret \<Rightarrow>
          (case List.find (hash_matches sha256 secret) (keys (as_state st)) of
             None \<Rightarrow> (st, Unauthorized ''The Typr Companion API key is invalid.'')
           | Some k \<Rightarrow>
               (case find_user (key_userId k) (as_state st) of
                  None \<Rightarrow> (st, Unauthorized ''This Typr Companion API key is disabled or revoked.'')
                | Some u \<Rightarrow>
                    if user_disabled u \<or> key_revokedAt k \<noteq> None
                    then (st, Unauthorized ''This Typr Companion API key is disabled or revoked.'')
                    else (if (case key_lastUsedAt k of None \<Rightarrow> True | Some t \<Rightarrow> minute_old t)
                          then with_state st ((as_state st)\<lparr>keys := update_first (hash_matches sha256 secret)
                                 (\<lambda>k. k\<lparr>key_lastUsedAt := Some now\<rparr>) (keys (as_state st))\<rparr>)
                          else st,
                          Authorized (Some \<lparr>prin_userId = user_id u, prin_userName = user_name u, prin_keyId = key_id k\<rparr>)))))"

record AccessSnapshot =
  snap_persistent :: bool
  snap_requireApiKeys :: bool
  snap_users :: "ManagedUser list"
  snap_keys :: "ManagedApiKey list"

definition access_snapshot :: "access_store \<Rightarrow> AccessSnapshot" where
  "access_snapshot st =
     \<lparr>snap_persistent = as_persistent st, snap_requireApiKeys = requireApiKeys (as_state st),
      snap_users = users (as_state st), snap_keys = map ManagedApiKey.truncate (keys (as_state st))\<rparr>"

text \<open>What can happen to a store: the operations, and queued writes that settle.\<close>

datatype access_op =
    CreateUser jsstring jsstring jsstring
  | SetUserDisabled jsstring bool
  | CreateApiKey bytes jsstring jsstring jsstring jsstring
  | RevokeApiKey jsstring jsstring
  | SetRequireApiKeys bool
  | Authorize jsstring "jsstring list" "jsstring option"
  | SettleWrite bool

fun access_op_state :: "(jsstring \<Rightarrow> jsstring) \<Rightarrow> (bytes \<Rightarrow> bytes) \<Rightarrow> access_op \<Rightarrow> access_store \<Rightarrow> access_store" where
  "access_op_state lower sha (CreateUser uuid now name) st = fst (createUser lower uuid now name st)"
| "access_op_state lower sha (SetUserDisabled uid d) st = fst (setUserDisabled uid d st)"
| "access_op_state lower sha (CreateApiKey random uuid now uid label) st = fst (createApiKey sha random uuid now uid label st)"
| "access_op_state lower sha (RevokeApiKey now kid) st = fst (revokeApiKey now kid st)"
| "access_op_state lower sha (SetRequireApiKeys b) st = fst (setRequireApiKeys b st)"
| "access_op_state lower sha (Authorize now old h) st = fst (authorize sha now (\<lambda>t. t \<in> set old) h st)"
| "access_op_state lower sha (SettleWrite ok) st = fst (settle_write ok st)"

section \<open>Lists changed in place\<close>

lemma map_update_first: "(\<And>x. g (f x) = g x) \<Longrightarrow> map g (update_first P f xs) = map g xs"
  by (induction xs) auto

lemma update_first_set: "x \<in> set (update_first P f xs) \<Longrightarrow> x \<in> set xs \<or> (\<exists>y\<in>set xs. x = f y)"
  by (induction xs) (auto split: if_splits)

lemma find_update_first:
  assumes "\<And>x. Q (f x) = Q x" "List.find Q xs = Some x"
  shows "List.find Q (update_first P f xs) \<in> {Some x, Some (f x)}"
  using assms by (induction xs) (auto split: if_splits)

lemma find_append_Some: "List.find Q xs = Some x \<Longrightarrow> List.find Q (xs @ ys) = Some x"
  by (induction xs) (auto split: if_splits)

lemma find_append_None: "List.find Q xs = None \<Longrightarrow> List.find Q (xs @ ys) = List.find Q ys"
  by (induction xs) (auto split: if_splits)

lemma find_by_field:
  "distinct (map g xs) \<Longrightarrow> x \<in> set xs \<Longrightarrow> List.find (\<lambda>y. g y = g x) xs = Some x"
  by (induction xs) auto

lemma update_first_at:
  "distinct (map g xs) \<Longrightarrow> List.find Q xs = Some x \<Longrightarrow> (\<And>y. Q (f y) = Q y) \<Longrightarrow>
   List.find Q (update_first (\<lambda>y. g y = g x) f xs) = Some (f x)"
  by (induction xs) (auto split: if_splits dest: find_Some_mem)

section \<open>What every operation keeps\<close>

text \<open>The state of a store only changes through \<open>with_state\<close>, which queues it.\<close>

lemma with_state_simps [simp]:
  "as_state (with_state st s) = s" "as_persistent (with_state st s) = as_persistent st" "as_disk (with_state st s) = as_disk st"
  "as_queue (with_state st s) = (if as_persistent st then wq_add s (as_queue st) else as_queue st)"
  by (simp_all add: with_state_def persist_def)

lemma settle_write_simps [simp]:
  "as_state (fst (settle_write ok st)) = as_state st" "as_persistent (fst (settle_write ok st)) = as_persistent st"
  by (simp_all add: settle_write_def split: prod.split)

text \<open>An operation either leaves the store alone, settles a write, or changes the state in one of six ways.\<close>

inductive state_change :: "(jsstring \<Rightarrow> jsstring) \<Rightarrow> (bytes \<Rightarrow> bytes) \<Rightarrow> AccessState \<Rightarrow> AccessState \<Rightarrow> bool"
  for lower sha s where
  user_added: "normalizeLabel name 80 = Inr n \<Longrightarrow> \<forall>u\<in>set (users s). lower (user_name u) \<noteq> lower n \<Longrightarrow>
    state_change lower sha s (s\<lparr>users := users s @ [\<lparr>user_id = i, user_name = n, user_disabled = False, user_createdAt = t\<rparr>]\<rparr>)"
| user_set: "state_change lower sha s (s\<lparr>users := update_first P (\<lambda>u. u\<lparr>user_disabled := d\<rparr>) (users s)\<rparr>)"
| key_added: "find_user (key_userId k) s = Some u \<Longrightarrow> key_revokedAt k = None \<Longrightarrow> key_lastUsedAt k = None \<Longrightarrow>
    key_hash k = hashSecret sha secret \<Longrightarrow> state_change lower sha s (s\<lparr>keys := keys s @ [k]\<rparr>)"
| key_revoked: "t \<noteq> [] \<Longrightarrow> state_change lower sha s (s\<lparr>keys := update_first P
    (\<lambda>k. k\<lparr>key_revokedAt := (case key_revokedAt k of None \<Rightarrow> Some t | Some t \<Rightarrow> Some t)\<rparr>) (keys s)\<rparr>)"
| key_used: "t \<noteq> [] \<Longrightarrow> state_change lower sha s (s\<lparr>keys := update_first P (\<lambda>k. k\<lparr>key_lastUsedAt := Some t\<rparr>) (keys s)\<rparr>)"
| required: "b \<longrightarrow> hasUsableKey s \<Longrightarrow> state_change lower sha s (s\<lparr>requireApiKeys := b\<rparr>)"

definition changed :: "(jsstring \<Rightarrow> jsstring) \<Rightarrow> (bytes \<Rightarrow> bytes) \<Rightarrow> access_store \<Rightarrow> access_store \<Rightarrow> bool" where
  "changed lower sha st st' \<longleftrightarrow>
     st' = st \<or> (\<exists>s. state_change lower sha (as_state st) s \<and> st' = with_state st s)"

lemma changed_refl: "changed lower sha st st"
  by (simp add: changed_def)

lemma changed_with: "state_change lower sha (as_state st) s \<Longrightarrow> changed lower sha st (with_state st s)"
  by (auto simp: changed_def)

lemma operation_changes:
  "changed lower sha st (fst (createUser lower i t name st))"
  "changed lower sha st (fst (setUserDisabled uid d st))"
  "changed lower sha st (fst (createApiKey sha random i t uid label st))"
  "t \<noteq> [] \<Longrightarrow> changed lower sha st (fst (revokeApiKey t kid st))"
  "changed lower sha st (fst (setRequireApiKeys b st))"
  "t \<noteq> [] \<Longrightarrow> changed lower sha st (fst (authorize sha t old h st))"
proof -
  show "changed lower sha st (fst (createUser lower i t name st))"
    by (auto simp: createUser_def Let_def list_ex_iff changed_refl split: sum.split intro!: changed_with user_added)
  show "changed lower sha st (fst (setUserDisabled uid d st))"
    by (auto simp: setUserDisabled_def changed_refl split: sum.split intro!: changed_with user_set)
  show "changed lower sha st (fst (createApiKey sha random i t uid label st))"
    by (auto simp: createApiKey_def requireUser_def Let_def changed_refl split: sum.split option.split
        intro!: changed_with key_added)
  show "t \<noteq> [] \<Longrightarrow> changed lower sha st (fst (revokeApiKey t kid st))"
    by (auto simp: revokeApiKey_def Let_def changed_refl split: option.split intro!: changed_with key_revoked)
  show "changed lower sha st (fst (setRequireApiKeys b st))"
    by (auto simp: setRequireApiKeys_def changed_refl intro!: changed_with required)
  show "t \<noteq> [] \<Longrightarrow> changed lower sha st (fst (authorize sha t old h st))"
    by (auto simp: authorize_def changed_refl split: option.split intro!: changed_with key_used)
qed

text \<open>A timestamp is never the empty string.\<close>

fun stamped :: "access_op \<Rightarrow> bool" where
  "stamped (RevokeApiKey now kid) = (now \<noteq> [])"
| "stamped (Authorize now old h) = (now \<noteq> [])"
| "stamped _ = True"

lemma access_op_cases:
  assumes "stamped op"
  obtains "access_op_state lower sha op st = st"
    | ok where "op = SettleWrite ok"
    | s where "state_change lower sha (as_state st) s" "access_op_state lower sha op st = with_state st s"
proof (cases "\<exists>ok. op = SettleWrite ok")
  case True
  then show ?thesis using that(2) by blast
next
  case False
  then have "changed lower sha st (access_op_state lower sha op st)"
    using assms operation_changes by (cases op) auto
  then show ?thesis using that(1,3) by (auto simp: changed_def)
qed

section \<open>Users and keys\<close>

definition good_name :: "jsstring \<Rightarrow> bool" where
  "good_name n \<longleftrightarrow> trim n = n \<and> n \<noteq> [] \<and> length n \<le> 80 \<and> (\<forall>c\<in>set n. 32 \<le> c \<and> c \<noteq> 127)"

definition state_ok :: "(jsstring \<Rightarrow> jsstring) \<Rightarrow> AccessState \<Rightarrow> bool" where
  "state_ok lower s \<longleftrightarrow>
     distinct (map (lower \<circ> user_name) (users s)) \<and>
     (\<forall>u\<in>set (users s). good_name (user_name u)) \<and>
     (\<forall>k\<in>set (keys s). \<exists>u\<in>set (users s). user_id u = key_userId k)"

lemma normalizeLabel_ok:
  "normalizeLabel v 80 = Inr n \<Longrightarrow> good_name n"
  by (auto simp: good_name_def normalizeLabel_def Let_def list_ex_iff split: if_splits)

lemma update_first_users:
  "map user_name (update_first P (\<lambda>u. u\<lparr>user_disabled := d\<rparr>) us) = map user_name us"
  "map user_id (update_first P (\<lambda>u. u\<lparr>user_disabled := d\<rparr>) us) = map user_id us"
  by (simp_all add: map_update_first)

lemma user_set_image:
  assumes "map user_id us' = map user_id us"
  shows "(\<exists>u\<in>set us'. user_id u = i) \<longleftrightarrow> (\<exists>u\<in>set us. user_id u = i)"
proof -
  have "i \<in> set (map user_id us') \<longleftrightarrow> i \<in> set (map user_id us)" using assms by simp
  then show ?thesis by auto
qed

lemma state_change_ok: "state_change lower sha s s' \<Longrightarrow> state_ok lower s \<Longrightarrow> state_ok lower s'"
proof (induction rule: state_change.induct)
  case (user_added name n i t)
  then show ?case using normalizeLabel_ok [OF user_added(1)] by (auto simp: state_ok_def image_iff)
next
  case (user_set P d)
  let ?us = "update_first P (\<lambda>u. u\<lparr>user_disabled := d\<rparr>) (users s)"
  have "map (lower \<circ> user_name) ?us = map (lower \<circ> user_name) (users s)"
    by (simp add: map_update_first)
  moreover have "user_name ` set ?us = user_name ` set (users s)"
    using update_first_users(1) [of P d "users s"] by (metis list.set_map)
  ultimately show ?case
    using user_set user_set_image [OF update_first_users(2) [of P d "users s"]]
    by (auto simp: state_ok_def dest!: update_first_set)
next
  case (key_added k u secret)
  then show ?case by (auto simp: state_ok_def find_user_def dest: find_Some_mem)
next
  case (key_revoked P t)
  then show ?case by (fastforce simp: state_ok_def dest!: update_first_set)
next
  case (key_used P t)
  then show ?case by (fastforce simp: state_ok_def dest!: update_first_set)
next
  case (required b)
  then show ?case by (simp add: state_ok_def)
qed

section \<open>Revocation\<close>

definition dead_secret :: "(bytes \<Rightarrow> bytes) \<Rightarrow> jsstring \<Rightarrow> AccessState \<Rightarrow> bool" where
  "dead_secret sha secret s \<longleftrightarrow>
     (case List.find (hash_matches sha secret) (keys s) of None \<Rightarrow> False | Some k \<Rightarrow> key_revokedAt k \<noteq> None)"

lemma hash_matches_update [simp]:
  "hash_matches sha secret (k\<lparr>key_revokedAt := r\<rparr>) = hash_matches sha secret k"
  "hash_matches sha secret (k\<lparr>key_lastUsedAt := l\<rparr>) = hash_matches sha secret k"
  by (simp_all add: hash_matches_def)

lemma dead_update:
  assumes "dead_secret sha secret s" "\<And>k. hash_matches sha secret (f k) = hash_matches sha secret k"
    "\<And>k. key_revokedAt k \<noteq> None \<Longrightarrow> key_revokedAt (f k) \<noteq> None"
  shows "dead_secret sha secret (s\<lparr>keys := update_first P f (keys s)\<rparr>)"
proof -
  obtain k where k: "List.find (hash_matches sha secret) (keys s) = Some k" "key_revokedAt k \<noteq> None"
    using assms(1) by (auto simp: dead_secret_def split: option.splits)
  then have "List.find (hash_matches sha secret) (update_first P f (keys s)) \<in> {Some k, Some (f k)}"
    using assms(2) by (intro find_update_first)
  with k assms(3) show ?thesis by (auto simp: dead_secret_def)
qed

lemma state_change_dead: "state_change lower sha s s' \<Longrightarrow> dead_secret sha secret s \<Longrightarrow> dead_secret sha secret s'"
proof (induction rule: state_change.induct)
  case (key_added k u sec)
  then show ?case by (auto simp: dead_secret_def find_append_Some split: option.splits)
next
  case (key_revoked P t)
  then show ?case by (intro dead_update) (auto split: option.splits)
next
  case (key_used P t)
  then show ?case by (intro dead_update) auto
qed (auto simp: dead_secret_def)

definition run_access :: "(jsstring \<Rightarrow> jsstring) \<Rightarrow> (bytes \<Rightarrow> bytes) \<Rightarrow> access_op list \<Rightarrow> access_store \<Rightarrow> access_store" where
  "run_access lower sha ops st = fold (access_op_state lower sha) ops st"

lemma run_access_simps [simp]:
  "run_access lower sha [] st = st"
  "run_access lower sha (op # ops) st = run_access lower sha ops (access_op_state lower sha op st)"
  by (simp_all add: run_access_def)

text \<open>What every change of the state and every settled write keeps, a run keeps.\<close>

lemma run_access_invariant:
  assumes "I st" "\<forall>op\<in>set ops. stamped op" "\<And>st s. I st \<Longrightarrow> state_change lower sha (as_state st) s \<Longrightarrow> I (with_state st s)"
    "\<And>st ok. I st \<Longrightarrow> I (fst (settle_write ok st))"
  shows "I (run_access lower sha ops st)"
  using assms(1,2)
proof (induction ops arbitrary: st)
  case (Cons op ops)
  then have "stamped op" by simp
  then have "I (access_op_state lower sha op st)"
    by (rule access_op_cases [where lower = lower and sha = sha and st = st]) (use Cons.prems assms(3,4) in auto)
  with Cons show ?case by simp
qed simp

lemma run_access_state:
  assumes "P (as_state st)" "\<forall>op\<in>set ops. stamped op" "\<And>s s'. P s \<Longrightarrow> state_change lower sha s s' \<Longrightarrow> P s'"
  shows "P (as_state (run_access lower sha ops st))"
  using assms by (intro run_access_invariant [where I = "\<lambda>st. P (as_state st)"]) auto

lemma dead_unauthorized:
  assumes "dead_secret sha secret (as_state st)" "bearer_secret h = Some secret" "h \<noteq> []"
  shows "\<exists>m. authorize sha now old (Some h) st = (st, Unauthorized m)"
  using assms by (auto simp: authorize_def dead_secret_def split: option.splits)

lemma bearer_nonempty: "bearer_secret h = Some secret \<Longrightarrow> h \<noteq> []"
  by (auto simp: bearer_secret_def js_def)

lemma revoke_dead:
  assumes "revokeApiKey now (key_id k) st = (st', r)" "List.find (hash_matches sha secret) (keys (as_state st)) = Some k"
    "distinct (map key_id (keys (as_state st)))"
  shows "dead_secret sha secret (as_state st')"
proof -
  let ?f = "\<lambda>k. k\<lparr>key_revokedAt := (case key_revokedAt k of None \<Rightarrow> Some now | Some t \<Rightarrow> Some t)\<rparr>"
  have "List.find (\<lambda>y. key_id y = key_id k) (keys (as_state st)) = Some k"
    using find_by_field [OF assms(3), of k] find_Some_mem [OF assms(2)] by simp
  then have "as_state st' = (as_state st)\<lparr>keys := update_first (\<lambda>y. key_id y = key_id k) ?f (keys (as_state st))\<rparr>"
    using assms(1) by (auto simp: revokeApiKey_def)
  with update_first_at [OF assms(3,2), of ?f] show ?thesis
    by (auto simp: dead_secret_def split: option.split)
qed

section \<open>A created key\<close>

lemma b64url_char_key: "v < 64 \<Longrightarrow> key_char (b64url_char v)"
  by (auto simp: key_char_def b64url_char_def b64_char_def is_alnum_def is_digit_def is_upper_def is_lower_def)

lemma base64url_key_chars: "list_all key_char (base64url_encode bs)"
  using sextets_less [of _ bs] b64url_char_key by (auto simp: base64url_encode_def list_all_iff)

lemma base64url_nonempty: "bs \<noteq> [] \<Longrightarrow> base64url_encode bs \<noteq> []"
  using length_sextets [of bs] by (cases bs) (auto simp: base64url_encode_def)

lemma bearer_created: "random \<noteq> [] \<Longrightarrow> bearer_secret (js ''Bearer '' @ make_secret random) = Some (make_secret random)"
  using base64url_key_chars [of random] base64url_nonempty [of random]
  by (simp add: bearer_secret_def make_secret_def API_KEY_PREFIX_def js_def is_space_def)

lemma createApiKey_cases:
  assumes "createApiKey sha random uuid now uid label st = (st', Inr (k, secret))"
  obtains u key where "find_user uid (as_state st) = Some u" "\<not> user_disabled u" "secret = make_secret random"
    "st' = with_state st ((as_state st)\<lparr>keys := keys (as_state st) @ [key]\<rparr>)" "key_id key = uuid" "key_id k = uuid"
    "key_userId key = uid" "key_hash key = hashSecret sha secret" "key_revokedAt key = None" "key_prefix k = take 13 secret"
    "key_lastUsedAt key = None"
  using assms
  by (auto simp: createApiKey_def requireUser_def Let_def ManagedApiKey.defs split: sum.splits option.splits if_splits)

section \<open>The state file\<close>

lemma validate_user_json [simp]: "validate_user (user_json u) = Inr u"
  by (simp add: validate_user_def user_json_def)

definition key_stamps :: "StoredApiKey \<Rightarrow> bool" where
  "key_stamps k \<longleftrightarrow> key_lastUsedAt k \<noteq> Some [] \<and> key_revokedAt k \<noteq> Some []"

lemma validate_key_json: "key_stamps k \<Longrightarrow> validate_key (key_json k) = Inr k"
  by (cases "key_lastUsedAt k"; cases "key_revokedAt k")
     (auto simp: validate_key_def key_json_def optional_field_def optional_string_def key_stamps_def)

lemma validateState_json: "\<forall>k\<in>set (keys s). key_stamps k \<Longrightarrow> validateState (state_json s) = Inr s"
  by (simp add: validateState_def state_json_def map_result_map validate_key_json)

lemma validate_key_stamps: "validate_key v = Inr k \<Longrightarrow> key_stamps k"
  by (auto simp: validate_key_def optional_string_def key_stamps_def split: option.splits json.splits if_splits)

lemma validateState_stamps: "validateState v = Inr s \<Longrightarrow> \<forall>k\<in>set (keys s). key_stamps k"
  by (auto simp: validateState_def map_result_Inr in_set_conv_nth list_all2_conv_all_nth
      split: option.splits json.splits if_splits sum.splits dest!: validate_key_stamps)

section \<open>Durability\<close>

interpretation access_file: state_file as_state as_queue as_disk as_persistent "\<lambda>s. s" "\<lambda>s st. with_state st s"
    "\<lambda>ok st. fst (settle_write ok st)"
  by unfold_locales (simp_all add: settle_write_def split: prod.split)

definition durable :: "access_store \<Rightarrow> bool" where
  "durable st \<longleftrightarrow> (\<forall>k\<in>set (keys (as_state st)). key_stamps k) \<and> access_file.in_step emptyState st"

lemma state_change_stamps:
  "state_change lower sha s s' \<Longrightarrow> \<forall>k\<in>set (keys s). key_stamps k \<Longrightarrow> \<forall>k\<in>set (keys s'). key_stamps k"
  by (induction rule: state_change.induct)
     (auto simp: key_stamps_def dest!: update_first_set split: option.splits)

lemma open_access_durable: "open_access p r = Inr st \<Longrightarrow> durable st"
  using validateState_stamps
  by (auto simp: open_access_def durable_def access_file.in_step_def emptyState_def split: if_splits file_read.splits sum.splits)

lemma run_durable: "open_access p r = Inr st \<Longrightarrow> \<forall>op\<in>set ops. stamped op \<Longrightarrow> durable (run_access lower sha ops st)"
  by (rule run_access_invariant [where I = durable])
     (auto simp: durable_def dest: open_access_durable state_change_stamps access_file.in_step_submit
        access_file.in_step_settled simp del: with_state_simps(2-))

lemma run_persistent:
  "\<forall>op\<in>set ops. stamped op \<Longrightarrow> as_persistent (run_access lower sha ops st) = as_persistent st"
  by (rule run_access_invariant [where I = "\<lambda>st'. as_persistent st' = as_persistent st"]) simp_all

lemma run_rejected:
  assumes "wq_rejected (as_queue st)" "\<forall>op\<in>set ops. stamped op"
  shows "wq_rejected (as_queue (run_access lower sha ops st)) \<and> as_disk (run_access lower sha ops st) = as_disk st"
  using run_access_invariant [where I = "access_file.stuck (as_disk st)", of st ops lower sha] assms
    access_file.stuck_submit access_file.stuck_settled
  by (auto simp: access_file.stuck_def)

section \<open>Properties\<close>

text \<open>
  C11: a key that has been revoked never authorizes again. When the first stored key with the hash of a
  secret is revoked, then whatever operations follow, a request with this secret is refused.
\<close>

theorem revoked_key_refused:
  assumes "revokeApiKey now (key_id k) st = (st', r)"
    "List.find (hash_matches sha secret) (keys (as_state st)) = Some k"
    "distinct (map key_id (keys (as_state st)))"
    "\<forall>op\<in>set ops. stamped op" "bearer_secret h = Some secret"
  shows "\<exists>m. snd (authorize sha now' old (Some h) (run_access lower sha ops st')) = Unauthorized m"
proof -
  have "dead_secret sha secret (as_state (run_access lower sha ops st'))"
    using revoke_dead [OF assms(1-3)] assms(4) state_change_dead by (rule run_access_state)
  with assms(5) show ?thesis
    using dead_unauthorized bearer_nonempty by (metis snd_conv)
qed

definition demo_user :: ManagedUser where
  "demo_user = \<lparr>user_id = js ''u1'', user_name = js ''Ada'', user_disabled = False, user_createdAt = js ''t0''\<rparr>"

definition demo_key :: StoredApiKey where
  "demo_key = \<lparr>key_id = js ''k1'', key_userId = js ''u1'', key_label = js ''laptop'', key_prefix = js ''typr_AQ'', key_createdAt = js ''t1'',
     key_lastUsedAt = None, key_revokedAt = None, key_hash = hashSecret (\<lambda>b. b) (make_secret [1])\<rparr>"

definition demo_store :: "StoredApiKey list \<Rightarrow> access_store" where
  "demo_store ks = \<lparr>as_state = \<lparr>requireApiKeys = True, users = [demo_user], keys = ks\<rparr>, as_persistent = True, as_disk = None,
     as_queue = wq_new\<rparr>"

lemma demo_match: "hash_matches (\<lambda>b. b) (make_secret [1]) demo_key"
  unfolding hash_matches_def demo_key_def by simp

theorem revoked_key_refused_witness:
  "\<exists>m. snd (authorize (\<lambda>b. b) (js ''t9'') (\<lambda>_. False) (Some (js ''Bearer '' @ make_secret [1]))
     (run_access ascii_lower (\<lambda>b. b) [SetUserDisabled (js ''u1'') True, SetUserDisabled (js ''u1'') False]
       (fst (revokeApiKey (js ''t8'') (key_id demo_key) (demo_store [demo_key]))))) = Unauthorized m"
  by (rule revoked_key_refused [OF prod.collapse [symmetric], where k = demo_key])
     (simp_all add: demo_store_def demo_match bearer_created del: js_append)

text \<open>
  A created key works. The secret returned, sent as a bearer token, is accepted as the user it was
  created for, if no stored key had the same hash; the store keeps only its hash and first thirteen
  characters.
\<close>

theorem created_key_authorizes:
  assumes "createApiKey sha random uuid now uid label st = (st', Inr (k, secret))" "random \<noteq> []"
    "\<forall>k\<in>set (keys (as_state st)). \<not> hash_matches sha secret k"
  shows "\<exists>u. find_user uid (as_state st) = Some u \<and>
    snd (authorize sha now' old (Some (js ''Bearer '' @ secret)) st') =
      Authorized (Some \<lparr>prin_userId = user_id u, prin_userName = user_name u, prin_keyId = key_id k\<rparr>) \<and>
    key_prefix k = take 13 secret"
  using assms(1)
proof (cases rule: createApiKey_cases)
  case (1 u key)
  have "List.find (hash_matches sha secret) (keys (as_state st)) = None"
    using assms(3) by (simp add: find_None_iff)
  moreover have "hash_matches sha secret key" using 1 by (simp add: hash_matches_def)
  ultimately have "List.find (hash_matches sha secret) (keys (as_state st')) = Some key"
    using 1 by (simp add: find_append_None)
  moreover have "find_user uid (as_state st') = Some u" using 1 by (simp add: find_user_def)
  ultimately show ?thesis using 1 bearer_created [OF assms(2)]
    by (simp add: authorize_def js_def)
qed

lemma demo_create:
  obtains st' k secret where
    "createApiKey (\<lambda>b. b) [1] (js ''k1'') (js ''t1'') (js ''u1'') (js ''laptop'') (demo_store []) = (st', Inr (k, secret))"
proof -
  have "normalizeLabel (js ''laptop'') 80 = Inr (js ''laptop'')"
    by (simp add: normalizeLabel_def js_def trim_fixed is_space_def)
  with that show ?thesis
    by (auto simp: createApiKey_def requireUser_def find_user_def demo_store_def demo_user_def Let_def)
qed

theorem created_key_authorizes_witness:
  "\<exists>st' k secret (u :: ManagedUser). createApiKey (\<lambda>b. b) [1] (js ''k1'') (js ''t1'') (js ''u1'') (js ''laptop'') (demo_store []) = (st', Inr (k, secret)) \<and>
     snd (authorize (\<lambda>b. b) (js ''t2'') (\<lambda>_. False) (Some (js ''Bearer '' @ secret)) st') =
        Authorized (Some \<lparr>prin_userId = user_id u, prin_userName = user_name u, prin_keyId = key_id k\<rparr>)"
proof (rule demo_create)
  fix st' k secret
  assume c: "createApiKey (\<lambda>b. b) [1] (js ''k1'') (js ''t1'') (js ''u1'') (js ''laptop'') (demo_store []) = (st', Inr (k, secret))"
  show ?thesis
    using created_key_authorizes [OF c, of "js ''t2''" "\<lambda>_. False"] c by (auto simp: demo_store_def)
qed

text \<open>
  In a store opened without a file and used in any way, no two users have names equal up to case,
  every name is trimmed, printable and at most 80 characters, and every key belongs to a user.
\<close>

theorem access_state_ok:
  "open_access p Missing = Inr st \<Longrightarrow> \<forall>op\<in>set ops. stamped op \<Longrightarrow>
   state_ok lower (as_state (run_access lower sha ops st))"
  by (rule run_access_state)
     (auto simp: open_access_def state_ok_def emptyState_def split: if_splits dest: state_change_ok)

theorem access_state_ok_witness:
  "\<exists>st. open_access None Missing = Inr st \<and>
     state_ok ascii_lower (as_state (run_access ascii_lower (\<lambda>b. b)
       [CreateUser (js ''u1'') (js ''t0'') (js ''Ada''), CreateUser (js ''u2'') (js ''t1'') (js ''ada'')] st))"
  using access_state_ok [of None]
  by (simp add: open_access_def del: run_access_simps)

text \<open>
  C31: while no write has failed, a store with a file whose queued writes have settled can be opened
  again with the state it had. But the first write that fails rejects the queue for good: from then on
  no operation reaches the file, though the operations keep changing the state in memory.
\<close>

theorem access_durability:
  assumes "open_access (Some p) r = Inr st0" "p \<noteq> []" "\<forall>op\<in>set ops. stamped op" "st = run_access lower sha ops st0"
  shows "(\<not> wq_rejected (as_queue st) \<and> wq_pending (as_queue st) = [] \<longrightarrow>
      (\<exists>st1. open_access (Some p) (case as_disk st of None \<Rightarrow> Missing | Some s \<Rightarrow> Parsed (state_json s)) = Inr st1 \<and>
         as_state st1 = as_state st)) \<and>
    (wq_rejected (as_queue st) \<longrightarrow>
      (\<forall>later. (\<forall>op\<in>set later. stamped op) \<longrightarrow> as_disk (run_access lower sha later st) = as_disk st))"
proof -
  have "as_persistent st0" using assms(1,2) by (auto simp: open_access_def split: file_read.splits sum.splits)
  then have "durable st" "as_persistent st"
    using run_durable [OF assms(1,3)] run_persistent [OF assms(3)] assms(4) by auto
  then have "\<not> wq_rejected (as_queue st) \<and> wq_pending (as_queue st) = [] \<longrightarrow>
      (\<exists>st1. open_access (Some p) (case as_disk st of None \<Rightarrow> Missing | Some s \<Rightarrow> Parsed (state_json s)) = Inr st1 \<and>
         as_state st1 = as_state st)"
    using assms(2) validateState_json [of "as_state st"] access_file.in_step_file [of emptyState st]
    by (auto simp: durable_def open_access_def)
  then show ?thesis using run_rejected by blast
qed

definition demo_failure :: "access_op list" where
  "demo_failure = [CreateUser (js ''u1'') (js ''t0'') (js ''Ada''), SettleWrite False]"

definition demo_new :: access_store where
  "demo_new = \<lparr>as_state = emptyState, as_persistent = True, as_disk = None, as_queue = wq_new\<rparr>"

lemma demo_open: "open_access (Some (js ''/s.json'')) Missing = Inr demo_new"
  by (simp add: open_access_def demo_new_def)

lemma demo_rejected: "wq_rejected (as_queue (run_access ascii_lower (\<lambda>b. b) demo_failure demo_new))"
proof -
  have "normalizeLabel (js ''Ada'') 80 = Inr (js ''Ada'')"
    by (simp add: normalizeLabel_def js_def trim_fixed is_space_def)
  then show ?thesis
    by (simp add: demo_failure_def demo_new_def createUser_def emptyState_def Let_def settle_write_def wq_settle_def wq_add_def wq_new_def)
qed

theorem access_durability_witness:
  "as_disk (run_access ascii_lower (\<lambda>b. b) [SettleWrite True] (run_access ascii_lower (\<lambda>b. b) demo_failure demo_new)) =
   as_disk (run_access ascii_lower (\<lambda>b. b) demo_failure demo_new)"
proof -
  have "\<forall>op\<in>set demo_failure. stamped op" by (simp add: demo_failure_def)
  from access_durability [OF demo_open _ this refl, of ascii_lower "\<lambda>b. b"] demo_rejected show ?thesis
    by (simp del: run_access_simps)
qed

end
