(* ===== verification/ServerHttp.thy ===== *)
theory ServerHttp
  imports WorkspaceStore AccessStore CompileRequest
begin

text \<open>
  \<^verbatim>\<open>typr-server/server.ts\<close>: the HTTP routes of the companion, its CORS policy, the workspace API over the
  store, the admission of compilations and of live sessions. A request carries what \<open>new URL\<close> makes of
  its target (\<open>None\<close>: it throws), its headers, the body chunks and the number the Content-Length header
  reads as. The parser \<open>JSON.parse\<close> of a body, the clock, random names and the failures of the files
  below are parameters. Message texts, activity events and measured times are left out.
\<close>

section \<open>Requests and responses\<close>

datatype header_value = HStr jsstring | HList "jsstring list"

record http_request =
  rq_method :: jsstring
  rq_url :: "(jsstring \<times> jsstring list) option"
  rq_headers :: "(string \<times> header_value) list"
  rq_contentLength :: "int option"
  rq_chunks :: "bytes list"

datatype response_body =
    EmptyBody
  | ErrorBody string
  | StatusBody CompanionStatusResponse
  | FilesBody WorkspaceFileListResponse
  | FileBody WorkspaceFileResponse
  | MetadataBody WorkspaceFileMetadata
  | ResultBody CompileResult

record response =
  rs_status :: nat
  rs_headers :: "(string \<times> jsstring) list"
  rs_body :: response_body

definition MAX_REQUEST_BYTES :: int where "MAX_REQUEST_BYTES = 25 * 1024 * 1024"
definition WORKSPACE_WRITE_BODY_OVERHEAD_BYTES :: int where "WORKSPACE_WRITE_BODY_OVERHEAD_BYTES = 64 * 1024"
definition MAX_ACTIVE_COMPILATIONS :: nat where "MAX_ACTIVE_COMPILATIONS = 2"
definition MAX_ACTIVE_LIVE_SESSIONS :: nat where "MAX_ACTIVE_LIVE_SESSIONS = 2"

definition IMPLEMENTED_ENGINES :: "jsstring list" where
  "IMPLEMENTED_ENGINES = [js ''pdflatex'']"

definition DEFAULT_ALLOWED_ORIGINS :: "jsstring list" where
  "DEFAULT_ALLOWED_ORIGINS = map js
     [''https://typr.ca'', ''https://beta.typr.ca'', ''https://dev.typr.ca'',
      ''http://localhost:5173'', ''http://127.0.0.1:5173'', ''http://[::1]:5173'',
      ''http://localhost:5174'', ''http://127.0.0.1:5174'', ''http://[::1]:5174'']"

definition getAllowedOriginsFromEnvironment :: "jsstring option \<Rightarrow> jsstring list" where
  "getAllowedOriginsFromEnvironment configured =
     (case configured of
        None \<Rightarrow> DEFAULT_ALLOWED_ORIGINS
      | Some s \<Rightarrow> if s = [] then DEFAULT_ALLOWED_ORIGINS else filter (\<lambda>o'. o' \<noteq> []) (map trim (split_on 44 s)))"

definition header :: "http_request \<Rightarrow> string \<Rightarrow> header_value option" where
  "header rq name = map_of (rq_headers rq) name"

definition singleHeader :: "header_value option \<Rightarrow> jsstring option" where
  "singleHeader v =
     (case v of
        Some (HStr s) \<Rightarrow> if 44 \<in> set s then None else let n = trim s in if n = [] then None else Some n
      | _ \<Rightarrow> None)"

text \<open>\<open>request.headers.origin\<close> as the code tests it: present and not empty, and in the set.\<close>

definition origin_given :: "http_request \<Rightarrow> bool" where
  "origin_given rq \<longleftrightarrow> (case header rq ''origin'' of None \<Rightarrow> False | Some (HStr s) \<Rightarrow> s \<noteq> [] | Some (HList _) \<Rightarrow> True)"

definition origin_allowed :: "jsstring list \<Rightarrow> http_request \<Rightarrow> bool" where
  "origin_allowed allowed rq \<longleftrightarrow> (case header rq ''origin'' of Some (HStr s) \<Rightarrow> s \<in> set allowed | _ \<Rightarrow> False)"

definition isWorkspaceRoute :: "jsstring \<Rightarrow> bool" where
  "isWorkspaceRoute pathname \<longleftrightarrow> pathname = route_workspaceFiles \<or> pathname = route_workspaceFile"

definition serviceIdForPath :: "jsstring \<Rightarrow> string" where
  "serviceIdForPath pathname =
     (if pathname = route_compile then ''latex'' else if isWorkspaceRoute pathname then ''workspace''
      else if pathname = TEXPRESSO_WS_ROUTE then ''live-preview'' else ''companion-api'')"

section \<open>CORS\<close>

record CorsRoutePolicy =
  pol_methods :: "string list"
  pol_headersByMethod :: "(string \<times> string list) list"

definition getCorsRoutePolicy :: "jsstring \<Rightarrow> CorsRoutePolicy option" where
  "getCorsRoutePolicy pathname =
     (if pathname = route_status
      then Some \<lparr>pol_methods = [''GET''], pol_headersByMethod = [(''GET'', [''Authorization''])]\<rparr>
      else if pathname = route_compile
      then Some \<lparr>pol_methods = [''POST''], pol_headersByMethod = [(''POST'', [''Content-Type'', ''Authorization''])]\<rparr>
      else if pathname = route_workspaceFiles
      then Some \<lparr>pol_methods = [''GET''], pol_headersByMethod = [(''GET'', [''Authorization''])]\<rparr>
      else if pathname = route_workspaceFile
      then Some \<lparr>pol_methods = [''GET'', ''PUT'', ''DELETE''],
                 pol_headersByMethod =
                   [(''GET'', [''Authorization'']),
                    (''PUT'', [''Content-Type'', ''Authorization'', ''If-Match'', ''If-None-Match'', TYPR_WORKSPACE_MUTATION_HEADER]),
                    (''DELETE'', [''Authorization'', ''If-Match'', TYPR_WORKSPACE_MUTATION_HEADER])]\<rparr>
      else None)"

text \<open>\<open>new Set(...)\<close>: the first occurrences, in order.\<close>

definition first_occurrences :: "'a list \<Rightarrow> 'a list" where
  "first_occurrences xs = rev (remdups (rev xs))"

definition applyCorsHeaders :: "jsstring list \<Rightarrow> http_request \<Rightarrow> jsstring \<Rightarrow> (string \<times> jsstring) list" where
  "applyCorsHeaders allowed rq pathname =
     (case (header rq ''origin'', getCorsRoutePolicy pathname) of
        (Some (HStr origin), Some policy) \<Rightarrow>
          if origin \<noteq> [] \<and> origin \<in> set allowed
          then let hs = first_occurrences (concat (map snd (pol_headersByMethod policy)))
               in [(''Access-Control-Allow-Origin'', origin),
                   (''Access-Control-Allow-Methods'', join_with (js '', '') (map js (pol_methods policy)) @ js '', OPTIONS'')] @
                  (if hs \<noteq> [] then [(''Access-Control-Allow-Headers'', join_with (js '', '') (map js hs))] else []) @
                  [(''Access-Control-Expose-Headers'', js ''ETag'')] @
                  (if header rq ''access-control-request-private-network'' = Some (HStr (js ''true''))
                   then [(''Access-Control-Allow-Private-Network'', js ''true'')] else []) @
                  [(''Vary'', js ''Origin, Access-Control-Request-Private-Network'')]
          else []
      | _ \<Rightarrow> [])"

text \<open>
  Header values are Latin-1 text, for which comparing with the ASCII names of the policy after
  \<open>toUpperCase\<close> and \<open>toLowerCase\<close> is comparing after changing the ASCII letters.
\<close>

definition validateCorsPreflight :: "jsstring list \<Rightarrow> http_request \<Rightarrow> jsstring \<Rightarrow> nat \<times> string + unit" where
  "validateCorsPreflight allowed rq pathname =
     (if (case singleHeader (header rq ''origin'') of None \<Rightarrow> True | Some o' \<Rightarrow> o' \<notin> set allowed)
      then Inl (403, ''cors-origin-forbidden'')
      else case getCorsRoutePolicy pathname of
        None \<Rightarrow> Inl (404, ''route-not-found'')
      | Some policy \<Rightarrow>
          (case map_option ascii_upper (singleHeader (header rq ''access-control-request-method'')) of
             None \<Rightarrow> Inl (405, ''cors-method-forbidden'')
           | Some method \<Rightarrow>
               if method \<notin> set (map js (pol_methods policy)) then Inl (405, ''cors-method-forbidden'')
               else let allowedHeaders = concat (map (\<lambda>(m, hs). if js m = method then map (ascii_lower \<circ> js) hs else [])
                                                   (pol_headersByMethod policy))
                    in (case header rq ''access-control-request-headers'' of
                          Some (HList _) \<Rightarrow> Inl (400, ''cors-header-forbidden'')
                        | Some (HStr s) \<Rightarrow>
                            if s \<noteq> [] \<and> list_ex (\<lambda>h. h = [] \<or> h \<notin> set allowedHeaders)
                                 (map (ascii_lower \<circ> trim) (split_on 44 s))
                            then Inl (400, ''cors-header-forbidden'') else Inr ()
                        | None \<Rightarrow> Inr ())))"

section \<open>Bodies\<close>

fun read_chunks :: "int \<Rightarrow> int \<Rightarrow> bytes list \<Rightarrow> bytes list \<Rightarrow> bytes option" where
  "read_chunks maxBytes len acc [] = Some (concat (rev acc))"
| "read_chunks maxBytes len acc (c # cs) =
     (if len + int (length c) > maxBytes then None else read_chunks maxBytes (len + int (length c)) (c # acc) cs)"

definition readJsonBody :: "(bytes \<Rightarrow> json option) \<Rightarrow> http_request \<Rightarrow> int \<Rightarrow> nat + json" where
  "readJsonBody parse rq maxBytes =
     (if (case rq_contentLength rq of None \<Rightarrow> False | Some n \<Rightarrow> n > maxBytes) then Inl 413
      else case read_chunks maxBytes 0 [] (rq_chunks rq) of
        None \<Rightarrow> Inl 413
      | Some body \<Rightarrow> (case parse body of None \<Rightarrow> Inl 400 | Some v \<Rightarrow> Inr v))"

section \<open>The workspace API\<close>

definition requireWorkspaceMutationHeader :: "http_request \<Rightarrow> bool" where
  "requireWorkspaceMutationHeader rq \<longleftrightarrow> singleHeader (header rq ''x-typr-workspace-mutation'') = Some (js ''1'')"

text \<open>\<open>/^"[^"\r\n]+"$/u\<close>\<close>

definition isStrongEtag :: "jsstring \<Rightarrow> bool" where
  "isStrongEtag v \<longleftrightarrow>
     3 \<le> length v \<and> hd v = 34 \<and> last v = 34 \<and> list_all (\<lambda>c. c \<noteq> 34 \<and> c \<noteq> 13 \<and> c \<noteq> 10) (butlast (tl v))"

definition workspaceWriteContent :: "json \<Rightarrow> jsstring option" where
  "workspaceWriteContent v =
     (if field v ''encoding'' = Some (JStr (js ''base64''))
      then (case as_string (field v ''content'') of
              Some c \<Rightarrow> if isBase64 c then Some c else None
            | None \<Rightarrow> None)
      else None)"

text \<open>What a request meets: the time, the random name and the failure of a write, and the settled persistence of the key store.\<close>

record surroundings =
  su_uuid :: jsstring
  su_now :: int
  su_fault :: "write_step option"
  su_cleaned :: bool
  su_timestamp :: jsstring
  su_minute_old :: "jsstring \<Rightarrow> bool"
  su_persisted :: bool
  su_pdflatex :: bool

definition write_precondition :: "http_request \<Rightarrow> ws_error + precondition" where
  "write_precondition rq =
     (case (singleHeader (header rq ''if-none-match''), singleHeader (header rq ''if-match'')) of
        (None, None) \<Rightarrow> Inl (WorkspaceError 428 ''workspace-precondition-required'')
      | (Some _, Some _) \<Rightarrow> Inl (WorkspaceError 428 ''workspace-precondition-required'')
      | (Some n, None) \<Rightarrow> if n \<noteq> js ''*'' then Inl (WorkspaceError 400 ''invalid-workspace-precondition'') else Inr Create
      | (None, Some m) \<Rightarrow> if \<not> isStrongEtag m then Inl (WorkspaceError 400 ''invalid-workspace-precondition'') else Inr (Update m))"

definition write_body_limit :: "env \<Rightarrow> int" where
  "write_body_limit e = ((maxFileBytes (env_limits e) + 2) div 3) * 4 + WORKSPACE_WRITE_BODY_OVERHEAD_BYTES"

definition put_request ::
  "(bytes \<Rightarrow> json option) \<Rightarrow> surroundings \<Rightarrow> env \<Rightarrow> http_request \<Rightarrow> jsstring \<Rightarrow> entries \<Rightarrow> entries \<times> (ws_error + response)"
where
  "put_request parse su e rq path es =
     (if \<not> requireWorkspaceMutationHeader rq then (es, Inl (WorkspaceError 400 ''workspace-mutation-header-required''))
      else if \<not> (case header rq ''content-type'' of Some (HStr s) \<Rightarrow> prefix (js ''application/json'') (ascii_lower s) | _ \<Rightarrow> False)
      then (es, Inl (WorkspaceError 415 ''workspace-content-type''))
      else case write_precondition rq of
        Inl err \<Rightarrow> (es, Inl err)
      | Inr pre \<Rightarrow>
          (case readJsonBody parse rq (write_body_limit e) of
             Inl status \<Rightarrow> (es, Inl (WorkspaceError status ''invalid-workspace-request''))
           | Inr v \<Rightarrow>
               (case workspaceWriteContent v of
                  None \<Rightarrow> (es, Inl (WorkspaceError 400 ''invalid-workspace-request''))
                | Some content \<Rightarrow>
                    (case write_file e (su_uuid su) (su_now su) (su_fault su) (su_cleaned su) path (base64_decode content) pre es of
                       (es', Inl err) \<Rightarrow> (es', Inl err)
                     | (es', Inr m) \<Rightarrow>
                         (es', Inr \<lparr>rs_status = (if pre = Create then 201 else 200),
                                    rs_headers = [(''ETag'', meta_etag m)], rs_body = MetadataBody m\<rparr>)))))"

definition delete_request :: "env \<Rightarrow> http_request \<Rightarrow> jsstring \<Rightarrow> entries \<Rightarrow> entries \<times> (ws_error + response)" where
  "delete_request e rq path es =
     (if \<not> requireWorkspaceMutationHeader rq then (es, Inl (WorkspaceError 400 ''workspace-mutation-header-required''))
      else case singleHeader (header rq ''if-match'') of
        None \<Rightarrow> (es, Inl (WorkspaceError 428 ''workspace-precondition-required''))
      | Some etag \<Rightarrow>
          if \<not> isStrongEtag etag then (es, Inl (WorkspaceError 400 ''invalid-workspace-precondition''))
          else (case delete_file e path etag es of
                  (es', Inl err) \<Rightarrow> (es', Inl err)
                | (es', Inr _) \<Rightarrow> (es', Inr \<lparr>rs_status = 204, rs_headers = [], rs_body = EmptyBody\<rparr>)))"

definition method_not_allowed :: "jsstring \<Rightarrow> response" where
  "method_not_allowed allow =
     \<lparr>rs_status = 405, rs_headers = [(''Allow'', allow)], rs_body = ErrorBody ''method-not-allowed''\<rparr>"

definition handleWorkspaceRequest ::
  "(bytes \<Rightarrow> json option) \<Rightarrow> surroundings \<Rightarrow> env \<Rightarrow> http_request \<Rightarrow> jsstring \<Rightarrow> jsstring list \<Rightarrow> store option \<Rightarrow> entries \<Rightarrow>
   entries \<times> (ws_error + response)"
where
  "handleWorkspaceRequest parse su e rq pathname paths workspace es =
     (case workspace of
        None \<Rightarrow> (es, Inr \<lparr>rs_status = 404, rs_headers = [], rs_body = ErrorBody ''workspace-disabled''\<rparr>)
      | Some st \<Rightarrow>
          if pathname = route_workspaceFiles then
            (if rq_method rq \<noteq> js ''GET'' then (es, Inr (method_not_allowed (js ''GET, OPTIONS'')))
             else case list_files e st es of
               Inl err \<Rightarrow> (es, Inl err)
             | Inr l \<Rightarrow> (es, Inr \<lparr>rs_status = 200, rs_headers = [], rs_body = FilesBody l\<rparr>))
          else (case paths of
            [path] \<Rightarrow>
              if rq_method rq = js ''GET'' then
                (case read_response e es path of
                   Inl err \<Rightarrow> (es, Inl err)
                 | Inr f \<Rightarrow> (es, Inr \<lparr>rs_status = 200, rs_headers = [(''ETag'', meta_etag f)], rs_body = FileBody f\<rparr>))
              else if rq_method rq = js ''PUT'' then put_request parse su e rq path es
              else if rq_method rq = js ''DELETE'' then delete_request e rq path es
              else (es, Inr (method_not_allowed (js ''GET, PUT, DELETE, OPTIONS'')))
          | _ \<Rightarrow> (es, Inl invalid_path)))"

section \<open>The server\<close>

text \<open>
  The context of the server. Compilations and live sessions are the identifiers of the members of their
  sets; \<open>sv_next\<close> is the next new object. A workspace without a store has no files.
\<close>

record server =
  sv_allowedOrigins :: "jsstring list"
  sv_version :: jsstring
  sv_workspace :: "store option"
  sv_files :: entries
  sv_access :: "access_store option"
  sv_compilations :: "nat list"
  sv_liveSessions :: "nat list"
  sv_next :: nat

definition error_response :: "(string \<times> jsstring) list \<Rightarrow> nat \<Rightarrow> string \<Rightarrow> response" where
  "error_response hs status code = \<lparr>rs_status = status, rs_headers = hs, rs_body = ErrorBody code\<rparr>"

definition add_headers :: "(string \<times> jsstring) list \<Rightarrow> response \<Rightarrow> response" where
  "add_headers hs r = r\<lparr>rs_headers := hs @ rs_headers r\<rparr>"

text \<open>The catch clause of the request listener.\<close>

fun thrown_response :: "(string \<times> jsstring) list \<Rightarrow> ws_error \<Rightarrow> response" where
  "thrown_response hs (WorkspaceError status code) = error_response hs status code"
| "thrown_response hs IoFailure = error_response hs 500 ''internal-server-error''"

text \<open>
  The check of the API key. An authorization that writes the time of use awaits the write, and throws
  when it is rejected.
\<close>

definition access_check ::
  "(bytes \<Rightarrow> bytes) \<Rightarrow> surroundings \<Rightarrow> jsstring option \<Rightarrow> server \<Rightarrow> server \<times> (response option)"
where
  "access_check sha su authorization srv =
     (case sv_access srv of
        None \<Rightarrow> (srv, None)
      | Some st \<Rightarrow>
          (let (st', r) = authorize sha (su_timestamp su) (su_minute_old su) authorization st;
               srv' = srv\<lparr>sv_access := Some st'\<rparr>
           in case r of
                Unauthorized _ \<Rightarrow>
                  (srv', Some (error_response [(''WWW-Authenticate'', js ''Bearer realm=\"Typr Companion\"'')] 401 ''api-key-required''))
              | Authorized _ \<Rightarrow>
                  (srv', if as_queue st' \<noteq> as_queue st \<and> \<not> su_persisted su
                         then Some (error_response [] 500 ''internal-server-error'') else None)))"

definition request_authorization :: "http_request \<Rightarrow> jsstring option" where
  "request_authorization rq =
     (case header rq ''authorization'' of
        None \<Rightarrow> None | Some (HStr s) \<Rightarrow> Some s | Some (HList _) \<Rightarrow> Some (js ''invalid-authorization-header''))"

definition status_response :: "surroundings \<Rightarrow> server \<Rightarrow> CompanionStatusResponse" where
  "status_response su srv =
     \<lparr>status_protocolVersion = TYPR_COMPANION_PROTOCOL_VERSION, status_serverVersion = sv_version srv,
      status_capabilities =
        \<lparr>compile_engines = (if su_pdflatex su then IMPLEMENTED_ENGINES else []),
         filesystem = (case sv_workspace srv of
                         None \<Rightarrow> NoProjectStorage
                       | Some st \<Rightarrow> ProjectStorage (store_id st) (store_limits st)),
         lsp_languages = [], git_enabled = False, terminal_enabled = False\<rparr>\<rparr>"

text \<open>The admission of a compilation: a response, or the request with its slot taken.\<close>

definition admit_compile ::
  "(bytes \<Rightarrow> json option) \<Rightarrow> bool \<Rightarrow> http_request \<Rightarrow> server \<Rightarrow> server \<times> (nat \<times> string + nat \<times> CompileRequest)"
where
  "admit_compile parse win rq srv =
     (case readJsonBody parse rq MAX_REQUEST_BYTES of
        Inl status \<Rightarrow> (srv, Inl (status, ''invalid-request''))
      | Inr v \<Rightarrow>
          (case validateCompileRequest win v of
             Inl _ \<Rightarrow> (srv, Inl (400, ''invalid-request''))
           | Inr r \<Rightarrow>
               if req_protocolVersion r \<noteq> TYPR_COMPANION_PROTOCOL_VERSION
               then (srv, Inl (400, ''unsupported-protocol-version''))
               else if req_engine r \<noteq> js ''pdflatex'' then (srv, Inl (422, ''unsupported-engine''))
               else if length (sv_compilations srv) \<ge> MAX_ACTIVE_COMPILATIONS then (srv, Inl (429, ''server-busy''))
               else (srv\<lparr>sv_compilations := sv_compilations srv @ [sv_next srv], sv_next := sv_next srv + 1\<rparr>,
                     Inr (sv_next srv, r))))"

datatype handled =
    Responded response
  | Compiling nat CompileRequest "(string \<times> jsstring) list"
  | ListenerRejected

definition handleRequest ::
  "(bytes \<Rightarrow> json option) \<Rightarrow> env \<Rightarrow> surroundings \<Rightarrow> http_request \<Rightarrow> jsstring \<Rightarrow> jsstring list \<Rightarrow> server \<Rightarrow> server \<times> handled"
where
  "handleRequest parse e su rq pathname paths srv =
     (let cors = applyCorsHeaders (sv_allowedOrigins srv) rq pathname in
      if isWorkspaceRoute pathname \<and> origin_given rq \<and> \<not> origin_allowed (sv_allowedOrigins srv) rq
      then (srv, Responded (error_response cors 403 ''workspace-origin-forbidden''))
      else if rq_method rq = js ''OPTIONS'' then
        (srv, Responded
          (if isWorkspaceRoute pathname \<and> sv_workspace srv = None then error_response cors 404 ''workspace-disabled''
           else case validateCorsPreflight (sv_allowedOrigins srv) rq pathname of
             Inl (status, code) \<Rightarrow> error_response cors status code
           | Inr _ \<Rightarrow> \<lparr>rs_status = 204, rs_headers = cors, rs_body = EmptyBody\<rparr>))
      else case access_check (env_sha e) su (request_authorization rq) srv of
        (srv1, Some r) \<Rightarrow> (srv1, Responded (add_headers cors r))
      | (srv1, None) \<Rightarrow>
          if rq_method rq = js ''GET'' \<and> pathname = route_status
          then (srv1, Responded \<lparr>rs_status = 200, rs_headers = cors, rs_body = StatusBody (status_response su srv1)\<rparr>)
          else if isWorkspaceRoute pathname then
            (case handleWorkspaceRequest parse su e rq pathname paths (sv_workspace srv1) (sv_files srv1) of
               (es, Inl err) \<Rightarrow> (srv1\<lparr>sv_files := es\<rparr>, Responded (thrown_response cors err))
             | (es, Inr r) \<Rightarrow> (srv1\<lparr>sv_files := es\<rparr>, Responded (add_headers cors r)))
          else if rq_method rq = js ''POST'' \<and> pathname = route_compile then
            (case admit_compile parse (env_win e) rq srv1 of
               (srv2, Inl (status, code)) \<Rightarrow> (srv2, Responded (error_response cors status code))
             | (srv2, Inr (i, r)) \<Rightarrow> (srv2, Compiling i r cors))
          else (srv1, Responded (error_response cors 404 ''not-found'')))"

text \<open>
  The listener of \<open>createServer\<close> parses the target before its \<open>try\<close>: a target \<open>new URL\<close> refuses rejects
  the listener's promise, which nothing handles.
\<close>

definition request_listener ::
  "(bytes \<Rightarrow> json option) \<Rightarrow> env \<Rightarrow> surroundings \<Rightarrow> http_request \<Rightarrow> server \<Rightarrow> server \<times> handled"
where
  "request_listener parse e su rq srv =
     (case rq_url rq of
        None \<Rightarrow> (srv, ListenerRejected)
      | Some (pathname, paths) \<Rightarrow> handleRequest parse e su rq pathname paths srv)"

text \<open>A compilation ends: with its result, or (\<open>None\<close>) by throwing.\<close>

definition compile_finished ::
  "nat \<Rightarrow> (string \<times> jsstring) list \<Rightarrow> CompileResult option \<Rightarrow> server \<Rightarrow> server \<times> response"
where
  "compile_finished i cors result srv =
     (srv\<lparr>sv_compilations := removeAll i (sv_compilations srv)\<rparr>,
      case result of
        None \<Rightarrow> error_response cors 500 ''internal-server-error''
      | Some r \<Rightarrow> \<lparr>rs_status = 200, rs_headers = cors, rs_body = ResultBody r\<rparr>)"

section \<open>The WebSocket upgrade\<close>

definition webSocketAuthorization :: "http_request \<Rightarrow> jsstring option" where
  "webSocketAuthorization rq =
     (case header rq ''authorization'' of
        Some (HStr s) \<Rightarrow> Some s
      | _ \<Rightarrow>
          (case header rq ''sec-websocket-protocol'' of
             Some (HStr p) \<Rightarrow>
               (case List.find (prefix (js ''typr-api-key.'')) (map trim (split_on 44 p)) of
                  None \<Rightarrow> None
                | Some q \<Rightarrow>
                    let encoded = drop (length ''typr-api-key.'') q
                    in if encoded = [] then None
                       else Some (js ''Bearer '' @ utf8_decode (base64_decode encoded)))
           | _ \<Rightarrow> None))"

datatype upgrade = UpgradeRejected nat | UpgradeAccepted nat

definition handleUpgrade ::
  "(bytes \<Rightarrow> bytes) \<Rightarrow> surroundings \<Rightarrow> http_request \<Rightarrow> server \<Rightarrow> server \<times> upgrade"
where
  "handleUpgrade sha su rq srv =
     (case rq_url rq of
        None \<Rightarrow> (srv, UpgradeRejected 500)
      | Some (pathname, _) \<Rightarrow>
          if pathname \<noteq> TEXPRESSO_WS_ROUTE then (srv, UpgradeRejected 404)
          else case access_check sha su (webSocketAuthorization rq) srv of
            (srv1, Some r) \<Rightarrow> (srv1, UpgradeRejected (rs_status r))
          | (srv1, None) \<Rightarrow>
              if origin_given rq \<and> \<not> origin_allowed (sv_allowedOrigins srv1) rq then (srv1, UpgradeRejected 403)
              else if length (sv_liveSessions srv1) \<ge> MAX_ACTIVE_LIVE_SESSIONS then (srv1, UpgradeRejected 429)
              else (srv1\<lparr>sv_liveSessions := sv_liveSessions srv1 @ [sv_next srv1], sv_next := sv_next srv1 + 1\<rparr>,
                    UpgradeAccepted (sv_next srv1)))"

definition live_closed :: "nat \<Rightarrow> server \<Rightarrow> server" where
  "live_closed i srv = srv\<lparr>sv_liveSessions := removeAll i (sv_liveSessions srv)\<rparr>"

text \<open>Everything that happens to a server.\<close>

datatype server_event =
    RequestArrives surroundings http_request
  | CompileEnds nat "CompileResult option"
  | UpgradeArrives surroundings http_request
  | LiveSessionCloses nat
  | WriteSettles bool

fun server_step :: "(bytes \<Rightarrow> json option) \<Rightarrow> env \<Rightarrow> server_event \<Rightarrow> server \<Rightarrow> server" where
  "server_step parse e (RequestArrives su rq) srv = fst (request_listener parse e su rq srv)"
| "server_step parse e (CompileEnds i r) srv = fst (compile_finished i [] r srv)"
| "server_step parse e (UpgradeArrives su rq) srv = fst (handleUpgrade (env_sha e) su rq srv)"
| "server_step parse e (LiveSessionCloses i) srv = live_closed i srv"
| "server_step parse e (WriteSettles ok) srv =
     srv\<lparr>sv_access := map_option (\<lambda>st. fst (settle_write ok st)) (sv_access srv)\<rparr>"

section \<open>Lemmas\<close>

lemma access_check_frame:
  assumes "access_check sha su a srv = (srv', r)"
  shows "sv_files srv' = sv_files srv" "sv_workspace srv' = sv_workspace srv" "sv_compilations srv' = sv_compilations srv"
    "sv_liveSessions srv' = sv_liveSessions srv" "sv_next srv' = sv_next srv" "sv_allowedOrigins srv' = sv_allowedOrigins srv"
  using assms by (auto simp: access_check_def Let_def split: option.splits prod.splits AuthorizationResult.splits)

text \<open>The outcome of the key check alone.\<close>

definition access_granted :: "(bytes \<Rightarrow> bytes) \<Rightarrow> surroundings \<Rightarrow> jsstring option \<Rightarrow> server \<Rightarrow> bool" where
  "access_granted sha su a srv \<longleftrightarrow>
     (case sv_access srv of
        None \<Rightarrow> True
      | Some st \<Rightarrow> \<exists>p. snd (authorize sha (su_timestamp su) (su_minute_old su) a st) = Authorized p)"

lemma access_check_granted: "access_check sha su a srv = (srv', None) \<Longrightarrow> access_granted sha su a srv"
  by (auto simp: access_check_def access_granted_def Let_def split: option.splits prod.splits AuthorizationResult.splits)

lemma read_only_requests:
  assumes "handleWorkspaceRequest parse su e rq pathname paths ws es = (es', r)" "es' \<noteq> es"
  shows "\<exists>path st. paths = [path] \<and> ws = Some st \<and> rq_method rq \<in> {js ''PUT'', js ''DELETE''} \<and>
    requireWorkspaceMutationHeader rq \<and> pathname \<noteq> route_workspaceFiles"
  using assms
  by (auto simp: handleWorkspaceRequest_def put_request_def delete_request_def split: option.splits if_splits sum.splits list.splits)

lemma admit_compile_frame:
  assumes "admit_compile parse win rq srv = (srv', r)"
  shows "sv_files srv' = sv_files srv" "sv_liveSessions srv' = sv_liveSessions srv" "sv_allowedOrigins srv' = sv_allowedOrigins srv"
  using assms by (auto simp: admit_compile_def split: sum.splits if_splits)

text \<open>The stages a request passes before it reaches a route.\<close>

lemma request_stages:
  assumes "request_listener parse e su rq srv = (srv', h)"
  obtains (early) "srv' = srv"
    | (refused) pathname paths r where "rq_url rq = Some (pathname, paths)"
        "access_check (env_sha e) su (request_authorization rq) srv = (srv', Some r)"
        "h = Responded (add_headers (applyCorsHeaders (sv_allowedOrigins srv) rq pathname) r)"
    | (admitted) pathname paths srv1 where "rq_url rq = Some (pathname, paths)"
        "\<not> (isWorkspaceRoute pathname \<and> origin_given rq \<and> \<not> origin_allowed (sv_allowedOrigins srv) rq)"
        "access_check (env_sha e) su (request_authorization rq) srv = (srv1, None)"
        "sv_files srv' = (if isWorkspaceRoute pathname \<and> \<not> (rq_method rq = js ''GET'' \<and> pathname = route_status)
           then fst (handleWorkspaceRequest parse su e rq pathname paths (sv_workspace srv1) (sv_files srv1)) else sv_files srv1)"
        "sv_liveSessions srv' = sv_liveSessions srv1"
        "srv' = fst (admit_compile parse (env_win e) rq srv1) \<or>
         (sv_compilations srv' = sv_compilations srv1 \<and> sv_next srv' = sv_next srv1)"
proof (cases "rq_url rq")
  case None
  with assms early show ?thesis by (simp add: request_listener_def)
next
  case (Some u)
  obtain pathname paths where u: "u = (pathname, paths)" by (cases u)
  have hr: "handleRequest parse e su rq pathname paths srv = (srv', h)"
    using assms Some u by (simp add: request_listener_def)
  show ?thesis
  proof (cases "(isWorkspaceRoute pathname \<and> origin_given rq \<and> \<not> origin_allowed (sv_allowedOrigins srv) rq) \<or> rq_method rq = js ''OPTIONS''")
    case True
    with hr early show ?thesis by (auto simp: handleRequest_def Let_def split: if_splits)
  next
    case False
    obtain srv1 r where ac: "access_check (env_sha e) su (request_authorization rq) srv = (srv1, r)"
      by (cases "access_check (env_sha e) su (request_authorization rq) srv")
    show ?thesis
    proof (cases r)
      case (Some r')
      with hr False ac have "srv' = srv1" "h = Responded (add_headers (applyCorsHeaders (sv_allowedOrigins srv) rq pathname) r')"
        by (auto simp: handleRequest_def Let_def split: if_splits)
      with refused [of pathname paths r'] \<open>rq_url rq = Some u\<close> u ac Some show ?thesis by simp
    next
      case None
      show ?thesis
      proof (rule admitted [of pathname paths srv1])
        show "sv_files srv' = (if isWorkspaceRoute pathname \<and> \<not> (rq_method rq = js ''GET'' \<and> pathname = route_status)
           then fst (handleWorkspaceRequest parse su e rq pathname paths (sv_workspace srv1) (sv_files srv1)) else sv_files srv1)"
          using hr False ac None
          by (auto simp: handleRequest_def Let_def admit_compile_frame split: if_splits prod.splits sum.splits)
        show "sv_liveSessions srv' = sv_liveSessions srv1"
          using hr False ac None
          by (auto simp: handleRequest_def Let_def admit_compile_frame split: if_splits prod.splits sum.splits)
        show "srv' = fst (admit_compile parse (env_win e) rq srv1) \<or>
            (sv_compilations srv' = sv_compilations srv1 \<and> sv_next srv' = sv_next srv1)"
          using hr False ac None
          by (auto simp: handleRequest_def Let_def split: if_splits prod.splits sum.splits)
      qed (use \<open>rq_url rq = Some u\<close> u False ac None in auto)
    qed
  qed
qed

section \<open>Slots\<close>

definition slots_ok :: "server \<Rightarrow> bool" where
  "slots_ok srv \<longleftrightarrow>
     length (sv_compilations srv) \<le> MAX_ACTIVE_COMPILATIONS \<and> distinct (sv_compilations srv) \<and>
     length (sv_liveSessions srv) \<le> MAX_ACTIVE_LIVE_SESSIONS \<and> distinct (sv_liveSessions srv) \<and>
     (\<forall>i\<in>set (sv_compilations srv) \<union> set (sv_liveSessions srv). i < sv_next srv)"

lemma slots_cong:
  "sv_compilations srv' = sv_compilations srv \<Longrightarrow> sv_liveSessions srv' = sv_liveSessions srv \<Longrightarrow> sv_next srv' = sv_next srv \<Longrightarrow>
   slots_ok srv' = slots_ok srv"
  by (simp add: slots_ok_def)

lemma length_removeAll: "length (removeAll x xs) \<le> length xs"
  by (simp add: removeAll_filter_not_eq)

lemma slots_admit:
  assumes "slots_ok srv"
  shows "slots_ok (fst (admit_compile parse win rq srv))"
proof -
  have "slots_ok (srv\<lparr>sv_compilations := sv_compilations srv @ [sv_next srv], sv_next := sv_next srv + 1\<rparr>)"
    if "length (sv_compilations srv) < MAX_ACTIVE_COMPILATIONS"
    using assms that by (auto simp: slots_ok_def intro: less_SucI)
  with assms show ?thesis by (auto simp: admit_compile_def split: sum.split)
qed

lemma slots_request:
  assumes "slots_ok srv"
  shows "slots_ok (fst (request_listener parse e su rq srv))"
proof -
  obtain srv' h where r: "request_listener parse e su rq srv = (srv', h)"
    by (cases "request_listener parse e su rq srv")
  from r have "slots_ok srv'"
  proof (cases rule: request_stages)
    case early
    with assms show ?thesis by simp
  next
    case (refused pathname paths rs)
    with access_check_frame [OF refused(2)] assms show ?thesis by (simp add: slots_ok_def)
  next
    case (admitted pathname paths srv1)
    have "slots_ok srv1" using access_check_frame [OF admitted(3)] assms by (simp add: slots_ok_def)
    with admitted(5,6) slots_admit [of srv1] show ?thesis by (auto simp: slots_ok_def)
  qed
  with r show ?thesis by simp
qed

lemma slots_upgrade:
  assumes "slots_ok srv"
  shows "slots_ok (fst (handleUpgrade sha su rq srv))"
proof -
  have add: "slots_ok (s\<lparr>sv_liveSessions := sv_liveSessions s @ [sv_next s], sv_next := sv_next s + 1\<rparr>)"
    if "slots_ok s" "length (sv_liveSessions s) < MAX_ACTIVE_LIVE_SESSIONS" for s :: server
    using that by (auto simp: slots_ok_def intro: less_SucI)
  obtain srv1 r where ac: "access_check sha su (webSocketAuthorization rq) srv = (srv1, r)"
    by (cases "access_check sha su (webSocketAuthorization rq) srv")
  have "slots_ok srv1" using access_check_frame [OF ac] assms by (simp add: slots_ok_def)
  with assms add [of srv1] ac show ?thesis
    by (auto simp: handleUpgrade_def split: option.split)
qed

lemma slots_remove:
  "slots_ok srv \<Longrightarrow> slots_ok (srv\<lparr>sv_compilations := removeAll i (sv_compilations srv)\<rparr>)"
  "slots_ok srv \<Longrightarrow> slots_ok (srv\<lparr>sv_liveSessions := removeAll i (sv_liveSessions srv)\<rparr>)"
  using order_trans [OF length_removeAll] by (auto simp: slots_ok_def distinct_removeAll)

lemma slots_step:
  assumes "slots_ok srv"
  shows "slots_ok (server_step parse e ev srv)"
proof (cases ev)
  case (WriteSettles ok)
  with assms show ?thesis by (simp add: slots_ok_def)
qed (use assms in \<open>simp_all add: slots_request slots_upgrade compile_finished_def live_closed_def slots_remove\<close>)

section \<open>A concrete server\<close>

definition demo_parse :: "bytes \<Rightarrow> json option" where
  "demo_parse b = Some (obj [(''encoding'', JStr (js ''base64'')), (''content'', JStr (js ''Bw==''))])"

definition demo_su :: surroundings where
  "demo_su = \<lparr>su_uuid = [120], su_now = 9, su_fault = None, su_cleaned = True, su_timestamp = js ''t'', su_minute_old = (\<lambda>_. True),
     su_persisted = True, su_pdflatex = True\<rparr>"

definition demo_put :: http_request where
  "demo_put = \<lparr>rq_method = js ''PUT'', rq_url = Some (route_workspaceFile, [js ''b/c.tex'']),
     rq_headers = [(''x-typr-workspace-mutation'', HStr (js ''1'')), (''content-type'', HStr (js ''application/json'')),
       (''if-none-match'', HStr (js ''*''))], rq_contentLength = None, rq_chunks = []\<rparr>"

definition demo_get :: http_request where
  "demo_get = \<lparr>rq_method = js ''GET'', rq_url = Some (route_workspaceFile, [js ''b/c.tex'']), rq_headers = [],
     rq_contentLength = None, rq_chunks = []\<rparr>"

definition demo_server :: server where
  "demo_server = \<lparr>sv_allowedOrigins = [js ''http://a''], sv_version = [],
     sv_workspace = Some \<lparr>store_root = js ''/w'', store_id = js ''w'', store_limits = env_limits demo_env\<rparr>, sv_files = demo_tree,
     sv_access = None, sv_compilations = [], sv_liveSessions = [], sv_next = 0\<rparr>"

lemma demo_route: "isWorkspaceRoute route_workspaceFile" "route_workspaceFile \<noteq> route_workspaceFiles" "route_workspaceFile \<noteq> route_status"
  by (simp_all add: route_workspaceFile_def route_status_def route_workspaceFiles_def isWorkspaceRoute_def
      TYPR_COMPANION_API_V1_PREFIX_def)

lemma demo_content: "base64_decode (js ''Bw=='') = [7]" "isBase64 (js ''Bw=='')"
  by code_simp+

lemma demo_put_workspace:
  "handleWorkspaceRequest demo_parse demo_su demo_env demo_put route_workspaceFile [js ''b/c.tex''] (sv_workspace demo_server) demo_tree =
     (demo_tree', Inr \<lparr>rs_status = 201, rs_headers = [(''ETag'', meta_etag (metadata demo_env (js ''b/c.tex'') [7] 9))],
        rs_body = MetadataBody (metadata demo_env (js ''b/c.tex'') [7] 9)\<rparr>)"
proof -
  have single: "singleHeader (header demo_put ''x-typr-workspace-mutation'') = Some (js ''1'')"
    "singleHeader (header demo_put ''if-none-match'') = Some (js ''*'')" "singleHeader (header demo_put ''if-match'') = None"
    by (simp_all add: singleHeader_def header_def demo_put_def js_def trim_fixed is_space_def)
  have ct: "header demo_put ''content-type'' = Some (HStr (js ''application/json''))" "prefix (js ''application/json'') (ascii_lower (js ''application/json''))"
    by (simp add: header_def demo_put_def) code_simp
  have body: "readJsonBody demo_parse demo_put n = Inr (obj [(''encoding'', JStr (js ''base64'')), (''content'', JStr (js ''Bw==''))])" for n
    by (simp add: readJsonBody_def demo_put_def demo_parse_def)
  have written: "write_file demo_env (su_uuid demo_su) (su_now demo_su) (su_fault demo_su) (su_cleaned demo_su) (js ''b/c.tex'') [7] Create demo_tree =
     (demo_tree', Inr (metadata demo_env (js ''b/c.tex'') [7] 9))"
    using demo_write by (simp add: demo_su_def)
  have is_put: "rq_method demo_put = js ''PUT''" by (simp add: demo_put_def)
  have pre: "write_precondition demo_put = Inr Create" using single by (simp add: write_precondition_def)
  have content: "workspaceWriteContent (obj [(''encoding'', JStr (js ''base64'')), (''content'', JStr (js ''Bw==''))]) = Some (js ''Bw=='')"
    by (simp add: workspaceWriteContent_def demo_content)
  have mutation: "requireWorkspaceMutationHeader demo_put" using single(1) by (simp add: requireWorkspaceMutationHeader_def)
  show ?thesis
    using demo_route(2) is_put ct pre content mutation written
    by (simp add: handleWorkspaceRequest_def demo_server_def put_request_def body demo_content)
qed

lemma demo_put_done:
  "request_listener demo_parse demo_env demo_su demo_put demo_server =
     (demo_server\<lparr>sv_files := demo_tree'\<rparr>, Responded \<lparr>rs_status = 201,
        rs_headers = [(''ETag'', meta_etag (metadata demo_env (js ''b/c.tex'') [7] 9))],
        rs_body = MetadataBody (metadata demo_env (js ''b/c.tex'') [7] 9)\<rparr>)"
proof -
  have "rq_url demo_put = Some (route_workspaceFile, [js ''b/c.tex''])" "rq_method demo_put = js ''PUT''"
    "header demo_put ''origin'' = None" "header demo_put ''authorization'' = None" "sv_access demo_server = None" "sv_files demo_server = demo_tree"
    by (simp_all add: demo_put_def header_def demo_server_def)
  with demo_put_workspace demo_route show ?thesis
    by (simp add: request_listener_def handleRequest_def Let_def applyCorsHeaders_def access_check_def add_headers_def origin_given_def)
qed

section \<open>Properties\<close>

text \<open>
  C6: the mapped workspace changes only for a guarded request: a PUT or DELETE on the file route with
  one path, the mutation header, no foreign browser origin, and a key the store accepts, on a server
  with a workspace. Every other request leaves every file as it is.
\<close>

theorem workspace_mutation_guarded:
  assumes "request_listener parse e su rq srv = (srv', h)" "sv_files srv' \<noteq> sv_files srv"
  shows "\<exists>path. rq_url rq = Some (route_workspaceFile, [path]) \<and> rq_method rq \<in> {js ''PUT'', js ''DELETE''} \<and>
    requireWorkspaceMutationHeader rq \<and> (origin_given rq \<longrightarrow> origin_allowed (sv_allowedOrigins srv) rq) \<and>
    access_granted (env_sha e) su (request_authorization rq) srv \<and> sv_workspace srv \<noteq> None"
  using assms(1)
proof (cases rule: request_stages)
  case early
  with assms(2) show ?thesis by simp
next
  case (refused pathname paths r)
  with access_check_frame [OF refused(2)] assms(2) show ?thesis by simp
next
  case (admitted pathname paths srv1)
  note frame = access_check_frame [OF admitted(3)]
  have route: "isWorkspaceRoute pathname"
    using assms(2) admitted(4) frame by (auto split: if_splits)
  obtain es' r where w: "handleWorkspaceRequest parse su e rq pathname paths (sv_workspace srv) (sv_files srv) = (es', r)"
    by (cases "handleWorkspaceRequest parse su e rq pathname paths (sv_workspace srv) (sv_files srv)")
  then have "es' \<noteq> sv_files srv" using assms(2) admitted(4) frame by (auto split: if_splits)
  from read_only_requests [OF w this] route admitted(1,2) access_check_granted [OF admitted(3)]
  show ?thesis by (auto simp: isWorkspaceRoute_def)
qed

theorem workspace_mutation_guarded_witness:
  "demo_tree' \<noteq> demo_tree \<and> requireWorkspaceMutationHeader demo_put"
proof -
  have ne: "demo_tree' \<noteq> demo_tree" by (simp add: demo_tree_def demo_tree'_def)
  then have "sv_files (demo_server\<lparr>sv_files := demo_tree'\<rparr>) \<noteq> sv_files demo_server" by (simp add: demo_server_def)
  with workspace_mutation_guarded [OF demo_put_done] ne show ?thesis by blast
qed

text \<open>
  At most two compilations and two live sessions are active at any time, each with a slot of its
  own, whatever requests, upgrades and endings happen in whatever order.
\<close>

theorem server_slots:
  assumes "sv_compilations srv = []" "sv_liveSessions srv = []"
  shows "let srv' = fold (server_step parse e) events srv
    in length (sv_compilations srv') \<le> 2 \<and> length (sv_liveSessions srv') \<le> 2 \<and>
       distinct (sv_compilations srv') \<and> distinct (sv_liveSessions srv')"
proof -
  have "slots_ok (fold (server_step parse e) evs s)" if "slots_ok s" for evs s
    using that by (induction evs arbitrary: s) (simp_all add: slots_step)
  moreover have "slots_ok srv" using assms by (simp add: slots_ok_def)
  ultimately have "slots_ok (fold (server_step parse e) events srv)" by blast
  then show ?thesis by (simp add: slots_ok_def Let_def MAX_ACTIVE_COMPILATIONS_def MAX_ACTIVE_LIVE_SESSIONS_def)
qed

theorem server_slots_witness:
  "length (sv_compilations (fold (server_step demo_parse demo_env)
     [RequestArrives demo_su demo_put, LiveSessionCloses 0] demo_server)) \<le> 2"
  using server_slots [of demo_server demo_parse demo_env "[RequestArrives demo_su demo_put, LiveSessionCloses 0]"]
  by (simp add: demo_server_def Let_def del: fold_simps)

definition acao :: string where
  "acao = ''Access-Control-Allow-Origin''"

lemma cors_origin:
  assumes "(acao, v) \<in> set (applyCorsHeaders allowed rq pathname)"
  shows "v \<in> set allowed \<and> header rq ''origin'' = Some (HStr v)"
  using assms
  by (auto simp: applyCorsHeaders_def acao_def Let_def split: option.splits header_value.splits if_splits)

lemma workspace_headers:
  "handleWorkspaceRequest parse su e rq pathname paths ws es = (es', Inr r) \<Longrightarrow> fst ` set (rs_headers r) \<subseteq> {''ETag'', ''Allow''}"
  by (auto simp: handleWorkspaceRequest_def put_request_def delete_request_def method_not_allowed_def
      split: option.splits if_splits sum.splits list.splits prod.splits)

lemma access_headers:
  "access_check sha su a srv = (srv', Some r) \<Longrightarrow> fst ` set (rs_headers r) \<subseteq> {''WWW-Authenticate''}"
  by (auto simp: access_check_def error_response_def Let_def split: option.splits prod.splits AuthorizationResult.splits if_splits)

lemma thrown_headers [simp]: "rs_headers (thrown_response hs err) = hs"
  by (cases err) (simp_all add: error_response_def)

lemma response_headers:
  assumes "handleRequest parse e su rq pathname paths srv = (srv', Responded r)" "(acao, v) \<in> set (rs_headers r)"
  shows "(acao, v) \<in> set (applyCorsHeaders (sv_allowedOrigins srv) rq pathname)"
proof (rule ccontr)
  let ?cors = "applyCorsHeaders (sv_allowedOrigins srv) rq pathname"
  assume no: "(acao, v) \<notin> set ?cors"
  have ne: "acao \<noteq> ''ETag''" "acao \<noteq> ''Allow''" "acao \<noteq> ''WWW-Authenticate''" by (simp_all add: acao_def)
  obtain srv1 a where ac: "access_check (env_sha e) su (request_authorization rq) srv = (srv1, a)"
    by (cases "access_check (env_sha e) su (request_authorization rq) srv")
  obtain es w where hw: "handleWorkspaceRequest parse su e rq pathname paths (sv_workspace srv1) (sv_files srv1) = (es, w)"
    by (cases "handleWorkspaceRequest parse su e rq pathname paths (sv_workspace srv1) (sv_files srv1)")
  have "(acao, v) \<notin> set (rs_headers r')" if "a = Some r'" for r'
    using access_headers ac that ne by force
  moreover have "(acao, v) \<notin> set (rs_headers r')" if "w = Inr r'" for r'
    using workspace_headers hw that ne by force
  ultimately show False
    using assms no ac hw
    by (auto simp: handleRequest_def Let_def error_response_def add_headers_def split: if_splits option.splits sum.splits prod.splits)
qed



lemma put_response:
  assumes "handleWorkspaceRequest parse su e rq pathname paths ws es = (es', Inr r)" "rs_body r = MetadataBody m"
  obtains path st v c pre where "paths = [path]" "ws = Some st" "pathname \<noteq> route_workspaceFiles"
    "readJsonBody parse rq (write_body_limit e) = Inr v" "workspaceWriteContent v = Some c"
    "write_file e (su_uuid su) (su_now su) (su_fault su) (su_cleaned su) path (base64_decode c) pre es = (es', Inr m)"
  using assms
  by (auto simp: handleWorkspaceRequest_def put_request_def delete_request_def method_not_allowed_def
      split: option.splits if_splits sum.splits list.splits prod.splits)

lemma metadata_from_put:
  assumes "request_listener parse e su rq srv = (srv', Responded r)" "rs_body r = MetadataBody m"
  obtains path st v c pre es where "rq_url rq = Some (route_workspaceFile, [path])" "sv_workspace srv' = Some st"
    "readJsonBody parse rq (write_body_limit e) = Inr v" "workspaceWriteContent v = Some c"
    "write_file e (su_uuid su) (su_now su) (su_fault su) (su_cleaned su) path (base64_decode c) pre es = (sv_files srv', Inr m)"
    "sv_allowedOrigins srv' = sv_allowedOrigins srv"
proof -
  obtain pathname paths where url: "rq_url rq = Some (pathname, paths)" and
    hr: "handleRequest parse e su rq pathname paths srv = (srv', Responded r)"
    using assms by (auto simp: request_listener_def split: option.splits)
  obtain srv1 a where ac: "access_check (env_sha e) su (request_authorization rq) srv = (srv1, a)"
    by (cases "access_check (env_sha e) su (request_authorization rq) srv")
  have body: "rs_body r' \<noteq> MetadataBody m" if "a = Some r'" for r'
    using ac that by (auto simp: access_check_def error_response_def Let_def
        split: option.splits prod.splits AuthorizationResult.splits if_splits)
  have thrown: "rs_body (thrown_response hs err) \<noteq> MetadataBody m" for hs err
    by (cases err) (simp_all add: error_response_def)
  obtain es w where hw: "handleWorkspaceRequest parse su e rq pathname paths (sv_workspace srv1) (sv_files srv1) = (es, w)"
    by (cases "handleWorkspaceRequest parse su e rq pathname paths (sv_workspace srv1) (sv_files srv1)")
  have "isWorkspaceRoute pathname \<and> srv' = srv1\<lparr>sv_files := es\<rparr> \<and> (\<exists>r'. w = Inr r' \<and> rs_body r' = MetadataBody m)"
    using hr assms(2) body thrown ac hw
    by (auto simp: handleRequest_def Let_def error_response_def add_headers_def split: if_splits option.splits sum.splits prod.splits)
  then obtain r' where "isWorkspaceRoute pathname" "srv' = srv1\<lparr>sv_files := es\<rparr>" "w = Inr r'" "rs_body r' = MetadataBody m"
    by blast
  note put = this
  have hw': "handleWorkspaceRequest parse su e rq pathname paths (sv_workspace srv1) (sv_files srv1) = (es, Inr r')"
    using hw put(3) by simp
  from hw' put(4) show ?thesis
  proof (rule put_response)
    fix path st v c pre
    assume "paths = [path]" "sv_workspace srv1 = Some st" "pathname \<noteq> route_workspaceFiles"
      "readJsonBody parse rq (write_body_limit e) = Inr v" "workspaceWriteContent v = Some c"
      "write_file e (su_uuid su) (su_now su) (su_fault su) (su_cleaned su) path (base64_decode c) pre (sv_files srv1) = (es, Inr m)"
    with put url access_check_frame [OF ac] show ?thesis
      by (intro that [of path st v c pre "sv_files srv1"]) (auto simp: isWorkspaceRoute_def)
  qed
qed

lemma get_response:
  assumes "rq_url rq = Some (route_workspaceFile, [path])" "rq_method rq = js ''GET''" "sv_workspace srv = Some st"
    "origin_given rq \<longrightarrow> origin_allowed (sv_allowedOrigins srv) rq"
    "access_check (env_sha e) su (request_authorization rq) srv = (srv1, None)"
    "read_file e (sv_files srv) path = Inr (m, c)"
  shows "\<exists>r f. snd (request_listener parse e su rq srv) = Responded r \<and> rs_status r = 200 \<and> rs_body r = FileBody f \<and>
    resp_content f = base64_encode c \<and> meta_etag f = meta_etag m \<and> (''ETag'', meta_etag m) \<in> set (rs_headers r)"
proof -
  note frame = access_check_frame [OF assms(5)]
  have routes: "route_workspaceFile \<noteq> route_status" "isWorkspaceRoute route_workspaceFile" "route_workspaceFile \<noteq> route_workspaceFiles"
    by (simp_all add: route_workspaceFile_def route_status_def route_workspaceFiles_def isWorkspaceRoute_def
        TYPR_COMPANION_API_V1_PREFIX_def)
  have "js ''GET'' \<noteq> js ''OPTIONS''" by simp
  with assms frame routes show ?thesis
    by (simp add: request_listener_def handleRequest_def Let_def handleWorkspaceRequest_def read_response_def add_headers_def
        WorkspaceFileMetadata.defs) blast
qed

text \<open>
  C24: what a PUT stores a GET returns. After a PUT answered with metadata, a GET of the same file that
  passes the origin and key checks is answered 200 with the bytes of the PUT's content and the entity
  tag of the PUT's answer, in the body and in the ETag header.
\<close>

theorem put_then_get:
  assumes "request_listener parse e su rq srv = (srv1, Responded r)" "rs_body r = MetadataBody m"
    "rq_url rq2 = rq_url rq" "rq_method rq2 = js ''GET''"
    "origin_given rq2 \<longrightarrow> origin_allowed (sv_allowedOrigins srv) rq2"
    "access_check (env_sha e) su2 (request_authorization rq2) srv1 = (srv2, None)"
  shows "\<exists>v c r2 f. readJsonBody parse rq (write_body_limit e) = Inr v \<and> workspaceWriteContent v = Some c \<and>
    snd (request_listener parse e su2 rq2 srv1) = Responded r2 \<and> rs_status r2 = 200 \<and> rs_body r2 = FileBody f \<and>
    base64_decode (resp_content f) = base64_decode c \<and> meta_etag f = meta_etag m \<and>
    (''ETag'', meta_etag m) \<in> set (rs_headers r2)"
  using assms(1,2)
proof (rule metadata_from_put)
  fix path st v c pre es
  assume put: "rq_url rq = Some (route_workspaceFile, [path])" "sv_workspace srv1 = Some st"
    "readJsonBody parse rq (write_body_limit e) = Inr v" "workspaceWriteContent v = Some c"
    "write_file e (su_uuid su) (su_now su) (su_fault su) (su_cleaned su) path (base64_decode c) pre es = (sv_files srv1, Inr m)"
    "sv_allowedOrigins srv1 = sv_allowedOrigins srv"
  from put(5) have "read_file e (sv_files srv1) path = Inr (m, base64_decode c)"
    by (rule write_succeeded) (simp add: put_reads)
  with put assms(3-6) get_response [of rq2 path srv1 st e su2 srv2 m "base64_decode c" parse]
  obtain r2 f where "snd (request_listener parse e su2 rq2 srv1) = Responded r2" "rs_status r2 = 200" "rs_body r2 = FileBody f"
    "resp_content f = base64_encode (base64_decode c)" "meta_etag f = meta_etag m" "(''ETag'', meta_etag m) \<in> set (rs_headers r2)"
    by auto
  with put(3,4) base64_roundtrip show ?thesis by auto
qed

theorem put_then_get_witness:
  "\<exists>r2 f. snd (request_listener demo_parse demo_env demo_su demo_get (demo_server\<lparr>sv_files := demo_tree'\<rparr>)) = Responded r2 \<and>
     rs_status r2 = 200 \<and> rs_body r2 = FileBody f \<and> meta_etag f = meta_etag (metadata demo_env (js ''b/c.tex'') [7] 9)"
proof -
  have "access_check (env_sha demo_env) demo_su (request_authorization demo_get) (demo_server\<lparr>sv_files := demo_tree'\<rparr>) =
      (demo_server\<lparr>sv_files := demo_tree'\<rparr>, None)"
    by (simp add: access_check_def demo_server_def)
  from put_then_get [OF demo_put_done _ _ _ _ this, of "metadata demo_env (js ''b/c.tex'') [7] 9"] show ?thesis
    by (auto simp: demo_put_def demo_get_def origin_given_def header_def)
qed


end
