(* ===== verification/ManagementAuth.thy ===== *)
theory ManagementAuth
  imports AccessStore
begin

text \<open>
  \<^verbatim>\<open>typr-server/managementAuth.ts\<close>: the password login of the management console and its sessions.
  SHA-256, scrypt with the authenticator's salt (\<open>None\<close>: it fails), the lower case of the locale, the
  clock and the random tokens are parameters. A login reads its failure record, waits for scrypt and
  then changes the record it read, so a login is two steps and the records live at addresses.
\<close>

section \<open>State\<close>

definition MAX_SESSIONS :: nat where "MAX_SESSIONS = 32"
definition FAILURE_WINDOW_MS :: int where "FAILURE_WINDOW_MS = 15 * 60000"
definition FAILURE_LIMIT :: nat where "FAILURE_LIMIT = 5"
definition BASE_LOCKOUT_MS :: int where "BASE_LOCKOUT_MS = 30000"
definition MAX_LOCKOUT_MS :: int where "MAX_LOCKOUT_MS = 15 * 60000"
definition DEFAULT_IDLE_TIMEOUT_MS :: int where "DEFAULT_IDLE_TIMEOUT_MS = 30 * 60000"
definition DEFAULT_ABSOLUTE_TIMEOUT_MS :: int where "DEFAULT_ABSOLUTE_TIMEOUT_MS = 12 * 60 * 60000"

record StoredSession =
  ss_username :: jsstring
  ss_csrfToken :: jsstring
  ss_createdAt :: int
  ss_lastSeenAt :: int

record LoginFailureState =
  lf_count :: nat
  lf_firstAt :: int
  lf_blockedUntil :: int

record ManagementSession =
  ms_username :: jsstring
  ms_csrfToken :: jsstring
  ms_createdAt :: int
  ms_expiresAt :: int

datatype ManagementLoginResult =
    LoginRefused "int option"
  | LoggedIn ManagementSession jsstring

text \<open>The failure map holds addresses in \<open>ma_records\<close>; a record is never freed.\<close>

record authenticator =
  ma_username :: jsstring
  ma_secureCookies :: bool
  ma_hash :: bytes
  ma_idle :: int
  ma_absolute :: int
  ma_sessions :: "(jsstring \<times> StoredSession) list"
  ma_failures :: "(jsstring \<times> nat) list"
  ma_records :: "LoginFailureState list"

section \<open>Creation\<close>

datatype auth_error = BadUsername | BadPassword | BadDuration | AbsoluteShorterThanIdle | DeriveFailed

definition validateManagementUsername :: "jsstring \<Rightarrow> auth_error + jsstring" where
  "validateManagementUsername v =
     (let n = trim v
      in if n \<noteq> [] \<and> is_alnum (hd n) \<and> 2 \<le> length (tl n) \<and> length (tl n) \<le> 63 \<and>
            list_all (\<lambda>c. is_alnum c \<or> c = 46 \<or> c = 95 \<or> c = 45) (tl n)
         then Inr n else Inl BadUsername)"

definition validateManagementPassword :: "jsstring \<Rightarrow> auth_error option" where
  "validateManagementPassword v =
     (if length v < 24 \<or> length v > 1024 \<or> list_ex (\<lambda>c. c = 0 \<or> c = 13 \<or> c = 10) v then Some BadPassword else None)"

definition positiveDuration :: "int option \<Rightarrow> int \<Rightarrow> auth_error + int" where
  "positiveDuration v fallback =
     (let d = (case v of None \<Rightarrow> fallback | Some x \<Rightarrow> x)
      in if \<not> is_safe d \<or> d \<le> 0 then Inl BadDuration else Inr d)"

definition create_auth ::
  "(jsstring \<Rightarrow> bytes option) \<Rightarrow> jsstring \<Rightarrow> jsstring \<Rightarrow> bool \<Rightarrow> int option \<Rightarrow> int option \<Rightarrow> auth_error + authenticator"
where
  "create_auth scrypt username password secure idle absolute =
     (case validateManagementPassword password of
        Some e \<Rightarrow> Inl e
      | None \<Rightarrow>
          (case scrypt password of
             None \<Rightarrow> Inl DeriveFailed
           | Some h \<Rightarrow>
               (case validateManagementUsername username of
                  Inl e \<Rightarrow> Inl e
                | Inr u \<Rightarrow>
                    (case positiveDuration idle DEFAULT_IDLE_TIMEOUT_MS of
                       Inl e \<Rightarrow> Inl e
                     | Inr i \<Rightarrow>
                         (case positiveDuration absolute DEFAULT_ABSOLUTE_TIMEOUT_MS of
                            Inl e \<Rightarrow> Inl e
                          | Inr a \<Rightarrow>
                              if a < i then Inl AbsoluteShorterThanIdle
                              else Inr \<lparr>ma_username = u, ma_secureCookies = secure, ma_hash = h, ma_idle = i,
                                     ma_absolute = a, ma_sessions = [], ma_failures = [], ma_records = []\<rparr>)))))"

section \<open>Cookies\<close>

definition cookieName :: "authenticator \<Rightarrow> jsstring" where
  "cookieName a = (if ma_secureCookies a then js ''__Host-typr_management'' else js ''typr_management'')"

definition serializeCookie :: "jsstring \<Rightarrow> authenticator \<Rightarrow> jsstring" where
  "serializeCookie token a =
     cookieName a @ [61] @ token @ js ''; Path=/; Max-Age='' @ int_dec (ma_idle a div 1000) @
     js ''; HttpOnly; SameSite=Strict'' @ (if ma_secureCookies a then js ''; Secure'' else [])"

text \<open>The first field of the header with the name decides.\<close>

fun find_cookie :: "jsstring \<Rightarrow> jsstring list \<Rightarrow> jsstring option" where
  "find_cookie name [] = None"
| "find_cookie name (f # fs) =
     (if 61 \<notin> set f \<or> trim (takeWhile (\<lambda>c. c \<noteq> 61) f) \<noteq> name then find_cookie name fs
      else let v = trim (tl (dropWhile (\<lambda>c. c \<noteq> 61) f))
           in if length v = 43 \<and> list_all key_char v then Some v else None)"

definition readCookie :: "jsstring option \<Rightarrow> jsstring \<Rightarrow> jsstring option" where
  "readCookie header name =
     (case header of
        None \<Rightarrow> None
      | Some h \<Rightarrow> if h = [] \<or> length h > 8192 then None else find_cookie name (split_on 59 h))"

section \<open>Login\<close>

definition constantTimeTextEqual :: "(bytes \<Rightarrow> bytes) \<Rightarrow> jsstring \<Rightarrow> jsstring \<Rightarrow> bool" where
  "constantTimeTextEqual sha a b \<longleftrightarrow> hex_decode (hashSecret sha a) = hex_decode (hashSecret sha b)"

definition publicSession :: "authenticator \<Rightarrow> StoredSession \<Rightarrow> ManagementSession" where
  "publicSession a s =
     \<lparr>ms_username = ss_username s, ms_csrfToken = ss_csrfToken s, ms_createdAt = ss_createdAt s,
      ms_expiresAt = min (ss_createdAt s + ma_absolute a) (ss_lastSeenAt s + ma_idle a)\<rparr>"

definition expired :: "authenticator \<Rightarrow> int \<Rightarrow> StoredSession \<Rightarrow> bool" where
  "expired a now s \<longleftrightarrow> now - ss_lastSeenAt s > ma_idle a \<or> now - ss_createdAt s > ma_absolute a"

definition prune :: "int \<Rightarrow> authenticator \<Rightarrow> authenticator" where
  "prune now a =
     a\<lparr>ma_sessions := filter (\<lambda>(k, s). \<not> expired a now s) (ma_sessions a),
       ma_failures := filter (\<lambda>(k, r). \<not> (lf_blockedUntil (ma_records a ! r) \<le> now \<and>
                                            now - lf_firstAt (ma_records a ! r) > FAILURE_WINDOW_MS)) (ma_failures a)\<rparr>"

text \<open>\<open>while (this.sessions.size >= MAX_SESSIONS)\<close>: the first entry of the map goes.\<close>

fun evict :: "(jsstring \<times> StoredSession) list \<Rightarrow> (jsstring \<times> StoredSession) list" where
  "evict [] = []"
| "evict (x # xs) = (if length (x # xs) \<ge> MAX_SESSIONS then evict xs else x # xs)"

definition ceil_seconds :: "int \<Rightarrow> int" where
  "ceil_seconds ms = max 1 ((ms + 999) div 1000)"

text \<open>A login that waits for scrypt: what it has read before.\<close>

record login_attempt =
  la_username :: jsstring
  la_password :: jsstring
  la_key :: jsstring
  la_now :: int
  la_failure :: "nat option"

definition failure_key :: "(jsstring \<Rightarrow> jsstring) \<Rightarrow> (bytes \<Rightarrow> bytes) \<Rightarrow> jsstring \<Rightarrow> jsstring \<Rightarrow> jsstring" where
  "failure_key lower sha client username = hashSecret sha (client @ [0] @ lower username)"

definition login_start ::
  "(jsstring \<Rightarrow> jsstring) \<Rightarrow> (bytes \<Rightarrow> bytes) \<Rightarrow> int \<Rightarrow> jsstring \<Rightarrow> jsstring \<Rightarrow> jsstring \<Rightarrow> authenticator \<Rightarrow>
   ManagementLoginResult + login_attempt"
where
  "login_start lower sha now username password client a =
     (let key = failure_key lower sha client username; current = map_of (ma_failures a) key
      in if (case current of None \<Rightarrow> False | Some r \<Rightarrow> lf_blockedUntil (ma_records a ! r) > now)
         then Inl (LoginRefused (Some (ceil_seconds (lf_blockedUntil (ma_records a ! the current) - now))))
         else Inr \<lparr>la_username = username, la_password = password, la_key = key, la_now = now, la_failure = current\<rparr>)"

definition lockout :: "nat \<Rightarrow> int \<Rightarrow> int" where
  "lockout count now =
     (if count \<ge> FAILURE_LIMIT then now + min MAX_LOCKOUT_MS (BASE_LOCKOUT_MS * 2 ^ min 5 (count - FAILURE_LIMIT)) else 0)"

definition login_failed :: "login_attempt \<Rightarrow> authenticator \<Rightarrow> authenticator \<times> ManagementLoginResult" where
  "login_failed l a =
     (let now = la_now l;
          reuse = (case la_failure l of None \<Rightarrow> False
                   | Some r \<Rightarrow> now - lf_firstAt (ma_records a ! r) \<le> FAILURE_WINDOW_MS);
          addr = (if reuse then the (la_failure l) else length (ma_records a));
          old = (if reuse then ma_records a ! addr else \<lparr>lf_count = 0, lf_firstAt = now, lf_blockedUntil = 0\<rparr>);
          new = \<lparr>lf_count = lf_count old + 1, lf_firstAt = lf_firstAt old, lf_blockedUntil = lockout (lf_count old + 1) now\<rparr>;
          records = (if reuse then (ma_records a)[addr := new] else ma_records a @ [new])
      in (a\<lparr>ma_records := records, ma_failures := AList.update (la_key l) addr (ma_failures a)\<rparr>,
          LoginRefused (if lf_blockedUntil new > now then Some (ceil_seconds (lf_blockedUntil new - now)) else None)))"

definition login_succeeded ::
  "(bytes \<Rightarrow> bytes) \<Rightarrow> bytes \<Rightarrow> bytes \<Rightarrow> login_attempt \<Rightarrow> authenticator \<Rightarrow> authenticator \<times> ManagementLoginResult"
where
  "login_succeeded sha random1 random2 l a =
     (let a1 = prune (la_now l) (a\<lparr>ma_failures := AList.delete (la_key l) (ma_failures a)\<rparr>);
          token = base64url_encode random1;
          stored = \<lparr>ss_username = ma_username a, ss_csrfToken = base64url_encode random2,
                    ss_createdAt = la_now l, ss_lastSeenAt = la_now l\<rparr>
      in (a1\<lparr>ma_sessions := AList.update (hashSecret sha token) stored (evict (ma_sessions a1))\<rparr>,
          LoggedIn (publicSession a stored) (serializeCookie token a)))"

text \<open>scrypt has answered; when it fails, the login rejects.\<close>

definition login_finish ::
  "(bytes \<Rightarrow> bytes) \<Rightarrow> (jsstring \<Rightarrow> bytes option) \<Rightarrow> bytes \<Rightarrow> bytes \<Rightarrow> login_attempt \<Rightarrow> authenticator \<Rightarrow>
   authenticator \<times> ManagementLoginResult option"
where
  "login_finish sha scrypt random1 random2 l a =
     (case scrypt (la_password l) of
        None \<Rightarrow> (a, None)
      | Some supplied \<Rightarrow>
          (let (a', r) = (if constantTimeTextEqual sha (la_username l) (ma_username a) \<and> supplied = ma_hash a
                          then login_succeeded sha random1 random2 l a else login_failed l a)
           in (a', Some r)))"

section \<open>Sessions\<close>

definition session ::
  "(bytes \<Rightarrow> bytes) \<Rightarrow> int \<Rightarrow> jsstring option \<Rightarrow> authenticator \<Rightarrow> authenticator \<times> ManagementSession option"
where
  "session sha now cookie a =
     (case readCookie cookie (cookieName a) of
        None \<Rightarrow> (a, None)
      | Some token \<Rightarrow>
          let key = hashSecret sha token
          in (case map_of (ma_sessions a) key of
                None \<Rightarrow> (a, None)
              | Some s \<Rightarrow>
                  if expired a now s then (a\<lparr>ma_sessions := AList.delete key (ma_sessions a)\<rparr>, None)
                  else let s' = s\<lparr>ss_lastSeenAt := now\<rparr>
                       in (a\<lparr>ma_sessions := AList.update key s' (ma_sessions a)\<rparr>, Some (publicSession a s'))))"

definition logout :: "(bytes \<Rightarrow> bytes) \<Rightarrow> jsstring option \<Rightarrow> authenticator \<Rightarrow> authenticator \<times> jsstring" where
  "logout sha cookie a =
     ((case readCookie cookie (cookieName a) of
         None \<Rightarrow> a
       | Some token \<Rightarrow> a\<lparr>ma_sessions := AList.delete (hashSecret sha token) (ma_sessions a)\<rparr>),
      cookieName a @ js ''=; Path=/; Max-Age=0; HttpOnly; SameSite=Strict'' @
        (if ma_secureCookies a then js ''; Secure'' else []))"

definition validCsrf :: "(bytes \<Rightarrow> bytes) \<Rightarrow> ManagementSession \<Rightarrow> jsstring option \<Rightarrow> bool" where
  "validCsrf sha s supplied =
     (case supplied of None \<Rightarrow> False | Some c \<Rightarrow> constantTimeTextEqual sha c (ms_csrfToken s))"

section \<open>Runs\<close>

text \<open>Logins that overlap: a login that was not refused waits in the list until scrypt answers.\<close>

datatype auth_op =
    LoginStart int jsstring jsstring jsstring
  | LoginFinish nat bytes bytes
  | SessionCheck int "jsstring option"
  | Logout "jsstring option"

record auth_system =
  sys_auth :: authenticator
  sys_waiting :: "login_attempt list"

fun auth_step ::
  "(jsstring \<Rightarrow> jsstring) \<Rightarrow> (bytes \<Rightarrow> bytes) \<Rightarrow> (jsstring \<Rightarrow> bytes option) \<Rightarrow> auth_op \<Rightarrow> auth_system \<Rightarrow> auth_system"
where
  "auth_step lower sha scrypt (LoginStart now username password client) s =
     (case login_start lower sha now username password client (sys_auth s) of
        Inl _ \<Rightarrow> s
      | Inr l \<Rightarrow> s\<lparr>sys_waiting := sys_waiting s @ [l]\<rparr>)"
| "auth_step lower sha scrypt (LoginFinish i random1 random2) s =
     (if i < length (sys_waiting s)
      then s\<lparr>sys_auth := fst (login_finish sha scrypt random1 random2 (sys_waiting s ! i) (sys_auth s)),
             sys_waiting := take i (sys_waiting s) @ drop (Suc i) (sys_waiting s)\<rparr>
      else s)"
| "auth_step lower sha scrypt (SessionCheck now cookie) s = s\<lparr>sys_auth := fst (session sha now cookie (sys_auth s))\<rparr>"
| "auth_step lower sha scrypt (Logout cookie) s = s\<lparr>sys_auth := fst (logout sha cookie (sys_auth s))\<rparr>"

text \<open>Logins one after the other.\<close>

definition login ::
  "(jsstring \<Rightarrow> jsstring) \<Rightarrow> (bytes \<Rightarrow> bytes) \<Rightarrow> (jsstring \<Rightarrow> bytes option) \<Rightarrow> bytes \<Rightarrow> bytes \<Rightarrow> int \<Rightarrow> jsstring \<Rightarrow> jsstring \<Rightarrow>
   jsstring \<Rightarrow> authenticator \<Rightarrow> authenticator \<times> ManagementLoginResult option"
where
  "login lower sha scrypt random1 random2 now username password client a =
     (case login_start lower sha now username password client a of
        Inl r \<Rightarrow> (a, Some r)
      | Inr l \<Rightarrow> login_finish sha scrypt random1 random2 l a)"

section \<open>Sessions are bounded\<close>

lemma evict_suffix: "suffix (evict xs) xs"
  by (induction xs) (auto simp: suffix_Cons)

lemma set_evict: "x \<in> set (evict xs) \<Longrightarrow> x \<in> set xs"
  using evict_suffix set_mono_suffix by blast

lemma length_evict: "length (evict xs) < MAX_SESSIONS"
  by (induction xs) (auto simp: MAX_SESSIONS_def)

lemma length_update: "length (AList.update k v xs) \<le> Suc (length xs)"
  by (induction xs rule: alist_induct) auto

lemma length_delete: "length (AList.delete k xs) \<le> length xs"
  by (simp add: AList.delete_eq)

definition sessions_ok :: "authenticator \<Rightarrow> bool" where
  "sessions_ok a \<longleftrightarrow> length (ma_sessions a) \<le> MAX_SESSIONS \<and> distinct (map fst (ma_sessions a))"

lemma distinct_evict: "distinct (map fst xs) \<Longrightarrow> distinct (map fst (evict xs))"
  by (induction xs) auto

lemma distinct_filter_keys: "distinct (map fst xs) \<Longrightarrow> distinct (map fst (filter P xs))"
  by (simp add: distinct_map_filter)

lemma update_length_known: "map_of xs k \<noteq> None \<Longrightarrow> length (AList.update k v xs) = length xs"
  by (induction xs rule: alist_induct) (auto split: if_splits)

lemma session_ok: "sessions_ok a \<Longrightarrow> sessions_ok (fst (session sha now cookie a))"
  using length_delete [of _ "ma_sessions a"]
  by (auto simp: session_def Let_def sessions_ok_def distinct_update update_length_known split: option.split
      intro: distinct_delete order_trans)

lemma logout_ok: "sessions_ok a \<Longrightarrow> sessions_ok (fst (logout sha cookie a))"
  using length_delete [of _ "ma_sessions a"]
  by (auto simp: logout_def sessions_ok_def split: option.split intro: distinct_delete order_trans)

lemma login_failed_sessions [simp]: "ma_sessions (fst (login_failed l a)) = ma_sessions a"
  by (simp add: login_failed_def Let_def)

lemma login_succeeded_sessions:
  "ma_sessions (fst (login_succeeded sha r1 r2 l a)) =
     AList.update (hashSecret sha (base64url_encode r1))
       \<lparr>ss_username = ma_username a, ss_csrfToken = base64url_encode r2, ss_createdAt = la_now l, ss_lastSeenAt = la_now l\<rparr>
       (evict (filter (\<lambda>(k, s). \<not> expired a (la_now l) s) (ma_sessions a)))"
  by (simp add: login_succeeded_def Let_def prune_def expired_def)

lemma fst_login_finish:
  "fst (login_finish sha scrypt r1 r2 l a) =
     (case scrypt (la_password l) of
        None \<Rightarrow> a
      | Some h \<Rightarrow> if constantTimeTextEqual sha (la_username l) (ma_username a) \<and> h = ma_hash a
                  then fst (login_succeeded sha r1 r2 l a) else fst (login_failed l a))"
  by (simp add: login_finish_def case_prod_unfold Let_def split: option.split)

lemma login_finish_ok: "sessions_ok a \<Longrightarrow> sessions_ok (fst (login_finish sha scrypt r1 r2 l a))"
proof -
  assume ok: "sessions_ok a"
  let ?xs = "evict (filter (\<lambda>(k, s). \<not> expired a (la_now l) s) (ma_sessions a))"
  have "distinct (map fst ?xs)" "length ?xs < MAX_SESSIONS"
    using ok length_evict by (simp_all add: sessions_ok_def distinct_evict distinct_filter_keys)
  then have "sessions_ok (fst (login_succeeded sha r1 r2 l a))"
    using order_trans [OF length_update Suc_leI] by (simp add: sessions_ok_def login_succeeded_sessions distinct_update)
  with ok show ?thesis
    by (auto simp: fst_login_finish sessions_ok_def split: option.split)
qed

section \<open>A token that is not honoured\<close>

lemma session_unknown:
  "map_of (ma_sessions a) (hashSecret sha token) = None \<Longrightarrow> readCookie cookie (cookieName a) = Some token \<Longrightarrow>
   session sha now cookie a = (a, None)"
  by (simp add: session_def Let_def)

definition known :: "jsstring \<Rightarrow> authenticator \<Rightarrow> bool" where
  "known key a \<longleftrightarrow> key \<in> fst ` set (ma_sessions a)"

lemma update_keys: "fst ` set (AList.update k v xs) = insert k (fst ` set xs)"
  by (induction xs rule: alist_induct) auto

lemma delete_keys: "fst ` set (AList.delete k xs) = fst ` set xs - {k}"
  by (auto simp: AList.delete_eq)

lemma known_session: "known key (fst (session sha now cookie a)) \<Longrightarrow> known key a"
proof -
  have "k \<in> fst ` set (ma_sessions a)" if "map_of (ma_sessions a) k = Some v" for k v
    using map_of_SomeD [OF that] by force
  then show "known key (fst (session sha now cookie a)) \<Longrightarrow> known key a"
    by (auto simp: session_def Let_def known_def update_keys delete_keys split: option.splits if_splits)
qed

lemma known_logout: "known key (fst (logout sha cookie a)) \<Longrightarrow> known key a"
  by (auto simp: logout_def known_def delete_keys split: option.splits)

lemma known_finish:
  assumes "known key (fst (login_finish sha scrypt r1 r2 l a))" "hashSecret sha (base64url_encode r1) \<noteq> key"
  shows "known key a"
proof -
  have "known key a" if "known key (fst (login_succeeded sha r1 r2 l a))"
    using that assms(2) by (auto simp: known_def login_succeeded_sessions update_keys dest!: set_evict)
  then show ?thesis using assms(1) by (auto simp: fst_login_finish known_def split: option.splits if_splits)
qed

fun issues :: "(bytes \<Rightarrow> bytes) \<Rightarrow> jsstring \<Rightarrow> auth_op \<Rightarrow> bool" where
  "issues sha key (LoginFinish i r1 r2) = (hashSecret sha (base64url_encode r1) = key)"
| "issues sha key _ = False"

lemma known_step:
  "known key (sys_auth (auth_step lower sha scrypt op s)) \<Longrightarrow> \<not> issues sha key op \<Longrightarrow> known key (sys_auth s)"
  by (cases op) (auto dest: known_session known_logout known_finish split: sum.splits if_splits)

lemma known_run:
  "known key (sys_auth (fold (auth_step lower sha scrypt) ops s)) \<Longrightarrow> \<forall>op\<in>set ops. \<not> issues sha key op \<Longrightarrow>
   known key (sys_auth s)"
  by (induction ops arbitrary: s) (auto dest: known_step)

text \<open>The authenticator's own constants never change.\<close>

definition same_config :: "authenticator \<Rightarrow> authenticator \<Rightarrow> bool" where
  "same_config a b \<longleftrightarrow> ma_username b = ma_username a \<and> ma_secureCookies b = ma_secureCookies a \<and> ma_hash b = ma_hash a \<and>
     ma_idle b = ma_idle a \<and> ma_absolute b = ma_absolute a"

lemma same_config_ops:
  "same_config a (fst (session sha now cookie a))" "same_config a (fst (logout sha cookie a))"
  "same_config a (fst (login_finish sha scrypt r1 r2 l a))"
  by (auto simp: same_config_def session_def logout_def fst_login_finish login_failed_def login_succeeded_def Let_def prune_def
      split: option.split)

lemma same_config_step: "same_config (sys_auth s) (sys_auth (auth_step lower sha scrypt op s))"
proof (cases op)
  case (LoginStart now u p c)
  then show ?thesis by (simp add: same_config_def split: sum.split)
next
  case (LoginFinish i r1 r2)
  then show ?thesis using same_config_ops(3) by (simp add: same_config_def)
qed (simp_all add: same_config_ops)

lemma same_config_run: "same_config (sys_auth s) (sys_auth (fold (auth_step lower sha scrypt) ops s))"
proof (induction ops arbitrary: s)
  case (Cons op ops)
  from Cons [of "auth_step lower sha scrypt op s"] same_config_step [of s lower sha scrypt op] show ?case
    by (simp add: same_config_def)
qed (simp add: same_config_def)

lemma run_sessions_ok:
  "sessions_ok (sys_auth s) \<Longrightarrow> sessions_ok (sys_auth (fold (auth_step lower sha scrypt) ops s))"
proof (induction ops arbitrary: s)
  case (Cons op ops)
  have "sessions_ok (sys_auth (auth_step lower sha scrypt op s))"
    using Cons.prems by (cases op) (auto intro: session_ok logout_ok login_finish_ok split: sum.splits)
  with Cons.IH show ?case by simp
qed simp

section \<open>The lockout\<close>

text \<open>A record whose lockouts were all waited for.\<close>

definition record_ok :: "int \<Rightarrow> LoginFailureState \<Rightarrow> bool" where
  "record_ok t f \<longleftrightarrow>
     lf_firstAt f \<le> t \<and> lf_count f \<le> 9 \<and>
     (5 \<le> lf_count f \<longrightarrow> lf_firstAt f + 30000 * (2 ^ (lf_count f - 4) - 1) \<le> lf_blockedUntil f)"

lemma record_ok_mono: "record_ok t f \<Longrightarrow> t \<le> t' \<Longrightarrow> record_ok t' f"
  by (auto simp: record_ok_def)

lemma small_count: "(n :: nat) \<le> 9 \<Longrightarrow> n \<in> {0, 1, 2, 3, 4, 5, 6, 7, 8, 9}"
  by auto

lemma record_ok_next:
  assumes "record_ok t f" "t \<le> now" "lf_blockedUntil f \<le> now" "now - lf_firstAt f \<le> FAILURE_WINDOW_MS"
  shows "record_ok now \<lparr>lf_count = lf_count f + 1, lf_firstAt = lf_firstAt f, lf_blockedUntil = lockout (lf_count f + 1) now\<rparr>"
proof -
  have "lf_count f \<in> {0, 1, 2, 3, 4, 5, 6, 7, 8, 9}"
    using assms(1) small_count [of "lf_count f"] by (simp add: record_ok_def)
  with assms show ?thesis
    by (cases f) (auto simp: record_ok_def FAILURE_WINDOW_MS_def lockout_def FAILURE_LIMIT_def BASE_LOCKOUT_MS_def MAX_LOCKOUT_MS_def)
qed

lemma record_ok_first: "record_ok now \<lparr>lf_count = 1, lf_firstAt = now, lf_blockedUntil = lockout 1 now\<rparr>"
  by (simp add: record_ok_def)

definition failures_ok :: "int \<Rightarrow> authenticator \<Rightarrow> bool" where
  "failures_ok t a \<longleftrightarrow>
     (\<forall>f\<in>set (ma_records a). record_ok t f) \<and> (\<forall>(k, r)\<in>set (ma_failures a). r < length (ma_records a))"

lemma failed_ok:
  assumes "failures_ok t a" "t \<le> now" "login_start lower sha now username password client a = Inr l"
  shows "failures_ok now (fst (login_failed l a))"
proof -
  have l: "la_now l = now" "la_failure l = map_of (ma_failures a) (la_key l)"
    "\<forall>r. la_failure l = Some r \<longrightarrow> lf_blockedUntil (ma_records a ! r) \<le> now"
    using assms(3) by (auto simp: login_start_def Let_def split: if_splits option.splits)
  have ok: "\<forall>f\<in>set (ma_records a). record_ok now f"
    using assms(1,2) record_ok_mono by (auto simp: failures_ok_def)
  show ?thesis
  proof (cases "case la_failure l of None \<Rightarrow> False | Some r \<Rightarrow> now - lf_firstAt (ma_records a ! r) \<le> FAILURE_WINDOW_MS")
    case True
    then obtain r where r: "la_failure l = Some r" "now - lf_firstAt (ma_records a ! r) \<le> FAILURE_WINDOW_MS"
      by (auto split: option.splits)
    then have "r < length (ma_records a)"
      using l(2) assms(1) by (auto simp: failures_ok_def dest!: map_of_SomeD)
    then have "record_ok t (ma_records a ! r)" using assms(1) by (simp add: failures_ok_def)
    then have "record_ok now \<lparr>lf_count = lf_count (ma_records a ! r) + 1, lf_firstAt = lf_firstAt (ma_records a ! r),
        lf_blockedUntil = lockout (lf_count (ma_records a ! r) + 1) now\<rparr>"
      using record_ok_next assms(2) l(3) r by blast
    then show ?thesis
      using ok assms(1) r l(1) \<open>r < length (ma_records a)\<close>
      by (auto simp: failures_ok_def login_failed_def Let_def dest!: subsetD [OF set_update_subset_insert]
          subsetD [OF set_alist_update])
  next
    case False
    with l(1) ok assms(1) record_ok_first [of now] show ?thesis
      by (auto simp: failures_ok_def login_failed_def Let_def dest!: subsetD [OF set_alist_update] split: option.splits)
  qed
qed

lemma success_ok: "failures_ok t a \<Longrightarrow> failures_ok t (fst (login_succeeded sha r1 r2 l a))"
  by (auto simp: failures_ok_def login_succeeded_def Let_def prune_def AList.delete_eq)

lemma failures_mono: "failures_ok t a \<Longrightarrow> t \<le> t' \<Longrightarrow> failures_ok t' a"
  using record_ok_mono by (auto simp: failures_ok_def)

lemma login_failures_ok:
  assumes "failures_ok t a" "t \<le> now"
  shows "failures_ok now (fst (login lower sha scrypt r1 r2 now username password client a))"
proof (cases "login_start lower sha now username password client a")
  case (Inl r)
  then show ?thesis using failures_mono [OF assms] by (simp add: login_def)
next
  case (Inr l)
  then show ?thesis
    using failed_ok [OF assms Inr] success_ok [OF failures_mono [OF assms]] failures_mono [OF assms]
    by (simp add: login_def fst_login_finish split: option.split)
qed

text \<open>A history of logins, one after the other, with session checks and logouts in between.\<close>

datatype history_op =
    DoLogin int jsstring jsstring jsstring bytes bytes
  | DoSession int "jsstring option"
  | DoLogout "jsstring option"

fun history_step ::
  "(jsstring \<Rightarrow> jsstring) \<Rightarrow> (bytes \<Rightarrow> bytes) \<Rightarrow> (jsstring \<Rightarrow> bytes option) \<Rightarrow> history_op \<Rightarrow> authenticator \<Rightarrow> authenticator"
where
  "history_step lower sha scrypt (DoLogin now username password client r1 r2) a =
     fst (login lower sha scrypt r1 r2 now username password client a)"
| "history_step lower sha scrypt (DoSession now cookie) a = fst (session sha now cookie a)"
| "history_step lower sha scrypt (DoLogout cookie) a = fst (logout sha cookie a)"

fun login_times :: "history_op list \<Rightarrow> int list" where
  "login_times [] = []"
| "login_times (DoLogin now u p c r1 r2 # ops) = now # login_times ops"
| "login_times (_ # ops) = login_times ops"

lemma failures_session: "failures_ok t a \<Longrightarrow> failures_ok t (fst (session sha now cookie a))"
  by (auto simp: failures_ok_def session_def Let_def split: option.split)

lemma failures_logout: "failures_ok t a \<Longrightarrow> failures_ok t (fst (logout sha cookie a))"
  by (auto simp: failures_ok_def logout_def split: option.split)

lemma history_failures_ok:
  "failures_ok t a \<Longrightarrow> sorted (t # login_times ops) \<Longrightarrow>
   \<exists>t'. failures_ok t' (fold (history_step lower sha scrypt) ops a)"
proof (induction ops arbitrary: t a)
  case (Cons op ops)
  show ?case
  proof (cases op)
    case (DoLogin now u p c r1 r2)
    then have "failures_ok now (history_step lower sha scrypt op a)"
      using Cons.prems login_failures_ok by simp
    then show ?thesis using Cons.IH [of now] Cons.prems DoLogin by simp
  next
    case (DoSession now cookie)
    then show ?thesis using Cons.IH [of t] Cons.prems failures_session by simp
  next
    case (DoLogout cookie)
    then show ?thesis using Cons.IH [of t] Cons.prems failures_logout by simp
  qed
qed auto

section \<open>Overlapping logins\<close>

lemma starts_wait:
  assumes "map_of (ma_failures a) (failure_key lower sha client username) = None"
  shows "fold (auth_step lower sha scrypt) (map (\<lambda>p. LoginStart now username p client) ps) \<lparr>sys_auth = a, sys_waiting = w\<rparr> =
    \<lparr>sys_auth = a, sys_waiting = w @ map (\<lambda>p. \<lparr>la_username = username, la_password = p,
       la_key = failure_key lower sha client username, la_now = now, la_failure = None\<rparr>) ps\<rparr>"
  using assms by (induction ps arbitrary: w) (simp_all add: login_start_def)

definition one_failure :: "jsstring \<Rightarrow> int \<Rightarrow> authenticator \<Rightarrow> bool" where
  "one_failure key now a \<longleftrightarrow>
     (\<exists>r. map_of (ma_failures a) key = Some r \<and> r < length (ma_records a) \<and>
        ma_records a ! r = \<lparr>lf_count = 1, lf_firstAt = now, lf_blockedUntil = 0\<rparr>)"

lemma failed_fresh:
  "la_failure l = None \<Longrightarrow> one_failure (la_key l) (la_now l) (fst (login_failed l a))"
  by (simp add: one_failure_def login_failed_def Let_def update_conv' lockout_def FAILURE_LIMIT_def)

lemma login_failed_hash [simp]: "ma_hash (fst (login_failed l a)) = ma_hash a"
  by (simp add: login_failed_def Let_def)

lemma finishes_fail:
  "\<forall>l\<in>set ls. la_failure l = None \<and> la_key l = key \<and> la_now l = now \<and> (\<exists>h. scrypt (la_password l) = Some h \<and> h \<noteq> ma_hash a) \<Longrightarrow>
   ls \<noteq> [] \<or> one_failure key now a \<Longrightarrow>
   \<exists>a'. fold (auth_step lower sha scrypt) (replicate (length ls) (LoginFinish 0 r1 r2)) \<lparr>sys_auth = a, sys_waiting = ls\<rparr> =
     \<lparr>sys_auth = a', sys_waiting = []\<rparr> \<and> one_failure key now a'"
proof (induction ls arbitrary: a)
  case (Cons l ls)
  have "fst (login_finish sha scrypt r1 r2 l a) = fst (login_failed l a)"
    using Cons.prems(1) by (auto simp: fst_login_finish)
  moreover have "one_failure key now (fst (login_failed l a))"
    using failed_fresh [of l a] Cons.prems(1) by simp
  ultimately show ?case using Cons.IH [of "fst (login_failed l a)"] Cons.prems(1) by simp
qed simp

section \<open>The cookie of a login\<close>

lemma key_char_plain: "key_char c \<Longrightarrow> c \<noteq> 59 \<and> c \<noteq> 61 \<and> \<not> is_space c"
  by (auto simp: key_char_def is_alnum_def is_digit_def is_upper_def is_lower_def is_space_def)

lemma cookieName_chars: "c \<in> set (cookieName a) \<Longrightarrow> key_char c"
  by (auto simp: cookieName_def js_def key_char_def is_alnum_def is_digit_def is_upper_def is_lower_def split: if_splits)

lemma cookieName_nonempty [simp]: "cookieName a \<noteq> []"
  by (simp add: cookieName_def)

lemma trim_key: "list_all key_char s \<Longrightarrow> trim s = s"
proof (cases "s = []")
  case False
  assume "list_all key_char s"
  with False have "key_char (hd s)" "key_char (last s)" by (simp_all add: list_all_iff)
  then show ?thesis using False key_char_plain by (intro trim_fixed) auto
qed (simp add: trim_def)

lemma length_cookieName: "length (cookieName a) \<le> 30"
  by (simp add: cookieName_def)

lemma readCookie_pair:
  assumes "length token = 43" "list_all key_char token"
  shows "readCookie (Some (cookieName a @ 61 # token)) (cookieName a) = Some token"
proof -
  let ?n = "cookieName a"
  have n: "list_all key_char ?n" using cookieName_chars by (simp add: list_all_iff)
  have sep: "c \<noteq> 59 \<and> c \<noteq> 61" if "c \<in> set ?n \<union> set token" for c
    using that assms(2) cookieName_chars key_char_plain by (auto simp: list_all_iff)
  then have "split_on 59 (?n @ 61 # token) = [?n @ 61 # token]"
    by (intro split_on_absent) auto
  moreover have "takeWhile (\<lambda>c. c \<noteq> 61) (?n @ 61 # token) = ?n" "dropWhile (\<lambda>c. c \<noteq> 61) (?n @ 61 # token) = 61 # token"
    using sep by (subst takeWhile_append2 dropWhile_append2; auto)+
  ultimately show ?thesis
    using assms n length_cookieName [of a] by (simp add: readCookie_def trim_key)
qed

lemma cookie_pair:
  assumes "list_all key_char token"
  shows "takeWhile (\<lambda>c. c \<noteq> 59) (serializeCookie token a) = cookieName a @ 61 # token"
proof -
  have "c \<noteq> 59" if "c \<in> set (cookieName a @ 61 # token)" for c
    using that assms cookieName_chars key_char_plain by (auto simp: list_all_iff)
  then have "takeWhile (\<lambda>c. c \<noteq> 59) ((cookieName a @ 61 # token) @ 59 # r) = cookieName a @ 61 # token" for r
    by (subst takeWhile_append2) auto
  then show ?thesis by (simp add: serializeCookie_def js_def)
qed

lemma base64url_32: "length bs = 32 \<Longrightarrow> length (base64url_encode bs) = 43"
  by (simp add: base64url_encode_def length_sextets)

section \<open>Properties\<close>

lemma new_auth:
  assumes "create_auth scrypt username password secure idle absolute = Inr a"
  shows "ma_sessions a = []" "ma_failures a = []" "ma_records a = []"
  using assms by (auto simp: create_auth_def split: option.splits sum.splits if_splits)


definition demo_scrypt :: "jsstring \<Rightarrow> bytes option" where
  "demo_scrypt p = Some (utf8 p)"

definition demo_password :: jsstring where
  "demo_password = replicate 24 97"

definition demo_auth :: authenticator where
  "demo_auth = \<lparr>ma_username = js ''admin'', ma_secureCookies = True, ma_hash = utf8 demo_password, ma_idle = 1800000,
     ma_absolute = 43200000, ma_sessions = [], ma_failures = [], ma_records = []\<rparr>"

lemma demo_auth: "create_auth demo_scrypt (js ''admin'') demo_password True None None = Inr demo_auth"
  by (simp add: create_auth_def validateManagementPassword_def demo_password_def demo_scrypt_def
      validateManagementUsername_def js_def trim_fixed is_space_def is_alnum_def is_digit_def is_upper_def is_lower_def
      positiveDuration_def DEFAULT_IDLE_TIMEOUT_MS_def DEFAULT_ABSOLUTE_TIMEOUT_MS_def is_safe_def max_safe_def
      demo_auth_def list_ex_iff)



definition demo_guesses :: "jsstring list" where
  "demo_guesses = map (\<lambda>n. [n]) [97..<103]"

lemma demo_guesses_wrong: "\<forall>p\<in>set demo_guesses. \<exists>h. demo_scrypt p = Some h \<and> h \<noteq> ma_hash demo_auth"
proof -
  have "utf8 [n] \<noteq> utf8 demo_password" if "n < 128" for n
  proof -
    have "length (utf8 demo_password) = 24" "length (utf8 [n]) = 1"
      using byte_length_ascii [of demo_password] byte_length_ascii [of "[n]"] that
      by (simp_all add: byte_length_def demo_password_def)
    then show ?thesis by auto
  qed
  then show ?thesis by (auto simp: demo_scrypt_def demo_auth_def demo_guesses_def)
qed


text \<open>
  C38: the cookie of a successful login opens the session it was issued for: the name-value pair of the
  cookie, sent back within the idle and absolute timeouts, gives a session with the same user and CSRF
  token, and the token passes the CSRF check.
\<close>

theorem login_cookie_opens_session:
  assumes "login_finish sha scrypt r1 r2 l a = (a', Some (LoggedIn ms cookie))" "length r1 = 32"
    "la_now l \<le> now" "now - la_now l \<le> ma_idle a" "now - la_now l \<le> ma_absolute a"
  shows "\<exists>ms'. snd (session sha now (Some (takeWhile (\<lambda>c. c \<noteq> 59) cookie)) a') = Some ms' \<and>
    ms_username ms' = ms_username ms \<and> ms_csrfToken ms' = ms_csrfToken ms \<and> now \<le> ms_expiresAt ms' \<and>
    validCsrf sha ms' (Some (ms_csrfToken ms))"
proof -
  let ?token = "base64url_encode r1"
  have s: "login_succeeded sha r1 r2 l a = (a', LoggedIn ms cookie)"
    using assms(1) by (auto simp: login_finish_def login_failed_def Let_def split: option.splits prod.splits if_splits)
  then have config: "cookieName a' = cookieName a" "ma_idle a' = ma_idle a" "ma_absolute a' = ma_absolute a"
    by (auto simp: login_succeeded_def Let_def prune_def cookieName_def)
  from s have ms: "ms_username ms = ma_username a" "ms_csrfToken ms = base64url_encode r2" "cookie = serializeCookie ?token a"
    by (auto simp: login_succeeded_def Let_def publicSession_def)
  have "map_of (ma_sessions a') (hashSecret sha ?token) =
      Some \<lparr>ss_username = ma_username a, ss_csrfToken = base64url_encode r2, ss_createdAt = la_now l, ss_lastSeenAt = la_now l\<rparr>"
    using login_succeeded_sessions [of sha r1 r2 l a] s by (simp add: update_conv')
  moreover have "readCookie (Some (takeWhile (\<lambda>c. c \<noteq> 59) cookie)) (cookieName a') = Some ?token"
    using readCookie_pair [of ?token a] base64url_32 [OF assms(2)] base64url_key_chars [of r1] config(1) ms(3)
    by (simp add: cookie_pair)
  ultimately show ?thesis
    using assms(3-5) ms config
    by (simp add: session_def Let_def expired_def publicSession_def validCsrf_def constantTimeTextEqual_def)
qed

lemma demo_login:
  obtains a' ms cookie where
    "login_finish (\<lambda>b. b) demo_scrypt (replicate 32 7) (replicate 32 9)
       \<lparr>la_username = js ''admin'', la_password = demo_password, la_key = [], la_now = 0, la_failure = None\<rparr> demo_auth =
     (a', Some (LoggedIn ms cookie))"
  by (simp add: login_finish_def demo_scrypt_def constantTimeTextEqual_def demo_auth_def login_succeeded_def Let_def)

theorem login_cookie_opens_session_witness:
  "\<exists>a' ms cookie ms'. login_finish (\<lambda>b. b) demo_scrypt (replicate 32 7) (replicate 32 9)
       \<lparr>la_username = js ''admin'', la_password = demo_password, la_key = [], la_now = 0, la_failure = None\<rparr> demo_auth =
     (a', Some (LoggedIn ms cookie)) \<and>
     snd (session (\<lambda>b. b) 1000 (Some (takeWhile (\<lambda>c. c \<noteq> 59) cookie)) a') = Some ms' \<and> ms_csrfToken ms' = ms_csrfToken ms"
proof (rule demo_login)
  fix a' ms cookie
  assume l: "login_finish (\<lambda>b. b) demo_scrypt (replicate 32 7) (replicate 32 9)
       \<lparr>la_username = js ''admin'', la_password = demo_password, la_key = [], la_now = 0, la_failure = None\<rparr> demo_auth =
     (a', Some (LoggedIn ms cookie))"
  then show ?thesis using login_cookie_opens_session [OF l, of 1000] by (auto simp: demo_auth_def)
qed

text \<open>
  C28: whatever logins, overlapping or not, session checks and logouts happen, at most 32 sessions exist,
  under distinct token hashes; and a token whose hash is not among them (after a logout, an expiry or an
  eviction) is not honoured again unless a later login issues a token with that hash.
\<close>

theorem management_sessions:
  assumes "create_auth scrypt username password secure idle absolute = Inr a"
    "s = fold (auth_step lower sha scrypt) ops \<lparr>sys_auth = a, sys_waiting = []\<rparr>"
  shows "length (ma_sessions (sys_auth s)) \<le> 32 \<and> distinct (map fst (ma_sessions (sys_auth s))) \<and>
    (\<forall>later token cookie now. hashSecret sha token \<notin> fst ` set (ma_sessions (sys_auth s)) \<longrightarrow>
       (\<forall>op\<in>set later. \<not> issues sha (hashSecret sha token) op) \<longrightarrow>
       readCookie cookie (cookieName a) = Some token \<longrightarrow>
       snd (session sha now cookie (sys_auth (fold (auth_step lower sha scrypt) later s))) = None)"
proof (intro conjI allI impI)
  have "sessions_ok (sys_auth s)"
    using run_sessions_ok [of "\<lparr>sys_auth = a, sys_waiting = []\<rparr>"] new_auth [OF assms(1)] assms(2) by (simp add: sessions_ok_def)
  then show "length (ma_sessions (sys_auth s)) \<le> 32" "distinct (map fst (ma_sessions (sys_auth s)))"
    by (simp_all add: sessions_ok_def MAX_SESSIONS_def)
  fix later token cookie now
  let ?s = "fold (auth_step lower sha scrypt) later s"
  assume "hashSecret sha token \<notin> fst ` set (ma_sessions (sys_auth s))" "\<forall>op\<in>set later. \<not> issues sha (hashSecret sha token) op"
    and cookie: "readCookie cookie (cookieName a) = Some token"
  then have "\<not> known (hashSecret sha token) (sys_auth ?s)"
    unfolding known_def [symmetric] using known_run by blast
  then have "map_of (ma_sessions (sys_auth ?s)) (hashSecret sha token) = None"
    by (simp add: known_def map_of_eq_None_iff)
  moreover have "cookieName (sys_auth ?s) = cookieName a"
    using same_config_run [of s lower sha scrypt later] same_config_run [of "\<lparr>sys_auth = a, sys_waiting = []\<rparr>" lower sha scrypt ops]
      assms(2) by (simp add: same_config_def cookieName_def)
  ultimately show "snd (session sha now cookie (sys_auth ?s)) = None"
    using session_unknown cookie by simp
qed

theorem management_sessions_witness:
  "length (ma_sessions (sys_auth (fold (auth_step ascii_lower (\<lambda>b. b) demo_scrypt)
     [LoginStart 0 (js ''admin'') demo_password (js ''ip''), LoginFinish 0 [1] [2]] \<lparr>sys_auth = demo_auth, sys_waiting = []\<rparr>))) \<le> 32"
  using management_sessions [OF demo_auth refl] by blast

end
