(* ===== verification/Activity.thy ===== *)
theory Activity
  imports Prelude
begin

text \<open>
  \<^verbatim>\<open>typr-server/activity.ts\<close>: the bounded history of events and its live subscribers. The clock is a
  parameter of a publication, and a predicate tells which subscribers throw when they are called.
  Subscribers do not change the set of subscribers while an event is delivered.
\<close>

datatype ActivityLevel = LevelInfo | LevelWarning | LevelError

record 'm ActivityInput =
  in_timestamp :: "jsstring option"
  in_serviceId :: jsstring
  in_level :: ActivityLevel
  in_type :: jsstring
  in_message :: jsstring
  in_userId :: "jsstring option"
  in_requestId :: "jsstring option"
  in_durationMs :: "int option"
  in_details :: "jsstring option"
  in_metadata :: "'m option"

record 'm ActivityEvent =
  ev_id :: nat
  ev_timestamp :: jsstring
  ev_serviceId :: jsstring
  ev_level :: ActivityLevel
  ev_type :: jsstring
  ev_message :: jsstring
  ev_userId :: "jsstring option"
  ev_requestId :: "jsstring option"
  ev_durationMs :: "int option"
  ev_details :: "jsstring option"
  ev_metadata :: "'m option"

definition MAX_MESSAGE_LENGTH :: nat where "MAX_MESSAGE_LENGTH = 2000"
definition MAX_DETAILS_LENGTH :: nat where "MAX_DETAILS_LENGTH = 128 * 1024"

record ('m, 'l) ActivityBus =
  bus_events :: "'m ActivityEvent list"
  bus_listeners :: "'l list"
  bus_maxEvents :: nat
  bus_nextId :: nat

definition new_bus :: "int \<Rightarrow> ('m, 'l) ActivityBus option" where
  "new_bus maxEvents =
     (if maxEvents < 1 then None
      else Some \<lparr>bus_events = [], bus_listeners = [], bus_maxEvents = nat maxEvents, bus_nextId = 1\<rparr>)"

definition truncation_note :: jsstring where
  "truncation_note = 10 # js ''[truncated by management activity log]''"

definition truncate_text :: "jsstring \<Rightarrow> nat \<Rightarrow> jsstring" where
  "truncate_text v maxLength = (if length v \<le> maxLength then v else take maxLength v @ truncation_note)"

definition make_event :: "nat \<Rightarrow> jsstring \<Rightarrow> 'm ActivityInput \<Rightarrow> 'm ActivityEvent" where
  "make_event i now inp =
     \<lparr>ev_id = i, ev_timestamp = (case in_timestamp inp of None \<Rightarrow> now | Some t \<Rightarrow> t), ev_serviceId = in_serviceId inp,
      ev_level = in_level inp, ev_type = in_type inp, ev_message = truncate_text (in_message inp) MAX_MESSAGE_LENGTH,
      ev_userId = in_userId inp, ev_requestId = in_requestId inp, ev_durationMs = in_durationMs inp,
      ev_details = (case in_details inp of None \<Rightarrow> None
                    | Some d \<Rightarrow> Some (if d = [] then d else truncate_text d MAX_DETAILS_LENGTH)),
      ev_metadata = in_metadata inp\<rparr>"

text \<open>
  \<open>publish\<close>: the new bus, the event, the subscribers called, and whether one of them threw, which ends
  the delivery and the publication.
\<close>

fun deliver :: "('l \<Rightarrow> bool) \<Rightarrow> 'l list \<Rightarrow> 'l list \<times> bool" where
  "deliver throws [] = ([], False)"
| "deliver throws (l # ls) = (if throws l then ([l], True) else (let (called, t) = deliver throws ls in (l # called, t)))"

definition publish ::
  "('l \<Rightarrow> bool) \<Rightarrow> jsstring \<Rightarrow> 'm ActivityInput \<Rightarrow> ('m, 'l) ActivityBus \<Rightarrow>
   ('m, 'l) ActivityBus \<times> 'm ActivityEvent \<times> 'l list \<times> bool"
where
  "publish throws now inp b =
     (let ev = make_event (bus_nextId b) now inp;
          events = bus_events b @ [ev];
          events' = (if length events > bus_maxEvents b then drop (length events - bus_maxEvents b) events else events)
      in (b\<lparr>bus_nextId := bus_nextId b + 1, bus_events := events'\<rparr>, ev, deliver throws (bus_listeners b)))"

definition bus_snapshot ::
  "jsstring option \<Rightarrow> nat option \<Rightarrow> int option \<Rightarrow> ('m, 'l) ActivityBus \<Rightarrow> 'm ActivityEvent list"
where
  "bus_snapshot serviceId afterId limit b =
     (let n = max 1 (min (case limit of None \<Rightarrow> int (bus_maxEvents b) | Some l \<Rightarrow> l) (int (bus_maxEvents b)))
      in keep_last (nat n)
           (filter (\<lambda>ev. (serviceId = None \<or> serviceId = Some [] \<or> Some (ev_serviceId ev) = serviceId) \<and>
                         (case afterId of None \<Rightarrow> True | Some i \<Rightarrow> i = 0 \<or> ev_id ev > i)) (bus_events b)))"

definition subscribe :: "'l \<Rightarrow> ('m, 'l) ActivityBus \<Rightarrow> ('m, 'l) ActivityBus" where
  "subscribe l b = (if l \<in> set (bus_listeners b) then b else b\<lparr>bus_listeners := bus_listeners b @ [l]\<rparr>)"

definition unsubscribe :: "'l \<Rightarrow> ('m, 'l) ActivityBus \<Rightarrow> ('m, 'l) ActivityBus" where
  "unsubscribe l b = b\<lparr>bus_listeners := removeAll l (bus_listeners b)\<rparr>"

section \<open>The history\<close>

fun publish_all :: "('l \<Rightarrow> bool) \<Rightarrow> (jsstring \<times> 'm ActivityInput) list \<Rightarrow> ('m, 'l) ActivityBus \<Rightarrow> ('m, 'l) ActivityBus" where
  "publish_all throws [] b = b"
| "publish_all throws ((now, inp) # xs) b = publish_all throws xs (fst (publish throws now inp b))"

text \<open>Every event ever published, with its number.\<close>

fun all_events :: "nat \<Rightarrow> (jsstring \<times> 'm ActivityInput) list \<Rightarrow> 'm ActivityEvent list" where
  "all_events i [] = []"
| "all_events i ((now, inp) # xs) = make_event i now inp # all_events (Suc i) xs"

lemma keep_last_drop: "keep_last n xs = drop (length xs - n) xs"
  by (simp add: keep_last_def)

lemma keep_last_append: "keep_last n (keep_last n xs @ ys) = keep_last n (xs @ ys)"
  by (cases "n \<le> length xs") (simp_all add: keep_last_drop add.commute)

lemma publish_events:
  "bus_events (fst (publish throws now inp b)) = keep_last (bus_maxEvents b) (bus_events b @ [make_event (bus_nextId b) now inp])"
  "bus_nextId (fst (publish throws now inp b)) = Suc (bus_nextId b)"
  "bus_maxEvents (fst (publish throws now inp b)) = bus_maxEvents b"
  by (simp_all add: publish_def Let_def keep_last_drop)

lemma publish_all_events:
  "bus_events (publish_all throws xs b) = keep_last (bus_maxEvents b) (bus_events b @ all_events (bus_nextId b) xs) \<or>
   (xs = [] \<and> bus_events (publish_all throws xs b) = bus_events b)"
  "bus_maxEvents (publish_all throws xs b) = bus_maxEvents b"
proof (induction throws xs b rule: publish_all.induct)
  case (2 throws now inp xs b)
  { case 1
    from "2.IH"(1) show ?case
      using keep_last_append [of "bus_maxEvents b" "bus_events b @ [make_event (bus_nextId b) now inp]" "all_events (Suc (bus_nextId b)) xs"]
      by (auto simp: publish_events) }
  { case 2 from "2.IH"(2) show ?case by (simp add: publish_events) }
qed simp_all

lemma all_events_ids: "map ev_id (all_events i xs) = [i..<i + length xs]"
  by (induction i xs rule: all_events.induct) (simp_all add: make_event_def upt_conv_Cons del: upt_Suc)

lemma filter_ids:
  "map ev_id xs = [a..<a + length xs] \<Longrightarrow> filter (\<lambda>ev. i < ev_id ev) xs = drop (Suc i - a) xs"
proof (induction xs arbitrary: a)
  case (Cons x xs)
  then have x: "ev_id x = a" and xs: "map ev_id xs = [Suc a..<Suc a + length xs]"
    by (simp_all add: upt_conv_Cons del: upt_Suc)
  from Cons.IH [OF xs] x show ?case by (cases "i < a") (auto simp: Suc_diff_le)
qed simp

text \<open>
  The history is a window on everything published. A new bus of size \<open>n\<close> on which any inputs have
  been published holds exactly the last \<open>n\<close> events, whatever the subscribers do, and polling it with
  the last identifier seen returns every event published since, as long as there were at most \<open>n\<close>.
\<close>

theorem activity_window:
  assumes "new_bus n = Some b"
  shows "bus_events (publish_all throws xs b) = keep_last (nat n) (all_events 1 xs) \<and>
    (i \<le> length xs \<and> length xs - i \<le> nat n \<longrightarrow>
       bus_snapshot None (Some i) None (publish_all throws xs b) =
         (if i = 0 then keep_last (nat n) (all_events 1 xs) else drop i (all_events 1 xs)))"
proof -
  have b: "bus_events b = []" "bus_nextId b = 1" "bus_maxEvents b = nat n" "0 < nat n"
    using assms by (auto simp: new_bus_def split: if_splits)
  then have events: "bus_events (publish_all throws xs b) = keep_last (nat n) (all_events 1 xs)"
    using publish_all_events(1) [of throws xs b] by (auto simp: keep_last_def)
  have len: "length (all_events 1 xs) = length xs"
    using arg_cong [OF all_events_ids, of length 1 xs] by (simp del: upt_Suc)
  have "bus_snapshot None (Some i) None (publish_all throws xs b) =
      (if i = 0 then keep_last (nat n) (all_events 1 xs) else drop i (all_events 1 xs))"
    if "i \<le> length xs" "length xs - i \<le> nat n"
  proof -
    let ?k = "length xs - nat n"
    let ?e = "drop ?k (all_events 1 xs)"
    have e: "bus_events (publish_all throws xs b) = ?e" using events len by (simp add: keep_last_drop)
    have "map ev_id ?e = [Suc ?k..<Suc ?k + length ?e]"
      using all_events_ids [of 1 xs] len by (simp flip: drop_map del: upt_Suc)
    then have "filter (\<lambda>ev. i < ev_id ev) ?e = drop i (all_events 1 xs)"
      using filter_ids [of ?e "Suc ?k" i] that by simp
    moreover have "max 1 (min (int (nat n)) (int (nat n))) = int (nat n)" using b(4) by simp
    ultimately show ?thesis
      using e b(3) that len publish_all_events(2) [of throws xs b] keep_last_id [of ?e "nat n"]
        keep_last_id [of "drop i (all_events 1 xs)" "nat n"] events
      by (auto simp: bus_snapshot_def Let_def keep_last_drop)
  qed
  with events show ?thesis by blast
qed

definition demo_input :: "unit ActivityInput" where
  "demo_input = \<lparr>in_timestamp = None, in_serviceId = js ''latex'', in_level = LevelInfo, in_type = js ''x'', in_message = js ''m'',
     in_userId = None, in_requestId = None, in_durationMs = None, in_details = None, in_metadata = None\<rparr>"

lemma demo_bus: "new_bus 2 = Some \<lparr>bus_events = [], bus_listeners = [], bus_maxEvents = 2, bus_nextId = 1\<rparr>"
  by (simp add: new_bus_def)

theorem activity_window_witness:
  "length (bus_events (publish_all (\<lambda>_ :: unit. True) [(js ''1'', demo_input), (js ''2'', demo_input), (js ''3'', demo_input)]
     \<lparr>bus_events = [], bus_listeners = [], bus_maxEvents = 2, bus_nextId = 1\<rparr>)) = 2"
  using activity_window [OF demo_bus, of "\<lambda>_ :: unit. True" "[(js ''1'', demo_input), (js ''2'', demo_input), (js ''3'', demo_input)]" 0]
  by (simp add: keep_last_def del: publish_all.simps)

end
