(* ===== verification/ProviderInstall.thy ===== *)
theory ProviderInstall
  imports Base64 Json Effects NativeProcess
begin

text \<open>
  \<^verbatim>\<open>typr-server/providerManager.ts\<close>, the part without state: the catalog of providers, the saved state
  and its validation, and what an installation does to the host: the verified download, the extraction
  and the search for executables. Paths are POSIX paths. The host is a record of operations on a world;
  SHA-256, the lower case of a name and \<open>new URL\<close> are parameters.
\<close>

section \<open>The catalog\<close>

datatype ManagedProviderKind = TexDistribution | Lsp
datatype ProviderArchive = TarGz | TarXz | Zip | WindowsInstaller

record ProviderAsset =
  pa_platform :: jsstring
  pa_arch :: jsstring
  pa_url :: jsstring
  pa_sha256 :: jsstring
  pa_size :: int
  pa_archive :: ProviderArchive

record ManagedProviderDefinition =
  pd_id :: jsstring
  pd_name :: jsstring
  pd_kind :: ManagedProviderKind
  pd_version :: jsstring
  pd_description :: jsstring
  pd_executableNames :: "jsstring list"
  pd_assets :: "ProviderAsset list"

definition DOWNLOAD_OVERHEAD_BYTES :: int where "DOWNLOAD_OVERHEAD_BYTES = 1024 * 1024"
definition MAX_ARCHIVE_BYTES :: int where "MAX_ARCHIVE_BYTES = 300 * 1024 * 1024"
definition MAX_DISCOVERY_ENTRIES :: nat where "MAX_DISCOVERY_ENTRIES = 20000"

definition asset :: "string \<Rightarrow> string \<Rightarrow> string \<Rightarrow> string \<Rightarrow> int \<Rightarrow> ProviderArchive \<Rightarrow> ProviderAsset" where
  "asset platform arch filename sha256 sz archive =
     \<lparr>pa_platform = js platform, pa_arch = js arch,
      pa_url = js ''https://github.com/rstudio/tinytex-releases/releases/download/v2026.08/'' @ js filename,
      pa_sha256 = js sha256, pa_size = sz, pa_archive = archive\<rparr>"

definition githubAsset ::
  "string \<Rightarrow> string \<Rightarrow> string \<Rightarrow> string \<Rightarrow> string \<Rightarrow> string \<Rightarrow> int \<Rightarrow> ProviderArchive \<Rightarrow> ProviderAsset"
where
  "githubAsset repository tag platform arch filename sha256 sz archive =
     \<lparr>pa_platform = js platform, pa_arch = js arch,
      pa_url = js ''https://github.com/'' @ js repository @ js ''/releases/download/'' @ js tag @ js ''/'' @ js filename,
      pa_sha256 = js sha256, pa_size = sz, pa_archive = archive\<rparr>"

definition system_tex :: ManagedProviderDefinition where
  "system_tex =
     \<lparr>pd_id = js ''system-tex'', pd_name = js ''Bundled/system TeX'', pd_kind = TexDistribution, pd_version = js ''host'',
      pd_description = js ''Use the TeX distribution bundled with Companion or already configured on the host.'',
      pd_executableNames = [], pd_assets = []\<rparr>"

definition tinytex :: ManagedProviderDefinition where
  "tinytex =
     \<lparr>pd_id = js ''tinytex'', pd_name = js ''TinyTeX'', pd_kind = TexDistribution, pd_version = js ''2026.08'',
      pd_description = js ''Portable TeX Live distribution with common LaTeX packages; installs without administrator rights.'',
      pd_executableNames = [js ''pdflatex'', js ''latexmk'', js ''tlmgr''],
      pd_assets =
        [asset ''linux'' ''x64'' ''TinyTeX-linux-x86_64-v2026.08.tar.xz''
           ''59685643fb4160f779df5e3d7d78266a86818ebb86ac25c7900723b0fd73a7cd'' 152058464 TarXz,
         asset ''linux'' ''arm64'' ''TinyTeX-linux-arm64-v2026.08.tar.xz''
           ''c6713bf6c44048a4902040a08763c611deac3644b844f03d7244ae49a54a2a08'' 155871496 TarXz,
         asset ''win32'' ''x64'' ''TinyTeX-windows-v2026.08.exe''
           ''e8d5e44ea9ffaf3b82c2f23ad4c3738c4d9e89bc5af59a7be558a1154c6d0f48'' 172870810 WindowsInstaller]\<rparr>"

definition texlab :: ManagedProviderDefinition where
  "texlab =
     \<lparr>pd_id = js ''texlab'', pd_name = js ''TexLab'', pd_kind = Lsp, pd_version = js ''5.26.0'',
      pd_description = js ''Language Server Protocol provider for LaTeX projects.'',
      pd_executableNames = [js ''texlab''],
      pd_assets =
        [githubAsset ''latex-lsp/texlab'' ''v5.26.0'' ''linux'' ''x64'' ''texlab-x86_64-linux.tar.gz''
           ''8697bd5e479d4584b14b7eed5c320c80ec4e1d91ebefbb6801e6bf38e9971300'' 10439323 TarGz,
         githubAsset ''latex-lsp/texlab'' ''v5.26.0'' ''linux'' ''arm64'' ''texlab-aarch64-linux.tar.gz''
           ''a85cdfcd22454b8d8550f4b0f0620c45ab51760f302fac7a12bc18a890f70f8c'' 10383190 TarGz,
         githubAsset ''latex-lsp/texlab'' ''v5.26.0'' ''win32'' ''x64'' ''texlab-x86_64-windows.zip''
           ''cb028d44c3d2b85d36a2ed52d41a0ff43a341b1f04c500c56c4524c4eb72b316'' 9997967 Zip]\<rparr>"

definition tinymist :: ManagedProviderDefinition where
  "tinymist =
     \<lparr>pd_id = js ''tinymist'', pd_name = js ''Tinymist'', pd_kind = Lsp, pd_version = js ''0.15.2'',
      pd_description = js ''Language Server Protocol provider for Typst projects.'',
      pd_executableNames = [js ''tinymist''],
      pd_assets =
        [githubAsset ''Myriad-Dreamin/tinymist'' ''v0.15.2'' ''linux'' ''x64'' ''tinymist-x86_64-unknown-linux-gnu.tar.gz''
           ''9b8a1aea6bb3fc9c39cb70496f0082bd518cfede555757bc3cb5225b05abc99b'' 32171441 TarGz,
         githubAsset ''Myriad-Dreamin/tinymist'' ''v0.15.2'' ''linux'' ''arm64'' ''tinymist-aarch64-unknown-linux-gnu.tar.gz''
           ''eba8e14338cf211906d77be6b18102736222da6721e98161133fa0d8ff5ab599'' 29549962 TarGz,
         githubAsset ''Myriad-Dreamin/tinymist'' ''v0.15.2'' ''win32'' ''x64'' ''tinymist-x86_64-pc-windows-msvc.zip''
           ''91edb0d21edca5841b896d702d8086622792d52b71a9b444d8befb0e937969ae'' 29322850 Zip]\<rparr>"

definition CURATED_PROVIDER_CATALOG :: "ManagedProviderDefinition list" where
  "CURATED_PROVIDER_CATALOG = [system_tex, tinytex, texlab, tinymist]"

definition find_definition :: "ManagedProviderDefinition list \<Rightarrow> jsstring \<Rightarrow> ManagedProviderDefinition option" where
  "find_definition catalog pid = List.find (\<lambda>d. pd_id d = pid) catalog"

definition assetFor :: "jsstring \<Rightarrow> jsstring \<Rightarrow> ManagedProviderDefinition \<Rightarrow> ProviderAsset option" where
  "assetFor platform arch d = List.find (\<lambda>a. pa_platform a = platform \<and> pa_arch a = arch) (pd_assets d)"

section \<open>The saved state\<close>

record InstalledProviderRecord =
  ip_id :: jsstring
  ip_version :: jsstring
  ip_installedAt :: jsstring
  ip_executables :: "(jsstring \<times> jsstring) list"

record ProviderState =
  ps_active :: "jsstring option"
  ps_installed :: "InstalledProviderRecord list"

definition installed_json :: "InstalledProviderRecord \<Rightarrow> json" where
  "installed_json r = obj [(''id'', JStr (ip_id r)), (''version'', JStr (ip_version r)), (''installedAt'', JStr (ip_installedAt r)),
     (''executables'', JObj (map (\<lambda>(name, path). (name, JStr path)) (ip_executables r)))]"

definition provider_state_json :: "ProviderState \<Rightarrow> json" where
  "provider_state_json s = obj ([(''version'', JInt 1), (''installed'', JArr (map installed_json (ps_installed s)))] @
     optional_field ''activeTexProvider'' (ps_active s))"

text \<open>\<open>path.split(/[\\/]/u)\<close>\<close>

definition path_pieces :: "jsstring \<Rightarrow> jsstring list" where
  "path_pieces p = split_on 47 (map (\<lambda>c. if c = 92 then 47 else c) p)"

definition validate_executable :: "jsstring list \<Rightarrow> jsstring \<times> json \<Rightarrow> string + jsstring \<times> jsstring" where
  "validate_executable names e =
     (case e of
        (name, JStr path) \<Rightarrow>
          if name \<notin> set names \<or> posix_isAbsolute path \<or> js ''..'' \<in> set (path_pieces path)
          then Inl ''Companion provider executable state is invalid.'' else Inr (name, path)
      | _ \<Rightarrow> Inl ''Companion provider executable state is invalid.'')"

text \<open>The last definition with an id counts, as in a \<open>Map\<close> built from pairs.\<close>

definition validate_installed :: "ManagedProviderDefinition list \<Rightarrow> json \<Rightarrow> string + InstalledProviderRecord" where
  "validate_installed catalog v =
     (case (as_string (field v ''id''), as_string (field v ''version''), as_string (field v ''installedAt''), field v ''executables'') of
        (Some i, Some ver, Some t, Some (JObj es)) \<Rightarrow>
          (case map_of (rev (map (\<lambda>d. (pd_id d, d)) catalog)) i of
             None \<Rightarrow> Inl ''Companion provider state references an unknown provider version.''
           | Some d \<Rightarrow>
               if pd_version d \<noteq> ver then Inl ''Companion provider state references an unknown provider version.''
               else (case map_result (validate_executable (pd_executableNames d)) es of
                       Inl e \<Rightarrow> Inl e
                     | Inr ex \<Rightarrow> Inr \<lparr>ip_id = i, ip_version = ver, ip_installedAt = t, ip_executables = ex\<rparr>))
      | _ \<Rightarrow> Inl ''Companion installed-provider state is invalid.'')"

definition validateProviderState :: "ManagedProviderDefinition list \<Rightarrow> json \<Rightarrow> string + ProviderState" where
  "validateProviderState catalog v =
     (case (field v ''version'', as_array (field v ''installed''), optional_string (field v ''activeTexProvider'')) of
        (Some (JInt n), Some rs, Some active) \<Rightarrow>
          if n \<noteq> 1 then Inl ''Companion provider state is invalid.''
          else (case map_result (validate_installed catalog) rs of
                  Inl e \<Rightarrow> Inl e
                | Inr installed \<Rightarrow> Inr \<lparr>ps_active = active, ps_installed = installed\<rparr>)
      | _ \<Rightarrow> Inl ''Companion provider state is invalid.'')"

section \<open>Paths\<close>

definition resolveInside :: "jsstring \<Rightarrow> jsstring \<Rightarrow> jsstring \<Rightarrow> string + jsstring" where
  "resolveInside cwd root path =
     (let resolved = posix_resolve cwd [root, path]
      in if resolved \<noteq> root \<and> \<not> prefix (root @ js ''/'') resolved
         then Inl ''Provider executable escapes its install root.'' else Inr resolved)"

definition safeRelative :: "jsstring \<Rightarrow> jsstring \<Rightarrow> jsstring \<Rightarrow> string + jsstring" where
  "safeRelative cwd root path =
     (let v = posix_relative cwd root path
      in if v = [] \<or> posix_isAbsolute v \<or> js ''..'' \<in> set (split_on 47 v)
         then Inl ''Provider executable path is invalid.'' else Inr v)"

definition allowedDownloadHost :: "jsstring \<Rightarrow> bool" where
  "allowedDownloadHost hostname \<longleftrightarrow>
     hostname = js ''github.com'' \<or> hostname = js ''objects.githubusercontent.com'' \<or>
     suffix (js ''.githubusercontent.com'') hostname"

fun archiveExtension :: "ProviderArchive \<Rightarrow> jsstring" where
  "archiveExtension WindowsInstaller = js ''exe''"
| "archiveExtension TarGz = js ''tar.gz''"
| "archiveExtension TarXz = js ''tar.xz''"
| "archiveExtension Zip = js ''zip''"

definition validateDataRoot :: "jsstring \<Rightarrow> jsstring \<Rightarrow> string + jsstring" where
  "validateDataRoot cwd v =
     (if posix_isAbsolute v then Inr (posix_resolve cwd [v])
      else Inl ''TYPR_COMPANION_DATA_ROOT must be an absolute path.'')"

definition installRoot :: "jsstring \<Rightarrow> jsstring \<Rightarrow> jsstring \<Rightarrow> jsstring" where
  "installRoot dataRoot providerId version = posix_join [dataRoot, js ''providers'', providerId, version]"

text \<open>The executables of a record, in order; the first that escapes throws.\<close>

definition absoluteExecutables ::
  "jsstring \<Rightarrow> jsstring \<Rightarrow> InstalledProviderRecord \<Rightarrow> string + (jsstring \<times> jsstring) list"
where
  "absoluteExecutables cwd dataRoot r =
     map_result (\<lambda>(name, path). case resolveInside cwd (installRoot dataRoot (ip_id r) (ip_version r)) path of
                                  Inl e \<Rightarrow> Inl e | Inr p \<Rightarrow> Inr (name, p)) (ip_executables r)"

section \<open>The host\<close>

datatype entry_kind = FileEntryKind | DirectoryEntry | SymlinkEntry | OtherEntry

record dir_entry =
  de_name :: jsstring
  de_kind :: entry_kind

text \<open>
  A response of \<open>fetch\<close>: \<open>dr_length\<close> is the number its Content-Length reads as, \<open>None\<close> without that
  header and \<open>Some None\<close> when it is not a safe integer; \<open>dr_url\<close> is empty when unknown; \<open>dr_failure\<close> is
  the error its body ends with after the chunks.
\<close>

record download_response =
  dr_ok :: bool
  dr_status :: nat
  dr_body :: bool
  dr_url :: jsstring
  dr_length :: "int option option"
  dr_chunks :: "bytes list"
  dr_failure :: "jsstring option"

record 'w provider_host =
  ph_win :: bool
  ph_cwd :: jsstring
  ph_sha256 :: "bytes \<Rightarrow> bytes"
  ph_lower :: "jsstring \<Rightarrow> jsstring"
  ph_url :: "jsstring \<Rightarrow> (jsstring \<times> jsstring) option"
  ph_extract :: "(ManagedProviderDefinition \<Rightarrow> ProviderAsset \<Rightarrow> jsstring \<Rightarrow> jsstring \<Rightarrow> 'w \<Rightarrow> jsstring + 'w) option"
  ph_run :: "jsstring \<Rightarrow> jsstring list \<Rightarrow> 'w \<Rightarrow> jsstring + 'w"
  ph_fetch :: "jsstring \<Rightarrow> 'w \<Rightarrow> (jsstring + download_response) \<times> 'w"
  ph_mkdir :: "jsstring \<Rightarrow> 'w \<Rightarrow> jsstring + 'w"
  ph_open :: "jsstring \<Rightarrow> 'w \<Rightarrow> jsstring + 'w"
  ph_write :: "jsstring \<Rightarrow> bytes \<Rightarrow> 'w \<Rightarrow> jsstring + 'w"
  ph_close :: "jsstring \<Rightarrow> 'w \<Rightarrow> jsstring + 'w"
  ph_chmod :: "jsstring \<Rightarrow> 'w \<Rightarrow> jsstring + 'w"
  ph_rm :: "jsstring \<Rightarrow> 'w \<Rightarrow> jsstring + 'w"
  ph_rename :: "jsstring \<Rightarrow> jsstring \<Rightarrow> 'w \<Rightarrow> jsstring + 'w"
  ph_readdir :: "jsstring \<Rightarrow> 'w \<Rightarrow> jsstring + dir_entry list"
  ph_realpath :: "jsstring \<Rightarrow> 'w \<Rightarrow> jsstring + jsstring"
  ph_isFile :: "jsstring \<Rightarrow> 'w \<Rightarrow> jsstring + bool"
  ph_changed :: "'w \<Rightarrow> jsstring + 'w"

type_synonym ('a, 'w) install_act = "('a, jsstring, 'w) act"

definition check :: "bool \<Rightarrow> string \<Rightarrow> (unit, 'w) install_act" where
  "check b message = (if b then give () else raise (js message))"

definition from_result :: "string + 'a \<Rightarrow> ('a, 'w) install_act" where
  "from_result r = (case r of Inl e \<Rightarrow> raise (js e) | Inr x \<Rightarrow> give x)"

definition looking :: "('w \<Rightarrow> jsstring + 'a) \<Rightarrow> ('a, 'w) install_act" where
  "looking op w = (case op w of Inl e \<Rightarrow> (Throw e, w) | Inr x \<Rightarrow> (Value x, w))"

section \<open>The verified download\<close>

text \<open>
  The loop over the body: what \<open>downloaded\<close> reached, and the error that ended the loop. A chunk that
  would pass the limit is not written.
\<close>

fun write_chunks ::
  "'w provider_host \<Rightarrow> jsstring \<Rightarrow> int \<Rightarrow> jsstring option \<Rightarrow> int \<Rightarrow> bytes list \<Rightarrow> 'w \<Rightarrow> (int \<times> jsstring option) \<times> 'w"
where
  "write_chunks h target limit failed downloaded [] w = ((downloaded, failed), w)"
| "write_chunks h target limit failed downloaded (chunk # chunks) w =
     (let downloaded' = downloaded + int (length chunk)
      in if downloaded' > limit then ((downloaded, Some (js ''Provider download exceeded its pinned size.'')), w)
         else case ph_write h target chunk w of
                Inl e \<Rightarrow> ((downloaded, Some e), w)
              | Inr w1 \<Rightarrow> write_chunks h target limit failed downloaded' chunks w1)"

definition trusted_url :: "'w provider_host \<Rightarrow> jsstring \<Rightarrow> string + unit" where
  "trusted_url h url =
     (case ph_url h url of
        None \<Rightarrow> Inl ''Invalid URL''
      | Some (protocol, hostname) \<Rightarrow>
          if protocol \<noteq> js ''https:'' \<or> \<not> allowedDownloadHost hostname
          then Inl ''Provider download redirected to an untrusted host.'' else Inr ())"

definition expected_length :: "ProviderAsset \<Rightarrow> download_response \<Rightarrow> bool" where
  "expected_length a r \<longleftrightarrow>
     (case dr_length r of
        None \<Rightarrow> is_safe (pa_size a)
      | Some None \<Rightarrow> False
      | Some (Some n) \<Rightarrow> n \<le> pa_size a + DOWNLOAD_OVERHEAD_BYTES)"

text \<open>Everything \<open>download\<close> checks before it opens the file, with the response it goes on with.\<close>

definition download_response_of :: "'w provider_host \<Rightarrow> ProviderAsset \<Rightarrow> (download_response, 'w) install_act" where
  "download_response_of h a =
     (if pa_size a \<le> 0 \<or> pa_size a > MAX_ARCHIVE_BYTES
      then raise (js ''Provider archive size is outside the allowed range.'')
      else (\<lambda>w. case ph_fetch h (pa_url a) w of
             (Inl e, w1) \<Rightarrow> (Throw e, w1)
           | (Inr r, w1) \<Rightarrow>
               if \<not> dr_ok r \<or> \<not> dr_body r
               then (Throw (js ''Provider download failed ('' @ nat_dec (dr_status r) @ js '').''), w1)
               else (case trusted_url h (if dr_url r \<noteq> [] then dr_url r else pa_url a) of
                       Inl e \<Rightarrow> (Throw (js e), w1)
                     | Inr _ \<Rightarrow>
                         if \<not> expected_length a r
                         then (Throw (js ''Provider download declared an unexpected size.''), w1)
                         else (Value r, w1))))"

text \<open>The checks after the file is closed, on what was received.\<close>

definition verify_download :: "'w provider_host \<Rightarrow> ProviderAsset \<Rightarrow> int \<Rightarrow> bytes \<Rightarrow> jsstring option" where
  "verify_download h a downloaded received =
     (if downloaded \<noteq> pa_size a
      then Some (js ''Provider download size mismatch: expected '' @ int_dec (pa_size a) @ js '', received '' @
                 int_dec downloaded @ js ''.'')
      else if hex_encode (ph_sha256 h received) \<noteq> pa_sha256 a then Some (js ''Provider download checksum mismatch.'')
      else None)"

text \<open>
  \<open>download\<close>: the value of \<open>job.downloadedBytes\<close> (\<open>None\<close>: not touched), the error if it throws, and
  the world. \<open>finally\<close> closes the file, and a failing \<open>close\<close> replaces the error.
\<close>

definition download ::
  "'w provider_host \<Rightarrow> ProviderAsset \<Rightarrow> jsstring \<Rightarrow> 'w \<Rightarrow> (int option \<times> jsstring option) \<times> 'w"
where
  "download h a target w =
     (case download_response_of h a w of
        (Throw e, w1) \<Rightarrow> ((None, Some e), w1)
      | (Unsettled, w1) \<Rightarrow> ((None, Some []), w1)
      | (Value r, w1) \<Rightarrow>
          (case ph_open h target w1 of
             Inl e \<Rightarrow> ((None, Some e), w1)
           | Inr w2 \<Rightarrow>
               (case write_chunks h target (pa_size a + DOWNLOAD_OVERHEAD_BYTES) (dr_failure r) 0 (dr_chunks r) w2 of
                  ((downloaded, failed), w3) \<Rightarrow>
                    (case ph_close h target w3 of
                       Inl e \<Rightarrow> ((Some downloaded, Some e), w3)
                     | Inr w4 \<Rightarrow>
                         (case failed of
                            Some e \<Rightarrow> ((Some downloaded, Some e), w4)
                          | None \<Rightarrow> ((Some downloaded, verify_download h a downloaded (concat (dr_chunks r))), w4))))))"

section \<open>Extraction\<close>

definition extract_command ::
  "bool \<Rightarrow> ProviderAsset \<Rightarrow> jsstring \<Rightarrow> jsstring \<Rightarrow> string + jsstring \<times> jsstring list"
where
  "extract_command win a archivePath destination =
     (if pa_archive a = WindowsInstaller
      then if \<not> win then Inl ''Windows provider installer cannot run on this platform.''
           else Inr (archivePath, [js ''-y'', js ''-o'' @ destination])
      else Inr (if win then js ''tar.exe'' else js ''tar'',
                [if pa_archive a = TarGz then js ''-xzf'' else if pa_archive a = TarXz then js ''-xJf'' else js ''-xf'',
                 archivePath, js ''-C'', destination]))"

definition extractProviderAsset :: "'w provider_host \<Rightarrow> ProviderAsset \<Rightarrow> jsstring \<Rightarrow> jsstring \<Rightarrow> (unit, 'w) install_act" where
  "extractProviderAsset h a archivePath destination =
     and_then (from_result (extract_command (ph_win h) a archivePath destination))
       (\<lambda>(command, args). attempt (ph_run h command args) id)"

section \<open>The search for an executable\<close>

definition expected_names :: "'w provider_host \<Rightarrow> jsstring \<Rightarrow> jsstring \<Rightarrow> jsstring list" where
  "expected_names h platform name =
     (if platform = js ''win32'' then map (\<lambda>e. ph_lower h (name @ js e)) [''.exe'', ''.bat'', ''.cmd''] else [name])"

datatype scan = Found jsstring | Continue nat "jsstring list" | ScanFailed jsstring

text \<open>The entries of one directory; \<open>queue\<close> are the directories still to read.\<close>

fun scan_entries ::
  "'w provider_host \<Rightarrow> 'w \<Rightarrow> jsstring \<Rightarrow> jsstring list \<Rightarrow> jsstring \<Rightarrow> dir_entry list \<Rightarrow> nat \<Rightarrow> jsstring list \<Rightarrow> scan"
where
  "scan_entries h w root expected directory [] visited queue = Continue visited queue"
| "scan_entries h w root expected directory (e # es) visited queue =
     (let visited = Suc visited; path = posix_join [directory, de_name e]; named = ph_lower h (de_name e) \<in> set expected
      in if visited > MAX_DISCOVERY_ENTRIES then ScanFailed (js ''Provider archive contains too many entries.'')
         else case de_kind e of
           SymlinkEntry \<Rightarrow>
             if \<not> named then scan_entries h w root expected directory es visited queue
             else (case ph_realpath h path w of
                     Inl m \<Rightarrow> ScanFailed m
                   | Inr target \<Rightarrow>
                       (case resolveInside (ph_cwd h) root (posix_relative (ph_cwd h) root target) of
                          Inl m \<Rightarrow> ScanFailed (js m)
                        | Inr _ \<Rightarrow>
                            (case ph_isFile h target w of
                               Inl m \<Rightarrow> ScanFailed m
                             | Inr True \<Rightarrow> Found path
                             | Inr False \<Rightarrow> scan_entries h w root expected directory es visited queue)))
         | DirectoryEntry \<Rightarrow> scan_entries h w root expected directory es visited (queue @ [path])
         | FileEntryKind \<Rightarrow> if named then Found path else scan_entries h w root expected directory es visited queue
         | OtherEntry \<Rightarrow> scan_entries h w root expected directory es visited queue)"

lemma scan_continue:
  "scan_entries h w root expected directory es visited queue = Continue v q \<Longrightarrow>
   v = visited + length es \<and> length q \<le> length queue + length es \<and> (es \<noteq> [] \<longrightarrow> v \<le> MAX_DISCOVERY_ENTRIES)"
proof (induction es arbitrary: visited queue)
  case (Cons e es)
  then show ?case
    by (cases "de_kind e"; cases "es = []")
       (fastforce simp: Let_def split: if_splits sum.splits bool.splits)+
qed simp

text \<open>
  Breadth first: every directory queued was an entry, and at most \<open>MAX_DISCOVERY_ENTRIES\<close> entries are
  looked at, so the loop ends whatever the file system answers.
\<close>

function find_loop ::
  "'w provider_host \<Rightarrow> 'w \<Rightarrow> jsstring \<Rightarrow> jsstring list \<Rightarrow> jsstring list \<Rightarrow> nat \<Rightarrow> jsstring + jsstring option"
where
  "find_loop h w root expected [] visited = Inr None"
| "find_loop h w root expected (directory # queue) visited =
     (case ph_readdir h directory w of
        Inl m \<Rightarrow> Inl m
      | Inr entries \<Rightarrow>
          (case scan_entries h w root expected directory entries visited queue of
             Found path \<Rightarrow> Inr (Some path)
           | ScanFailed m \<Rightarrow> Inl m
           | Continue visited' queue' \<Rightarrow> find_loop h w root expected queue' visited'))"
  by pat_completeness auto
termination
proof (relation "measure (\<lambda>(h, w, root, expected, queue, visited). 2 * (MAX_DISCOVERY_ENTRIES - visited) + length queue)")
  fix h :: "'w provider_host" and w root expected directory queue visited entries visited' queue'
  assume "scan_entries h w root expected directory entries visited queue = Continue visited' queue'"
  from scan_continue [OF this]
  show "((h, w, root, expected, queue', visited'), (h, w, root, expected, directory # queue, visited))
      \<in> measure (\<lambda>(h, w, root, expected, queue, visited). 2 * (MAX_DISCOVERY_ENTRIES - visited) + length queue)"
    by (cases "entries = []") auto
qed simp

definition findExecutable :: "'w provider_host \<Rightarrow> jsstring \<Rightarrow> jsstring \<Rightarrow> jsstring \<Rightarrow> (jsstring option, 'w) install_act" where
  "findExecutable h platform root name =
     looking (\<lambda>w. find_loop h w root (expected_names h platform name) [root] 0)"

section \<open>Installing the files\<close>

text \<open>The loop over \<open>executableNames\<close>; \<open>found\<close> is \<open>relativeExecutables\<close>.\<close>

fun locate_executables ::
  "'w provider_host \<Rightarrow> jsstring \<Rightarrow> ManagedProviderDefinition \<Rightarrow> jsstring \<Rightarrow> jsstring list \<Rightarrow> (jsstring \<times> jsstring) list \<Rightarrow>
   ((jsstring \<times> jsstring) list, 'w) install_act"
where
  "locate_executables h platform d root [] found = give found"
| "locate_executables h platform d root (name # names) found =
     and_then (findExecutable h platform root name)
       (\<lambda>executable. case executable of
          None \<Rightarrow> raise (pd_name d @ js '' archive did not contain '' @ name @ js ''.'')
        | Some path \<Rightarrow>
            and_then (if platform = js ''win32'' then give () else attempt (ph_chmod h path) id)
              (\<lambda>_. and_then (from_result (safeRelative (ph_cwd h) root path))
                     (\<lambda>rel. locate_executables h platform d root names (AList.update name rel found))))"

text \<open>From the verified archive to the install root: lines 276 to 291 of \<open>runInstall\<close>.\<close>

definition install_files ::
  "'w provider_host \<Rightarrow> jsstring \<Rightarrow> jsstring \<Rightarrow> ManagedProviderDefinition \<Rightarrow> ProviderAsset \<Rightarrow> jsstring \<Rightarrow>
   ((jsstring \<times> jsstring) list, 'w) install_act"
where
  "install_files h platform dataRoot d a stagingRoot =
     (let archivePath = posix_join [stagingRoot, js ''download.'' @ archiveExtension (pa_archive a)];
          extractedRoot = posix_join [stagingRoot, js ''extracted''];
          destination = installRoot dataRoot (pd_id d) (pd_version d)
      in and_then (attempt (ph_mkdir h extractedRoot) id)
           (\<lambda>_. and_then
             (case ph_extract h of
                Some extract \<Rightarrow> attempt (extract d a archivePath extractedRoot) id
              | None \<Rightarrow> extractProviderAsset h a archivePath extractedRoot)
             (\<lambda>_. and_then (locate_executables h platform d extractedRoot (pd_executableNames d) [])
               (\<lambda>executables. and_then (attempt (ph_mkdir h (posix_dirname destination)) id)
                 (\<lambda>_. and_then (attempt (ph_rm h destination) id)
                   (\<lambda>_. and_then (attempt (ph_rename h extractedRoot destination) id)
                     (\<lambda>_. give executables)))))))"

section \<open>Lemmas on paths\<close>

lemma split_on_slashes:
  "split_on 47 (map (\<lambda>c. if c = 92 then 47 else c) p) = concat (map (split_on 92) (split_on (47::nat) p))"
proof (induction p)
  case (Cons c p)
  then show ?case
    by (cases "split_on 47 p"; cases "split_on 92 (hd (split_on 47 p))") auto
qed simp

lemma path_pieces_split: "js ''..'' \<notin> set (path_pieces p) \<Longrightarrow> js ''..'' \<notin> set (split_on 47 p)"
proof
  assume a: "js ''..'' \<notin> set (path_pieces p)" "js ''..'' \<in> set (split_on 47 p)"
  have "split_on 92 (js ''..'') = [js ''..'']" by (simp add: split_on_absent dotdot)
  then have "\<exists>x\<in>set (split_on 47 p). js ''..'' \<in> set (split_on 92 x)"
    using a(2) by (intro bexI [of _ "js ''..''"]) auto
  with a(1) show False by (simp add: path_pieces_def split_on_slashes)
qed

lemma join_with_append: "ys \<noteq> [] \<Longrightarrow> zs \<noteq> [] \<Longrightarrow> join_with [c] (ys @ zs) = join_with [c] ys @ c # join_with [c] zs"
  by (induction ys rule: list_nonempty_induct) (auto simp: neq_Nil_conv)

lemma abs_path_snoc: "\<exists>q. abs_path (ys @ [y]) = q @ 47 # y"
  by (cases "ys = []") (auto simp: abs_path_def join_with_append intro: exI [of _ "47 # join_with [47] ys"])

lemma abs_path_no_final_slash: "list_all good_seg ss \<Longrightarrow> ss \<noteq> [] \<Longrightarrow> \<not> suffix (js ''/'') (abs_path ss)"
proof (cases ss rule: rev_cases)
  case (snoc ys y)
  assume "list_all good_seg ss"
  with snoc have y: "y \<noteq> []" "47 \<notin> set y" by (auto simp: good_seg_def)
  from abs_path_snoc [of ys y] obtain q where "abs_path ss = q @ 47 # y" using snoc by auto
  with y show ?thesis by (cases y rule: rev_cases) (auto simp: slash suffix_def)
qed simp

lemma posix_join_segments:
  assumes "list_all good_seg ss" "list_all good_seg ns" "ss \<noteq> []"
  shows "posix_join (abs_path ss # ns) = abs_path (ss @ ns)"
proof -
  have "filter (\<lambda>p. p \<noteq> []) (abs_path ss # ns) = abs_path ss # ns"
    using assms(2) by (auto simp: abs_path_def filter_id_conv list_all_iff good_seg_def)
  moreover have "join_with [47] (abs_path ss # ns) = abs_path (ss @ ns)"
    using assms(3)
  proof (induction ss rule: list_nonempty_induct)
    case (single x)
    then show ?case by (cases ns) (simp_all add: abs_path_def)
  next
    case (cons x xs)
    then show ?case by (cases xs; cases ns) (simp_all add: abs_path_def)
  qed
  ultimately have join: "join_with [47] (filter (\<lambda>p. p \<noteq> []) (abs_path ss # ns)) = abs_path (ss @ ns)" by simp
  have good: "list_all good_seg (ss @ ns)" "ss @ ns \<noteq> []" using assms by simp_all
  have "norm_segs False [] (split_on 47 (abs_path (ss @ ns))) = ss @ ns"
    using abs_path_no_dotdot [OF good(1)] kept_abs_path [OF good(1)] by (simp add: norm_segs_plain flip: kept_def)
  then have norm: "47 # normalizeString (abs_path (ss @ ns)) False = abs_path (ss @ ns)"
    by (simp add: normalizeString_abs)
  then have "normalizeString (abs_path (ss @ ns)) False \<noteq> []"
    using good by (metis abs_path_def join_eq_Nil list.inject)
  moreover have "abs_path (ss @ ns) \<noteq> []" by (simp add: abs_path_def)
  ultimately show ?thesis
    using norm abs_path_no_final_slash [OF good] unfolding posix_join_def join posix_normalize_def Let_def
    by (simp add: slash)
qed

text \<open>A relative path without \<open>..\<close> stays in the root it is resolved in.\<close>

definition plain_path :: "jsstring \<Rightarrow> bool" where
  "plain_path p \<longleftrightarrow> \<not> posix_isAbsolute p \<and> js ''..'' \<notin> set (split_on 47 p)"

lemma resolveInside_plain:
  assumes "list_all good_seg ss" "ss \<noteq> []" "plain_path p"
  shows "resolveInside cwd (abs_path ss) p = Inr (abs_path (ss @ kept p))" "list_all good_seg (ss @ kept p)"
proof -
  show good: "list_all good_seg (ss @ kept p)" using assms kept_join [of p] by (simp add: plain_path_def)
  have "posix_resolve cwd [abs_path ss, p] = abs_path (ss @ kept p)"
  proof (cases "p = []")
    case True
    have "posix_resolve cwd [abs_path ss, []] = posix_resolve cwd [abs_path ss]"
      by (simp add: posix_resolve_def)
    with True posix_resolve_abs_path [OF assms(1)] show ?thesis by (simp add: kept_def)
  qed (use assms in \<open>simp add: posix_resolve_under plain_path_def\<close>)
  moreover have "kept p \<noteq> [] \<Longrightarrow> prefix (abs_path ss @ [47]) (abs_path (ss @ kept p))"
    using assms(2) by (simp add: abs_path_def join_with_append)
  ultimately show "resolveInside cwd (abs_path ss) p = Inr (abs_path (ss @ kept p))"
    by (cases "kept p = []") (simp_all add: resolveInside_def Let_def slash)
qed

lemma absoluteExecutables_plain:
  assumes "installRoot dataRoot (ip_id r) (ip_version r) = abs_path ss" "list_all good_seg ss" "ss \<noteq> []"
    "\<forall>(name, p)\<in>set (ip_executables r). plain_path p"
  shows "absoluteExecutables cwd dataRoot r = Inr (map (\<lambda>(name, p). (name, abs_path (ss @ kept p))) (ip_executables r))"
  unfolding absoluteExecutables_def assms(1)
  by (rule map_result_all) (use assms resolveInside_plain(1) in \<open>fastforce split: prod.splits\<close>)

lemma safeRelative_plain: "safeRelative cwd root p = Inr v \<Longrightarrow> plain_path v \<and> v \<noteq> []"
  by (auto simp: safeRelative_def plain_path_def Let_def split: if_splits)

lemma install_names: "good_seg (js ''providers'')" "good_seg (js ''extracted'')" "good_seg (js ''.staging'')"
  "good_seg (js ''providers.json'')"
  by (simp_all add: good_seg_def js_def)

lemma installRoot_segments:
  assumes "list_all good_seg ss" "ss \<noteq> []" "good_seg i" "good_seg v"
  shows "installRoot (abs_path ss) i v = abs_path (ss @ [js ''providers'', i, v])"
    "list_all good_seg (ss @ [js ''providers'', i, v])"
  using assms install_names by (simp_all add: installRoot_def posix_join_segments)

lemma from_result_Value: "from_result r w = (Value x, w') \<longleftrightarrow> r = Inr x \<and> w' = w"
  by (auto simp: from_result_def raise_def give_def split: sum.split)

text \<open>What \<open>install_files\<close> records: every executable of the provider, by a plain relative path.\<close>

lemma locate_executables_plain:
  "locate_executables h platform d root names found w = (Value ex, w') \<Longrightarrow> \<forall>(name, p)\<in>set found. plain_path p \<Longrightarrow>
   fst ` set ex = fst ` set found \<union> set names \<and> (\<forall>(name, p)\<in>set ex. plain_path p)"
proof (induction names arbitrary: found w)
  case (Cons name names)
  then obtain found_path w0 where "findExecutable h platform root name w = (Value found_path, w0)"
    and after: "(case found_path of
          None \<Rightarrow> raise (pd_name d @ js '' archive did not contain '' @ name @ js ''.'')
        | Some path \<Rightarrow>
            and_then (if platform = js ''win32'' then give () else attempt (ph_chmod h path) id)
              (\<lambda>_. and_then (from_result (safeRelative (ph_cwd h) root path))
                     (\<lambda>rel. locate_executables h platform d root names (AList.update name rel found)))) w0 = (Value ex, w')"
    by (auto simp: and_then_Value)
  then obtain path where "found_path = Some path" by (cases found_path) (auto simp: raise_def)
  with after obtain rel w2 where rel: "safeRelative (ph_cwd h) root path = Inr rel"
    and rest: "locate_executables h platform d root names (AList.update name rel found) w2 = (Value ex, w')"
    by (auto simp: and_then_Value from_result_Value)
  have "\<forall>(name, p)\<in>set (AList.update name rel found). plain_path p"
    using Cons.prems(2) safeRelative_plain [OF rel] set_alist_update [of name rel found] by auto
  from Cons.IH [OF rest this] show ?case by (auto simp: dom_update)
qed (auto simp: give_def)

lemma install_files_plain:
  assumes "install_files h platform dataRoot d a stagingRoot w = (Value ex, w')"
  shows "fst ` set ex = set (pd_executableNames d)" "\<forall>(name, p)\<in>set ex. plain_path p"
proof -
  from assms obtain root w1 w2 where "locate_executables h platform d root (pd_executableNames d) [] w1 = (Value ex, w2)"
    by (auto simp: install_files_def Let_def and_then_Value give_def)
  from locate_executables_plain [OF this] show "fst ` set ex = set (pd_executableNames d)" "\<forall>(name, p)\<in>set ex. plain_path p"
    by auto
qed

section \<open>The download is verified\<close>

text \<open>The world after all chunks have been written in order.\<close>

fun written :: "'w provider_host \<Rightarrow> jsstring \<Rightarrow> bytes list \<Rightarrow> 'w \<Rightarrow> 'w option" where
  "written h target [] w = Some w"
| "written h target (chunk # chunks) w =
     (case ph_write h target chunk w of Inl e \<Rightarrow> None | Inr w1 \<Rightarrow> written h target chunks w1)"

lemma write_chunks_None:
  "write_chunks h target limit failed d chunks w = ((n, None), w') \<longleftrightarrow>
   failed = None \<and> written h target chunks w = Some w' \<and> n = d + int (length (concat chunks)) \<and> (chunks = [] \<or> n \<le> limit)"
proof (induction chunks arbitrary: d w)
  case (Cons chunk chunks)
  then show ?case by (cases "ph_write h target chunk w"; cases "chunks = []") (auto simp: Let_def algebra_simps)
qed auto

lemma write_chunks_bound:
  "write_chunks h target limit failed d chunks w = ((n, e), w') \<Longrightarrow> d \<le> limit \<Longrightarrow> d \<le> n \<and> n \<le> limit"
  by (induction chunks arbitrary: d w) (fastforce simp: Let_def split: if_splits sum.splits)+

lemma download_response_cases:
  obtains (refused) e w1 where "download_response_of h a w = (Throw e, w1)"
    | (accepted) r w1 hostname where "download_response_of h a w = (Value r, w1)" "ph_fetch h (pa_url a) w = (Inr r, w1)"
        "0 < pa_size a" "pa_size a \<le> MAX_ARCHIVE_BYTES"
        "ph_url h (if dr_url r \<noteq> [] then dr_url r else pa_url a) = Some (js ''https:'', hostname)" "allowedDownloadHost hostname"
proof (cases "download_response_of h a w")
  case (Pair res w1)
  show ?thesis
  proof (cases res)
    case (Value r)
    with Pair that(2) [of r w1] show ?thesis
      by (auto simp: download_response_of_def raise_def trusted_url_def
          split: if_split_asm prod.split_asm sum.split_asm option.split_asm)
  next
    case Unsettled
    with Pair show ?thesis
      by (auto simp: download_response_of_def raise_def
          split: if_split_asm prod.split_asm sum.split_asm)
  qed (use Pair that(1) in blast)
qed

text \<open>What \<open>download\<close> has done when it returns: the file received every chunk, and the bytes are the pinned ones.\<close>

definition verified :: "'w provider_host \<Rightarrow> ProviderAsset \<Rightarrow> jsstring \<Rightarrow> 'w \<Rightarrow> 'w \<Rightarrow> bool" where
  "verified h a target w w' \<longleftrightarrow>
     (\<exists>r w1 w2 w3 hostname. ph_fetch h (pa_url a) w = (Inr r, w1) \<and> ph_open h target w1 = Inr w2 \<and>
        written h target (dr_chunks r) w2 = Some w3 \<and> ph_close h target w3 = Inr w' \<and>
        int (length (concat (dr_chunks r))) = pa_size a \<and>
        hex_encode (ph_sha256 h (concat (dr_chunks r))) = pa_sha256 a \<and>
        ph_url h (if dr_url r \<noteq> [] then dr_url r else pa_url a) = Some (js ''https:'', hostname) \<and>
        allowedDownloadHost hostname)"

lemma download_verified:
  assumes "download h a target w = ((progress, None), w')"
  shows "progress = Some (pa_size a) \<and> verified h a target w w'"
proof (cases rule: download_response_cases [of h a w])
  case (refused e w1)
  with assms show ?thesis by (simp add: download_def)
next
  case (accepted r w1 hostname)
  with assms obtain w2 where w2: "ph_open h target w1 = Inr w2" by (auto simp: download_def split: sum.splits)
  obtain n failed w3 where wc:
    "write_chunks h target (pa_size a + DOWNLOAD_OVERHEAD_BYTES) (dr_failure r) 0 (dr_chunks r) w2 = ((n, failed), w3)"
    by (metis prod.collapse)
  with assms accepted w2 have close: "ph_close h target w3 = Inr w'" and failed: "failed = None"
    and v: "progress = Some n" "verify_download h a n (concat (dr_chunks r)) = None"
    by (auto simp: download_def split: sum.splits option.splits)
  have "written h target (dr_chunks r) w2 = Some w3" "n = int (length (concat (dr_chunks r)))"
    using wc failed by (simp_all add: write_chunks_None)
  with accepted w2 close v show ?thesis
    by (auto simp: verified_def verify_download_def split: if_splits)
qed

lemma download_progress:
  assumes "download h a target w = ((progress, e), w')"
  shows "case progress of None \<Rightarrow> e \<noteq> None | Some n \<Rightarrow> 0 \<le> n \<and> n \<le> pa_size a + DOWNLOAD_OVERHEAD_BYTES"
proof (cases rule: download_response_cases [of h a w])
  case (refused e w1)
  with assms show ?thesis by (auto simp: download_def)
next
  case (accepted r w1 hostname)
  then have "0 \<le> pa_size a + DOWNLOAD_OVERHEAD_BYTES" by (simp add: DOWNLOAD_OVERHEAD_BYTES_def)
  with assms accepted show ?thesis
    by (auto simp: download_def split: sum.splits option.splits prod.splits dest!: write_chunks_bound)
qed


section \<open>What the search finds\<close>

text \<open>The directories the search can reach from one, through directory entries.\<close>

inductive below :: "'w provider_host \<Rightarrow> 'w \<Rightarrow> jsstring \<Rightarrow> jsstring \<Rightarrow> bool" for h w where
  here: "below h w d d"
| child: "ph_readdir h d w = Inr es \<Longrightarrow> e \<in> set es \<Longrightarrow> de_kind e = DirectoryEntry \<Longrightarrow>
    below h w (posix_join [d, de_name e]) d' \<Longrightarrow> below h w d d'"

text \<open>An entry the search may return: a regular file, or a link whose target is a regular file in the root.\<close>

definition is_executable_entry :: "'w provider_host \<Rightarrow> 'w \<Rightarrow> jsstring \<Rightarrow> jsstring \<Rightarrow> dir_entry \<Rightarrow> bool" where
  "is_executable_entry h w root directory e \<longleftrightarrow>
     (case de_kind e of
        FileEntryKind \<Rightarrow> True
      | SymlinkEntry \<Rightarrow>
          (case ph_realpath h (posix_join [directory, de_name e]) w of
             Inl m \<Rightarrow> False
           | Inr target \<Rightarrow> is_ok (resolveInside (ph_cwd h) root (posix_relative (ph_cwd h) root target)) \<and>
                           ph_isFile h target w = Inr True)
      | _ \<Rightarrow> False)"

lemma scan_Cons:
  assumes "scan_entries h w root expected directory (e # es) visited queue = r"
  obtains (failed) m where "r = ScanFailed m"
    | (found) "r = Found (posix_join [directory, de_name e])" "ph_lower h (de_name e) \<in> set expected"
        "is_executable_entry h w root directory e"
    | (further) "Suc visited \<le> MAX_DISCOVERY_ENTRIES"
        "scan_entries h w root expected directory es (Suc visited)
           (queue @ (if de_kind e = DirectoryEntry then [posix_join [directory, de_name e]] else [])) = r"
        "ph_lower h (de_name e) \<in> set expected \<Longrightarrow> \<not> is_executable_entry h w root directory e"
proof (cases "Suc visited > MAX_DISCOVERY_ENTRIES")
  case True
  with assms that(1) show ?thesis by (auto simp: Let_def)
next
  case False
  note eq = assms [unfolded scan_entries.simps Let_def if_not_P [OF False]]
  show ?thesis
  proof (cases "de_kind e")
    case SymlinkEntry
    show ?thesis
    proof (cases "ph_realpath h (posix_join [directory, de_name e]) w")
      case (Inl m)
      with SymlinkEntry False eq that show ?thesis by (cases "ph_lower h (de_name e) \<in> set expected") auto
    next
      case (Inr target)
      show ?thesis
      proof (cases "resolveInside (ph_cwd h) root (posix_relative (ph_cwd h) root target)")
        case (Inl m)
        with SymlinkEntry Inr False eq that show ?thesis by (cases "ph_lower h (de_name e) \<in> set expected") auto
      next
        case (Inr t)
        note t = Inr
        show ?thesis
        proof (cases "ph_isFile h target w")
          case (Inl m)
          with SymlinkEntry t \<open>ph_realpath h _ w = Inr target\<close> False eq that show ?thesis
            by (cases "ph_lower h (de_name e) \<in> set expected") auto
        next
          case (Inr b)
          with SymlinkEntry t \<open>ph_realpath h _ w = Inr target\<close> False eq that show ?thesis
            by (cases "ph_lower h (de_name e) \<in> set expected"; cases b) (auto simp: is_executable_entry_def)
        qed
      qed
    qed
  qed (use False eq that in \<open>auto simp: is_executable_entry_def split: if_split_asm\<close>)
qed

lemma scan_found:
  "scan_entries h w root expected directory es visited queue = Found p \<Longrightarrow>
   \<exists>e\<in>set es. p = posix_join [directory, de_name e] \<and> ph_lower h (de_name e) \<in> set expected \<and>
     is_executable_entry h w root directory e"
proof (induction es arbitrary: visited queue)
  case (Cons e es)
  from Cons.prems show ?case by (cases rule: scan_Cons) (use Cons.IH in auto)
qed simp

lemma scan_continue_entries:
  "scan_entries h w root expected directory es visited queue = Continue v q \<Longrightarrow>
   q = queue @ map (\<lambda>e. posix_join [directory, de_name e]) (filter (\<lambda>e. de_kind e = DirectoryEntry) es) \<and>
   (\<forall>e\<in>set es. ph_lower h (de_name e) \<in> set expected \<longrightarrow> \<not> is_executable_entry h w root directory e)"
proof (induction es arbitrary: visited queue)
  case (Cons e es)
  from Cons.prems show ?case
  proof (cases rule: scan_Cons)
    case further
    with Cons.IH [OF further(2)] show ?thesis by auto
  qed simp_all
qed simp

definition holds_none :: "'w provider_host \<Rightarrow> 'w \<Rightarrow> jsstring \<Rightarrow> jsstring list \<Rightarrow> jsstring \<Rightarrow> bool" where
  "holds_none h w root expected d \<longleftrightarrow>
     (\<exists>es. ph_readdir h d w = Inr es \<and>
        (\<forall>e\<in>set es. ph_lower h (de_name e) \<in> set expected \<longrightarrow> \<not> is_executable_entry h w root d e))"

lemma find_none:
  "find_loop h w root expected queue visited = Inr None \<Longrightarrow> d \<in> set queue \<Longrightarrow> below h w d d' \<Longrightarrow>
   holds_none h w root expected d'"
proof (induction h w root expected queue visited arbitrary: d d' rule: find_loop.induct)
  case (2 h w root expected directory queue visited)
  from "2.prems"(1) obtain es v q where es: "ph_readdir h directory w = Inr es"
    and sc: "scan_entries h w root expected directory es visited queue = Continue v q"
    and rest: "find_loop h w root expected q v = Inr None"
    by (auto split: sum.splits scan.splits)
  note IH = "2.IH" [OF es sc rest]
  have q: "q = queue @ map (\<lambda>e. posix_join [directory, de_name e]) (filter (\<lambda>e. de_kind e = DirectoryEntry) es)"
    and none: "holds_none h w root expected directory"
    using scan_continue_entries [OF sc] es by (auto simp: holds_none_def)
  show ?case
  proof (cases "d = directory")
    case False
    with "2.prems" q show ?thesis by (intro IH) auto
  next
    case True
    from "2.prems"(3) show ?thesis
    proof cases
      case here
      with True none show ?thesis by simp
    next
      case (child es' e)
      with True es q have "posix_join [d, de_name e] \<in> set q" by auto
      with child(4) show ?thesis by (rule IH [rotated])
    qed
  qed
qed simp

lemma find_some:
  "find_loop h w root expected queue visited = Inr (Some p) \<Longrightarrow>
   \<exists>d0\<in>set queue. \<exists>d es e. below h w d0 d \<and> ph_readdir h d w = Inr es \<and> e \<in> set es \<and>
     p = posix_join [d, de_name e] \<and> ph_lower h (de_name e) \<in> set expected \<and> is_executable_entry h w root d e"
proof (induction h w root expected queue visited rule: find_loop.induct)
  case (2 h w root expected directory queue visited)
  from "2.prems" obtain es where es: "ph_readdir h directory w = Inr es" by (auto split: sum.splits)
  show ?case
  proof (cases "scan_entries h w root expected directory es visited queue")
    case (Found p')
    with "2.prems" es scan_found [OF Found] below.here show ?thesis by fastforce
  next
    case (ScanFailed m)
    with "2.prems" es show ?thesis by simp
  next
    case (Continue v q)
    with "2.prems" es have "find_loop h w root expected q v = Inr (Some p)" by simp
    from "2.IH" [OF es Continue this] obtain d0 d es' e where d0: "d0 \<in> set q" "below h w d0 d"
      and e: "ph_readdir h d w = Inr es'" "e \<in> set es'" "p = posix_join [d, de_name e]"
        "ph_lower h (de_name e) \<in> set expected" "is_executable_entry h w root d e"
      by blast
    have "d0 \<in> set queue \<or> (\<exists>e\<in>set es. de_kind e = DirectoryEntry \<and> d0 = posix_join [directory, de_name e])"
      using d0(1) scan_continue_entries [OF Continue] by auto
    then have "\<exists>d0\<in>set (directory # queue). below h w d0 d"
      using d0(2) below.child [OF es] by auto
    with e show ?thesis by blast
  qed
qed simp

text \<open>What \<open>readdir\<close> answers: the entries have names of one segment.\<close>

definition entries_named :: "'w provider_host \<Rightarrow> bool" where
  "entries_named h \<longleftrightarrow> (\<forall>d w es. ph_readdir h d w = Inr es \<longrightarrow> list_all (\<lambda>e. good_seg (de_name e)) es)"

lemma below_path:
  "below h w d d' \<Longrightarrow> entries_named h \<Longrightarrow> d = abs_path ss \<Longrightarrow> list_all good_seg ss \<Longrightarrow> ss \<noteq> [] \<Longrightarrow>
   \<exists>ns. d' = abs_path (ss @ ns) \<and> list_all good_seg ns"
proof (induction arbitrary: ss rule: below.induct)
  case (here d)
  then show ?case by (intro exI [of _ "[]"]) simp
next
  case (child d es e d')
  then have n: "good_seg (de_name e)" by (auto simp: entries_named_def list_all_iff)
  with child have "posix_join [d, de_name e] = abs_path (ss @ [de_name e])"
    by (simp add: posix_join_segments)
  with child.IH [OF child.prems(1) this] child.prems n obtain ns where
    "d' = abs_path ((ss @ [de_name e]) @ ns)" "list_all good_seg ns" by auto
  with n show ?case by (intro exI [of _ "de_name e # ns"]) simp
qed

text \<open>
  The search for an executable is exact. A path it returns lies in the root, is the path of a
  regular file with an expected name, or of a link with one whose target is a regular file in the root,
  and is recorded by its segments; if it returns none, every directory of the archive was read and holds
  no such entry. It changes nothing.
\<close>

theorem find_executable_exact:
  assumes "findExecutable h platform (abs_path ss) name w = (Value found, w')" "entries_named h" "list_all good_seg ss" "ss \<noteq> []"
  shows "w' = w \<and>
    (case found of
       Some p \<Rightarrow> \<exists>ns n d es e. p = abs_path (ss @ ns @ [n]) \<and> list_all good_seg (ns @ [n]) \<and>
          d = abs_path (ss @ ns) \<and> ph_readdir h d w = Inr es \<and> e \<in> set es \<and> de_name e = n \<and>
          ph_lower h n \<in> set (expected_names h platform name) \<and> is_executable_entry h w (abs_path ss) d e \<and>
          safeRelative (ph_cwd h) (abs_path ss) p = Inr (join_with [47] (ns @ [n]))
     | None \<Rightarrow> \<forall>d. below h w (abs_path ss) d \<longrightarrow> holds_none h w (abs_path ss) (expected_names h platform name) d)"
proof -
  let ?names = "expected_names h platform name"
  have w: "w' = w" and f: "find_loop h w (abs_path ss) ?names [abs_path ss] 0 = Inr found"
    using assms(1) by (auto simp: findExecutable_def looking_def split: sum.splits)
  show ?thesis
  proof (cases found)
    case None
    with f w show ?thesis using find_none [of h w "abs_path ss" ?names "[abs_path ss]" 0 "abs_path ss"] by auto
  next
    case (Some p)
    from find_some [OF f [unfolded Some]] obtain d es e where
      d: "below h w (abs_path ss) d" and es: "ph_readdir h d w = Inr es" "e \<in> set es" "p = posix_join [d, de_name e]"
        "ph_lower h (de_name e) \<in> set ?names" "is_executable_entry h w (abs_path ss) d e"
      by auto
    from below_path [OF d assms(2) refl assms(3,4)] obtain ns where ns: "d = abs_path (ss @ ns)" "list_all good_seg ns" by blast
    have n: "good_seg (de_name e)" using assms(2) es by (auto simp: entries_named_def list_all_iff)
    have p: "p = abs_path (ss @ ns @ [de_name e])"
      using es(3) ns n assms(3,4) posix_join_segments [of "ss @ ns" "[de_name e]"] by simp
    have good: "list_all good_seg (ns @ [de_name e])" using ns n by simp
    have "safeRelative (ph_cwd h) (abs_path ss) p = Inr (join_with [47] (ns @ [de_name e]))"
      using relative_under [OF assms(3) good] join_relative [OF good] join_no_dotdot [OF good] join_eq_Nil [OF good]
      by (simp add: safeRelative_def Let_def p)
    with p ns n good es w show ?thesis unfolding Some option.case by blast
  qed
qed

text \<open>A host whose only archive has a directory with one program.\<close>

definition demo_readdir :: "jsstring \<Rightarrow> unit \<Rightarrow> jsstring + dir_entry list" where
  "demo_readdir d w =
     (if d = abs_path [js ''r''] then Inr [\<lparr>de_name = js ''bin'', de_kind = DirectoryEntry\<rparr>]
      else if d = abs_path [js ''r'', js ''bin''] then Inr [\<lparr>de_name = js ''texlab'', de_kind = FileEntryKind\<rparr>]
      else Inl (js ''ENOENT''))"

definition demo_host :: "unit provider_host" where
  "demo_host = \<lparr>ph_win = False, ph_cwd = js ''/'', ph_sha256 = (\<lambda>b. b), ph_lower = ascii_lower, ph_url = (\<lambda>_. None),
     ph_extract = None, ph_run = (\<lambda>_ _. Inr), ph_fetch = (\<lambda>_ w. (Inl [], w)), ph_mkdir = (\<lambda>_. Inr), ph_open = (\<lambda>_. Inr),
     ph_write = (\<lambda>_ _. Inr), ph_close = (\<lambda>_. Inr), ph_chmod = (\<lambda>_. Inr), ph_rm = (\<lambda>_. Inr), ph_rename = (\<lambda>_ _. Inr),
     ph_readdir = demo_readdir, ph_realpath = (\<lambda>p _. Inr p), ph_isFile = (\<lambda>_ _. Inr True), ph_changed = Inr\<rparr>"

lemma demo_names: "entries_named demo_host"
  by (auto simp: entries_named_def demo_host_def demo_readdir_def good_seg_def js_def split: if_splits)

lemma demo_find:
  "findExecutable demo_host (js ''linux'') (abs_path [js ''r'']) (js ''texlab'') () =
   (Value (Some (abs_path [js ''r'', js ''bin'', js ''texlab''])), ())"
proof -
  have join: "posix_join [abs_path [js ''r''], js ''bin''] = abs_path [js ''r'', js ''bin'']"
    "posix_join [abs_path [js ''r'', js ''bin''], js ''texlab''] = abs_path [js ''r'', js ''bin'', js ''texlab'']"
    using posix_join_segments [of "[js ''r'']" "[js ''bin'']"] posix_join_segments [of "[js ''r'', js ''bin'']" "[js ''texlab'']"]
    by (simp_all add: good_seg_def js_def)
  have ne: "abs_path [js ''r'', js ''bin''] \<noteq> abs_path [js ''r'']" by (simp add: abs_path_def js_def)
  have low: "ascii_lower (js ''texlab'') = js ''texlab''" by (simp add: ascii_lower_def js_def is_upper_def)
  show ?thesis
    by (simp add: findExecutable_def looking_def demo_host_def demo_readdir_def expected_names_def Let_def join ne low
        MAX_DISCOVERY_ENTRIES_def)
qed

theorem find_executable_exact_witness:
  "\<exists>ns n d es e. abs_path [js ''r'', js ''bin'', js ''texlab''] = abs_path ([js ''r''] @ ns @ [n]) \<and>
     list_all good_seg (ns @ [n]) \<and> d = abs_path ([js ''r''] @ ns) \<and> ph_readdir demo_host d () = Inr es \<and> e \<in> set es \<and>
     de_name e = n \<and> is_executable_entry demo_host () (abs_path [js ''r'']) d e"
  using find_executable_exact [OF demo_find demo_names] by (simp add: good_seg_def js_def) blast

section \<open>The saved state\<close>

text \<open>An installed record the catalog still knows: its id and version, its executables, plain paths.\<close>

definition fits :: "ManagedProviderDefinition list \<Rightarrow> InstalledProviderRecord \<Rightarrow> bool" where
  "fits catalog r \<longleftrightarrow>
     (case map_of (rev (map (\<lambda>d. (pd_id d, d)) catalog)) (ip_id r) of
        None \<Rightarrow> False
      | Some d \<Rightarrow> pd_version d = ip_version r \<and>
          list_all (\<lambda>(name, p). name \<in> set (pd_executableNames d) \<and> \<not> posix_isAbsolute p \<and> js ''..'' \<notin> set (path_pieces p))
            (ip_executables r))"

lemma map_result_exact:
  assumes "\<And>x y. x \<in> set xs \<Longrightarrow> f (g x) = Inr y \<longleftrightarrow> y = x \<and> P x"
  shows "map_result f (map g xs) = Inr ys \<longleftrightarrow> ys = xs \<and> list_all P xs"
proof
  assume "map_result f (map g xs) = Inr ys"
  then have all: "list_all2 (\<lambda>x y. f (g x) = Inr y) xs ys" by (simp add: map_result_Inr list_all2_map1)
  then have "length xs = length ys" and "\<And>i. i < length xs \<Longrightarrow> ys ! i = xs ! i \<and> P (xs ! i)"
    using assms by (auto simp: list_all2_conv_all_nth)
  then show "ys = xs \<and> list_all P xs" by (auto simp: list_all_length intro: nth_equalityI)
next
  assume "ys = xs \<and> list_all P xs"
  then show "map_result f (map g xs) = Inr ys"
    using assms by (auto simp: list_all_iff intro!: map_result_map)
qed

text \<open>Going on with a result that is known exactly.\<close>

lemma exact_case:
  assumes "\<And>x. m = Inr x \<longleftrightarrow> x = x0 \<and> P" "r = (case m of Inl e \<Rightarrow> Inl e | Inr x \<Rightarrow> Inr (f x))"
  shows "r = Inr y \<longleftrightarrow> y = f x0 \<and> P"
proof (cases m)
  case (Inl e)
  with assms(1) [of x0] have "\<not> P" by blast
  with Inl assms(2) show ?thesis by simp
next
  case (Inr x)
  with assms(1) [of x] have "x = x0 \<and> P" by blast
  with Inr assms(2) show ?thesis by auto
qed

lemma validate_executables_exact:
  "map_result (validate_executable names) (map (\<lambda>(name, p). (name, JStr p)) es) = Inr es' \<longleftrightarrow>
   es' = es \<and> list_all (\<lambda>(name, p). name \<in> set names \<and> \<not> posix_isAbsolute p \<and> js ''..'' \<notin> set (path_pieces p)) es"
  by (rule map_result_exact) (auto simp: validate_executable_def split: if_splits)

lemma validate_installed_exact: "validate_installed catalog (installed_json r) = Inr r' \<longleftrightarrow> r' = r \<and> fits catalog r"
proof (cases "map_of (rev (map (\<lambda>d. (pd_id d, d)) catalog)) (ip_id r)")
  case None
  then show ?thesis by (simp add: validate_installed_def installed_json_def fits_def)
next
  case (Some d)
  let ?m = "map_result (validate_executable (pd_executableNames d)) (map (\<lambda>(name, p). (name, JStr p)) (ip_executables r))"
  have m: "?m = Inr ex \<longleftrightarrow> ex = ip_executables r \<and> fits catalog r" if "pd_version d = ip_version r" for ex
    using Some that by (simp add: validate_executables_exact fits_def)
  show ?thesis
  proof (cases "pd_version d = ip_version r")
    case True
    have "validate_installed catalog (installed_json r) =
        (case ?m of Inl e \<Rightarrow> Inl e
         | Inr ex \<Rightarrow> Inr \<lparr>ip_id = ip_id r, ip_version = ip_version r, ip_installedAt = ip_installedAt r, ip_executables = ex\<rparr>)"
      using Some True by (simp add: validate_installed_def installed_json_def)
    from exact_case [OF m [OF True] this] show ?thesis by (cases r) simp
  qed (use Some in \<open>simp add: validate_installed_def installed_json_def fits_def\<close>)
qed

lemma validate_all_exact:
  "map_result (validate_installed catalog) (map installed_json rs) = Inr rs' \<longleftrightarrow> rs' = rs \<and> list_all (fits catalog) rs"
  by (rule map_result_exact) (rule validate_installed_exact)

text \<open>Whatever the file holds, an accepted state has records that fit.\<close>

lemma map_result_source: "map_result f xs = Inr ys \<Longrightarrow> y \<in> set ys \<Longrightarrow> \<exists>x\<in>set xs. f x = Inr y"
  unfolding map_result_Inr by (induction rule: list_all2_induct) auto

lemma validate_executable_Inr:
  "validate_executable names e = Inr (name, p) \<Longrightarrow>
   name \<in> set names \<and> \<not> posix_isAbsolute p \<and> js ''..'' \<notin> set (path_pieces p)"
  by (auto simp: validate_executable_def split: prod.splits json.splits if_splits)

lemma validate_installed_fits: "validate_installed catalog v = Inr r \<Longrightarrow> fits catalog r"
proof -
  assume v: "validate_installed catalog v = Inr r"
  then obtain es d ex where d: "map_of (rev (map (\<lambda>d. (pd_id d, d)) catalog)) (ip_id r) = Some d" "pd_version d = ip_version r"
    and ex: "map_result (validate_executable (pd_executableNames d)) es = Inr (ip_executables r)"
    by (auto simp: validate_installed_def split: option.splits json.splits if_splits sum.splits)
  have "name \<in> set (pd_executableNames d) \<and> \<not> posix_isAbsolute p \<and> js ''..'' \<notin> set (path_pieces p)"
    if "(name, p) \<in> set (ip_executables r)" for name p
    using map_result_source [OF ex that] validate_executable_Inr by blast
  with d show ?thesis by (auto simp: fits_def list_all_iff)
qed

lemma validateProviderState_fits: "validateProviderState catalog v = Inr s \<Longrightarrow> list_all (fits catalog) (ps_installed s)"
proof -
  assume "validateProviderState catalog v = Inr s"
  then obtain rs where rs: "map_result (validate_installed catalog) rs = Inr (ps_installed s)"
    by (auto simp: validateProviderState_def split: option.splits json.splits if_splits sum.splits)
  show ?thesis using map_result_source [OF rs] validate_installed_fits by (auto simp: list_all_iff)
qed

lemma validateProviderState_json:
  "validateProviderState catalog (provider_state_json s) = Inr s' \<longleftrightarrow>
   s' = s\<lparr>ps_active := (if ps_active s = Some [] then None else ps_active s)\<rparr> \<and> list_all (fits catalog) (ps_installed s)"
proof -
  have "optional_string (map_of (optional_field ''activeTexProvider'' (ps_active s)) ''activeTexProvider'') =
      Some (if ps_active s = Some [] then None else ps_active s)"
    by (cases "ps_active s") (simp_all add: optional_string_def optional_field_def)
  then have "validateProviderState catalog (provider_state_json s) =
      (case map_result (validate_installed catalog) (map installed_json (ps_installed s)) of
         Inl e \<Rightarrow> Inl e
       | Inr rs \<Rightarrow> Inr \<lparr>ps_active = if ps_active s = Some [] then None else ps_active s, ps_installed = rs\<rparr>)"
    by (simp add: validateProviderState_def provider_state_json_def)
  from exact_case [OF validate_all_exact this] show ?thesis by (cases s) simp
qed

text \<open>
  C36: the provider state written to its file is read back as itself exactly when every installed record
  fits the catalog of the program that reads it. In particular a record of another version than the
  catalog's makes the whole state refused.
\<close>

theorem provider_state_roundtrip:
  "validateProviderState catalog (provider_state_json s) = Inr s' \<longleftrightarrow>
   s' = s\<lparr>ps_active := (if ps_active s = Some [] then None else ps_active s)\<rparr> \<and> list_all (fits catalog) (ps_installed s)"
  by (rule validateProviderState_json)

end
