(* ===== verification/ProviderManager.thy ===== *)
theory ProviderManager
  imports ProviderInstall WriteQueue
begin

text \<open>
  The class of \<^verbatim>\<open>typr-server/providerManager.ts\<close>: its state and its file, the installation jobs, the choice
  of the TeX distribution, and the process environment it maintains. An installation is a task that
  stops where \<open>runInstall\<close> awaits; between two of its continuations anything else may happen. What it
  does to the host is in \<open>ProviderInstall\<close>.
\<close>

section \<open>State\<close>

datatype ProviderJobStatus = JobQueued | JobDownloading | JobInstalling | JobCompleted | JobFailed

record ProviderInstallJob =
  job_id :: jsstring
  job_providerId :: jsstring
  job_status :: ProviderJobStatus
  job_downloadedBytes :: int
  job_totalBytes :: int
  job_startedAt :: jsstring
  job_finishedAt :: "jsstring option"
  job_error :: "jsstring option"

text \<open>
  Where \<open>runInstall\<close> stands: before each \<open>await\<close> whose continuation changes the manager. \<open>Saving\<close> waits
  for the write queue.
\<close>

datatype install_stage = Preparing | Fetching | Unpacking | Saving | Notifying | Cleaning

record install_task =
  it_definition :: ManagedProviderDefinition
  it_asset :: ProviderAsset
  it_staging :: jsstring
  it_stage :: install_stage

text \<open>Who awaits a queued write.\<close>

datatype save_waiter = InstallSave jsstring | ActivationSave

record provider_event =
  pe_providerId :: jsstring
  pe_level :: string
  pe_type :: string
  pe_message :: jsstring
  pe_bytes :: "int option"

datatype provider_error = ProviderManagerError nat string

text \<open>
  \<open>pm_tasks\<close> are the pending \<open>jobPromises\<close>, \<open>pm_env\<close> is \<open>process.env\<close>, \<open>pm_changes\<close> counts the calls of
  \<open>onChanged\<close> an activation makes, and \<open>pm_file\<close> is what the state file reads as.
\<close>

record provider_manager =
  pm_dataRoot :: "jsstring option"
  pm_platform :: jsstring
  pm_arch :: jsstring
  pm_catalog :: "ManagedProviderDefinition list"
  pm_baseline :: "(string \<times> jsstring option) list"
  pm_state :: ProviderState
  pm_file :: "ProviderState option"
  pm_queue :: "(ProviderState \<times> save_waiter) write_queue"
  pm_jobs :: "(jsstring \<times> ProviderInstallJob) list"
  pm_tasks :: "(jsstring \<times> install_task) list"
  pm_env :: process_env
  pm_events :: "provider_event list"
  pm_changes :: nat

definition BASELINE_KEYS :: "string list" where
  "BASELINE_KEYS =
     [''TYPR_COMPANION_PDFLATEX_EXECUTABLE'', ''TYPR_COMPANION_LATEXMK_EXECUTABLE'', ''TYPR_COMPANION_TLMGR_EXECUTABLE'',
      ''TYPR_COMPANION_TEX_ROOT'', ''TYPR_COMPANION_TEXLAB_EXECUTABLE'', ''TYPR_COMPANION_TINYMIST_EXECUTABLE'',
      ''TYPR_COMPANION_NATIVE_PATH'']"

definition initial_state :: ProviderState where
  "initial_state = \<lparr>ps_active = None, ps_installed = []\<rparr>"

text \<open>The constructor; absent options are replaced by the caller's defaults.\<close>

definition new_manager ::
  "jsstring \<Rightarrow> jsstring option \<Rightarrow> jsstring \<Rightarrow> jsstring \<Rightarrow> ManagedProviderDefinition list \<Rightarrow> process_env \<Rightarrow>
   string + provider_manager"
where
  "new_manager cwd dataRoot platform arch catalog penv =
     (let m = \<lparr>pm_dataRoot = None, pm_platform = platform, pm_arch = arch, pm_catalog = catalog,
               pm_baseline = map (\<lambda>k. (k, penv k)) BASELINE_KEYS, pm_state = initial_state, pm_file = None,
               pm_queue = wq_new, pm_jobs = [], pm_tasks = [], pm_env = penv, pm_events = [], pm_changes = 0\<rparr>
      in if dataRoot = None \<or> dataRoot = Some [] then Inr m
         else case validateDataRoot cwd (the dataRoot) of
                Inl e \<Rightarrow> Inl e
              | Inr root \<Rightarrow> Inr (m\<lparr>pm_dataRoot := Some root\<rparr>))"

definition data_root :: "provider_manager \<Rightarrow> jsstring" where
  "data_root m = (case pm_dataRoot m of Some root \<Rightarrow> root | None \<Rightarrow> [])"

definition emit :: "jsstring \<Rightarrow> string \<Rightarrow> string \<Rightarrow> jsstring \<Rightarrow> int option \<Rightarrow> provider_manager \<Rightarrow> provider_manager" where
  "emit pid level type message bytes m =
     m\<lparr>pm_events := pm_events m @
         [\<lparr>pe_providerId = pid, pe_level = level, pe_type = type, pe_message = message, pe_bytes = bytes\<rparr>]\<rparr>"

section \<open>The process environment\<close>

definition restore_baseline :: "(string \<times> jsstring option) list \<Rightarrow> process_env \<Rightarrow> process_env" where
  "restore_baseline baseline penv = fold (\<lambda>(k, v) env. env(k := v)) baseline penv"

text \<open>\<open>if (executables.name) process.env.key = executables.name\<close>\<close>

definition set_executable ::
  "string \<Rightarrow> string \<Rightarrow> (jsstring \<times> jsstring) list \<Rightarrow> process_env \<Rightarrow> process_env"
where
  "set_executable key name executables env =
     (case map_of executables (js name) of
        Some p \<Rightarrow> if p \<noteq> [] then env(key := Some p) else env
      | None \<Rightarrow> env)"

text \<open>\<open>[...bins, NATIVE_PATH ?? PATH ?? ""].filter(Boolean).join(":")\<close>, where \<open>bins\<close> is a set.\<close>

definition extended_path :: "(jsstring \<times> jsstring) list \<Rightarrow> process_env \<Rightarrow> jsstring" where
  "extended_path executables env =
     (let bins = rev (remdups (rev (map (\<lambda>(name, p). posix_dirname p) executables)));
          path = (case env ''TYPR_COMPANION_NATIVE_PATH'' of
                    Some p \<Rightarrow> p | None \<Rightarrow> (case env ''PATH'' of Some p \<Rightarrow> p | None \<Rightarrow> []))
      in join_with [58] (filter (\<lambda>p. p \<noteq> []) (bins @ [path])))"

definition active_environment ::
  "jsstring \<Rightarrow> jsstring \<Rightarrow> InstalledProviderRecord \<Rightarrow> process_env \<Rightarrow> string + process_env"
where
  "active_environment cwd root r env =
     (case absoluteExecutables cwd root r of
        Inl e \<Rightarrow> Inl e
      | Inr ex \<Rightarrow>
          let env1 = set_executable ''TYPR_COMPANION_TLMGR_EXECUTABLE'' ''tlmgr'' ex
                       (set_executable ''TYPR_COMPANION_LATEXMK_EXECUTABLE'' ''latexmk'' ex
                         (set_executable ''TYPR_COMPANION_PDFLATEX_EXECUTABLE'' ''pdflatex'' ex env));
              env2 = env1(''TYPR_COMPANION_TEX_ROOT'' := Some (installRoot root (ip_id r) (ip_version r)))
          in Inr (env2(''TYPR_COMPANION_NATIVE_PATH'' := Some (extended_path ex env2))))"

definition lsp_environment ::
  "jsstring \<Rightarrow> jsstring \<Rightarrow> InstalledProviderRecord \<Rightarrow> process_env \<Rightarrow> string + process_env"
where
  "lsp_environment cwd root r env =
     (case absoluteExecutables cwd root r of
        Inl e \<Rightarrow> Inl e
      | Inr ex \<Rightarrow>
          let env1 = (if ip_id r = js ''texlab'' then set_executable ''TYPR_COMPANION_TEXLAB_EXECUTABLE'' ''texlab'' ex env else env)
          in Inr (if ip_id r = js ''tinymist''
                  then set_executable ''TYPR_COMPANION_TINYMIST_EXECUTABLE'' ''tinymist'' ex env1 else env1))"

text \<open>The loop over the installed providers: an error ends it and leaves what was set.\<close>

fun lsp_environments ::
  "jsstring \<Rightarrow> jsstring \<Rightarrow> InstalledProviderRecord list \<Rightarrow> process_env \<Rightarrow> string option \<times> process_env"
where
  "lsp_environments cwd root [] env = (None, env)"
| "lsp_environments cwd root (r # rs) env =
     (case lsp_environment cwd root r env of
        Inl e \<Rightarrow> (Some e, env)
      | Inr env1 \<Rightarrow> lsp_environments cwd root rs env1)"

definition applied_environment :: "jsstring \<Rightarrow> provider_manager \<Rightarrow> string option \<times> process_env" where
  "applied_environment cwd m =
     (let env1 = restore_baseline (pm_baseline m) (pm_env m)
      in case List.find (\<lambda>r. Some (ip_id r) = ps_active (pm_state m)) (ps_installed (pm_state m)) of
           None \<Rightarrow> lsp_environments cwd (data_root m) (ps_installed (pm_state m)) env1
         | Some r \<Rightarrow>
             (case active_environment cwd (data_root m) r env1 of
                Inl e \<Rightarrow> (Some e, env1)
              | Inr env2 \<Rightarrow> lsp_environments cwd (data_root m) (ps_installed (pm_state m)) env2))"

definition applyEnvironment :: "jsstring \<Rightarrow> provider_manager \<Rightarrow> string option \<times> provider_manager" where
  "applyEnvironment cwd m = (case applied_environment cwd m of (e, env) \<Rightarrow> (e, m\<lparr>pm_env := env\<rparr>))"

section \<open>The state file\<close>

text \<open>A change of the state together with \<open>persist\<close>, which does nothing without a data root.\<close>

definition submit :: "ProviderState \<times> save_waiter \<Rightarrow> provider_manager \<Rightarrow> provider_manager" where
  "submit j m = m\<lparr>pm_state := fst j,
     pm_queue := (if pm_dataRoot m \<noteq> None then wq_add j (pm_queue m) else pm_queue m)\<rparr>"

definition settle_file ::
  "bool \<Rightarrow> provider_manager \<Rightarrow> provider_manager \<times> (ProviderState \<times> save_waiter) wq_event option"
where
  "settle_file ok m =
     (case wq_settle ok (pm_queue m) of
        (q, ev) \<Rightarrow> (m\<lparr>pm_queue := q, pm_file := (case ev of Some (Written (s, _)) \<Rightarrow> Some s | _ \<Rightarrow> pm_file m)\<rparr>, ev))"

text \<open>\<open>removeMissingInstallations\<close> keeps the records whose first executable is a regular file.\<close>

definition still_installed :: "'w provider_host \<Rightarrow> 'w \<Rightarrow> jsstring \<Rightarrow> InstalledProviderRecord \<Rightarrow> bool" where
  "still_installed h w root r \<longleftrightarrow>
     (case absoluteExecutables (ph_cwd h) root r of
        Inr ((name, p) # _) \<Rightarrow> p \<noteq> [] \<and> ph_isFile h p w = Inr True
      | _ \<Rightarrow> False)"

definition removeMissing :: "'w provider_host \<Rightarrow> 'w \<Rightarrow> jsstring \<Rightarrow> ProviderState \<Rightarrow> ProviderState" where
  "removeMissing h w root s =
     (let retained = filter (still_installed h w root) (ps_installed s)
      in if length retained \<noteq> length (ps_installed s)
         then \<lparr>ps_active = (if list_ex (\<lambda>r. Some (ip_id r) = ps_active s) retained then ps_active s else None),
               ps_installed = retained\<rparr>
         else s)"

text \<open>
  \<open>ProviderManager.open\<close>: the directory is created, the file read, the records without files are
  dropped and the state saved if there were any (\<open>saved\<close>: whether that write succeeds), and the
  environment is set.
\<close>

definition open_manager ::
  "'w provider_host \<Rightarrow> jsstring option \<Rightarrow> jsstring \<Rightarrow> jsstring \<Rightarrow> ManagedProviderDefinition list \<Rightarrow> process_env \<Rightarrow>
   bool \<Rightarrow> file_read \<Rightarrow> bool \<Rightarrow> 'w \<Rightarrow> string + provider_manager"
where
  "open_manager h dataRoot platform arch catalog penv created r saved w =
     (case new_manager (ph_cwd h) dataRoot platform arch catalog penv of
        Inl e \<Rightarrow> Inl e
      | Inr m \<Rightarrow>
          if pm_dataRoot m = None then Inr m
          else if \<not> created then Inl ''the data root could not be created''
          else (case (case r of Missing \<Rightarrow> Inr initial_state | Unreadable \<Rightarrow> Inl ''the state file could not be read''
                      | Parsed v \<Rightarrow> validateProviderState catalog v) of
                  Inl e \<Rightarrow> Inl e
                | Inr s \<Rightarrow>
                    let s' = removeMissing h w (data_root m) s;
                        changed = (length (ps_installed s') \<noteq> length (ps_installed s));
                        m1 = m\<lparr>pm_state := s', pm_file := (if changed then Some s' else if r = Missing then None else Some s)\<rparr>
                    in if changed \<and> \<not> saved then Inl ''the state file could not be written''
                       else (case applyEnvironment (ph_cwd h) m1 of (Some e, m2) \<Rightarrow> Inl e | (None, m2) \<Rightarrow> Inr m2)))"

section \<open>Snapshots\<close>

record ManagedProviderSnapshot =
  ms_definition :: ManagedProviderDefinition
  ms_supported :: bool
  ms_installed :: bool
  ms_active :: bool
  ms_installedAt :: "jsstring option"
  ms_executables :: "(jsstring \<times> jsstring) list"
  ms_downloadBytes :: "int option"

record ProviderManagerSnapshot =
  ss_enabled :: bool
  ss_dataRoot :: "jsstring option"
  ss_providers :: "ManagedProviderSnapshot list"
  ss_jobs :: "ProviderInstallJob list"

definition installed_of :: "ManagedProviderDefinition \<Rightarrow> ProviderState \<Rightarrow> InstalledProviderRecord option" where
  "installed_of d s = List.find (\<lambda>r. ip_id r = pd_id d \<and> ip_version r = pd_version d) (ps_installed s)"

definition provider_snapshot :: "jsstring \<Rightarrow> provider_manager \<Rightarrow> ManagedProviderDefinition \<Rightarrow> string + ManagedProviderSnapshot" where
  "provider_snapshot cwd m d =
     (let systemTex = (pd_id d = js ''system-tex'');
          installed = installed_of d (pm_state m);
          selected = assetFor (pm_platform m) (pm_arch m) d
      in case (case installed of None \<Rightarrow> Inr [] | Some r \<Rightarrow> absoluteExecutables cwd (data_root m) r) of
           Inl e \<Rightarrow> Inl e
         | Inr ex \<Rightarrow> Inr
             \<lparr>ms_definition = d,
              ms_supported = (systemTex \<or> selected \<noteq> None),
              ms_installed = (systemTex \<or> installed \<noteq> None),
              ms_active = (if pd_kind d = TexDistribution
                           then if systemTex then ps_active (pm_state m) = None \<or> ps_active (pm_state m) = Some []
                                else ps_active (pm_state m) = Some (pd_id d)
                           else installed \<noteq> None),
              ms_installedAt = map_option ip_installedAt installed,
              ms_executables = ex,
              ms_downloadBytes = map_option pa_size selected\<rparr>)"

text \<open>\<open>le a b\<close>: \<open>a.localeCompare(b) <= 0\<close>. The jobs are sorted by falling start.\<close>

definition manager_snapshot ::
  "(jsstring \<Rightarrow> jsstring \<Rightarrow> bool) \<Rightarrow> jsstring \<Rightarrow> provider_manager \<Rightarrow> string + ProviderManagerSnapshot"
where
  "manager_snapshot le cwd m =
     (case map_result (provider_snapshot cwd m) (pm_catalog m) of
        Inl e \<Rightarrow> Inl e
      | Inr ps \<Rightarrow> Inr
          \<lparr>ss_enabled = (pm_dataRoot m \<noteq> None), ss_dataRoot = pm_dataRoot m, ss_providers = ps,
           ss_jobs = sort_by (\<lambda>l r. le (job_startedAt r) (job_startedAt l)) (map snd (pm_jobs m))\<rparr>)"

section \<open>Installing\<close>

definition finished :: "ProviderInstallJob \<Rightarrow> bool" where
  "finished j \<longleftrightarrow> job_status j = JobCompleted \<or> job_status j = JobFailed"

definition requireDefinition :: "jsstring \<Rightarrow> provider_manager \<Rightarrow> provider_error + ManagedProviderDefinition" where
  "requireDefinition pid m =
     (case find_definition (pm_catalog m) pid of
        None \<Rightarrow> Inl (ProviderManagerError 404 ''provider-not-found'') | Some d \<Rightarrow> Inr d)"

text \<open>\<open>startInstall\<close>: \<open>uuid\<close>, \<open>now\<close> and \<open>hex\<close> are the random id, the time and the random name of the staging directory.\<close>

definition startInstall ::
  "jsstring \<Rightarrow> jsstring \<Rightarrow> jsstring \<Rightarrow> jsstring \<Rightarrow> provider_manager \<Rightarrow> provider_manager \<times> (provider_error + ProviderInstallJob)"
where
  "startInstall uuid now hex pid m =
     (if pm_dataRoot m = None then (m, Inl (ProviderManagerError 409 ''provider-storage-disabled''))
      else case requireDefinition pid m of
        Inl e \<Rightarrow> (m, Inl e)
      | Inr d \<Rightarrow>
          (case assetFor (pm_platform m) (pm_arch m) d of
             None \<Rightarrow> (m, Inl (ProviderManagerError 409 ''provider-platform-unsupported''))
           | Some a \<Rightarrow>
               if list_ex (\<lambda>(k, j). job_providerId j = pid \<and> \<not> finished j) (pm_jobs m)
               then (m, Inl (ProviderManagerError 409 ''provider-install-running''))
               else let j = \<lparr>job_id = uuid, job_providerId = pid, job_status = JobQueued, job_downloadedBytes = 0,
                             job_totalBytes = pa_size a, job_startedAt = now, job_finishedAt = None, job_error = None\<rparr>;
                        t = \<lparr>it_definition = d, it_asset = a,
                             it_staging = posix_join [data_root m, js ''.staging'', pd_id d @ js ''-'' @ hex],
                             it_stage = Preparing\<rparr>
                    in (m\<lparr>pm_jobs := AList.update uuid j (pm_jobs m), pm_tasks := AList.update uuid t (pm_tasks m)\<rparr>, Inr j)))"

definition change_job :: "jsstring \<Rightarrow> (ProviderInstallJob \<Rightarrow> ProviderInstallJob) \<Rightarrow> provider_manager \<Rightarrow> provider_manager" where
  "change_job jid f m = m\<lparr>pm_jobs := map (\<lambda>(k, j). (k, if k = jid then f j else j)) (pm_jobs m)\<rparr>"

definition move_to :: "jsstring \<Rightarrow> install_stage \<Rightarrow> provider_manager \<Rightarrow> provider_manager" where
  "move_to jid st m =
     m\<lparr>pm_tasks := map (\<lambda>(k, t). (k, if k = jid then t\<lparr>it_stage := st\<rparr> else t)) (pm_tasks m)\<rparr>"

text \<open>The \<open>catch\<close> block, and the end of the \<open>try\<close> block; the \<open>finally\<close> block comes next.\<close>

definition fail_job :: "jsstring \<Rightarrow> jsstring \<Rightarrow> ManagedProviderDefinition \<Rightarrow> jsstring \<Rightarrow> provider_manager \<Rightarrow> provider_manager" where
  "fail_job jid now d message m =
     move_to jid Cleaning
       (emit (pd_id d) ''error'' ''provider-install-failed'' (pd_name d @ js '' installation failed: '' @ message) None
         (change_job jid (\<lambda>j. j\<lparr>job_status := JobFailed, job_finishedAt := Some now, job_error := Some message\<rparr>) m))"

definition complete_job :: "jsstring \<Rightarrow> jsstring \<Rightarrow> ManagedProviderDefinition \<Rightarrow> provider_manager \<Rightarrow> provider_manager" where
  "complete_job jid now d m =
     move_to jid Cleaning
       (emit (pd_id d) ''info'' ''provider-installed'' (js ''Installed '' @ pd_name d @ js '' '' @ pd_version d @ js ''.'') None
         (change_job jid (\<lambda>j. j\<lparr>job_status := JobCompleted, job_finishedAt := Some now\<rparr>) m))"

text \<open>The new record replaces those of the provider; a TeX distribution becomes the active one.\<close>

definition installed_state :: "jsstring \<Rightarrow> ManagedProviderDefinition \<Rightarrow> (jsstring \<times> jsstring) list \<Rightarrow> ProviderState \<Rightarrow> ProviderState" where
  "installed_state now d executables s =
     \<lparr>ps_active = (if pd_kind d = TexDistribution then Some (pd_id d) else ps_active s),
      ps_installed = filter (\<lambda>r. ip_id r \<noteq> pd_id d) (ps_installed s) @
        [\<lparr>ip_id = pd_id d, ip_version = pd_version d, ip_installedAt = now, ip_executables = executables\<rparr>]\<rparr>"

definition begin_download :: "jsstring \<Rightarrow> install_task \<Rightarrow> provider_manager \<Rightarrow> provider_manager" where
  "begin_download jid t m =
     (let d = it_definition t
      in move_to jid Fetching
           (emit (pd_id d) ''info'' ''provider-download-started''
             (js ''Downloading verified '' @ pd_name d @ js '' '' @ pd_version d @ js ''.'') (Some (pa_size (it_asset t)))
             (change_job jid (\<lambda>j. j\<lparr>job_status := JobDownloading\<rparr>) m)))"

definition archive_path :: "install_task \<Rightarrow> jsstring" where
  "archive_path t = posix_join [it_staging t, js ''download.'' @ archiveExtension (pa_archive (it_asset t))]"

definition record_progress :: "jsstring \<Rightarrow> int option \<Rightarrow> provider_manager \<Rightarrow> provider_manager" where
  "record_progress jid progress m =
     (case progress of None \<Rightarrow> m | Some n \<Rightarrow> change_job jid (\<lambda>j. j\<lparr>job_downloadedBytes := n\<rparr>) m)"

text \<open>
  The next continuation of the task of a job, up to its next \<open>await\<close>; \<open>None\<close> when it waits for the
  write queue or there is no task.
\<close>

definition continue_install ::
  "'w provider_host \<Rightarrow> jsstring \<Rightarrow> jsstring \<Rightarrow> provider_manager \<times> 'w \<Rightarrow> (provider_manager \<times> 'w) option"
where
  "continue_install h now jid mw =
     (case mw of (m, w) \<Rightarrow>
       (case map_of (pm_tasks m) jid of
          None \<Rightarrow> None
        | Some t \<Rightarrow>
            let d = it_definition t
            in case it_stage t of
              Preparing \<Rightarrow>
                (case ph_mkdir h (it_staging t) w of
                   Inl e \<Rightarrow> Some (fail_job jid now d e m, w)
                 | Inr w1 \<Rightarrow> Some (begin_download jid t m, w1))
            | Fetching \<Rightarrow>
                (case download h (it_asset t) (archive_path t) w of
                   ((progress, Some e), w1) \<Rightarrow> Some (fail_job jid now d e (record_progress jid progress m), w1)
                 | ((progress, None), w1) \<Rightarrow>
                     Some (move_to jid Unpacking
                       (change_job jid (\<lambda>j. j\<lparr>job_status := JobInstalling\<rparr>) (record_progress jid progress m)), w1))
            | Unpacking \<Rightarrow>
                (case install_files h (pm_platform m) (data_root m) d (it_asset t) (it_staging t) w of
                   (Throw e, w1) \<Rightarrow> Some (fail_job jid now d e m, w1)
                 | (Unsettled, w1) \<Rightarrow> None
                 | (Value executables, w1) \<Rightarrow>
                     Some (move_to jid Saving (submit (installed_state now d executables (pm_state m), InstallSave jid) m), w1))
            | Saving \<Rightarrow> None
            | Notifying \<Rightarrow>
                (case ph_changed h w of
                   Inl e \<Rightarrow> Some (fail_job jid now d e m, w)
                 | Inr w1 \<Rightarrow> Some (complete_job jid now d m, w1))
            | Cleaning \<Rightarrow>
                Some (m\<lparr>pm_tasks := AList.delete jid (pm_tasks m)\<rparr>,
                      case ph_rm h (it_staging t) w of Inl e \<Rightarrow> w | Inr w1 \<Rightarrow> w1)))"

text \<open>
  The next queued write settles, and who awaited it goes on: with the environment, or, after a failed
  write, with the \<open>catch\<close> block.
\<close>

definition after_save ::
  "jsstring \<Rightarrow> jsstring \<Rightarrow> jsstring \<Rightarrow> (ProviderState \<times> save_waiter) wq_event option \<Rightarrow> provider_manager \<Rightarrow> provider_manager"
where
  "after_save cwd now message ev m =
     (case ev of
        Some (Written (s, InstallSave jid)) \<Rightarrow>
          (case (map_of (pm_tasks m) jid, applyEnvironment cwd m) of
             (Some t, (Some e, m1)) \<Rightarrow> fail_job jid now (it_definition t) (js e) m1
           | (Some t, (None, m1)) \<Rightarrow> move_to jid Notifying m1
           | (None, (e, m1)) \<Rightarrow> m1)
      | Some (Written (s, ActivationSave)) \<Rightarrow>
          (case applyEnvironment cwd m of
             (Some e, m1) \<Rightarrow> m1 | (None, m1) \<Rightarrow> m1\<lparr>pm_changes := Suc (pm_changes m1)\<rparr>)
      | Some (Rejected (s, InstallSave jid)) \<Rightarrow>
          (case map_of (pm_tasks m) jid of Some t \<Rightarrow> fail_job jid now (it_definition t) message m | None \<Rightarrow> m)
      | _ \<Rightarrow> m)"

definition settle_save :: "jsstring \<Rightarrow> jsstring \<Rightarrow> jsstring \<Rightarrow> bool \<Rightarrow> provider_manager \<Rightarrow> provider_manager" where
  "settle_save cwd now message ok m = (case settle_file ok m of (m1, ev) \<Rightarrow> after_save cwd now message ev m1)"

text \<open>\<open>waitForJob\<close>: \<open>None\<close> while the job's promise is pending.\<close>

definition waitForJob :: "jsstring \<Rightarrow> provider_manager \<Rightarrow> (provider_error + ProviderInstallJob) option" where
  "waitForJob jid m =
     (if map_of (pm_tasks m) jid \<noteq> None then None
      else Some (case map_of (pm_jobs m) jid of
                   None \<Rightarrow> Inl (ProviderManagerError 404 ''provider-job-not-found'') | Some j \<Rightarrow> Inr j))"

section \<open>Choosing the TeX distribution\<close>

text \<open>The rest of an activation after its \<open>await\<close>; without a data root there is nothing to await.\<close>

definition activate :: "jsstring \<Rightarrow> jsstring option \<Rightarrow> provider_manager \<Rightarrow> provider_manager" where
  "activate cwd active m =
     (let m1 = submit ((pm_state m)\<lparr>ps_active := active\<rparr>, ActivationSave) m
      in if pm_dataRoot m = None
         then (case applyEnvironment cwd m1 of
                 (Some e, m2) \<Rightarrow> m2 | (None, m2) \<Rightarrow> m2\<lparr>pm_changes := Suc (pm_changes m2)\<rparr>)
         else m1)"

definition activateTexProvider :: "jsstring \<Rightarrow> jsstring \<Rightarrow> provider_manager \<Rightarrow> provider_manager \<times> (provider_error + unit)" where
  "activateTexProvider cwd pid m =
     (case requireDefinition pid m of
        Inl e \<Rightarrow> (m, Inl e)
      | Inr d \<Rightarrow>
          if pd_kind d \<noteq> TexDistribution then (m, Inl (ProviderManagerError 400 ''provider-kind-invalid''))
          else if pid = js ''system-tex'' then (activate cwd None m, Inr ())
          else if List.find (\<lambda>r. ip_id r = pid \<and> ip_version r = pd_version d) (ps_installed (pm_state m)) = None
          then (m, Inl (ProviderManagerError 409 ''provider-not-installed''))
          else (activate cwd (Some pid) m, Inr ()))"

section \<open>Runs\<close>

datatype provider_op =
    StartInstall jsstring jsstring jsstring jsstring
  | ContinueInstall jsstring jsstring
  | SettleSave jsstring jsstring bool
  | ActivateTex jsstring

fun provider_act :: "'w provider_host \<Rightarrow> provider_op \<Rightarrow> provider_manager \<times> 'w \<Rightarrow> provider_manager \<times> 'w" where
  "provider_act h (StartInstall uuid now hex pid) (m, w) = (fst (startInstall uuid now hex pid m), w)"
| "provider_act h (ContinueInstall now jid) mw = (case continue_install h now jid mw of None \<Rightarrow> mw | Some mw' \<Rightarrow> mw')"
| "provider_act h (SettleSave now message ok) (m, w) = (settle_save (ph_cwd h) now message ok m, w)"
| "provider_act h (ActivateTex pid) (m, w) = (fst (activateTexProvider (ph_cwd h) pid m), w)"

text \<open>A random id is new.\<close>

fun fresh_op :: "provider_op \<Rightarrow> provider_manager \<Rightarrow> bool" where
  "fresh_op (StartInstall uuid now hex pid) m = (map_of (pm_jobs m) uuid = None)"
| "fresh_op _ m = True"

inductive provider_run :: "'w provider_host \<Rightarrow> provider_manager \<times> 'w \<Rightarrow> provider_manager \<times> 'w \<Rightarrow> bool" for h mw where
  start: "provider_run h mw mw"
| step: "provider_run h mw mw1 \<Longrightarrow> fresh_op op (fst mw1) \<Longrightarrow> provider_run h mw (provider_act h op mw1)"

end
