(* ===== verification/ProviderJobs.thy ===== *)
theory ProviderJobs
  imports ProviderManager
begin

text \<open>
  The installation jobs of \<^verbatim>\<open>typr-server/providerManager.ts\<close>: what every operation of the manager keeps of its
  jobs and tasks, that a provider is installed by one job at a time, and that every job ends.
\<close>

section \<open>Jobs and tasks\<close>

text \<open>What each change does to the two maps; the other operations leave them alone.\<close>

named_theorems job_simps \<open>the maps of jobs and tasks after an operation\<close>

lemma map_of_map_if:
  "map_of (map (\<lambda>(k, x). (k, if k = i then f x else x)) al) k =
   (if k = i then map_option f (map_of al k) else map_of al k)"
  by (induction al) auto

lemma job_maps [job_simps]:
  "map_of (pm_jobs (change_job jid f m)) k = (if k = jid then map_option f (map_of (pm_jobs m) k) else map_of (pm_jobs m) k)"
  "pm_tasks (change_job jid f m) = pm_tasks m"
  "map_of (pm_tasks (move_to jid st m)) k =
     (if k = jid then map_option (\<lambda>t. t\<lparr>it_stage := st\<rparr>) (map_of (pm_tasks m) k) else map_of (pm_tasks m) k)"
  "pm_jobs (move_to jid st m) = pm_jobs m"
  "pm_jobs (emit pid level type message bytes m) = pm_jobs m" "pm_tasks (emit pid level type message bytes m) = pm_tasks m"
  "pm_jobs (submit x m) = pm_jobs m" "pm_tasks (submit x m) = pm_tasks m"
  "map fst (pm_jobs (change_job jid f m)) = map fst (pm_jobs m)"
  by (simp_all add: change_job_def move_to_def emit_def submit_def map_of_map_if)
     (simp add: comp_def split_def)

text \<open>The configuration, the state and the queue after them.\<close>

definition frame :: "provider_manager \<Rightarrow>
   jsstring option \<times> jsstring \<times> jsstring \<times> ManagedProviderDefinition list \<times> (string \<times> jsstring option) list \<times> process_env \<times>
   ProviderState \<times> ProviderState option \<times> (ProviderState \<times> save_waiter) write_queue"
where
  "frame m = (pm_dataRoot m, pm_platform m, pm_arch m, pm_catalog m, pm_baseline m, pm_env m, pm_state m, pm_file m, pm_queue m)"

lemma frame_fields:
  assumes "frame m' = frame m"
  shows "pm_dataRoot m' = pm_dataRoot m" "pm_platform m' = pm_platform m" "pm_arch m' = pm_arch m"
    "pm_catalog m' = pm_catalog m" "pm_baseline m' = pm_baseline m" "pm_env m' = pm_env m" "pm_state m' = pm_state m"
    "pm_file m' = pm_file m" "pm_queue m' = pm_queue m" "data_root m' = data_root m"
  using assms by (simp_all add: frame_def data_root_def)

lemma frames [job_simps]:
  "frame (change_job jid f m) = frame m" "frame (move_to jid st m) = frame m"
  "frame (emit pid level type message bytes m) = frame m" "frame (fail_job jid now d message m) = frame m"
  "frame (complete_job jid now d m) = frame m" "frame (begin_download jid t m) = frame m"
  "frame (record_progress jid progress m) = frame m"
  by (simp_all add: frame_def change_job_def move_to_def emit_def fail_job_def complete_job_def begin_download_def
      record_progress_def Let_def split: option.split)

lemmas frame_simps = frames [THEN frame_fields(1)] frames [THEN frame_fields(2)] frames [THEN frame_fields(3)]
  frames [THEN frame_fields(4)] frames [THEN frame_fields(5)] frames [THEN frame_fields(6)] frames [THEN frame_fields(7)]
  frames [THEN frame_fields(8)] frames [THEN frame_fields(9)] frames [THEN frame_fields(10)]

lemma submit_simps:
  "pm_dataRoot (submit x m) = pm_dataRoot m" "pm_platform (submit x m) = pm_platform m" "pm_arch (submit x m) = pm_arch m"
  "pm_catalog (submit x m) = pm_catalog m" "pm_baseline (submit x m) = pm_baseline m" "pm_env (submit x m) = pm_env m"
  "pm_state (submit x m) = fst x" "pm_file (submit x m) = pm_file m"
  "pm_queue (submit x m) = (if pm_dataRoot m \<noteq> None then wq_add x (pm_queue m) else pm_queue m)"
  by (simp_all add: submit_def)

lemma applyEnvironment_simps:
  assumes "applyEnvironment cwd m = (e, m')"
  shows "pm_jobs m' = pm_jobs m" "pm_tasks m' = pm_tasks m" "pm_dataRoot m' = pm_dataRoot m" "pm_platform m' = pm_platform m"
    "pm_arch m' = pm_arch m" "pm_catalog m' = pm_catalog m" "pm_baseline m' = pm_baseline m" "pm_state m' = pm_state m"
    "pm_file m' = pm_file m" "pm_queue m' = pm_queue m" "pm_env m' = snd (applied_environment cwd m)"
  using assms by (auto simp: applyEnvironment_def split: prod.splits)

text \<open>The status of a job and the stage of its task.\<close>

definition job_fits :: "install_task option \<Rightarrow> ProviderInstallJob \<Rightarrow> bool" where
  "job_fits task j \<longleftrightarrow>
     (case task of
        None \<Rightarrow> finished j
      | Some t \<Rightarrow>
          (case it_stage t of
             Preparing \<Rightarrow> job_status j = JobQueued
           | Fetching \<Rightarrow> job_status j = JobDownloading
           | Cleaning \<Rightarrow> finished j
           | _ \<Rightarrow> job_status j = JobInstalling)) \<and>
     (finished j \<longleftrightarrow> job_finishedAt j \<noteq> None) \<and> (job_status j = JobFailed \<longleftrightarrow> job_error j \<noteq> None) \<and>
     0 \<le> job_downloadedBytes j \<and> (job_downloadedBytes j = 0 \<or> job_downloadedBytes j \<le> job_totalBytes j + DOWNLOAD_OVERHEAD_BYTES) \<and>
     (job_status j = JobInstalling \<or> job_status j = JobCompleted \<longrightarrow> job_downloadedBytes j = job_totalBytes j)"

definition task_fits :: "provider_manager \<Rightarrow> install_task \<Rightarrow> ProviderInstallJob \<Rightarrow> bool" where
  "task_fits m t j \<longleftrightarrow>
     it_definition t \<in> set (pm_catalog m) \<and> assetFor (pm_platform m) (pm_arch m) (it_definition t) = Some (it_asset t) \<and>
     pd_id (it_definition t) = job_providerId j \<and> pa_size (it_asset t) = job_totalBytes j \<and> pm_dataRoot m \<noteq> None"

definition jobs_ok :: "provider_manager \<Rightarrow> bool" where
  "jobs_ok m \<longleftrightarrow>
     distinct (map fst (pm_jobs m)) \<and>
     (\<forall>k t. map_of (pm_tasks m) k = Some t \<longrightarrow> (\<exists>j. map_of (pm_jobs m) k = Some j \<and> task_fits m t j)) \<and>
     (\<forall>k j. map_of (pm_jobs m) k = Some j \<longrightarrow> job_id j = k \<and> job_fits (map_of (pm_tasks m) k) j) \<and>
     (\<forall>k j k' j'. map_of (pm_jobs m) k = Some j \<longrightarrow> map_of (pm_jobs m) k' = Some j' \<longrightarrow> \<not> finished j \<longrightarrow> \<not> finished j' \<longrightarrow>
        job_providerId j = job_providerId j' \<longrightarrow> k = k')"

definition same_config :: "provider_manager \<Rightarrow> provider_manager \<Rightarrow> bool" where
  "same_config m m' \<longleftrightarrow> pm_catalog m' = pm_catalog m \<and> pm_platform m' = pm_platform m \<and> pm_arch m' = pm_arch m \<and>
     pm_dataRoot m' = pm_dataRoot m \<and> pm_baseline m' = pm_baseline m"

lemma jobs_okD:
  assumes "jobs_ok m"
  shows "map_of (pm_tasks m) k = Some t \<Longrightarrow> \<exists>j. map_of (pm_jobs m) k = Some j \<and> task_fits m t j"
    "map_of (pm_jobs m) k = Some j \<Longrightarrow> job_id j = k \<and> job_fits (map_of (pm_tasks m) k) j"
    "map_of (pm_jobs m) k = Some j \<Longrightarrow> map_of (pm_jobs m) k' = Some j' \<Longrightarrow> \<not> finished j \<Longrightarrow> \<not> finished j' \<Longrightarrow>
       job_providerId j = job_providerId j' \<Longrightarrow> k = k'"
    "distinct (map fst (pm_jobs m))"
  using assms unfolding jobs_ok_def by blast+

text \<open>A continuation moves one job and its task.\<close>

lemma jobs_ok_move:
  assumes "jobs_ok m" "map_of (pm_jobs m) jid = Some j" "map_of (pm_tasks m) jid = Some t" "same_config m m'"
    "map fst (pm_jobs m') = map fst (pm_jobs m)"
    "\<And>k. map_of (pm_jobs m') k = (if k = jid then Some j' else map_of (pm_jobs m) k)"
    "\<And>k. map_of (pm_tasks m') k = (if k = jid then t' else map_of (pm_tasks m) k)"
    "job_id j' = job_id j" "job_providerId j' = job_providerId j" "job_totalBytes j' = job_totalBytes j" "finished j \<Longrightarrow> finished j'"
    "case t' of None \<Rightarrow> True | Some t' \<Rightarrow> it_definition t' = it_definition t \<and> it_asset t' = it_asset t"
    "job_fits t' j'"
  shows "jobs_ok m'"
proof -
  have t: "\<exists>j. map_of (pm_jobs m') k = Some j \<and> task_fits m' u j" if "map_of (pm_tasks m') k = Some u" for k u
  proof (cases "k = jid")
    case True
    then have "task_fits m t j" using assms(2) jobs_okD(1) [OF assms(1,3)] by simp
    with True that assms show ?thesis by (auto simp: task_fits_def same_config_def)
  next
    case False
    with that jobs_okD(1) [OF assms(1), of k u] assms(4,6,7) show ?thesis by (simp add: task_fits_def same_config_def)
  qed
  have j: "job_id i = k \<and> job_fits (map_of (pm_tasks m') k) i" if "map_of (pm_jobs m') k = Some i" for k i
    using that assms(6-8,13) jobs_okD(2) [OF assms(1,2)] jobs_okD(2) [OF assms(1), of k i] by (cases "k = jid") auto
  have old: "\<exists>i0. map_of (pm_jobs m) k = Some i0 \<and> \<not> finished i0 \<and> job_providerId i0 = job_providerId i"
    if "map_of (pm_jobs m') k = Some i" "\<not> finished i" for k i
    using that assms(2,6,9,11) by (cases "k = jid") auto
  have "k = k'" if "map_of (pm_jobs m') k = Some i" "map_of (pm_jobs m') k' = Some i'" "\<not> finished i" "\<not> finished i'"
    "job_providerId i = job_providerId i'" for k i k' i'
    using old [OF that(1,3)] old [OF that(2,4)] that(5) jobs_okD(3) [OF assms(1)] by metis
  moreover have "distinct (map fst (pm_jobs m'))" using assms(1,5) by (simp add: jobs_ok_def)
  ultimately show ?thesis using t j unfolding jobs_ok_def by blast
qed

lemma jobs_ok_unchanged:
  assumes "jobs_ok m" "same_config m m'" "pm_jobs m' = pm_jobs m" "pm_tasks m' = pm_tasks m"
  shows "jobs_ok m'"
  using assms by (simp add: jobs_ok_def task_fits_def same_config_def del: map_of_eq_Some_iff)

text \<open>The outcomes of a continuation.\<close>

definition progress_ok :: "install_task \<Rightarrow> int option \<Rightarrow> bool" where
  "progress_ok t progress \<longleftrightarrow>
     (case progress of None \<Rightarrow> True
      | Some n \<Rightarrow> it_stage t = Fetching \<and> 0 \<le> n \<and> n \<le> pa_size (it_asset t) + DOWNLOAD_OVERHEAD_BYTES)"

lemma continue_install_cases:
  assumes "continue_install h now jid (m, w) = Some (m', w')" "map_of (pm_tasks m) jid = Some t"
  obtains (failed) progress e where "it_stage t \<noteq> Cleaning" "it_stage t \<noteq> Saving" "progress_ok t progress"
        "m' = fail_job jid now (it_definition t) e (record_progress jid progress m)"
    | (downloading) "it_stage t = Preparing" "m' = begin_download jid t m"
    | (downloaded) "it_stage t = Fetching" "verified h (it_asset t) (archive_path t) w w'"
        "m' = move_to jid Unpacking (change_job jid (\<lambda>j. j\<lparr>job_status := JobInstalling\<rparr>)
                (record_progress jid (Some (pa_size (it_asset t))) m))"
        "progress_ok t (Some (pa_size (it_asset t)))"
    | (unpacked) executables where "it_stage t = Unpacking"
        "fst ` set executables = set (pd_executableNames (it_definition t))" "\<forall>(name, p)\<in>set executables. plain_path p"
        "m' = move_to jid Saving (submit (installed_state now (it_definition t) executables (pm_state m), InstallSave jid) m)"
    | (completed) "it_stage t = Notifying" "m' = complete_job jid now (it_definition t) m"
    | (cleaned) "it_stage t = Cleaning" "m' = m\<lparr>pm_tasks := AList.delete jid (pm_tasks m)\<rparr>"
proof (cases "it_stage t")
  case Preparing
  with assms that(1) [of None] that(2) show ?thesis
    by (cases "ph_mkdir h (it_staging t) w") (auto simp: continue_install_def Let_def progress_ok_def record_progress_def)
next
  case Fetching
  obtain progress e w1 where d: "download h (it_asset t) (archive_path t) w = ((progress, e), w1)" by (metis prod.collapse)
  show ?thesis
  proof (cases e)
    case None
    with assms Fetching d download_verified [of h "it_asset t" "archive_path t" w progress w1]
      download_progress [of h "it_asset t" "archive_path t" w progress e w1]
    show ?thesis by (intro that(3)) (auto simp: continue_install_def Let_def progress_ok_def)
  next
    case (Some x)
    with assms Fetching d download_progress [of h "it_asset t" "archive_path t" w progress e w1] that(1) [of progress x]
    show ?thesis by (auto simp: continue_install_def Let_def progress_ok_def split: option.splits)
  qed
next
  case Unpacking
  obtain r w1 where i: "install_files h (pm_platform m) (data_root m) (it_definition t) (it_asset t) (it_staging t) w = (r, w1)"
    by (metis prod.collapse)
  show ?thesis
  proof (cases r)
    case (Value executables)
    with assms Unpacking i install_files_plain [of h "pm_platform m" "data_root m" "it_definition t" "it_asset t" "it_staging t" w]
    show ?thesis by (intro that(4) [of executables]) (auto simp: continue_install_def Let_def)
  next
    case (Throw e)
    with assms Unpacking i that(1) [of None e] show ?thesis
      by (auto simp: continue_install_def Let_def progress_ok_def record_progress_def)
  next
    case Unsettled
    with assms Unpacking i show ?thesis by (simp add: continue_install_def)
  qed
next
  case Notifying
  with assms that(1) [of None] that(5) show ?thesis
    by (cases "ph_changed h w") (auto simp: continue_install_def Let_def progress_ok_def record_progress_def)
next
  case Saving
  with assms show ?thesis by (simp add: continue_install_def)
next
  case Cleaning
  with assms that(6) show ?thesis by (auto simp: continue_install_def Let_def)
qed

lemma frame_config: "frame m' = frame m \<Longrightarrow> same_config m m'"
  by (simp add: frame_def same_config_def)

lemma fail_job_ok:
  assumes "jobs_ok m" "map_of (pm_tasks m) jid = Some t"
  shows "jobs_ok (fail_job jid now d message m)"
proof -
  obtain j where j: "map_of (pm_jobs m) jid = Some j" using jobs_okD(1) [OF assms] by blast
  let ?j = "j\<lparr>job_status := JobFailed, job_finishedAt := Some now, job_error := Some message\<rparr>"
  show ?thesis
    by (rule jobs_ok_move [OF assms(1) j assms(2), where j' = ?j and t' = "Some (t\<lparr>it_stage := Cleaning\<rparr>)"])
       (use j assms(2) jobs_okD(2) [OF assms(1) j] in
        \<open>simp_all add: fail_job_def job_simps frame_config finished_def job_fits_def\<close>)
qed

lemma record_progress_ok:
  assumes "jobs_ok m" "map_of (pm_tasks m) jid = Some t" "progress_ok t progress"
  shows "jobs_ok (record_progress jid progress m)"
proof (cases progress)
  case (Some n)
  obtain j where j: "map_of (pm_jobs m) jid = Some j" "task_fits m t j" using jobs_okD(1) [OF assms(1,2)] by blast
  let ?j = "j\<lparr>job_downloadedBytes := n\<rparr>"
  show ?thesis unfolding Some
    by (rule jobs_ok_move [OF assms(1) j(1) assms(2), where j' = ?j and t' = "Some t"])
       (use j assms Some jobs_okD(2) [OF assms(1) j(1)] in
        \<open>auto simp: record_progress_def job_simps frame_config finished_def job_fits_def progress_ok_def task_fits_def\<close>)
qed (use assms(1) in \<open>simp add: record_progress_def\<close>)

lemma install_continues_ok:
  assumes "jobs_ok m" "continue_install h now jid (m, w) = Some (m', w')"
  shows "jobs_ok m'"
proof -
  obtain t where t: "map_of (pm_tasks m) jid = Some t"
    using assms(2) by (cases "map_of (pm_tasks m) jid") (auto simp: continue_install_def)
  obtain j where j: "map_of (pm_jobs m) jid = Some j" "task_fits m t j" using jobs_okD(1) [OF assms(1) t] by blast
  have fits: "job_fits (Some t) j" using jobs_okD(2) [OF assms(1) j(1)] t by simp
  note move = jobs_ok_move [OF _ _ t]
  from assms(2) t show ?thesis
  proof (cases rule: continue_install_cases)
    case (failed progress e)
    have "map_of (pm_tasks (record_progress jid progress m)) jid = Some t"
      using t by (simp add: record_progress_def job_simps split: option.split)
    with fail_job_ok [OF record_progress_ok [OF assms(1) t failed(3)]] show ?thesis by (simp add: failed(4))
  next
    case downloading
    show ?thesis
      by (rule jobs_ok_move [OF assms(1) j(1) t, where j' = "j\<lparr>job_status := JobDownloading\<rparr>" and t' = "Some (t\<lparr>it_stage := Fetching\<rparr>)"])
         (use j t fits downloading in
          \<open>auto simp: begin_download_def Let_def job_simps frame_config finished_def job_fits_def\<close>)
  next
    case downloaded
    show ?thesis
      by (rule jobs_ok_move [OF assms(1) j(1) t, where
            j' = "j\<lparr>job_downloadedBytes := pa_size (it_asset t), job_status := JobInstalling\<rparr>" and t' = "Some (t\<lparr>it_stage := Unpacking\<rparr>)"])
         (use j t fits downloaded in
          \<open>auto simp: record_progress_def job_simps frame_config finished_def job_fits_def progress_ok_def task_fits_def\<close>)
  next
    case (unpacked executables)
    show ?thesis
      by (rule jobs_ok_move [OF assms(1) j(1) t, where j' = j and t' = "Some (t\<lparr>it_stage := Saving\<rparr>)"])
         (use j t fits unpacked in
          \<open>auto simp: job_simps same_config_def frame_simps submit_simps job_fits_def\<close>)
  next
    case completed
    show ?thesis
      by (rule jobs_ok_move [OF assms(1) j(1) t, where
            j' = "j\<lparr>job_status := JobCompleted, job_finishedAt := Some now\<rparr>" and t' = "Some (t\<lparr>it_stage := Cleaning\<rparr>)"])
         (use j t fits completed in
          \<open>auto simp: complete_job_def job_simps frame_config finished_def job_fits_def\<close>)
  next
    case cleaned
    show ?thesis
      by (rule jobs_ok_move [OF assms(1) j(1) t, where j' = j and t' = None])
         (use j t fits cleaned in \<open>auto simp: same_config_def job_fits_def AList.delete_conv'\<close>)
  qed
qed

text \<open>The other operations.\<close>

lemma same_config_trans: "same_config m m1 \<Longrightarrow> same_config m1 m2 \<Longrightarrow> same_config m m2"
  by (simp add: same_config_def)

lemma startInstall_cases:
  assumes "startInstall uuid now hex pid m = (m', r)"
  obtains (refused) e where "m' = m" "r = Inl e"
    | (started) d a where "pm_dataRoot m \<noteq> None" "find_definition (pm_catalog m) pid = Some d"
        "assetFor (pm_platform m) (pm_arch m) d = Some a" "\<forall>(k, j)\<in>set (pm_jobs m). job_providerId j = pid \<longrightarrow> finished j"
        "r = Inr \<lparr>job_id = uuid, job_providerId = pid, job_status = JobQueued, job_downloadedBytes = 0,
               job_totalBytes = pa_size a, job_startedAt = now, job_finishedAt = None, job_error = None\<rparr>"
        "m' = m\<lparr>pm_jobs := AList.update uuid (projr r) (pm_jobs m),
               pm_tasks := AList.update uuid \<lparr>it_definition = d, it_asset = a,
                 it_staging = posix_join [data_root m, js ''.staging'', pd_id d @ js ''-'' @ hex], it_stage = Preparing\<rparr> (pm_tasks m)\<rparr>"
proof (cases "requireDefinition pid m")
  case (Inl e)
  with assms that(1) show ?thesis by (auto simp: startInstall_def split: if_split_asm)
next
  case (Inr d)
  then have d: "find_definition (pm_catalog m) pid = Some d" by (auto simp: requireDefinition_def split: option.splits)
  show ?thesis
  proof (cases "assetFor (pm_platform m) (pm_arch m) d")
    case None
    with assms Inr that(1) show ?thesis by (auto simp: startInstall_def split: if_split_asm)
  next
    case (Some a)
    show ?thesis
    proof (cases "pm_dataRoot m = None \<or> list_ex (\<lambda>(k, j). job_providerId j = pid \<and> \<not> finished j) (pm_jobs m)")
      case True
      with assms Inr Some have "\<exists>e. (m', r) = (m, Inl e)" by (cases "pm_dataRoot m") (auto simp: startInstall_def)
      with that(1) show ?thesis by blast
    next
      case False
      then have "\<forall>(k, j)\<in>set (pm_jobs m). job_providerId j = pid \<longrightarrow> finished j" by (auto simp: list_ex_iff)
      with assms Inr Some False d show ?thesis by (intro that(2) [of d a]) (auto simp: startInstall_def Let_def)
    qed
  qed
qed

lemma find_definition_Some: "find_definition catalog pid = Some d \<Longrightarrow> d \<in> set catalog \<and> pd_id d = pid"
  by (auto simp: find_definition_def dest: find_Some_mem)

lemma startInstall_ok:
  assumes "jobs_ok m" "map_of (pm_jobs m) uuid = None" "startInstall uuid now hex pid m = (m', r)"
  shows "jobs_ok m'"
  using assms(3)
proof (cases rule: startInstall_cases)
  case (started d a)
  have no_task: "map_of (pm_tasks m) uuid = None"
    using jobs_okD(1) [OF assms(1), of uuid] assms(2) by (cases "map_of (pm_tasks m) uuid") auto
  have jobs: "map_of (pm_jobs m') k = (if k = uuid then Some (projr r) else map_of (pm_jobs m) k)"
    and tasks: "k \<noteq> uuid \<Longrightarrow> map_of (pm_tasks m') k = map_of (pm_tasks m) k" for k
    using started(6) by (simp_all add: update_conv')
  have config: "same_config m m'" using started(6) by (simp add: same_config_def)
  have others: "finished j" if "map_of (pm_jobs m) k = Some j" "job_providerId j = pid" for k j
    using started(4) that map_of_SomeD by fastforce
  have t: "\<exists>j. map_of (pm_jobs m') k = Some j \<and> task_fits m' t j" if "map_of (pm_tasks m') k = Some t" for k t
  proof (cases "k = uuid")
    case True
    with that started find_definition_Some [OF started(2)] show ?thesis by (auto simp: update_conv' task_fits_def)
  next
    case False
    with that tasks [OF False] jobs [of k] jobs_okD(1) [OF assms(1), of k t] config show ?thesis
      by (auto simp: task_fits_def same_config_def)
  qed
  have j: "job_id j = k \<and> job_fits (map_of (pm_tasks m') k) j" if "map_of (pm_jobs m') k = Some j" for k j
  proof (cases "k = uuid")
    case True
    with that started jobs show ?thesis by (auto simp: update_conv' job_fits_def finished_def)
  next
    case False
    with that jobs [of k] tasks [OF False] jobs_okD(2) [OF assms(1), of k j] show ?thesis by simp
  qed
  have "k = k'" if "map_of (pm_jobs m') k = Some i" "map_of (pm_jobs m') k' = Some i'" "\<not> finished i" "\<not> finished i'"
    "job_providerId i = job_providerId i'" for k i k' i'
  proof -
    note i = that
    have pid: "job_providerId (projr r) = pid" using started(5) by simp
    have "\<not> (k = uuid \<and> k' \<noteq> uuid)" using that jobs [of k] jobs [of k'] others [of k' i'] pid by (auto split: if_splits)
    moreover have "\<not> (k \<noteq> uuid \<and> k' = uuid)" using that jobs [of k] jobs [of k'] others [of k i] pid by (auto split: if_splits)
    moreover have "k = k'" if "k \<noteq> uuid" "k' \<noteq> uuid"
      using jobs_okD(3) [OF assms(1), of k i k' i'] jobs [of k] jobs [of k'] that i by simp
    ultimately show ?thesis by blast
  qed
  moreover have "distinct (map fst (pm_jobs m'))"
    using started(6) jobs_okD(4) [OF assms(1)] by (simp add: distinct_update)
  ultimately show ?thesis using t j unfolding jobs_ok_def by blast
qed (use assms(1) in simp)

section \<open>Waiting for the file\<close>

text \<open>The jobs whose writes are queued are those at the stage \<open>Saving\<close>.\<close>

fun saver :: "ProviderState \<times> save_waiter \<Rightarrow> jsstring option" where
  "saver (s, InstallSave jid) = Some jid"
| "saver (s, ActivationSave) = None"

definition savers :: "provider_manager \<Rightarrow> jsstring list" where
  "savers m = concat (map (\<lambda>x. case saver x of None \<Rightarrow> [] | Some k \<Rightarrow> [k]) (wq_pending (pm_queue m)))"

definition saving :: "provider_manager \<Rightarrow> jsstring \<Rightarrow> bool" where
  "saving m k \<longleftrightarrow> (case map_of (pm_tasks m) k of None \<Rightarrow> False | Some t \<Rightarrow> it_stage t = Saving)"

definition saves_ok :: "provider_manager \<Rightarrow> bool" where
  "saves_ok m \<longleftrightarrow> distinct (savers m) \<and> (\<forall>k. k \<in> set (savers m) \<longleftrightarrow> saving m k)"

lemma saves_ok_same:
  assumes "saves_ok m" "pm_queue m' = pm_queue m" "\<And>k. saving m' k = saving m k"
  shows "saves_ok m'"
  using assms by (simp add: saves_ok_def savers_def)

lemma savers_submit:
  "pm_dataRoot m \<noteq> None \<Longrightarrow> savers (submit x m) = savers m @ (case saver x of None \<Rightarrow> [] | Some k \<Rightarrow> [k])"
  by (simp add: savers_def submit_simps)

lemma saving_move:
  assumes "\<And>k. map_of (pm_tasks m') k = (if k = jid then t' else map_of (pm_tasks m) k)"
  shows "saving m' k = (if k = jid then (case t' of None \<Rightarrow> False | Some t \<Rightarrow> it_stage t = Saving) else saving m k)"
  using assms by (simp add: saving_def)

lemma continue_saves:
  assumes "jobs_ok m" "saves_ok m" "continue_install h now jid (m, w) = Some (m', w')"
  shows "saves_ok m'"
proof -
  obtain t where t: "map_of (pm_tasks m) jid = Some t"
    using assms(3) by (cases "map_of (pm_tasks m) jid") (auto simp: continue_install_def)
  have root: "pm_dataRoot m \<noteq> None" using jobs_okD(1) [OF assms(1) t] by (auto simp: task_fits_def)
  have keep: "saves_ok m'" if "pm_queue m' = pm_queue m" "it_stage t \<noteq> Saving"
    "\<And>k. map_of (pm_tasks m') k = (if k = jid then t' else map_of (pm_tasks m) k)"
    "case t' of None \<Rightarrow> True | Some t \<Rightarrow> it_stage t \<noteq> Saving" for t'
    using assms(2) that(1)
  proof (rule saves_ok_same)
    show "saving m' k = saving m k" for k
      using that t unfolding saving_move [OF that(3)] by (auto simp: saving_def split: option.splits)
  qed
  from assms(3) t show ?thesis
  proof (cases rule: continue_install_cases)
    case (failed progress e)
    then show ?thesis using t
      by (intro keep [where t' = "Some (t\<lparr>it_stage := Cleaning\<rparr>)"])
         (auto simp: frame_simps fail_job_def record_progress_def job_simps split: option.split)
  next
    case downloading
    then show ?thesis using t
      by (intro keep [where t' = "Some (t\<lparr>it_stage := Fetching\<rparr>)"])
         (auto simp: frame_simps begin_download_def Let_def job_simps)
  next
    case downloaded
    then show ?thesis using t
      by (intro keep [where t' = "Some (t\<lparr>it_stage := Unpacking\<rparr>)"])
         (auto simp: frame_simps record_progress_def job_simps)
  next
    case (unpacked executables)
    have "savers m' = savers m @ [jid]" using root unpacked(4) savers_submit [OF root]
      by (simp add: savers_def frame_simps)
    moreover have "\<not> saving m jid" using t unpacked(1) by (simp add: saving_def)
    moreover have "saving m' k \<longleftrightarrow> k = jid \<or> saving m k" for k
      using t unpacked(4) by (simp add: saving_def job_simps)
    ultimately show ?thesis using assms(2) by (auto simp: saves_ok_def)
  next
    case completed
    then show ?thesis using t
      by (intro keep [where t' = "Some (t\<lparr>it_stage := Cleaning\<rparr>)"]) (auto simp: frame_simps complete_job_def job_simps)
  next
    case cleaned
    then show ?thesis by (intro keep [where t' = None]) (auto simp: AList.delete_conv')
  qed
qed

lemma startInstall_saves:
  assumes "jobs_ok m" "saves_ok m" "map_of (pm_jobs m) uuid = None" "startInstall uuid now hex pid m = (m', r)"
  shows "saves_ok m'"
  using assms(4)
proof (cases rule: startInstall_cases)
  case (started d a)
  have "map_of (pm_tasks m) uuid = None"
    using jobs_okD(1) [OF assms(1), of uuid] assms(3) by (cases "map_of (pm_tasks m) uuid") auto
  then have "saving m' k = saving m k" for k using started(6) by (simp add: saving_def update_conv')
  moreover have "pm_queue m' = pm_queue m" using started(6) by simp
  ultimately show ?thesis using saves_ok_same [OF assms(2)] by blast
qed (use assms(2) in simp)

text \<open>A write settles.\<close>

lemma settle_file_cases:
  assumes "settle_file ok m = (m1, ev)"
  obtains (idle) "m1 = m" "ev = None"
    | (written) s x where "wq_pending (pm_queue m) = (s, x) # wq_pending (pm_queue m1)" "ev = Some (Written (s, x))" "pm_file m1 = Some s"
        "ok" "\<not> wq_rejected (pm_queue m)" "\<not> wq_rejected (pm_queue m1)"
    | (rejected) s x where "wq_pending (pm_queue m) = (s, x) # wq_pending (pm_queue m1)" "ev = Some (Rejected (s, x))" "pm_file m1 = pm_file m"
        "wq_rejected (pm_queue m1)"
proof -
  obtain q ev' where q: "wq_settle ok (pm_queue m) = (q, ev')" by (cases "wq_settle ok (pm_queue m)")
  with assms have m1: "m1 = m\<lparr>pm_queue := q, pm_file := (case ev' of Some (Written (s, _)) \<Rightarrow> Some s | _ \<Rightarrow> pm_file m)\<rparr>" "ev = ev'"
    by (auto simp: settle_file_def)
  from q show ?thesis
  proof (cases rule: wq_settle_cases)
    case idle
    with m1 that(1) show ?thesis by simp
  next
    case (written j)
    with m1 that(2) [of "fst j" "snd j"] show ?thesis by (simp add: split_def)
  next
    case (rejected j)
    with m1 that(3) [of "fst j" "snd j"] show ?thesis by simp
  qed
qed

lemma settle_file_simps:
  assumes "settle_file ok m = (m1, ev)"
  shows "pm_jobs m1 = pm_jobs m" "pm_tasks m1 = pm_tasks m" "pm_dataRoot m1 = pm_dataRoot m" "pm_platform m1 = pm_platform m"
    "pm_arch m1 = pm_arch m" "pm_catalog m1 = pm_catalog m" "pm_baseline m1 = pm_baseline m" "pm_state m1 = pm_state m"
    "pm_env m1 = pm_env m"
  using assms by (auto simp: settle_file_def split: prod.splits)

lemma save_event_cases:
  fixes ev :: "(ProviderState \<times> save_waiter) wq_event option"
  obtains (none) "ev = None" | (activation_written) s where "ev = Some (Written (s, ActivationSave))"
    | (activation_rejected) s where "ev = Some (Rejected (s, ActivationSave))"
    | (install_written) s jid where "ev = Some (Written (s, InstallSave jid))"
    | (install_rejected) s jid where "ev = Some (Rejected (s, InstallSave jid))"
  by (metis option.exhaust prod.exhaust save_waiter.exhaust wq_event.exhaust)

lemma after_save_cases:
  obtains (quiet) "after_save cwd now message ev m = m" "\<forall>s jid. ev \<noteq> Some (Written (s, InstallSave jid)) \<and> (ev = Some (Rejected (s, InstallSave jid)) \<longrightarrow> map_of (pm_tasks m) jid = None)"
    | (applied) e m1 where "applyEnvironment cwd m = (e, m1)" "\<exists>n. after_save cwd now message ev m = m1\<lparr>pm_changes := n\<rparr>"
        "\<forall>s jid. ev \<noteq> Some (Rejected (s, InstallSave jid)) \<and> (ev = Some (Written (s, InstallSave jid)) \<longrightarrow> map_of (pm_tasks m) jid = None)"
    | (moved) s jid t m1 where "ev = Some (Written (s, InstallSave jid))" "map_of (pm_tasks m) jid = Some t"
        "applyEnvironment cwd m = (None, m1)" "after_save cwd now message ev m = move_to jid Notifying m1"
    | (failed) s jid t e m1 where "ev = Some (Written (s, InstallSave jid)) \<or> ev = Some (Rejected (s, InstallSave jid))"
        "map_of (pm_tasks m) jid = Some t" "m1 = m \<or> (\<exists>e. applyEnvironment cwd m = (e, m1))"
        "after_save cwd now message ev m = fail_job jid now (it_definition t) e m1"
proof -
  obtain e m1 where ap: "applyEnvironment cwd m = (e, m1)" by (cases "applyEnvironment cwd m")
  show ?thesis
  proof (cases rule: save_event_cases [of ev])
    case (activation_written s)
    have "\<exists>n. after_save cwd now message ev m = m1\<lparr>pm_changes := n\<rparr>"
      using activation_written ap by (cases e) (auto simp: after_save_def intro: exI [of _ "pm_changes m1"])
    with activation_written ap that(2) show ?thesis by auto
  next
    case (install_written s jid)
    note 4 = this
    show ?thesis
    proof (cases "map_of (pm_tasks m) jid")
      case None
      with 4 ap have "after_save cwd now message ev m = m1\<lparr>pm_changes := pm_changes m1\<rparr>" by (simp add: after_save_def)
      with None 4 ap that(2) show ?thesis by blast
    next
      case (Some t)
      with 4 ap that(3) [of s jid t m1] that(4) [of s jid t m1] show ?thesis
        by (cases e) (auto simp: after_save_def)
    qed
  next
    case (install_rejected s jid)
    with that(1) that(4) [of s jid _ m] show ?thesis
      by (cases "map_of (pm_tasks m) jid") (auto simp: after_save_def)
  qed (use that(1) in \<open>auto simp: after_save_def\<close>)
qed

lemma saves_ok_done:
  assumes "saves_ok m" "savers m = jid # savers m'" "\<And>k. saving m' k = (if k = jid then False else saving m k)"
  shows "saves_ok m'"
  using assms by (auto simp: saves_ok_def)

lemma settle_save_ok:
  assumes "jobs_ok m" "saves_ok m"
  shows "jobs_ok (settle_save cwd now message ok m) \<and> saves_ok (settle_save cwd now message ok m)"
proof -
  obtain m1 ev where f: "settle_file ok m = (m1, ev)" by (cases "settle_file ok m")
  note f_simps = settle_file_simps [OF f]
  have ok1: "jobs_ok m1" using assms(1) by (rule jobs_ok_unchanged) (simp_all add: same_config_def f_simps)
  have saving1: "saving m1 k = saving m k" for k by (simp add: saving_def f_simps)
  have savers1: "savers m = (case ev of Some (Written x) \<Rightarrow> (case saver x of None \<Rightarrow> [] | Some k \<Rightarrow> [k])
      | Some (Rejected x) \<Rightarrow> (case saver x of None \<Rightarrow> [] | Some k \<Rightarrow> [k]) | None \<Rightarrow> []) @ savers m1"
    using f by (cases rule: settle_file_cases) (simp_all add: savers_def)
  define m2 where "m2 = after_save cwd now message ev m1"
  have eq: "settle_save cwd now message ok m = m2" by (simp add: settle_save_def f m2_def)
  have no_saver: "saves_ok m3" if "\<forall>s jid. ev \<noteq> Some (Written (s, InstallSave jid)) \<and> ev \<noteq> Some (Rejected (s, InstallSave jid))"
    "pm_queue m3 = pm_queue m1" "pm_tasks m3 = pm_tasks m1" for m3
  proof -
    have "savers m = savers m1"
    proof (cases rule: save_event_cases [of ev])
      case (install_written s jid)
      with that(1) show ?thesis by blast
    next
      case (install_rejected s jid)
      with that(1) show ?thesis by blast
    qed (simp_all add: savers1)
    then have "savers m3 = savers m" by (simp only: savers_def that(2))
    with assms(2) saving1 that(3) show ?thesis by (simp add: saves_ok_def saving_def)
  qed
  have some_saver: "map_of (pm_tasks m1) jid \<noteq> None" if "ev = Some (Written (s, InstallSave jid)) \<or> ev = Some (Rejected (s, InstallSave jid))" for s jid
  proof -
    have "jid \<in> set (savers m)" using that savers1 by auto
    then have "saving m jid" using assms(2) by (simp add: saves_ok_def)
    then show ?thesis using saving1 [of jid] by (auto simp: saving_def split: option.splits)
  qed
  show ?thesis unfolding eq
  proof (cases rule: after_save_cases [of cwd now message ev m1])
    case quiet
    with some_saver have "\<forall>s jid. ev \<noteq> Some (Written (s, InstallSave jid)) \<and> ev \<noteq> Some (Rejected (s, InstallSave jid))"
      by metis
    with quiet ok1 no_saver [of m1] show "jobs_ok m2 \<and> saves_ok m2" by (simp add: m2_def)
  next
    case (applied e m3)
    with some_saver have "\<forall>s jid. ev \<noteq> Some (Written (s, InstallSave jid)) \<and> ev \<noteq> Some (Rejected (s, InstallSave jid))"
      by metis
    moreover obtain n where n: "m2 = m3\<lparr>pm_changes := n\<rparr>" using applied(2) m2_def by blast
    moreover have "jobs_ok m2"
      using ok1 by (rule jobs_ok_unchanged) (simp_all add: n same_config_def applyEnvironment_simps [OF applied(1)])
    ultimately show "jobs_ok m2 \<and> saves_ok m2"
      using no_saver [of m2] by (simp add: applyEnvironment_simps [OF applied(1)])
  next
    case (moved s jid t m3)
    note ap = applyEnvironment_simps [OF moved(3)]
    have m2: "m2 = move_to jid Notifying m3" by (simp add: m2_def moved(4))
    have stage: "it_stage t = Saving"
      using savers1 moved(1,2) assms(2) saving1 [of jid] by (auto simp: saves_ok_def saving_def)
    obtain j where j: "map_of (pm_jobs m1) jid = Some j" using jobs_okD(1) [OF ok1 moved(2)] by blast
    have "jobs_ok m2" unfolding m2
      by (rule jobs_ok_move [OF ok1 j moved(2), where j' = j and t' = "Some (t\<lparr>it_stage := Notifying\<rparr>)"])
         (use j moved(2) stage jobs_okD(2) [OF ok1 j] ap in
          \<open>auto simp: job_simps same_config_def frame_simps job_fits_def\<close>)
    moreover have "saves_ok m2"
    proof (rule saves_ok_done [OF assms(2), of jid])
      show "savers m = jid # savers m2" using savers1 moved(1) by (simp add: m2 savers_def frame_simps ap)
      show "saving m2 k = (if k = jid then False else saving m k)" for k
        using moved(2) ap saving1 [of k] by (simp add: m2 saving_def job_simps)
    qed
    ultimately show "jobs_ok m2 \<and> saves_ok m2" by blast
  next
    case (failed s jid t e m3)
    have ap: "pm_jobs m3 = pm_jobs m1" "pm_tasks m3 = pm_tasks m1" "same_config m1 m3" "pm_queue m3 = pm_queue m1"
      using failed(3) by (auto simp: same_config_def applyEnvironment_simps)
    have m2: "m2 = fail_job jid now (it_definition t) e m3" by (simp add: m2_def failed(4))
    have "jobs_ok m3" using jobs_ok_unchanged [OF ok1 ap(3,1,2)] .
    then have "jobs_ok m2" unfolding m2 by (rule fail_job_ok) (simp add: ap failed(2))
    moreover have "saves_ok m2"
    proof (rule saves_ok_done [OF assms(2), of jid])
      show "savers m = jid # savers m2" using savers1 failed(1) by (auto simp: m2 savers_def frame_simps ap)
      show "saving m2 k = (if k = jid then False else saving m k)" for k
        using failed(2) ap saving1 [of k] by (simp add: m2 saving_def fail_job_def job_simps)
    qed
    ultimately show "jobs_ok m2 \<and> saves_ok m2" by blast
  qed
qed

lemma activate_simps:
  "pm_jobs (activate cwd a m) = pm_jobs m" "pm_tasks (activate cwd a m) = pm_tasks m" "same_config m (activate cwd a m)"
  "pm_state (activate cwd a m) = (pm_state m)\<lparr>ps_active := a\<rparr>" "pm_file (activate cwd a m) = pm_file m"
  "pm_queue (activate cwd a m) =
     (if pm_dataRoot m \<noteq> None then wq_add ((pm_state m)\<lparr>ps_active := a\<rparr>, ActivationSave) (pm_queue m) else pm_queue m)"
proof -
  let ?m = "submit ((pm_state m)\<lparr>ps_active := a\<rparr>, ActivationSave) m"
  obtain e m2 where ap: "applyEnvironment cwd ?m = (e, m2)" by (cases "applyEnvironment cwd ?m")
  obtain n where n: "activate cwd a m = (if pm_dataRoot m = None then m2\<lparr>pm_changes := n\<rparr> else ?m)"
  proof (cases e)
    case None
    with ap that [of "Suc (pm_changes m2)"] show ?thesis by (simp add: activate_def Let_def)
  next
    case (Some x)
    with ap that [of "pm_changes m2"] show ?thesis by (simp add: activate_def Let_def)
  qed
  show "pm_jobs (activate cwd a m) = pm_jobs m" "pm_tasks (activate cwd a m) = pm_tasks m" "same_config m (activate cwd a m)"
    "pm_state (activate cwd a m) = (pm_state m)\<lparr>ps_active := a\<rparr>" "pm_file (activate cwd a m) = pm_file m"
    "pm_queue (activate cwd a m) =
       (if pm_dataRoot m \<noteq> None then wq_add ((pm_state m)\<lparr>ps_active := a\<rparr>, ActivationSave) (pm_queue m) else pm_queue m)"
    by (simp_all add: n applyEnvironment_simps [OF ap] same_config_def submit_simps job_simps)
qed

lemma activateTexProvider_cases:
  obtains (refused) e where "activateTexProvider cwd pid m = (m, Inl e)"
    | (activated) a where "activateTexProvider cwd pid m = (activate cwd a m, Inr ())"
        "case a of None \<Rightarrow> True | Some i \<Rightarrow> i = pid \<and> (\<exists>r\<in>set (ps_installed (pm_state m)). ip_id r = pid)"
proof (cases "requireDefinition pid m")
  case (Inl e)
  with that(1) show ?thesis by (simp add: activateTexProvider_def)
next
  case (Inr d)
  show ?thesis
  proof (cases "List.find (\<lambda>r. ip_id r = pid \<and> ip_version r = pd_version d) (ps_installed (pm_state m))")
    case None
    with Inr that(1) that(2) [of None] show ?thesis
      by (cases "pd_kind d = TexDistribution"; cases "pid = js ''system-tex''") (auto simp: activateTexProvider_def)
  next
    case (Some r)
    with find_Some_mem [OF Some] Inr that(1) that(2) [of None] that(2) [of "Some pid"] show ?thesis
      by (cases "pd_kind d = TexDistribution"; cases "pid = js ''system-tex''") (auto simp: activateTexProvider_def)
  qed
qed

lemma activate_ok:
  assumes "jobs_ok m" "saves_ok m"
  shows "jobs_ok (activate cwd a m) \<and> saves_ok (activate cwd a m)"
proof
  show "jobs_ok (activate cwd a m)" by (rule jobs_ok_unchanged [OF assms(1) activate_simps(3,1,2)])
  have "savers (activate cwd a m) = savers m" by (simp add: savers_def activate_simps)
  with assms(2) show "saves_ok (activate cwd a m)" by (simp add: saves_ok_def saving_def activate_simps)
qed

text \<open>What every operation keeps, a run keeps.\<close>

lemma provider_act_ok:
  assumes "jobs_ok m" "saves_ok m" "fresh_op op m" "provider_act h op (m, w) = (m', w')"
  shows "jobs_ok m' \<and> saves_ok m'"
proof (cases op)
  case (StartInstall uuid now hex pid)
  obtain r where "startInstall uuid now hex pid m = (m', r)" using assms(4) StartInstall by (cases "startInstall uuid now hex pid m") simp
  with startInstall_ok [OF assms(1)] startInstall_saves [OF assms(1,2)] assms(3) StartInstall show ?thesis by simp
next
  case (ContinueInstall now jid)
  with assms install_continues_ok [OF assms(1)] continue_saves [OF assms(1,2)] show ?thesis
    by (cases "continue_install h now jid (m, w)") auto
next
  case (SettleSave now message ok)
  with assms settle_save_ok [OF assms(1,2)] show ?thesis by auto
next
  case (ActivateTex pid)
  with assms activate_ok [OF assms(1,2)] show ?thesis
    by (cases rule: activateTexProvider_cases [of "ph_cwd h" pid m]) auto
qed

lemma run_keeps:
  assumes "provider_run h mw mw'" "I (fst mw)"
    "\<And>op m w m' w'. I m \<Longrightarrow> fresh_op op m \<Longrightarrow> provider_act h op (m, w) = (m', w') \<Longrightarrow> I m'"
  shows "I (fst mw')"
  using assms(1)
proof induction
  case (step mw1 op)
  then show ?case using assms(3) [of "fst mw1" op "snd mw1" "fst (provider_act h op mw1)" "snd (provider_act h op mw1)"] by simp
qed (rule assms(2))

lemma run_jobs_ok:
  assumes "provider_run h mw mw'" "jobs_ok (fst mw)" "saves_ok (fst mw)"
  shows "jobs_ok (fst mw') \<and> saves_ok (fst mw')"
proof (rule run_keeps [where I = "\<lambda>m. jobs_ok m \<and> saves_ok m", OF assms(1)])
  show "jobs_ok m' \<and> saves_ok m'"
    if "jobs_ok m \<and> saves_ok m" "fresh_op op m" "provider_act h op (m, w) = (m', w')" for op m w m' w'
    using provider_act_ok [OF _ _ that(2,3)] that(1) by simp
qed (use assms(2,3) in simp)

section \<open>One job per provider\<close>

lemma open_manager_start:
  assumes "open_manager h dataRoot platform arch catalog penv created r saved w = Inr m"
  shows "pm_jobs m = []" "pm_tasks m = []" "pm_queue m = wq_new" "pm_catalog m = catalog"
proof -
  obtain m0 where new: "new_manager (ph_cwd h) dataRoot platform arch catalog penv = Inr m0"
    using assms by (cases "new_manager (ph_cwd h) dataRoot platform arch catalog penv") (auto simp: open_manager_def)
  then have m0: "pm_jobs m0 = []" "pm_tasks m0 = []" "pm_queue m0 = wq_new" "pm_catalog m0 = catalog"
    by (auto simp: new_manager_def Let_def split: if_splits sum.splits)
  have "m = m0 \<or> (\<exists>s f. applyEnvironment (ph_cwd h) (m0\<lparr>pm_state := s, pm_file := f\<rparr>) = (None, m))"
    using assms by (auto simp: open_manager_def new Let_def split: if_splits sum.splits prod.splits option.splits)
  with m0 applyEnvironment_simps show "pm_jobs m = []" "pm_tasks m = []" "pm_queue m = wq_new" "pm_catalog m = catalog"
    by (fastforce dest: applyEnvironment_simps)+
qed

lemma start_ok:
  assumes "pm_jobs m = []" "pm_tasks m = []" "pm_queue m = wq_new"
  shows "jobs_ok m" "saves_ok m"
  using assms by (simp_all add: jobs_ok_def saves_ok_def savers_def saving_def)

text \<open>A finished job is never touched again.\<close>

lemma finished_stays:
  assumes "jobs_ok m" "saves_ok m" "fresh_op op m" "provider_act h op (m, w) = (m', w')"
    "map_of (pm_jobs m) k = Some j" "finished j"
  shows "map_of (pm_jobs m') k = Some j"
proof (cases op)
  case (StartInstall uuid now hex pid)
  obtain r where "startInstall uuid now hex pid m = (m', r)" using assms(4) StartInstall by (cases "startInstall uuid now hex pid m") simp
  moreover have "k \<noteq> uuid" using assms(3,5) StartInstall by auto
  ultimately show ?thesis using assms(5) by (cases rule: startInstall_cases) (simp_all add: update_conv')
next
  case (ContinueInstall now jid)
  show ?thesis
  proof (cases "continue_install h now jid (m, w)")
    case (Some mw)
    then have c: "continue_install h now jid (m, w) = Some (m', w')" using assms(4) ContinueInstall by simp
    then obtain t where t: "map_of (pm_tasks m) jid = Some t"
      by (cases "map_of (pm_tasks m) jid") (auto simp: continue_install_def)
    have "k = jid \<Longrightarrow> it_stage t = Cleaning"
      using jobs_okD(2) [OF assms(1,5)] t assms(6) by (auto simp: job_fits_def finished_def split: install_stage.splits)
    with c t show ?thesis
      by (cases rule: continue_install_cases)
         (use assms(5) in \<open>auto simp: fail_job_def begin_download_def complete_job_def record_progress_def Let_def job_simps
            split: option.split\<close>)
  qed (use assms(4,5) ContinueInstall in simp)
next
  case (SettleSave now message ok)
  obtain m1 ev where f: "settle_file ok m = (m1, ev)" by (cases "settle_file ok m")
  have m': "m' = after_save (ph_cwd h) now message ev m1" using assms(4) SettleSave f by (simp add: settle_save_def)
  note fs = settle_file_simps [OF f]
  have other: "k \<noteq> jid" if "ev = Some (Written (s, InstallSave jid)) \<or> ev = Some (Rejected (s, InstallSave jid))" for s jid
  proof
    assume "k = jid"
    have "jid \<in> set (savers m)" using f that by (cases rule: settle_file_cases) (auto simp: savers_def)
    then obtain t where "map_of (pm_tasks m) jid = Some t" "it_stage t = Saving"
      using assms(2) by (auto simp: saves_ok_def saving_def split: option.splits)
    with jobs_okD(2) [OF assms(1,5)] assms(6) \<open>k = jid\<close> show False by (auto simp: job_fits_def finished_def)
  qed
  show ?thesis
  proof (cases rule: after_save_cases [of "ph_cwd h" now message ev m1])
    case (applied e m3)
    then obtain n where "m' = m3\<lparr>pm_changes := n\<rparr>" using m' by blast
    with applyEnvironment_simps [OF applied(1)] fs assms(5) show ?thesis by simp
  next
    case (moved s jid t m3)
    with applyEnvironment_simps [OF moved(3)] fs assms(5) m' show ?thesis by (simp add: job_simps)
  next
    case (failed s jid t e m3)
    then have "pm_jobs m3 = pm_jobs m" using fs by (auto simp: applyEnvironment_simps)
    with failed other [of s jid] assms(5) m' show ?thesis by (simp add: fail_job_def job_simps)
  qed (use m' fs assms(5) in simp)
next
  case (ActivateTex pid)
  with assms(4,5) show ?thesis
    by (cases rule: activateTexProvider_cases [of "ph_cwd h" pid m]) (auto simp: activate_simps)
qed

lemma run_finished:
  assumes "provider_run h mw mw'" "jobs_ok (fst mw)" "saves_ok (fst mw)" "map_of (pm_jobs (fst mw)) k = Some j" "finished j"
  shows "map_of (pm_jobs (fst mw')) k = Some j"
proof -
  have "jobs_ok (fst mw') \<and> saves_ok (fst mw') \<and> map_of (pm_jobs (fst mw')) k = Some j"
  proof (rule run_keeps [OF assms(1), where I = "\<lambda>m. jobs_ok m \<and> saves_ok m \<and> map_of (pm_jobs m) k = Some j"])
    show "jobs_ok m' \<and> saves_ok m' \<and> map_of (pm_jobs m') k = Some j"
      if "jobs_ok m \<and> saves_ok m \<and> map_of (pm_jobs m) k = Some j" "fresh_op op m" "provider_act h op (m, w) = (m', w')"
      for op m w m' w'
      using provider_act_ok [OF _ _ that(2,3)] finished_stays [OF _ _ that(2,3) _ assms(5)] that(1) by blast
  qed (use assms in simp)
  then show ?thesis by blast
qed

text \<open>
  C9: from \<open>open\<close> on, whatever is started, continued, written and activated, a provider has at most one
  job that is not finished; a job is finished exactly when it has a time of finishing, has an error
  exactly when it failed, and reaches the installation only with exactly the bytes of its asset
  downloaded; \<open>waitForJob\<close> answers with a finished job; and a finished job never changes.
\<close>

theorem provider_jobs:
  assumes "open_manager h dataRoot platform arch catalog penv created r saved w0 = Inr m0" "provider_run h (m0, w0) (m, w)"
  shows "(\<forall>k j k' j'. map_of (pm_jobs m) k = Some j \<longrightarrow> map_of (pm_jobs m) k' = Some j' \<longrightarrow> \<not> finished j \<longrightarrow> \<not> finished j' \<longrightarrow>
       job_providerId j = job_providerId j' \<longrightarrow> k = k') \<and>
    (\<forall>k j. map_of (pm_jobs m) k = Some j \<longrightarrow>
       (finished j \<longleftrightarrow> job_finishedAt j \<noteq> None) \<and> (job_status j = JobFailed \<longleftrightarrow> job_error j \<noteq> None) \<and>
       (job_status j \<in> {JobInstalling, JobCompleted} \<longrightarrow> job_downloadedBytes j = job_totalBytes j) \<and>
       (\<forall>i. waitForJob k m = Some i \<longrightarrow> i = Inr j \<and> finished j)) \<and>
    (\<forall>k j m' w'. map_of (pm_jobs m) k = Some j \<longrightarrow> finished j \<longrightarrow> provider_run h (m, w) (m', w') \<longrightarrow>
       map_of (pm_jobs m') k = Some j)"
proof -
  have ok: "jobs_ok m" "saves_ok m" using run_jobs_ok [OF assms(2)] start_ok open_manager_start [OF assms(1)] by simp_all
  have "(finished j \<longleftrightarrow> job_finishedAt j \<noteq> None) \<and> (job_status j = JobFailed \<longleftrightarrow> job_error j \<noteq> None) \<and>
      (job_status j \<in> {JobInstalling, JobCompleted} \<longrightarrow> job_downloadedBytes j = job_totalBytes j) \<and>
      (\<forall>i. waitForJob k m = Some i \<longrightarrow> i = Inr j \<and> finished j)" if "map_of (pm_jobs m) k = Some j" for k j
    using jobs_okD(2) [OF ok(1) that] that by (cases "map_of (pm_tasks m) k") (auto simp: job_fits_def waitForJob_def)
  moreover have "map_of (pm_jobs m') k = Some j"
    if "map_of (pm_jobs m) k = Some j" "finished j" "provider_run h (m, w) (m', w')" for k j m' w'
    using run_finished [OF that(3)] ok that by simp
  ultimately show ?thesis using jobs_okD(3) [OF ok(1)] by blast
qed

text \<open>A manager opened on an empty data root, with the texlab installation started.\<close>

definition demo_options :: "string + provider_manager" where
  "demo_options = open_manager demo_host (Some (abs_path [js ''d''])) (js ''linux'') (js ''x64'') CURATED_PROVIDER_CATALOG
     (\<lambda>_. None) True Missing True ()"

definition demo_opened :: provider_manager where
  "demo_opened = \<lparr>pm_dataRoot = Some (abs_path [js ''d'']), pm_platform = js ''linux'', pm_arch = js ''x64'',
     pm_catalog = CURATED_PROVIDER_CATALOG, pm_baseline = map (\<lambda>k. (k, None)) BASELINE_KEYS, pm_state = initial_state,
     pm_file = None, pm_queue = wq_new, pm_jobs = [], pm_tasks = [],
     pm_env = restore_baseline (map (\<lambda>k. (k, None)) BASELINE_KEYS) (\<lambda>_. None), pm_events = [], pm_changes = 0\<rparr>"

lemma demo_opened: "demo_options = Inr demo_opened"
proof -
  have "validateDataRoot (js ''/'') (abs_path [js ''d'']) = Inr (abs_path [js ''d''])"
    by (simp add: validateDataRoot_def posix_resolve_abs_path good_seg_def js_def)
  moreover have "ph_cwd demo_host = js ''/''" by (simp add: demo_host_def)
  moreover have "abs_path [js ''d''] \<noteq> []" by (simp add: abs_path_def)
  ultimately show ?thesis
    by (simp add: demo_options_def open_manager_def new_manager_def Let_def removeMissing_def initial_state_def
        applyEnvironment_def applied_environment_def demo_opened_def)
qed

definition demo_started :: provider_manager where
  "demo_started = fst (startInstall (js ''u1'') (js ''t1'') (js ''00'') (js ''texlab'') demo_opened)"

lemma demo_run: "provider_run demo_host (demo_opened, ()) (demo_started, ())"
  using provider_run.step [OF provider_run.start, of "StartInstall (js ''u1'') (js ''t1'') (js ''00'') (js ''texlab'')" "(demo_opened, ())"]
  by (simp add: demo_started_def demo_opened_def)

lemma demo_job:
  "\<exists>j t. map_of (pm_jobs demo_started) (js ''u1'') = Some j \<and> map_of (pm_tasks demo_started) (js ''u1'') = Some t \<and>
     job_status j = JobQueued \<and> it_stage t = Preparing"
  by (simp add: demo_started_def demo_opened_def startInstall_def requireDefinition_def find_definition_def
      CURATED_PROVIDER_CATALOG_def system_tex_def tinytex_def texlab_def assetFor_def githubAsset_def Let_def)

theorem provider_jobs_witness:
  "\<exists>j. map_of (pm_jobs demo_started) (js ''u1'') = Some j \<and> job_finishedAt j = None \<and> job_error j = None"
proof -
  obtain j where j: "map_of (pm_jobs demo_started) (js ''u1'') = Some j" "job_status j = JobQueued" using demo_job by blast
  from provider_jobs [OF demo_opened [unfolded demo_options_def] demo_run] j(1)
  have "(finished j \<longleftrightarrow> job_finishedAt j \<noteq> None) \<and> (job_status j = JobFailed \<longleftrightarrow> job_error j \<noteq> None)" by blast
  with j show ?thesis by (auto simp: finished_def)
qed

section \<open>Every job ends\<close>

text \<open>No continuation hangs: every operation of the host settles.\<close>

lemma reads_settle [act_intros]: "settles (looking f)" "settles (from_result v)"
  by (auto simp: settles_def looking_def from_result_def raise_def give_def split: sum.split)

lemma install_parts_settle [act_intros]:
  "settles (extractProviderAsset h a archivePath destination)" "settles (findExecutable h platform root name)"
  by (auto simp: extractProviderAsset_def findExecutable_def split: prod.split intro!: act_intros)

lemma locate_executables_settles: "settles (locate_executables h platform d root names found)"
proof (induction names arbitrary: found)
  case (Cons name names)
  then show ?case by (auto intro!: act_intros split: option.split)
qed (simp add: act_intros)

lemma install_files_settles: "settles (install_files h platform dataRoot d a stagingRoot)"
  unfolding install_files_def Let_def
  by (intro act_intros locate_executables_settles) (auto intro!: act_intros split: option.split)

text \<open>How far a task has to go, and how many writes are queued before its own.\<close>

fun stage_rank :: "install_stage \<Rightarrow> nat" where
  "stage_rank Preparing = 6" | "stage_rank Fetching = 5" | "stage_rank Unpacking = 4" | "stage_rank Saving = 3"
| "stage_rank Notifying = 2" | "stage_rank Cleaning = 1"

definition job_rank :: "provider_manager \<Rightarrow> jsstring \<Rightarrow> nat" where
  "job_rank m k = (case map_of (pm_tasks m) k of None \<Rightarrow> 0 | Some t \<Rightarrow> stage_rank (it_stage t))"

definition writes_before :: "provider_manager \<Rightarrow> jsstring \<Rightarrow> nat" where
  "writes_before m k = length (takeWhile (\<lambda>x. saver x \<noteq> Some k) (wq_pending (pm_queue m)))"

lemma stage_rank_pos: "0 < stage_rank st"
  by (cases st) simp_all

lemma continue_rank:
  assumes "jobs_ok m" "continue_install h now jid (m, w) = Some (m', w')"
  shows "job_rank m' jid < job_rank m jid" "k \<noteq> jid \<Longrightarrow> map_of (pm_tasks m') k = map_of (pm_tasks m) k"
proof -
  obtain t where t: "map_of (pm_tasks m) jid = Some t"
    using assms(2) by (cases "map_of (pm_tasks m) jid") (auto simp: continue_install_def)
  have "job_rank m' jid < job_rank m jid \<and> (k \<noteq> jid \<longrightarrow> map_of (pm_tasks m') k = map_of (pm_tasks m) k)"
    using assms(2) t
  proof (cases rule: continue_install_cases)
    case (failed progress e)
    then have "1 < stage_rank (it_stage t)" by (cases "it_stage t") simp_all
    with failed(4) t show ?thesis
      by (auto simp: job_rank_def fail_job_def record_progress_def job_simps split: option.split)
  next
    case cleaned
    with t show ?thesis by (simp add: job_rank_def AList.delete_conv')
  qed (use t in \<open>simp_all add: job_rank_def begin_download_def complete_job_def record_progress_def Let_def job_simps
         split: option.split\<close>)
  then show "job_rank m' jid < job_rank m jid" "k \<noteq> jid \<Longrightarrow> map_of (pm_tasks m') k = map_of (pm_tasks m) k" by simp_all
qed

lemma continue_defined:
  assumes "map_of (pm_tasks m) jid = Some t" "it_stage t \<noteq> Saving"
  shows "continue_install h now jid (m, w) \<noteq> None"
proof -
  obtain r w1 where r: "install_files h (pm_platform m) (data_root m) (it_definition t) (it_asset t) (it_staging t) w = (r, w1)"
    by (metis prod.collapse)
  have "r \<noteq> Unsettled"
    using install_files_settles [of h "pm_platform m" "data_root m" "it_definition t" "it_asset t" "it_staging t"] r
    by (metis fst_conv settles_def)
  with assms r show ?thesis
    by (cases "it_stage t"; cases r) (auto simp: continue_install_def Let_def split: sum.split prod.split option.split)
qed

text \<open>A settled write brings the job that waits for it further.\<close>

lemma settle_save_cases:
  assumes "saves_ok m"
  obtains (other) "map_of (pm_tasks (settle_save cwd now message ok m)) k = map_of (pm_tasks m) k"
      "wq_pending (pm_queue (settle_save cwd now message ok m)) = tl (wq_pending (pm_queue m))"
      "case wq_pending (pm_queue m) of [] \<Rightarrow> True | x # rest \<Rightarrow> saver x \<noteq> Some k"
    | (own) x t st where "wq_pending (pm_queue m) = x # wq_pending (pm_queue (settle_save cwd now message ok m))" "saver x = Some k"
      "map_of (pm_tasks m) k = Some t" "map_of (pm_tasks (settle_save cwd now message ok m)) k = Some (t\<lparr>it_stage := st\<rparr>)"
      "st = Notifying \<or> st = Cleaning"
proof -
  obtain m1 ev where f: "settle_file ok m = (m1, ev)" by (cases "settle_file ok m")
  note fs = settle_file_simps [OF f]
  define m' where "m' = after_save cwd now message ev m1"
  have eq: "settle_save cwd now message ok m = m'" by (simp add: settle_save_def f m'_def)
  have pending: "wq_pending (pm_queue m) = (case ev of None \<Rightarrow> [] | Some (Written x) \<Rightarrow> [x] | Some (Rejected x) \<Rightarrow> [x]) @ wq_pending (pm_queue m1)"
    and idle: "ev = None \<Longrightarrow> wq_pending (pm_queue m) = []"
    using f by (cases rule: settle_file_cases; simp add: settle_file_def wq_settle_def split: list.splits prod.splits if_splits)+
  have some: "map_of (pm_tasks m) jid \<noteq> None" if "ev = Some (Written (s, InstallSave jid)) \<or> ev = Some (Rejected (s, InstallSave jid))" for s jid
  proof -
    have "jid \<in> set (savers m)" using that pending by (auto simp: savers_def)
    with assms show ?thesis by (auto simp: saves_ok_def saving_def split: option.splits)
  qed
  show ?thesis
  proof (cases rule: after_save_cases [of cwd now message ev m1])
    case quiet
    have no: "ev \<noteq> Some (Written (s, InstallSave jid)) \<and> ev \<noteq> Some (Rejected (s, InstallSave jid))" for s jid
      using quiet(2) some [of s jid] fs by metis
    show ?thesis
    proof (rule that(1)[unfolded eq])
      show "wq_pending (pm_queue m') = tl (wq_pending (pm_queue m))"
        using pending idle quiet(1) by (cases rule: save_event_cases [of ev]) (simp_all add: m'_def)
      show "case wq_pending (pm_queue m) of [] \<Rightarrow> True | x # rest \<Rightarrow> saver x \<noteq> Some k"
        using pending idle no by (cases rule: save_event_cases [of ev]) simp_all
    qed (simp add: m'_def quiet(1) fs)
  next
    case (applied e m3)
    have no: "ev \<noteq> Some (Written (s, InstallSave jid)) \<and> ev \<noteq> Some (Rejected (s, InstallSave jid))" for s jid
      using applied(3) some [of s jid] fs by metis
    obtain n where m': "m' = m3\<lparr>pm_changes := n\<rparr>" using applied(2) m'_def by blast
    note ap = applyEnvironment_simps [OF applied(1)]
    show ?thesis
    proof (rule that(1)[unfolded eq])
      show "wq_pending (pm_queue m') = tl (wq_pending (pm_queue m))"
        using pending idle by (cases rule: save_event_cases [of ev]) (simp_all add: m' ap)
      show "case wq_pending (pm_queue m) of [] \<Rightarrow> True | x # rest \<Rightarrow> saver x \<noteq> Some k"
        using pending idle no by (cases rule: save_event_cases [of ev]) simp_all
    qed (simp add: m' ap fs)
  next
    case (moved s jid t m3)
    note ap = applyEnvironment_simps [OF moved(3)]
    have m': "m' = move_to jid Notifying m3" by (simp add: m'_def moved(4))
    show ?thesis
    proof (cases "k = jid")
      case True
      with pending moved ap fs show ?thesis
        by (intro that(2)[unfolded eq, of "(s, InstallSave jid)" t Notifying]) (simp_all add: m' frame_simps job_simps)
    next
      case False
      with pending moved ap fs show ?thesis
        by (intro that(1)[unfolded eq]) (simp_all add: m' frame_simps job_simps)
    qed
  next
    case (failed s jid t e m3)
    have ap: "pm_tasks m3 = pm_tasks m1" "pm_queue m3 = pm_queue m1"
      using failed(3) by (auto simp: applyEnvironment_simps)
    have m': "m' = fail_job jid now (it_definition t) e m3" by (simp add: m'_def failed(4))
    have head: "\<exists>x. wq_pending (pm_queue m) = x # wq_pending (pm_queue m1) \<and> saver x = Some jid"
      using failed(1) pending by auto
    then obtain x where x: "wq_pending (pm_queue m) = x # wq_pending (pm_queue m1)" "saver x = Some jid" by blast
    show ?thesis
    proof (cases "k = jid")
      case True
      with x failed ap fs show ?thesis
        by (intro that(2)[unfolded eq, of x t Cleaning]) (simp_all add: m' frame_simps fail_job_def job_simps)
    next
      case False
      with x failed ap fs show ?thesis
        by (intro that(1)[unfolded eq]) (simp_all add: m' frame_simps fail_job_def job_simps)
    qed
  qed
qed

lemma settle_save_rank:
  assumes "saves_ok m" "saving m k"
  shows "job_rank (settle_save cwd now message ok m) k < job_rank m k \<or>
       (job_rank (settle_save cwd now message ok m) k = job_rank m k \<and>
        writes_before (settle_save cwd now message ok m) k < writes_before m k)"
  using assms(1)
proof (cases rule: settle_save_cases [where k = k and cwd = cwd and now = now and message = message and ok = ok])
  case other
  have "k \<in> set (savers m)" using assms by (simp add: saves_ok_def)
  then have "wq_pending (pm_queue m) \<noteq> []" by (auto simp: savers_def)
  with other show ?thesis by (cases "wq_pending (pm_queue m)") (simp_all add: job_rank_def writes_before_def)
next
  case (own x t st)
  have "stage_rank st < 3" using own(5) by auto
  moreover have "it_stage t = Saving" using assms(2) own(3) by (simp add: saving_def)
  ultimately show ?thesis using own(3,4) by (simp add: job_rank_def)
qed

text \<open>No operation takes a job back, except that starting a job gives it its task.\<close>

lemma act_rank:
  assumes "jobs_ok m" "saves_ok m" "fresh_op op m" "provider_act h op (m, w) = (m', w')" "map_of (pm_jobs m) k \<noteq> None"
  shows "job_rank m' k \<le> job_rank m k"
proof (cases op)
  case (StartInstall uuid now hex pid)
  obtain r where "startInstall uuid now hex pid m = (m', r)" using assms(4) StartInstall by (cases "startInstall uuid now hex pid m") simp
  moreover have "k \<noteq> uuid" using assms(3,5) StartInstall by auto
  ultimately show ?thesis by (cases rule: startInstall_cases) (simp_all add: update_conv' job_rank_def)
next
  case (ContinueInstall now jid)
  show ?thesis
  proof (cases "continue_install h now jid (m, w)")
    case (Some mw)
    then have c: "continue_install h now jid (m, w) = Some (m', w')" using assms(4) ContinueInstall by simp
    show ?thesis
    proof (cases "k = jid")
      case True
      with continue_rank(1) [OF assms(1) c] show ?thesis by simp
    next
      case False
      with continue_rank(2) [OF assms(1) c False] show ?thesis by (simp add: job_rank_def)
    qed
  qed (use assms(4) ContinueInstall in simp)
next
  case (SettleSave now message ok)
  have m': "m' = settle_save (ph_cwd h) now message ok m" using assms(4) SettleSave by simp
  show ?thesis
  proof (cases "saving m k")
    case True
    from settle_save_rank [OF assms(2) True, of "ph_cwd h" now message ok] show ?thesis unfolding m' by auto
  next
    case False
    have "k \<notin> set (savers m)" using False assms(2) by (simp add: saves_ok_def)
    from assms(2) show ?thesis
    proof (cases rule: settle_save_cases [where k = k and cwd = "ph_cwd h" and now = now and message = message and ok = ok])
      case (own x t st)
      with \<open>k \<notin> set (savers m)\<close> show ?thesis by (simp add: savers_def)
    qed (simp add: m' job_rank_def)
  qed
next
  case (ActivateTex pid)
  with assms(4) show ?thesis
    by (cases rule: activateTexProvider_cases [of "ph_cwd h" pid m]) (auto simp: activate_simps job_rank_def)
qed

text \<open>
  C17: every installation ends. As long as the job has a task, the task is one of a chain of six stages:
  unless it waits for its write, it can always be continued and every continuation brings it further, no
  operation ever takes it back, and while it waits every write that settles brings it further or its
  own write nearer. Without a task the job is completed or failed.
\<close>

theorem provider_job_ends:
  assumes "open_manager h dataRoot platform arch catalog penv created r saved w0 = Inr m0" "provider_run h (m0, w0) (m, w)"
    "map_of (pm_jobs m) jid = Some j"
  shows "job_rank m jid \<le> 6 \<and>
    (job_rank m jid = 0 \<longrightarrow> finished j) \<and>
    (0 < job_rank m jid \<and> \<not> saving m jid \<longrightarrow>
       (\<exists>m' w'. continue_install h now jid (m, w) = Some (m', w') \<and> job_rank m' jid < job_rank m jid)) \<and>
    (saving m jid \<longrightarrow> (\<exists>s. (s, InstallSave jid) \<in> set (wq_pending (pm_queue m))) \<and>
       (let m' = settle_save (ph_cwd h) now message ok m
        in job_rank m' jid < job_rank m jid \<or> (job_rank m' jid = job_rank m jid \<and> writes_before m' jid < writes_before m jid))) \<and>
    (\<forall>op m' w'. fresh_op op m \<longrightarrow> provider_act h op (m, w) = (m', w') \<longrightarrow> job_rank m' jid \<le> job_rank m jid)"
proof -
  have ok: "jobs_ok m" "saves_ok m" using run_jobs_ok [OF assms(2)] start_ok open_manager_start [OF assms(1)] by simp_all
  have "stage_rank st \<le> 6" for st by (cases st) simp_all
  then have "job_rank m jid \<le> 6" by (auto simp: job_rank_def split: option.split)
  moreover have "finished j" if "job_rank m jid = 0"
  proof -
    have "map_of (pm_tasks m) jid = None"
      using that stage_rank_pos by (cases "map_of (pm_tasks m) jid") (auto simp: job_rank_def, metis less_irrefl)
    with jobs_okD(2) [OF ok(1) assms(3)] show ?thesis by (simp add: job_fits_def)
  qed
  moreover have "\<exists>m' w'. continue_install h now jid (m, w) = Some (m', w') \<and> job_rank m' jid < job_rank m jid"
    if rank: "0 < job_rank m jid" "\<not> saving m jid"
  proof -
    obtain t where t: "map_of (pm_tasks m) jid = Some t"
      using rank(1) by (cases "map_of (pm_tasks m) jid") (auto simp: job_rank_def)
    with rank(2) have "it_stage t \<noteq> Saving" by (simp add: saving_def)
    from continue_defined [OF t this, of h now w] obtain m' w' where c: "continue_install h now jid (m, w) = Some (m', w')"
      by (cases "continue_install h now jid (m, w)") auto
    from continue_rank(1) [OF ok(1) c] c show ?thesis by blast
  qed
  moreover have "\<exists>s. (s, InstallSave jid) \<in> set (wq_pending (pm_queue m))" if "saving m jid"
  proof -
    have "jid \<in> set (savers m)" using that ok(2) by (simp add: saves_ok_def)
    then obtain x where "x \<in> set (wq_pending (pm_queue m))" "saver x = Some jid" by (auto simp: savers_def split: option.splits)
    then show ?thesis by (cases x rule: saver.cases) auto
  qed
  moreover have "job_rank m' jid \<le> job_rank m jid" if "fresh_op op m" "provider_act h op (m, w) = (m', w')" for op m' w'
    using act_rank [OF ok that] assms(3) by simp
  ultimately show ?thesis using settle_save_rank [OF ok(2)] unfolding Let_def by blast
qed

theorem provider_job_ends_witness:
  "job_rank demo_started (js ''u1'') \<le> 6 \<and>
   (\<exists>m' w'. continue_install demo_host (js ''t2'') (js ''u1'') (demo_started, ()) = Some (m', w') \<and>
      job_rank m' (js ''u1'') < job_rank demo_started (js ''u1''))"
proof -
  obtain j t where j: "map_of (pm_jobs demo_started) (js ''u1'') = Some j"
    and t: "map_of (pm_tasks demo_started) (js ''u1'') = Some t" "it_stage t = Preparing"
    using demo_job by blast
  have "0 < job_rank demo_started (js ''u1'')" "\<not> saving demo_started (js ''u1'')"
    using t by (simp_all add: job_rank_def saving_def)
  with provider_job_ends [OF demo_opened [unfolded demo_options_def] demo_run j] show ?thesis by blast
qed

end
