(* ===== verification/ProviderEnvironment.thy ===== *)
theory ProviderEnvironment
  imports ProviderJobs
begin

text \<open>
  What the manager of \<^verbatim>\<open>typr-server/providerManager.ts\<close> keeps on disk and in the process environment: the
  records of installed providers, the variables that lead to their executables, and the state file.
\<close>

section \<open>Changes of the state\<close>

text \<open>An installation adds a record with all executables of its provider, an activation names an installed one.\<close>

inductive provider_change :: "ManagedProviderDefinition list \<Rightarrow> ProviderState \<Rightarrow> ProviderState \<Rightarrow> bool" for catalog s where
  installed: "d \<in> set catalog \<Longrightarrow> fst ` set executables = set (pd_executableNames d) \<Longrightarrow> \<forall>(name, p)\<in>set executables. plain_path p \<Longrightarrow>
    provider_change catalog s (installed_state now d executables s)"
| activated: "case a of None \<Rightarrow> True | Some i \<Rightarrow> \<exists>r\<in>set (ps_installed s). ip_id r = i \<Longrightarrow>
    provider_change catalog s (s\<lparr>ps_active := a\<rparr>)"

text \<open>The environment is left alone or computed anew from the state.\<close>

definition env_change :: "jsstring \<Rightarrow> provider_manager \<Rightarrow> provider_manager \<Rightarrow> bool" where
  "env_change cwd m m' \<longleftrightarrow>
     pm_env m' = pm_env m \<or>
     (\<exists>m1. pm_env m' = snd (applied_environment cwd m1) \<and> pm_env m1 = pm_env m \<and> pm_state m1 = pm_state m' \<and> same_config m m1)"

definition file_view :: "provider_manager \<Rightarrow>
   ProviderState \<times> ProviderState option \<times> (ProviderState \<times> save_waiter) write_queue \<times> jsstring option"
where
  "file_view m = (pm_state m, pm_file m, pm_queue m, pm_dataRoot m)"

lemma frame_view: "frame m' = frame m \<Longrightarrow> file_view m' = file_view m \<and> same_config m m' \<and> env_change cwd m m'"
  by (simp add: frame_def file_view_def same_config_def env_change_def)

lemma env_change_applied:
  assumes "applyEnvironment cwd m = (e, m1)" "frame m' = frame m1"
  shows "file_view m' = file_view m \<and> same_config m m' \<and> env_change cwd m m'"
proof -
  note ap = applyEnvironment_simps [OF assms(1)]
  have "file_view m' = file_view m" "same_config m m'"
    using assms(2) ap by (simp_all add: frame_def file_view_def same_config_def)
  moreover have "pm_env m' = snd (applied_environment cwd m)" "pm_state m = pm_state m'"
    using assms(2) ap by (simp_all add: frame_def)
  then have "env_change cwd m m'" unfolding env_change_def by (intro disjI2 exI [of _ m]) (simp add: same_config_def)
  ultimately show ?thesis by blast
qed

lemma activate_change:
  "file_view (activate cwd a m) = file_view (submit ((pm_state m)\<lparr>ps_active := a\<rparr>, ActivationSave) m)"
  "env_change cwd m (activate cwd a m)"
proof -
  show "file_view (activate cwd a m) = file_view (submit ((pm_state m)\<lparr>ps_active := a\<rparr>, ActivationSave) m)"
    using activate_simps(3) [where m = m and cwd = cwd and a = a] by (simp add: file_view_def activate_simps submit_simps same_config_def)
  let ?m = "submit ((pm_state m)\<lparr>ps_active := a\<rparr>, ActivationSave) m"
  obtain e m2 where ap: "applyEnvironment cwd ?m = (e, m2)" by (cases "applyEnvironment cwd ?m")
  have env: "pm_env (activate cwd a m) = (if pm_dataRoot m = None then pm_env m2 else pm_env ?m)"
    using ap by (cases e) (simp_all add: activate_def Let_def)
  show "env_change cwd m (activate cwd a m)"
  proof (cases "pm_dataRoot m")
    case None
    with env applyEnvironment_simps(11) [OF ap] show ?thesis
      unfolding env_change_def by (intro disjI2 exI [of _ ?m]) (simp add: submit_simps same_config_def activate_simps)
  next
    case (Some root)
    with env show ?thesis by (simp add: env_change_def submit_simps)
  qed
qed

lemma provider_act_cases:
  assumes "jobs_ok m" "provider_act h op (m, w) = (m', w')"
  obtains (quiet) "file_view m' = file_view m" "same_config m m'" "env_change (ph_cwd h) m m'"
    | (changed) x where "provider_change (pm_catalog m) (pm_state m) (fst x)" "file_view m' = file_view (submit x m)"
        "same_config m m'" "env_change (ph_cwd h) m m'"
    | (settled) ok where "file_view m' = file_view (fst (settle_file ok m))" "same_config m m'" "env_change (ph_cwd h) m m'"
proof (cases op)
  case (StartInstall uuid now hex pid)
  obtain r where "startInstall uuid now hex pid m = (m', r)" using assms(2) StartInstall by (cases "startInstall uuid now hex pid m") simp
  then have "frame m' = frame m" by (cases rule: startInstall_cases) (simp_all add: frame_def)
  from frame_view [OF this] that(1) show ?thesis by blast
next
  case (ContinueInstall now jid)
  show ?thesis
  proof (cases "continue_install h now jid (m, w)")
    case None
    then have "frame m' = frame m" using assms(2) ContinueInstall by simp
    from frame_view [OF this] that(1) show ?thesis by blast
  next
    case (Some mw)
    then have c: "continue_install h now jid (m, w) = Some (m', w')" using assms(2) ContinueInstall by simp
    then obtain t where t: "map_of (pm_tasks m) jid = Some t"
      by (cases "map_of (pm_tasks m) jid") (auto simp: continue_install_def)
    have d: "it_definition t \<in> set (pm_catalog m)" using jobs_okD(1) [OF assms(1) t] by (auto simp: task_fits_def)
    show ?thesis
    proof (cases "frame m' = frame m")
      case True
      from frame_view [OF this] that(1) show ?thesis by blast
    next
      case False
      with c t obtain ex where ex: "fst ` set ex = set (pd_executableNames (it_definition t))" "\<forall>(name, p)\<in>set ex. plain_path p"
        and m': "m' = move_to jid Saving (submit (installed_state now (it_definition t) ex (pm_state m), InstallSave jid) m)"
        by (cases rule: continue_install_cases) (simp_all add: job_simps, simp_all add: frame_def)
      show ?thesis
      proof (rule that(2))
        show "provider_change (pm_catalog m) (pm_state m) (fst (installed_state now (it_definition t) ex (pm_state m), InstallSave jid))"
          using d ex by (auto intro: provider_change.installed)
      qed (simp_all add: m' file_view_def frame_simps submit_simps same_config_def env_change_def)
    qed
  qed
next
  case (SettleSave now message ok)
  obtain m1 ev where f: "settle_file ok m = (m1, ev)" by (cases "settle_file ok m")
  have m': "m' = after_save (ph_cwd h) now message ev m1" using assms(2) SettleSave f by (simp add: settle_save_def)
  note fs = settle_file_simps [OF f]
  have "file_view m' = file_view m1 \<and> same_config m1 m' \<and> env_change (ph_cwd h) m1 m'"
  proof (cases rule: after_save_cases [of "ph_cwd h" now message ev m1])
    case quiet
    with m' frame_view [of m1 m1] show ?thesis by simp
  next
    case (applied e m2)
    then obtain n where "frame m' = frame m2" using m' by (auto simp: frame_def)
    with env_change_applied [OF applied(1)] show ?thesis by blast
  next
    case (moved s jid t m2)
    then have "frame m' = frame m2" using m' by (simp add: job_simps)
    with env_change_applied [OF moved(3)] show ?thesis by blast
  next
    case (failed s jid t e m2)
    then have fr: "frame m' = frame m2" using m' by (simp add: job_simps)
    from failed(3) show ?thesis
    proof
      assume "m2 = m1"
      with fr frame_view [of m' m1] show ?thesis by simp
    next
      assume "\<exists>e. applyEnvironment (ph_cwd h) m1 = (e, m2)"
      with env_change_applied [OF _ fr] show ?thesis by blast
    qed
  qed
  moreover have "env_change (ph_cwd h) m m'" if "env_change (ph_cwd h) m1 m'"
    using that fs unfolding env_change_def by (auto simp: same_config_def)
  ultimately show ?thesis using that(3) [of ok] fs f by (simp add: same_config_def)
next
  case (ActivateTex pid)
  show ?thesis
  proof (cases rule: activateTexProvider_cases [of "ph_cwd h" pid m])
    case (refused e)
    then have "frame m' = frame m" using assms(2) ActivateTex by simp
    from frame_view [OF this] that(1) show ?thesis by blast
  next
    case (activated a)
    then have m': "m' = activate (ph_cwd h) a m" using assms(2) ActivateTex by simp
    have "provider_change (pm_catalog m) (pm_state m) ((pm_state m)\<lparr>ps_active := a\<rparr>)"
      using activated(2) by (intro provider_change.activated) (auto split: option.splits)
    with activate_change [where m = m and cwd = "ph_cwd h" and a = a] activate_simps(3) [where m = m and cwd = "ph_cwd h" and a = a] show ?thesis
      by (intro that(2) [of "((pm_state m)\<lparr>ps_active := a\<rparr>, ActivationSave)"]) (simp_all add: m')
  qed
qed

section \<open>Installed records\<close>

text \<open>The ids and versions of a catalog name directories.\<close>

definition catalog_ok :: "ManagedProviderDefinition list \<Rightarrow> bool" where
  "catalog_ok catalog \<longleftrightarrow> list_all (\<lambda>d. good_seg (pd_id d) \<and> good_seg (pd_version d)) catalog"

lemma curated_catalog_ok: "catalog_ok CURATED_PROVIDER_CATALOG"
  by (simp add: catalog_ok_def CURATED_PROVIDER_CATALOG_def system_tex_def tinytex_def texlab_def tinymist_def good_seg_def js_def)

definition record_ok :: "ManagedProviderDefinition list \<Rightarrow> InstalledProviderRecord \<Rightarrow> bool" where
  "record_ok catalog r \<longleftrightarrow>
     (\<exists>d\<in>set catalog. pd_id d = ip_id r \<and> pd_version d = ip_version r \<and> fst ` set (ip_executables r) \<subseteq> set (pd_executableNames d)) \<and>
     (\<forall>(name, p)\<in>set (ip_executables r). plain_path p)"

definition records_ok :: "ManagedProviderDefinition list \<Rightarrow> ProviderState \<Rightarrow> bool" where
  "records_ok catalog s \<longleftrightarrow> list_all (record_ok catalog) (ps_installed s)"

lemma fits_record_ok: "fits catalog r \<Longrightarrow> record_ok catalog r"
proof -
  assume f: "fits catalog r"
  then obtain d where d: "map_of (rev (map (\<lambda>d. (pd_id d, d)) catalog)) (ip_id r) = Some d" "pd_version d = ip_version r"
    "list_all (\<lambda>(name, p). name \<in> set (pd_executableNames d) \<and> \<not> posix_isAbsolute p \<and> js ''..'' \<notin> set (path_pieces p)) (ip_executables r)"
    by (auto simp: fits_def split: option.splits)
  have "d \<in> set catalog" "pd_id d = ip_id r" using map_of_SomeD [OF d(1)] by auto
  with d show ?thesis
    by (fastforce simp: record_ok_def list_all_iff plain_path_def dest: path_pieces_split)
qed

lemma change_records:
  assumes "provider_change catalog s s'" "records_ok catalog s"
  shows "records_ok catalog s'"
  using assms by (induction rule: provider_change.induct) (auto simp: records_ok_def list_all_iff installed_state_def record_ok_def)

lemma validateProviderState_active: "validateProviderState catalog v = Inr s \<Longrightarrow> ps_active s \<noteq> Some []"
  by (auto simp: validateProviderState_def optional_string_def split: option.splits json.splits if_splits sum.splits)

lemma opened_state:
  assumes "open_manager h dataRoot platform arch catalog penv created r saved w = Inr m"
  shows "records_ok catalog (pm_state m)"
    "pm_baseline m = map (\<lambda>k. (k, penv k)) BASELINE_KEYS"
    "pm_env m = penv \<or> (\<exists>m1. pm_env m = snd (applied_environment (ph_cwd h) m1) \<and> pm_env m1 = penv \<and> pm_state m1 = pm_state m \<and> same_config m m1)"
    "pm_file m = Some (pm_state m) \<or> pm_file m = None \<and> pm_state m = initial_state"
    "ps_active (pm_state m) \<noteq> Some []"
proof -
  obtain m0 where new: "new_manager (ph_cwd h) dataRoot platform arch catalog penv = Inr m0"
    using assms by (cases "new_manager (ph_cwd h) dataRoot platform arch catalog penv") (auto simp: open_manager_def)
  then have m0: "pm_state m0 = initial_state" "pm_file m0 = None" "pm_env m0 = penv" "pm_baseline m0 = map (\<lambda>k. (k, penv k)) BASELINE_KEYS"
    by (auto simp: new_manager_def Let_def split: if_splits sum.splits)
  have "records_ok catalog (pm_state m) \<and> pm_baseline m = map (\<lambda>k. (k, penv k)) BASELINE_KEYS \<and>
    (pm_env m = penv \<or> (\<exists>m1. pm_env m = snd (applied_environment (ph_cwd h) m1) \<and> pm_env m1 = penv \<and> pm_state m1 = pm_state m \<and> same_config m m1)) \<and>
    (pm_file m = Some (pm_state m) \<or> pm_file m = None \<and> pm_state m = initial_state) \<and> ps_active (pm_state m) \<noteq> Some []"
  proof (cases "pm_dataRoot m0 = None")
    case True
    with assms new m0 show ?thesis by (simp add: open_manager_def records_ok_def initial_state_def)
  next
    case False
    define rs where "rs = (case r of Missing \<Rightarrow> Inr initial_state | Unreadable \<Rightarrow> Inl ''the state file could not be read''
        | Parsed v \<Rightarrow> validateProviderState catalog v)"
    obtain s where s: "rs = Inr s" using assms False by (cases rs) (auto simp: open_manager_def new rs_def [symmetric] split: if_splits)
    define s' where "s' = removeMissing h w (data_root m0) s"
    define f where "f = (if length (ps_installed s') \<noteq> length (ps_installed s) then Some s' else if r = Missing then None else Some s)"
    have ap: "applyEnvironment (ph_cwd h) (m0\<lparr>pm_state := s', pm_file := f\<rparr>) = (None, m)"
      using assms False s by (auto simp: open_manager_def new rs_def [symmetric] s'_def [symmetric] f_def [symmetric] Let_def
          split: if_splits prod.splits option.splits)
    note aps = applyEnvironment_simps [OF ap]
    have "records_ok catalog s"
    proof (cases r)
      case (Parsed v)
      then have "list_all (fits catalog) (ps_installed s)" using s by (auto simp: rs_def dest: validateProviderState_fits)
      then show ?thesis by (auto simp: records_ok_def list_all_iff fits_record_ok)
    qed (use s in \<open>auto simp: rs_def records_ok_def initial_state_def\<close>)
    then have rec: "records_ok catalog s'"
      by (auto simp: s'_def removeMissing_def records_ok_def list_all_iff Let_def)
    have same: "length (ps_installed s') = length (ps_installed s) \<Longrightarrow> s' = s"
      by (auto simp: s'_def removeMissing_def Let_def split: if_splits)
    have "ps_active s \<noteq> Some []"
      using s by (cases r) (auto simp: rs_def initial_state_def dest: validateProviderState_active)
    then have "ps_active s' \<noteq> Some []" by (simp add: s'_def removeMissing_def Let_def)
    moreover have "f = Some s' \<or> f = None \<and> s' = initial_state"
      using same s by (auto simp: f_def rs_def)
    ultimately show ?thesis using aps m0 rec
      by (auto simp: same_config_def intro!: exI [of _ "m0\<lparr>pm_state := s', pm_file := f\<rparr>"])
  qed
  then show "records_ok catalog (pm_state m)" "pm_baseline m = map (\<lambda>k. (k, penv k)) BASELINE_KEYS"
    "pm_env m = penv \<or> (\<exists>m1. pm_env m = snd (applied_environment (ph_cwd h) m1) \<and> pm_env m1 = penv \<and> pm_state m1 = pm_state m \<and> same_config m m1)"
    "pm_file m = Some (pm_state m) \<or> pm_file m = None \<and> pm_state m = initial_state"
    "ps_active (pm_state m) \<noteq> Some []"
    by blast+
qed

section \<open>The variables\<close>

text \<open>A path in the install root of a provider of the catalog.\<close>

definition placed :: "ManagedProviderDefinition list \<Rightarrow> jsstring \<Rightarrow> jsstring \<Rightarrow> bool" where
  "placed catalog root p \<longleftrightarrow> (\<exists>d\<in>set catalog. inside (installRoot root (pd_id d) (pd_version d)) p)"

text \<open>
  The environment a manager may leave: every variable but the path as the service was started with, or
  one of the manager's pointing into an install root; the path as before or behind directories of such
  executables.
\<close>

definition NATIVE_PATH :: string where "NATIVE_PATH = ''TYPR_COMPANION_NATIVE_PATH''"

definition path_before :: "process_env \<Rightarrow> jsstring" where
  "path_before penv = (case penv NATIVE_PATH of Some p \<Rightarrow> p | None \<Rightarrow> (case penv ''PATH'' of Some p \<Rightarrow> p | None \<Rightarrow> []))"

definition confined_env :: "ManagedProviderDefinition list \<Rightarrow> jsstring \<Rightarrow> process_env \<Rightarrow> process_env \<Rightarrow> bool" where
  "confined_env catalog root penv env \<longleftrightarrow>
     (\<forall>k. k \<noteq> NATIVE_PATH \<longrightarrow> env k = penv k \<or> (k \<in> set BASELINE_KEYS \<and> (\<exists>p. env k = Some p \<and> placed catalog root p))) \<and>
     (env NATIVE_PATH = penv NATIVE_PATH \<or>
      (\<exists>ps. list_all (placed catalog root) ps \<and>
         env NATIVE_PATH = Some (join_with [58] (filter (\<lambda>p. p \<noteq> []) (map posix_dirname ps @ [path_before penv])))))"

lemma native_key: "NATIVE_PATH \<in> set BASELINE_KEYS"
  by (simp add: BASELINE_KEYS_def NATIVE_PATH_def)

lemma confined_refl: "confined_env catalog root penv penv"
  by (simp add: confined_env_def)

lemma confined_upd:
  assumes "confined_env catalog root penv env" "key \<in> set BASELINE_KEYS" "key \<noteq> NATIVE_PATH" "placed catalog root p"
  shows "confined_env catalog root penv (env(key := Some p))"
  using assms by (simp add: confined_env_def)

lemma confined_path:
  assumes "confined_env catalog root penv env" "list_all (placed catalog root) ps"
  shows "confined_env catalog root penv
    (env(NATIVE_PATH := Some (join_with [58] (filter (\<lambda>p. p \<noteq> []) (map posix_dirname ps @ [path_before penv])))))"
  using assms unfolding confined_env_def by (auto simp del: filter_append map_append)

lemma confined_set:
  assumes "confined_env catalog root penv env" "key \<in> set BASELINE_KEYS" "key \<noteq> NATIVE_PATH"
    "list_all (placed catalog root) (map snd ex)"
  shows "confined_env catalog root penv (set_executable key name ex env)"
proof (cases "map_of ex (js name)")
  case (Some p)
  then have "placed catalog root p" using assms(4) map_of_SomeD by (fastforce simp: list_all_iff)
  with assms Some show ?thesis by (simp add: set_executable_def confined_env_def)
qed (use assms(1) in \<open>simp add: set_executable_def\<close>)

lemma restore_all:
  "fold (\<lambda>(k, v) env. env(k := v)) (map (\<lambda>k. (k, penv k)) ks) env = (\<lambda>k. if k \<in> set ks then penv k else env k)"
proof (induction ks arbitrary: env)
  case (Cons a ks)
  have "fold (\<lambda>(k, v) env. env(k := v)) (map (\<lambda>k. (k, penv k)) (a # ks)) env =
      fold (\<lambda>(k, v) env. env(k := v)) (map (\<lambda>k. (k, penv k)) ks) (env(a := penv a))" by simp
  also have "\<dots> = (\<lambda>k. if k \<in> set ks then penv k else (env(a := penv a)) k)" by (rule Cons.IH)
  finally have eq: "fold (\<lambda>(k, v) env. env(k := v)) (map (\<lambda>k. (k, penv k)) (a # ks)) env =
      (\<lambda>k. if k \<in> set ks then penv k else (env(a := penv a)) k)" .
  show ?case unfolding eq by (rule ext) auto
qed simp

lemma restore_confined:
  assumes "confined_env catalog root penv env"
  shows "restore_baseline (map (\<lambda>k. (k, penv k)) BASELINE_KEYS) env = penv"
proof
  fix k
  have "env k = penv k" if "k \<notin> set BASELINE_KEYS"
    using assms native_key that unfolding confined_env_def by metis
  then show "restore_baseline (map (\<lambda>k. (k, penv k)) BASELINE_KEYS) env k = penv k"
    unfolding restore_baseline_def restore_all by simp
qed

lemma absolute_placed:
  assumes "catalog_ok catalog" "record_ok catalog r" "list_all good_seg ss" "ss \<noteq> []"
  obtains ex where "absoluteExecutables cwd (abs_path ss) r = Inr ex" "list_all (placed catalog (abs_path ss)) (map snd ex)"
    "placed catalog (abs_path ss) (installRoot (abs_path ss) (ip_id r) (ip_version r))"
    "map fst ex = map fst (ip_executables r)"
proof -
  obtain d where d: "d \<in> set catalog" "pd_id d = ip_id r" "pd_version d = ip_version r"
    and plain: "\<forall>(name, p)\<in>set (ip_executables r). plain_path p"
    using assms(2) by (auto simp: record_ok_def)
  have seg: "good_seg (ip_id r)" "good_seg (ip_version r)" using assms(1) d by (auto simp: catalog_ok_def list_all_iff)
  let ?rs = "ss @ [js ''providers'', ip_id r, ip_version r]"
  note root = installRoot_segments [OF assms(3,4) seg]
  have inside: "inside (installRoot (abs_path ss) (ip_id r) (ip_version r)) (abs_path (?rs @ ns))" if "list_all good_seg ns" for ns
    unfolding root(1) by (rule inside_under) (use root(2) that in simp)
  let ?ex = "map (\<lambda>(name, p). (name, abs_path (?rs @ kept p))) (ip_executables r)"
  have "absoluteExecutables cwd (abs_path ss) r = Inr ?ex"
    by (rule absoluteExecutables_plain [OF root _ plain]) simp
  moreover have "placed catalog (abs_path ss) (abs_path (?rs @ kept p))" if "(name, p) \<in> set (ip_executables r)" for name p
  proof -
    have "plain_path p" using plain that by blast
    then have "list_all good_seg (kept p)" using kept_join by (simp add: plain_path_def)
    from inside [OF this] d show ?thesis unfolding placed_def by (intro bexI [of _ d]) simp_all
  qed
  then have "list_all (placed catalog (abs_path ss)) (map snd ?ex)" by (auto simp: list_all_iff)
  moreover have "placed catalog (abs_path ss) (installRoot (abs_path ss) (ip_id r) (ip_version r))"
    using inside [of "[]"] d unfolding placed_def root(1) by (intro bexI [of _ d]) (simp_all add: root(1))
  moreover have "map fst ?ex = map fst (ip_executables r)" by (simp add: split_def)
  ultimately show ?thesis by (rule that)
qed

lemma lsp_confined:
  assumes "catalog_ok catalog" "list_all (record_ok catalog) rs" "list_all good_seg ss" "ss \<noteq> []"
    "confined_env catalog (abs_path ss) penv env"
  shows "\<exists>env'. lsp_environments cwd (abs_path ss) rs env = (None, env') \<and> confined_env catalog (abs_path ss) penv env'"
  using assms(2,5)
proof (induction rs arbitrary: env)
  case (Cons r rs)
  then have "record_ok catalog r" by simp
  then obtain ex where ex: "absoluteExecutables cwd (abs_path ss) r = Inr ex" "list_all (placed catalog (abs_path ss)) (map snd ex)"
    by (rule absolute_placed [OF assms(1) _ assms(3,4), of r cwd])
  have keys: "''TYPR_COMPANION_TEXLAB_EXECUTABLE'' \<in> set BASELINE_KEYS" "''TYPR_COMPANION_TINYMIST_EXECUTABLE'' \<in> set BASELINE_KEYS"
    "''TYPR_COMPANION_TEXLAB_EXECUTABLE'' \<noteq> NATIVE_PATH" "''TYPR_COMPANION_TINYMIST_EXECUTABLE'' \<noteq> NATIVE_PATH"
    by (simp_all add: BASELINE_KEYS_def NATIVE_PATH_def)
  define env1 where "env1 = (if ip_id r = js ''texlab'' then set_executable ''TYPR_COMPANION_TEXLAB_EXECUTABLE'' ''texlab'' ex env else env)"
  define env2 where "env2 = (if ip_id r = js ''tinymist'' then set_executable ''TYPR_COMPANION_TINYMIST_EXECUTABLE'' ''tinymist'' ex env1 else env1)"
  have "confined_env catalog (abs_path ss) penv env1" using Cons.prems(2) confined_set [OF _ keys(1,3) ex(2)] by (simp add: env1_def)
  then have c: "confined_env catalog (abs_path ss) penv env2" using confined_set [OF _ keys(2,4) ex(2)] by (simp add: env2_def)
  have "lsp_environment cwd (abs_path ss) r env = Inr env2" by (simp add: lsp_environment_def ex(1) env1_def env2_def Let_def)
  with Cons.IH [OF _ c] Cons.prems(1) show ?case by simp
qed simp

lemma active_confined:
  assumes "catalog_ok catalog" "record_ok catalog r" "list_all good_seg ss" "ss \<noteq> []"
  shows "\<exists>env. active_environment cwd (abs_path ss) r penv = Inr env \<and> confined_env catalog (abs_path ss) penv env"
proof -
  obtain ex where ex: "absoluteExecutables cwd (abs_path ss) r = Inr ex" "list_all (placed catalog (abs_path ss)) (map snd ex)"
    and root: "placed catalog (abs_path ss) (installRoot (abs_path ss) (ip_id r) (ip_version r))"
    by (rule absolute_placed [OF assms, of cwd])
  define env1 where "env1 = set_executable ''TYPR_COMPANION_TLMGR_EXECUTABLE'' ''tlmgr'' ex
      (set_executable ''TYPR_COMPANION_LATEXMK_EXECUTABLE'' ''latexmk'' ex
        (set_executable ''TYPR_COMPANION_PDFLATEX_EXECUTABLE'' ''pdflatex'' ex penv))"
  define env2 where "env2 = env1(''TYPR_COMPANION_TEX_ROOT'' := Some (installRoot (abs_path ss) (ip_id r) (ip_version r)))"
  have c1: "confined_env catalog (abs_path ss) penv env1"
    unfolding env1_def by (intro confined_set confined_refl ex(2)) (simp_all add: BASELINE_KEYS_def NATIVE_PATH_def)
  have untouched: "env1 NATIVE_PATH = penv NATIVE_PATH" "env1 ''PATH'' = penv ''PATH''"
    by (auto simp: env1_def set_executable_def NATIVE_PATH_def split: option.split)
  let ?bins = "rev (remdups (rev (map (\<lambda>(name, p). posix_dirname p) ex)))"
  have "set ?bins \<subseteq> posix_dirname ` set (map snd ex)" by force
  then obtain ps where ps: "?bins = map posix_dirname ps" "set ps \<subseteq> set (map snd ex)"
  proof -
    have "\<exists>ps. xs = map posix_dirname ps \<and> set ps \<subseteq> A" if "set xs \<subseteq> posix_dirname ` A" for xs :: "jsstring list" and A
      using that
    proof (induction xs)
      case (Cons x xs)
      then obtain ps q where "xs = map posix_dirname ps" "set ps \<subseteq> A" "x = posix_dirname q" "q \<in> A" by auto
      then show ?case by (intro exI [of _ "q # ps"]) simp
    qed simp
    with \<open>set ?bins \<subseteq> _\<close> that show thesis by blast
  qed
  have same: "env2 ''TYPR_COMPANION_NATIVE_PATH'' = penv NATIVE_PATH" "env2 ''PATH'' = penv ''PATH''"
    using untouched by (simp_all add: env2_def NATIVE_PATH_def)
  have "(case env2 ''TYPR_COMPANION_NATIVE_PATH'' of
      Some p \<Rightarrow> p | None \<Rightarrow> (case env2 ''PATH'' of Some p \<Rightarrow> p | None \<Rightarrow> [])) = path_before penv"
    unfolding path_before_def same ..
  then have "extended_path ex env2 = join_with [58] (filter (\<lambda>p. p \<noteq> []) (map posix_dirname ps @ [path_before penv]))"
    unfolding extended_path_def Let_def ps(1) by simp
  moreover have "list_all (placed catalog (abs_path ss)) ps" using ps(2) ex(2) by (auto simp: list_all_iff)
  moreover have "confined_env catalog (abs_path ss) penv env2"
    unfolding env2_def by (rule confined_upd [OF c1 _ _ root]) (simp_all add: BASELINE_KEYS_def NATIVE_PATH_def)
  ultimately have "confined_env catalog (abs_path ss) penv (env2(''TYPR_COMPANION_NATIVE_PATH'' := Some (extended_path ex env2)))"
    using confined_path [of catalog "abs_path ss" penv env2 ps] by (simp add: NATIVE_PATH_def del: filter_append)
  moreover have "active_environment cwd (abs_path ss) r penv = Inr (env2(''TYPR_COMPANION_NATIVE_PATH'' := Some (extended_path ex env2)))"
    by (simp add: active_environment_def ex(1) env1_def env2_def Let_def)
  ultimately show ?thesis by blast
qed

lemma applied_confined:
  assumes "catalog_ok (pm_catalog m)" "records_ok (pm_catalog m) (pm_state m)" "pm_dataRoot m = Some (abs_path ss)"
    "list_all good_seg ss" "ss \<noteq> []" "pm_baseline m = map (\<lambda>k. (k, penv k)) BASELINE_KEYS"
    "confined_env (pm_catalog m) (abs_path ss) penv (pm_env m)"
  shows "\<exists>env. applied_environment cwd m = (None, env) \<and> confined_env (pm_catalog m) (abs_path ss) penv env"
proof -
  have root: "data_root m = abs_path ss" using assms(3) by (simp add: data_root_def)
  have base: "restore_baseline (pm_baseline m) (pm_env m) = penv" using restore_confined [OF assms(7)] assms(6) by simp
  have recs: "list_all (record_ok (pm_catalog m)) (ps_installed (pm_state m))" using assms(2) by (simp add: records_ok_def)
  let ?active = "List.find (\<lambda>r. Some (ip_id r) = ps_active (pm_state m)) (ps_installed (pm_state m))"
  show ?thesis
  proof (cases ?active)
    case None
    with lsp_confined [OF assms(1) recs assms(4,5) confined_refl, of cwd penv] show ?thesis
      by (simp add: applied_environment_def base root)
  next
    case (Some r)
    then have "record_ok (pm_catalog m) r" using recs find_Some_mem [OF Some] by (simp add: list_all_iff)
    from active_confined [OF assms(1) this assms(4,5), of cwd penv] obtain env where
      "active_environment cwd (abs_path ss) r penv = Inr env" "confined_env (pm_catalog m) (abs_path ss) penv env" by blast
    with Some lsp_confined [OF assms(1) recs assms(4,5), of penv env cwd] show ?thesis
      by (simp add: applied_environment_def base root)
  qed
qed

text \<open>A run keeps the records, the baseline and a confined environment.\<close>

definition environment_ok :: "process_env \<Rightarrow> jsstring list \<Rightarrow> provider_manager \<Rightarrow> bool" where
  "environment_ok penv ss m \<longleftrightarrow>
     catalog_ok (pm_catalog m) \<and> records_ok (pm_catalog m) (pm_state m) \<and> pm_dataRoot m = Some (abs_path ss) \<and>
     pm_baseline m = map (\<lambda>k. (k, penv k)) BASELINE_KEYS \<and> confined_env (pm_catalog m) (abs_path ss) penv (pm_env m)"

lemma env_change_ok:
  assumes "env_change cwd m m'" "environment_ok penv ss m" "list_all good_seg ss" "ss \<noteq> []"
    "records_ok (pm_catalog m) (pm_state m')" "same_config m m'"
  shows "environment_ok penv ss m'"
proof (cases "pm_env m' = pm_env m")
  case True
  with assms show ?thesis by (simp add: environment_ok_def same_config_def)
next
  case False
  with assms(1) obtain m1 where m1: "pm_env m' = snd (applied_environment cwd m1)" "pm_env m1 = pm_env m" "pm_state m1 = pm_state m'"
    "same_config m m1" by (auto simp: env_change_def)
  have "\<exists>env. applied_environment cwd m1 = (None, env) \<and> confined_env (pm_catalog m1) (abs_path ss) penv env"
    by (rule applied_confined [OF _ _ _ assms(3,4)]) (use assms(2,5) m1 in \<open>simp_all add: environment_ok_def same_config_def\<close>)
  with assms m1 show ?thesis by (auto simp: environment_ok_def same_config_def)
qed

lemma act_environment_ok:
  assumes "environment_ok penv ss m" "jobs_ok m" "list_all good_seg ss" "ss \<noteq> []" "provider_act h op (m, w) = (m', w')"
  shows "environment_ok penv ss m'"
  using assms(2,5)
proof (cases rule: provider_act_cases)
  case quiet
  then have "pm_state m' = pm_state m" by (simp add: file_view_def)
  with env_change_ok [OF quiet(3) assms(1,3,4)] quiet(2) assms(1) show ?thesis by (simp add: environment_ok_def)
next
  case (changed x)
  then have "pm_state m' = fst x" by (simp add: file_view_def submit_simps)
  with changed change_records [OF changed(1)] assms(1,3,4) env_change_ok [OF changed(4) assms(1,3,4)] show ?thesis
    by (simp add: environment_ok_def)
next
  case (settled ok)
  have "pm_state m' = pm_state m"
    using settled(1) settle_file_simps(8) [of ok m] by (cases "settle_file ok m") (simp add: file_view_def)
  with settled assms(1,3,4) env_change_ok [OF settled(3) assms(1,3,4)] show ?thesis by (simp add: environment_ok_def)
qed

lemma abs_path_nonempty: "abs_path ss \<noteq> []"
  by (simp add: abs_path_def)

lemma act_config: "jobs_ok m \<Longrightarrow> provider_act h op (m, w) = (m', w') \<Longrightarrow> same_config m m'"
  by (erule (1) provider_act_cases)

lemma open_manager_root:
  assumes "open_manager h (Some root) platform arch catalog penv created r saved w = Inr m" "root \<noteq> []"
  shows "case validateDataRoot (ph_cwd h) root of Inl e \<Rightarrow> False | Inr p \<Rightarrow> pm_dataRoot m = Some p"
proof (cases "validateDataRoot (ph_cwd h) root")
  case (Inl e)
  with assms show ?thesis by (simp add: open_manager_def new_manager_def Let_def)
next
  case (Inr p)
  then obtain m0 where new: "new_manager (ph_cwd h) (Some root) platform arch catalog penv = Inr m0" "pm_dataRoot m0 = Some p"
    using assms(2) by (simp add: new_manager_def Let_def)
  then have "\<exists>s f. applyEnvironment (ph_cwd h) (m0\<lparr>pm_state := s, pm_file := f\<rparr>) = (None, m)"
    using assms(1) by (auto simp: open_manager_def Let_def split: if_splits sum.splits prod.splits option.splits)
  with new(2) Inr show ?thesis by (auto dest: applyEnvironment_simps(3))
qed

text \<open>
  C8: the manager redirects compilers and language servers only into its own installations. From \<open>open\<close>
  on a data root, in every environment the manager leaves, each variable is as the service was started
  with, or is one of the seven the manager owns and points into the install root of a provider of the
  catalog; its search path is the one before, or that one behind directories of such executables.
\<close>

theorem provider_environment:
  assumes "open_manager h (Some (abs_path ss)) platform arch catalog penv created r saved w0 = Inr m0"
    "provider_run h (m0, w0) (m, w)" "catalog_ok catalog" "list_all good_seg ss" "ss \<noteq> []"
  shows "confined_env catalog (abs_path ss) penv (pm_env m)"
proof -
  have start: "pm_jobs m0 = []" "pm_tasks m0 = []" "pm_queue m0 = wq_new" "pm_catalog m0 = catalog"
    using open_manager_start [OF assms(1)] by simp_all
  note opened = opened_state [OF assms(1)]
  have root: "pm_dataRoot m0 = Some (abs_path ss)"
    using open_manager_root [OF assms(1)] posix_resolve_abs_path [OF assms(4)] by (simp add: validateDataRoot_def abs_path_nonempty)
  define m1 where "m1 = m0\<lparr>pm_env := penv\<rparr>"
  have ok1: "environment_ok penv ss m1"
    using opened(1,2) root start assms(3) by (simp add: environment_ok_def m1_def confined_refl)
  have "env_change (ph_cwd h) m1 m0"
    using opened(3) unfolding env_change_def by (auto simp: m1_def same_config_def)
  then have ok0: "environment_ok penv ss m0"
    by (rule env_change_ok [OF _ ok1 assms(4,5)]) (use opened(1) start in \<open>simp_all add: m1_def same_config_def\<close>)
  let ?I = "\<lambda>m. environment_ok penv ss m \<and> jobs_ok m \<and> saves_ok m \<and> pm_catalog m = catalog"
  have "?I (fst (m, w))"
  proof (rule run_keeps [OF assms(2)])
    show "?I (fst (m0, w0))" using ok0 start start_ok [OF start(1-3)] by simp
    show "?I m'" if "?I m" "fresh_op op m" "provider_act h op (m, w) = (m', w')" for op m w m' w'
      using that act_environment_ok [OF _ _ assms(4,5) that(3)] provider_act_ok [OF _ _ that(2,3)] act_config [OF _ that(3)]
      by (simp add: same_config_def)
  qed
  then show ?thesis by (auto simp: environment_ok_def)
qed

theorem provider_environment_witness:
  "confined_env CURATED_PROVIDER_CATALOG (abs_path [js ''d'']) (\<lambda>_. None) (pm_env demo_started)"
  using provider_environment [OF demo_opened [unfolded demo_options_def] demo_run curated_catalog_ok]
  by (simp add: good_seg_def js_def)

section \<open>Durability\<close>

definition has_file :: "provider_manager \<Rightarrow> bool" where
  "has_file m \<longleftrightarrow> pm_dataRoot m \<noteq> None"

interpretation provider_file: state_file pm_state pm_queue pm_file has_file fst submit "\<lambda>ok m. fst (settle_file ok m)"
  by unfold_locales
     (auto simp: has_file_def submit_simps settle_file_def split: prod.split option.split wq_event.split)

text \<open>Its laws speak of the part of a manager that \<open>file_view\<close> shows.\<close>

lemma file_view_laws:
  assumes "file_view m' = file_view m"
  shows "provider_file.in_step i m' = provider_file.in_step i m" "provider_file.stuck d m' = provider_file.stuck d m"
    "pm_state m' = pm_state m"
  using assms by (simp_all add: file_view_def provider_file.in_step_def provider_file.stuck_def has_file_def)

definition save_ok :: "provider_manager \<Rightarrow> bool" where
  "save_ok m \<longleftrightarrow> records_ok (pm_catalog m) (pm_state m) \<and> ps_active (pm_state m) \<noteq> Some [] \<and>
     provider_file.in_step initial_state m"

lemma change_active:
  assumes "provider_change catalog s s'" "catalog_ok catalog" "records_ok catalog s" "ps_active s \<noteq> Some []"
  shows "ps_active s' \<noteq> Some []"
  using assms(1)
proof cases
  case (installed d ex)
  with assms(2,4) show ?thesis by (auto simp: installed_state_def catalog_ok_def list_all_iff good_seg_def)
next
  case (activated a)
  have "i \<noteq> []" if "r \<in> set (ps_installed s)" "ip_id r = i" for r i
    using that assms(2,3) by (fastforce simp: records_ok_def record_ok_def catalog_ok_def list_all_iff good_seg_def)
  with activated show ?thesis by (auto split: option.splits)
qed

lemma act_save_ok:
  assumes "save_ok m" "jobs_ok m" "catalog_ok (pm_catalog m)" "provider_act h op (m, w) = (m', w')"
  shows "save_ok m'"
  using assms(2,4)
proof (cases rule: provider_act_cases)
  case quiet
  with assms(1) file_view_laws [OF quiet(1)] show ?thesis by (simp add: save_ok_def same_config_def)
next
  case (changed x)
  note view = file_view_laws [OF changed(2)]
  have "records_ok (pm_catalog m) (fst x)" "ps_active (fst x) \<noteq> Some []"
    using assms(1,3) change_records [OF changed(1)] change_active [OF changed(1)] by (simp_all add: save_ok_def)
  moreover have "provider_file.in_step initial_state m'"
    using view(1) provider_file.in_step_submit assms(1) by (simp add: save_ok_def)
  ultimately show ?thesis using view(3) changed(3) by (simp add: save_ok_def submit_simps same_config_def)
next
  case (settled ok)
  note view = file_view_laws [OF settled(1)]
  have "provider_file.in_step initial_state m'"
    using view(1) provider_file.in_step_settled assms(1) by (simp add: save_ok_def)
  moreover have "pm_state m' = pm_state m" using view(3) provider_file.settled_state(1) by simp
  ultimately show ?thesis using assms(1) settled(2) by (simp add: save_ok_def same_config_def)
qed

lemma run_stuck:
  assumes "provider_run h mw mw'" "jobs_ok (fst mw)" "saves_ok (fst mw)" "provider_file.stuck d (fst mw)"
  shows "provider_file.stuck d (fst mw')"
proof -
  let ?I = "\<lambda>m. provider_file.stuck d m \<and> jobs_ok m \<and> saves_ok m"
  have "?I (fst mw')"
  proof (rule run_keeps [where I = ?I, OF assms(1)])
    fix op m w m' w' assume I: "?I m" "fresh_op op m" and act: "provider_act h op (m, w) = (m', w')"
    from I have "jobs_ok m" by simp
    from this act have "provider_file.stuck d m'"
      by (cases rule: provider_act_cases)
         (use I provider_file.stuck_submit provider_file.stuck_settled in \<open>auto dest: file_view_laws(2)\<close>)
    with provider_act_ok [OF _ _ I(2) act] I(1) show "?I m'" by simp
  qed (use assms(2-) in simp)
  then show ?thesis by simp
qed

text \<open>A state whose paths have no backslash fits the catalog it was made with.\<close>

definition portable :: "ProviderState \<Rightarrow> bool" where
  "portable s \<longleftrightarrow> list_all (\<lambda>r. list_all (\<lambda>(name, p). 92 \<notin> set p) (ip_executables r)) (ps_installed s)"

lemma path_pieces_portable: "92 \<notin> set p \<Longrightarrow> path_pieces p = split_on 47 p"
  unfolding path_pieces_def by (subst map_idI) auto

lemma record_fits:
  assumes "record_ok catalog r" "distinct (map pd_id catalog)" "list_all (\<lambda>(name, p). 92 \<notin> set p) (ip_executables r)"
  shows "fits catalog r"
proof -
  from assms(1) obtain d where d: "d \<in> set catalog" "pd_id d = ip_id r" "pd_version d = ip_version r"
    "fst ` set (ip_executables r) \<subseteq> set (pd_executableNames d)" by (auto simp: record_ok_def)
  have "map fst (rev (map (\<lambda>d. (pd_id d, d)) catalog)) = rev (map pd_id catalog)" by (simp add: rev_map comp_def)
  then have "map_of (rev (map (\<lambda>d. (pd_id d, d)) catalog)) (ip_id r) = Some d"
    using d(1) assms(2) unfolding d(2) [symmetric] by (intro map_of_is_SomeI) auto
  moreover have "list_all (\<lambda>(name, p). name \<in> set (pd_executableNames d) \<and> \<not> posix_isAbsolute p \<and> js ''..'' \<notin> set (path_pieces p))
      (ip_executables r)"
    unfolding list_all_iff
  proof clarify
    fix name p assume "(name, p) \<in> set (ip_executables r)"
    then have "name \<in> set (pd_executableNames d)" "plain_path p" "92 \<notin> set p"
      using d(4) assms(1,3) by (auto simp: list_all_iff record_ok_def)
    then show "name \<in> set (pd_executableNames d) \<and> \<not> posix_isAbsolute p \<and> js ''..'' \<notin> set (path_pieces p)"
      by (simp add: plain_path_def path_pieces_portable)
  qed
  ultimately show ?thesis using d(3) by (simp add: fits_def)
qed

text \<open>
  C32: the installed providers survive a restart. When every queued write has settled and none has
  failed, the state file holds the state in memory (or was never written), and reading it back gives
  that state, if no installed path contains a backslash. After one failed write, no later operation or
  write changes the file, though the state in memory goes on changing.
\<close>

theorem provider_durability:
  assumes "open_manager h dataRoot platform arch catalog penv created r saved w0 = Inr m0" "provider_run h (m0, w0) (m, w)"
    "catalog_ok catalog" "distinct (map pd_id catalog)"
  shows "(pm_dataRoot m \<noteq> None \<and> \<not> wq_rejected (pm_queue m) \<and> wq_pending (pm_queue m) = [] \<longrightarrow>
      (pm_file m = Some (pm_state m) \<or> pm_file m = None \<and> pm_state m = initial_state) \<and>
      (portable (pm_state m) \<longrightarrow> validateProviderState catalog (provider_state_json (pm_state m)) = Inr (pm_state m))) \<and>
    (wq_rejected (pm_queue m) \<longrightarrow> (\<forall>m' w'. provider_run h (m, w) (m', w') \<longrightarrow> pm_file m' = pm_file m))"
proof -
  have start: "jobs_ok m0" "saves_ok m0" "pm_catalog m0 = catalog" "pm_queue m0 = wq_new"
    using start_ok open_manager_start [OF assms(1)] by simp_all
  let ?I = "\<lambda>m. save_ok m \<and> pm_catalog m = catalog \<and> jobs_ok m \<and> saves_ok m"
  have "?I (fst (m, w))"
  proof (rule run_keeps [where I = ?I, OF assms(2)])
    show "?I (fst (m0, w0))"
      using start opened_state(1,4,5) [OF assms(1)]
      by (simp add: save_ok_def provider_file.in_step_def)
    show "?I m'" if "?I m" "fresh_op op m" "provider_act h op (m, w) = (m', w')" for op m w m' w'
      using that act_save_ok [OF _ _ _ that(3)] provider_act_ok [OF _ _ that(2,3)] act_config [OF _ that(3)] assms(3)
      by (simp add: same_config_def)
  qed
  then have I: "save_ok m" "pm_catalog m = catalog" "jobs_ok m" "saves_ok m" by simp_all
  have "validateProviderState catalog (provider_state_json (pm_state m)) = Inr (pm_state m)" if "portable (pm_state m)"
    using that I(1,2) assms(4) unfolding validateProviderState_json
    by (auto simp: save_ok_def records_ok_def portable_def list_all_iff intro!: record_fits)
  moreover have "pm_file m' = pm_file m" if "wq_rejected (pm_queue m)" "provider_run h (m, w) (m', w')" for m' w'
    using run_stuck [OF that(2), of "pm_file m"] I(3,4) that(1) by (simp add: provider_file.stuck_def)
  ultimately show ?thesis using I(1) provider_file.in_step_file [of initial_state m]
    by (simp add: save_ok_def has_file_def)
qed

definition demo_saved :: "provider_manager \<times> unit" where
  "demo_saved = provider_act demo_host (SettleSave (js ''t3'') [] False)
     (provider_act demo_host (ActivateTex (js ''system-tex'')) (demo_opened, ()))"

lemma demo_saved_run: "provider_run demo_host (demo_opened, ()) demo_saved"
  unfolding demo_saved_def by (intro provider_run.step provider_run.start) simp_all

lemma demo_saved_rejected: "wq_rejected (pm_queue (fst demo_saved))"
  by (simp add: demo_saved_def demo_opened_def activateTexProvider_def requireDefinition_def find_definition_def
      CURATED_PROVIDER_CATALOG_def system_tex_def activate_def Let_def submit_def settle_save_def settle_file_def
      wq_settle_def wq_new_def wq_add_def after_save_def)

theorem provider_durability_witness:
  "pm_file (fst (provider_act demo_host (SettleSave (js ''t4'') [] True) demo_saved)) = pm_file (fst demo_saved)"
proof -
  obtain m where m: "demo_saved = (m, ())" by (cases demo_saved) simp
  have ids: "distinct (map pd_id CURATED_PROVIDER_CATALOG)"
    by (simp add: CURATED_PROVIDER_CATALOG_def system_tex_def tinytex_def texlab_def tinymist_def)
  obtain m' where m': "provider_act demo_host (SettleSave (js ''t4'') [] True) (m, ()) = (m', ())"
    by (cases "provider_act demo_host (SettleSave (js ''t4'') [] True) (m, ())") simp
  have "provider_run demo_host (m, ()) (m', ())"
    using provider_run.step [OF provider_run.start, where h = demo_host and op = "SettleSave (js ''t4'') [] True" and mw = "(m, ())"] m' by simp
  moreover have "wq_rejected (pm_queue m)" using demo_saved_rejected unfolding m fst_conv .
  ultimately have "pm_file m' = pm_file m"
    using provider_durability [OF demo_opened [unfolded demo_options_def] demo_saved_run [unfolded m] curated_catalog_ok ids]
    by blast
  then show ?thesis unfolding m m' fst_conv .
qed

end
