(* ===== verification/ServiceCatalog.thy ===== *)
theory ServiceCatalog
  imports TexPackages
begin

text \<open>
  \<^verbatim>\<open>typr-server/serviceCatalog.ts\<close>: the probing of the compilers and language servers and the list of
  services the management console shows. Running a command is a parameter; a call of \<open>snapshot\<close> starts
  in one step and ends in another, when the promise it shares has its value.
\<close>

section \<open>Descriptors\<close>

datatype ManagedServiceStatus = Ready | Busy | Degraded | Detected | Unavailable | Faulty

datatype ServiceKind = ApiService | CompilerService | LivePreviewService | WorkspaceService | LspService

datatype ProviderSource = Embedded | Configured | OnPath | NotFound

record ServiceProvider =
  sp_executable :: jsstring
  sp_version :: "jsstring option"
  sp_source :: ProviderSource

record ManagedServiceDescriptor =
  sd_id :: jsstring
  sd_name :: jsstring
  sd_kind :: ServiceKind
  sd_status :: ManagedServiceStatus
  sd_advertised :: bool
  sd_active :: nat
  sd_description :: jsstring
  sd_capabilities :: "jsstring list"
  sd_provider :: "ServiceProvider option"

record CompanionRuntimeSnapshot =
  rt_serverVersion :: jsstring
  rt_activeRequests :: nat
  rt_activeCompilations :: nat
  rt_activeLiveSessions :: nat
  rt_workspace :: "jsstring option"

section \<open>Probing\<close>

record CommandProbe =
  cp_available :: bool
  cp_executable :: jsstring
  cp_version :: "jsstring option"
  cp_source :: ProviderSource

text \<open>
  \<open>execFile\<close>: what the command writes to its two streams, or \<open>None\<close> when the promise is rejected (no
  such command, a failing exit, the time or the output limit).
\<close>

type_synonym execution = "jsstring \<Rightarrow> jsstring list \<Rightarrow> process_env \<Rightarrow> (jsstring \<times> jsstring) option"

definition probe_environment :: "process_env \<Rightarrow> process_env" where
  "probe_environment penv =
     (case penv ''TYPR_COMPANION_NATIVE_PATH'' of
        Some p \<Rightarrow> if p \<noteq> [] then penv(''PATH'' := Some p) else penv
      | None \<Rightarrow> penv)"

definition probeCommand ::
  "execution \<Rightarrow> process_env \<Rightarrow> jsstring \<Rightarrow> jsstring list \<Rightarrow> ProviderSource \<Rightarrow> CommandProbe"
where
  "probeCommand run penv executable args source =
     (case run executable args (probe_environment penv) of
        Some (out, err) \<Rightarrow>
          \<lparr>cp_available = True, cp_executable = executable,
           cp_version = List.find (\<lambda>l. l \<noteq> []) (map trim (split_lines (out @ [10] @ err))), cp_source = source\<rparr>
      | None \<Rightarrow> \<lparr>cp_available = False, cp_executable = executable, cp_version = None, cp_source = NotFound\<rparr>)"

text \<open>No character outside ASCII has a lower case with the letters of the constant in this order.\<close>

definition providerSource :: "bool \<Rightarrow> jsstring option \<Rightarrow> jsstring \<Rightarrow> ProviderSource" where
  "providerSource win configured executable =
     (if trimmed configured \<noteq> []
      then if win \<and> test (lit (js ''typr companion'')) (ascii_lower executable) then Embedded else Configured
      else OnPath)"

definition server_command :: "process_env \<Rightarrow> string \<Rightarrow> string \<Rightarrow> jsstring" where
  "server_command penv key name = (let c = trimmed (penv key) in if c \<noteq> [] then c else js name)"

record probes =
  pr_pdflatex :: CommandProbe
  pr_latexmk :: CommandProbe
  pr_texlab :: CommandProbe
  pr_tinymist :: CommandProbe

definition probeProviders :: "execution \<Rightarrow> bool \<Rightarrow> process_env \<Rightarrow> probes" where
  "probeProviders run win penv =
     (let probe = (\<lambda>key command arg. probeCommand run penv command [js arg] (providerSource win (penv key) command))
      in \<lparr>pr_pdflatex = probe ''TYPR_COMPANION_PDFLATEX_EXECUTABLE'' (nativeTool penv Pdflatex) ''--version'',
          pr_latexmk = probe ''TYPR_COMPANION_LATEXMK_EXECUTABLE'' (nativeTool penv Latexmk) ''-v'',
          pr_texlab = probe ''TYPR_COMPANION_TEXLAB_EXECUTABLE''
            (server_command penv ''TYPR_COMPANION_TEXLAB_EXECUTABLE'' ''texlab'') ''--version'',
          pr_tinymist = probe ''TYPR_COMPANION_TINYMIST_EXECUTABLE''
            (server_command penv ''TYPR_COMPANION_TINYMIST_EXECUTABLE'' ''tinymist'') ''--version''\<rparr>)"

section \<open>The services\<close>

definition publicProbe :: "CommandProbe \<Rightarrow> ServiceProvider" where
  "publicProbe p = \<lparr>sp_executable = cp_executable p,
     sp_version = (if cp_version p = Some [] then None else cp_version p), sp_source = cp_source p\<rparr>"

definition lspDescriptor :: "string \<Rightarrow> string \<Rightarrow> string \<Rightarrow> CommandProbe \<Rightarrow> ManagedServiceDescriptor" where
  "lspDescriptor i name language probe =
     \<lparr>sd_id = js (''lsp-'' @ i), sd_name = js name, sd_kind = LspService,
      sd_status = (if cp_available probe then Detected else Unavailable), sd_advertised = False, sd_active = 0,
      sd_description = js (if cp_available probe
        then name @ '' is installed; Companion LSP routing can be enabled in a future provider profile.''
        else name @ '' was not found on the configured path.''),
      sd_capabilities = (if cp_available probe then map js [language, ''provider-detected''] else []),
      sd_provider = Some (publicProbe probe)\<rparr>"

definition api_service :: "CompanionRuntimeSnapshot \<Rightarrow> ManagedServiceDescriptor" where
  "api_service rt =
     \<lparr>sd_id = js ''companion-api'', sd_name = js ''Companion API'', sd_kind = ApiService,
      sd_status = (if rt_activeRequests rt > 0 then Busy else Ready), sd_advertised = True, sd_active = rt_activeRequests rt,
      sd_description = js ''Protocol service '' @ rt_serverVersion rt @ js '' on the dedicated service port.'',
      sd_capabilities = map js [''status'', ''compile'', ''workspace'', ''live-preview''], sd_provider = None\<rparr>"

definition latex_service :: "CompanionRuntimeSnapshot \<Rightarrow> probes \<Rightarrow> ManagedServiceDescriptor" where
  "latex_service rt ps =
     (let available = cp_available (pr_pdflatex ps); mk = cp_available (pr_latexmk ps)
      in \<lparr>sd_id = js ''latex'', sd_name = js ''LaTeX compiler'', sd_kind = CompilerService,
          sd_status = (if \<not> available then Unavailable else if rt_activeCompilations rt > 0 then Busy else Ready),
          sd_advertised = available, sd_active = rt_activeCompilations rt,
          sd_description = js (if available
            then ''Native PDF builds'' @ (if mk then '' with latexmk orchestration'' else '' using direct pdflatex passes'') @ ''.''
            else ''No usable pdflatex provider was detected.''),
          sd_capabilities = (if available then js ''pdflatex'' # (if mk then [js ''latexmk''] else []) else []),
          sd_provider = Some (publicProbe (pr_pdflatex ps))\<rparr>)"

definition live_service :: "CompanionRuntimeSnapshot \<Rightarrow> probes \<Rightarrow> ManagedServiceDescriptor" where
  "live_service rt ps =
     (let available = cp_available (pr_pdflatex ps)
      in \<lparr>sd_id = js ''live-preview'', sd_name = js ''Live preview'', sd_kind = LivePreviewService,
          sd_status = (if \<not> available then Degraded else if rt_activeLiveSessions rt > 0 then Busy else Ready),
          sd_advertised = available, sd_active = rt_activeLiveSessions rt,
          sd_description = js ''WebSocket document revisions rendered to local PNG pages.'',
          sd_capabilities = map js [''incremental-revisions'', ''png-pages'', ''full-build-fallback''], sd_provider = None\<rparr>)"

definition workspace_service :: "CompanionRuntimeSnapshot \<Rightarrow> ManagedServiceDescriptor" where
  "workspace_service rt =
     \<lparr>sd_id = js ''workspace'', sd_name = js ''Workspace storage'', sd_kind = WorkspaceService,
      sd_status = (if rt_workspace rt \<noteq> None then Ready else Unavailable), sd_advertised = (rt_workspace rt \<noteq> None),
      sd_active = 0,
      sd_description = (case rt_workspace rt of Some i \<Rightarrow> js ''Writable workspace '' @ i @ js ''.''
                        | None \<Rightarrow> js ''No mapped or per-user workspace is configured.''),
      sd_capabilities = (if rt_workspace rt \<noteq> None then map js [''list'', ''read'', ''conditional-write'', ''delete''] else []),
      sd_provider = None\<rparr>"

definition services :: "CompanionRuntimeSnapshot \<Rightarrow> probes \<Rightarrow> ManagedServiceDescriptor list" where
  "services rt ps =
     [api_service rt, latex_service rt ps, live_service rt ps, workspace_service rt,
      lspDescriptor ''texlab'' ''TexLab'' ''latex'' (pr_texlab ps),
      lspDescriptor ''tinymist'' ''Tinymist'' ''typst'' (pr_tinymist ps)]"

section \<open>Sharing\<close>

text \<open>
  \<open>sc_probes\<close> is the promise the catalog keeps: the probing it is the result of, since a probing reads
  the environment and starts its commands when it is created.
\<close>

record service_catalog =
  sc_probes :: "probes option"

definition new_catalog :: service_catalog where
  "new_catalog = \<lparr>sc_probes = None\<rparr>"

definition snapshot_start :: "execution \<Rightarrow> bool \<Rightarrow> process_env \<Rightarrow> bool \<Rightarrow> service_catalog \<Rightarrow> service_catalog \<times> probes" where
  "snapshot_start run win penv forceRefresh c =
     (case (if forceRefresh then None else sc_probes c) of
        Some ps \<Rightarrow> (c, ps)
      | None \<Rightarrow> let ps = probeProviders run win penv in (c\<lparr>sc_probes := Some ps\<rparr>, ps))"

text \<open>After its \<open>await\<close> the call reads the runtime.\<close>

definition snapshot_finish :: "CompanionRuntimeSnapshot \<Rightarrow> probes \<Rightarrow> ManagedServiceDescriptor list" where
  "snapshot_finish rt ps = services rt ps"

text \<open>The calls of a run, each with the host and the environment at its time, and what they await.\<close>

type_synonym catalog_call = "bool \<times> execution \<times> process_env"

fun catalog_run :: "bool \<Rightarrow> catalog_call list \<Rightarrow> service_catalog \<Rightarrow> service_catalog \<times> probes list" where
  "catalog_run win [] c = (c, [])"
| "catalog_run win ((force, run, penv) # calls) c =
     (case snapshot_start run win penv force c of (c1, ps) \<Rightarrow>
        (case catalog_run win calls c1 of (c2, pss) \<Rightarrow> (c2, ps # pss)))"

definition probing :: "bool \<Rightarrow> catalog_call \<Rightarrow> probes" where
  "probing win call = (case call of (force, run, penv) \<Rightarrow> probeProviders run win penv)"

text \<open>The last forced call up to a position, or the first call.\<close>

fun refreshed_at :: "catalog_call list \<Rightarrow> nat \<Rightarrow> nat" where
  "refreshed_at calls 0 = 0"
| "refreshed_at calls (Suc i) = (if fst (calls ! Suc i) then Suc i else refreshed_at calls i)"

lemma catalog_run_append:
  "catalog_run win (xs @ ys) c =
     (case catalog_run win xs c of (c1, ps) \<Rightarrow> (case catalog_run win ys c1 of (c2, qs) \<Rightarrow> (c2, ps @ qs)))"
  by (induction win xs c rule: catalog_run.induct) (auto split: prod.splits)

lemma refreshed_at_append: "i < length calls \<Longrightarrow> refreshed_at (calls @ xs) i = refreshed_at calls i"
  by (induction i) (simp_all add: nth_append)

lemma refreshed_at_last:
  "refreshed_at (calls @ [x]) (length calls) =
     (if fst x then length calls else if calls = [] then 0 else refreshed_at calls (length calls - 1))"
  by (cases "length calls") (auto simp: nth_append refreshed_at_append)

lemma refreshed_at_le: "refreshed_at calls i \<le> i"
  by (induction i) auto

lemma catalog_run_shared:
  "snd (catalog_run win calls new_catalog) = map (\<lambda>i. probing win (calls ! refreshed_at calls i)) [0..<length calls] \<and>
   sc_probes (fst (catalog_run win calls new_catalog)) =
     (if calls = [] then None else Some (probing win (calls ! refreshed_at calls (length calls - 1))))"
proof (induction calls rule: rev_induct)
  case (snoc x calls)
  obtain c ps where run: "catalog_run win calls new_catalog = (c, ps)" by (cases "catalog_run win calls new_catalog")
  obtain force run penv where x: "x = (force, run, penv)" by (cases x)
  have le: "refreshed_at calls i < length calls" if "i < length calls" for i
    using refreshed_at_le [of calls i] that by simp
  have old: "map (\<lambda>i. probing win ((calls @ [x]) ! refreshed_at (calls @ [x]) i)) [0..<length calls] =
      map (\<lambda>i. probing win (calls ! refreshed_at calls i)) [0..<length calls]"
    using le by (intro map_cong) (simp_all add: refreshed_at_append nth_append)
  show ?case
  proof (cases "force \<or> calls = []")
    case True
    with snoc run x old show ?thesis
      by (auto simp: catalog_run_append snapshot_start_def Let_def refreshed_at_last probing_def nth_append)
  next
    case False
    with le [of "length calls - 1"] have "refreshed_at calls (length calls - 1) < length calls" by simp
    with False snoc run x old show ?thesis
      by (auto simp: catalog_run_append snapshot_start_def Let_def refreshed_at_last nth_append)
  qed
qed (simp add: new_catalog_def)

text \<open>
  The catalog never shows providers older than the last refresh, and probes once per refresh. In
  any run of calls, what each call awaits is one probing of the host: that of the last forced refresh
  up to it, or of the first call when there was none.
\<close>

theorem probing_shared:
  "snd (catalog_run win calls new_catalog) = map (\<lambda>i. probing win (calls ! refreshed_at calls i)) [0..<length calls]"
  using catalog_run_shared by blast

text \<open>What a descriptor says is consistent.\<close>

definition truthful :: "ManagedServiceDescriptor \<Rightarrow> bool" where
  "truthful s \<longleftrightarrow>
     (if sd_advertised s then sd_status s \<in> {Ready, Busy} \<and> sd_capabilities s \<noteq> []
      else sd_status s \<in> {Detected, Degraded, Unavailable}) \<and>
     (if sd_status s = Busy then 0 < sd_active s else sd_status s \<noteq> Ready \<or> sd_active s = 0) \<and>
     (case sd_provider s of None \<Rightarrow> True
      | Some p \<Rightarrow> (sp_source p = NotFound) = (sd_status s = Unavailable) \<and> sp_version p \<noteq> Some [])"

lemma probe_sources:
  "cp_source (probeCommand run penv executable args (providerSource win v executable)) = NotFound \<longleftrightarrow>
   \<not> cp_available (probeCommand run penv executable args (providerSource win v executable))"
  by (simp add: probeCommand_def providerSource_def split: option.split)

lemma truthful_providers:
  "truthful (latex_service rt (probeProviders run win penv))"
  "truthful (lspDescriptor ''texlab'' name language (pr_texlab (probeProviders run win penv)))"
  "truthful (lspDescriptor ''tinymist'' name language (pr_tinymist (probeProviders run win penv)))"
  by (simp_all add: truthful_def latex_service_def lspDescriptor_def Let_def publicProbe_def probeProviders_def probe_sources)

lemma truthful_others:
  "truthful (api_service rt)" "truthful (live_service rt ps)" "truthful (workspace_service rt)"
  by (simp_all add: truthful_def api_service_def live_service_def workspace_service_def Let_def)

text \<open>
  The services shown are truthful. In every list the catalog makes of a probing, the ids are
  distinct; an advertised service is ready or busy and names what it can do, any other one is not;
  a busy service has something active and a ready one nothing; and a provider is "not-found" exactly
  when its service is unavailable.
\<close>

theorem services_truthful:
  "distinct (map sd_id (services rt (probeProviders run win penv))) \<and>
   list_all truthful (services rt (probeProviders run win penv))"
proof -
  have "map sd_id (services rt (probeProviders run win penv)) =
      map js [''companion-api'', ''latex'', ''live-preview'', ''workspace'', ''lsp-texlab'', ''lsp-tinymist'']"
    by (simp add: services_def api_service_def latex_service_def live_service_def workspace_service_def lspDescriptor_def Let_def)
  then show ?thesis using truthful_providers truthful_others by (simp add: services_def)
qed

end
