(* ===== verification/ManagementServer.thy ===== *)
theory ManagementServer
  imports ServerHttp ManagementAuth Activity ProviderEnvironment ServiceCatalog
begin

text \<open>
  \<^verbatim>\<open>typr-server/managementServer.ts\<close>: the management console's HTTP interface over the key store, the
  authenticator, the provider manager and the activity log. A request that awaits something (its body,
  scrypt, a write, a probing) is a task; between its steps anything else may happen. \<open>new URL\<close>,
  \<open>JSON.parse\<close>, SHA-256, scrypt, random values and the clock are parameters. Message texts of errors,
  heartbeats of event streams and Content-Length headers are left out.
\<close>

section \<open>Requests and answers\<close>

text \<open>
  \<open>rq_hostname\<close> is \<open>new URL("http://" + host).hostname\<close>, \<open>rq_originHost\<close> is \<open>new URL(origin).host\<close> (\<open>None\<close>:
  they throw), \<open>rq_lastEventId\<close> what \<open>Number\<close> makes of that header when it is a safe integer.
\<close>

record management_request = http_request +
  rq_hostname :: "jsstring option"
  rq_originHost :: "jsstring option"
  rq_remoteAddress :: "jsstring option"
  rq_lastEventId :: "int option"

record parsed_url =
  pu_protocol :: jsstring
  pu_username :: jsstring
  pu_password :: jsstring
  pu_pathname :: jsstring
  pu_search :: jsstring
  pu_hash :: jsstring
  pu_origin :: jsstring
  pu_host :: jsstring

record management_snapshot =
  mv_servicePort :: nat
  mv_managementPort :: "nat option"
  mv_session :: "(jsstring \<times> jsstring \<times> int) option"
  mv_publicOrigin :: "jsstring option"
  mv_providers :: "ProviderManagerSnapshot option"
  mv_services :: "ManagedServiceDescriptor list"
  mv_access :: AccessSnapshot
  mv_activity :: "jsstring ActivityEvent list"

datatype management_body =
    NoBody
  | LoginPage
  | ConsolePage
  | ErrorCode string
  | OkBody
  | SnapshotBody management_snapshot
  | UserBody ManagedUser
  | KeyBody ManagedApiKey
  | CreatedKeyBody ManagedApiKey jsstring
  | JobBody ProviderInstallJob
  | ProvidersBody ProviderManagerSnapshot
  | UpdateBody TexPackageUpdateResult
  | SettingsBody bool
  | EventStream

record management_answer =
  mr_status :: nat
  mr_headers :: "(string \<times> jsstring) list"
  mr_body :: management_body

text \<open>What a handler throws, as the listener's \<open>catch\<close> answers it; other errors than the two classes are 500.\<close>

datatype thrown = Thrown nat string

definition other_error :: thrown where
  "other_error = Thrown 500 ''management-error''"

fun access_thrown :: "access_error \<Rightarrow> thrown" where
  "access_thrown (AccessStoreError status code) = Thrown status code"

fun provider_thrown :: "provider_error \<Rightarrow> thrown" where
  "provider_thrown (ProviderManagerError status code) = Thrown status code"

definition invalidBody :: thrown where
  "invalidBody = Thrown 400 ''invalid-management-request''"

section \<open>Strings\<close>

definition plain_header :: "('a http_request_scheme) \<Rightarrow> string \<Rightarrow> jsstring option" where
  "plain_header rq name = (case map_of (rq_headers rq) name of Some (HStr s) \<Rightarrow> Some s | _ \<Rightarrow> None)"

text \<open>\<open>path.match(/^pre([^/]+)suf$/u)?.[1]\<close>\<close>

definition path_param :: "string \<Rightarrow> string \<Rightarrow> jsstring \<Rightarrow> jsstring option" where
  "path_param pre suf path =
     (let p = take (length path - length pre - length suf) (drop (length pre) path)
      in if path = js pre @ p @ js suf \<and> p \<noteq> [] \<and> 47 \<notin> set p then Some p else None)"

text \<open>\<open>decodeURIComponent\<close>: runs of \<open>%XX\<close> are well-formed UTF-8, or it throws.\<close>

definition hex_digit_value :: "nat \<Rightarrow> nat option" where
  "hex_digit_value c =
     (if 48 \<le> c \<and> c \<le> 57 then Some (c - 48) else if 65 \<le> c \<and> c \<le> 70 then Some (c - 55)
      else if 97 \<le> c \<and> c \<le> 102 then Some (c - 87) else None)"

fun percent_bytes :: "nat \<Rightarrow> jsstring \<Rightarrow> (bytes \<times> jsstring) option" where
  "percent_bytes 0 s = Some ([], s)"
| "percent_bytes (Suc n) (c # a # b # s) =
     (case (if c = 37 then hex_digit_value a else None, hex_digit_value b) of
        (Some x, Some y) \<Rightarrow> map_option (\<lambda>(bs, r). (of_nat (16 * x + y) # bs, r)) (percent_bytes n s)
      | _ \<Rightarrow> None)"
| "percent_bytes (Suc n) s = None"

lemma percent_bytes_length: "percent_bytes n s = Some (bs, r) \<Longrightarrow> length s = 3 * n + length r \<and> length bs = n"
  by (induction n s arbitrary: bs r rule: percent_bytes.induct) (auto split: option.splits if_splits)

definition sequence_length :: "nat \<Rightarrow> nat" where
  "sequence_length b =
     (if b < 128 then 1 else if 192 \<le> b \<and> b < 224 then 2 else if 224 \<le> b \<and> b < 240 then 3
      else if 240 \<le> b \<and> b < 248 then 4 else 0)"

text \<open>One escaped character at the start.\<close>

definition escaped_char :: "jsstring \<Rightarrow> (jsstring \<times> jsstring) option" where
  "escaped_char s =
     (case percent_bytes 1 s of
        Some ([b], _) \<Rightarrow>
          if sequence_length (unat b) = 0 then None
          else (case percent_bytes (sequence_length (unat b)) s of
                  Some (bs, r) \<Rightarrow> if utf8 (utf8_decode bs) = bs then Some (utf8_decode bs, r) else None
                | None \<Rightarrow> None)
      | _ \<Rightarrow> None)"

lemma escaped_char_length: "escaped_char s = Some (c, r) \<Longrightarrow> length r < length s"
  by (auto simp: escaped_char_def dest!: percent_bytes_length split: option.splits list.splits if_splits)

function decodeURIComponent :: "jsstring \<Rightarrow> jsstring option" where
  "decodeURIComponent [] = Some []"
| "decodeURIComponent (c # s) =
     (if c \<noteq> 37 then map_option ((#) c) (decodeURIComponent s)
      else case escaped_char (c # s) of
        None \<Rightarrow> None
      | Some (t, r) \<Rightarrow> map_option ((@) t) (decodeURIComponent r))"
  by pat_completeness auto
termination by (relation "measure length") (auto dest!: escaped_char_length)

section \<open>The content security policy\<close>

text \<open>The text before and after the first occurrence.\<close>

fun cut :: "jsstring \<Rightarrow> jsstring \<Rightarrow> (jsstring \<times> jsstring) option" where
  "cut p [] = (if p = [] then Some ([], []) else None)"
| "cut p (c # s) =
     (if prefix p (c # s) then Some ([], drop (length p) (c # s)) else map_option (\<lambda>(a, b). (c # a, b)) (cut p s))"

lemma cut_length: "cut p s = Some (a, b) \<Longrightarrow> length s = length a + length p + length b"
  by (induction p s arbitrary: a b rule: cut.induct) (auto split: if_splits dest: prefix_length_le)

text \<open>\<open>document.matchAll(/<tag>([\s\S]*?)<\/tag>/gu)\<close>\<close>

function inline_blocks :: "string \<Rightarrow> jsstring \<Rightarrow> jsstring list" where
  "inline_blocks tag s =
     (case cut (js (''<'' @ tag @ ''>'')) s of
        None \<Rightarrow> []
      | Some (_, r) \<Rightarrow>
          (case cut (js (''</'' @ tag @ ''>'')) r of
             None \<Rightarrow> []
           | Some (block, r') \<Rightarrow> block # inline_blocks tag r'))"
  by pat_completeness auto
termination by (relation "measure (length \<circ> snd)") (auto dest!: cut_length)

definition quoted :: "string \<Rightarrow> jsstring" where
  "quoted s = [39] @ js s @ [39]"

definition cspHash :: "(bytes \<Rightarrow> bytes) \<Rightarrow> jsstring \<Rightarrow> jsstring" where
  "cspHash sha source = [39] @ js ''sha256-'' @ base64_encode (sha (utf8 source)) @ [39]"

definition contentSecurityPolicy :: "(bytes \<Rightarrow> bytes) \<Rightarrow> jsstring list \<Rightarrow> jsstring" where
  "contentSecurityPolicy sha documents =
     (let hashes = (\<lambda>tag. join_with [32] (first_occurrences (map (cspHash sha) (concat (map (inline_blocks tag) documents)))))
      in join_with (js ''; '')
           ([js ''default-src '' @ quoted ''none'', js ''script-src '' @ hashes ''script'', js ''style-src '' @ hashes ''style'',
             js ''connect-src '' @ quoted ''self''] @
            map (\<lambda>d. js d @ quoted ''none'') [''img-src '', ''font-src '', ''object-src '', ''base-uri '', ''frame-ancestors ''] @
            [js ''form-action '' @ quoted ''self'']))"

section \<open>The server\<close>

text \<open>
  A task: the request awaits its body, scrypt, the settling of a write (with what it announces and
  answers then), an activation, a list of services, or an update of TeX Live.
\<close>

datatype body_route =
    CreateUserRoute
  | UpdateUserRoute jsstring
  | CreateKeyRoute jsstring
  | ActivateRoute jsstring
  | SettingsRoute

datatype management_task =
    ReadingLogin management_request
  | Deriving login_attempt
  | ReadingBody body_route management_request
  | Persisting "jsstring ActivityInput" management_answer
  | Activating jsstring
  | Listing "nat option" "ManagementSession option" "ProviderManagerSnapshot option"
  | Refreshing
  | Updating

text \<open>
  \<open>mn_public\<close> is the normalized public origin with its host, \<open>mn_publicOption\<close> the option as given.
  \<open>mn_streams\<close> holds what each open event stream has been sent, \<open>mn_ended\<close> the streams ended by a
  shutdown, \<open>mn_answers\<close> the answers given so far. The number of a request is its place of arrival.
\<close>

record 'w management =
  mn_allowRemote :: bool
  mn_public :: "(jsstring \<times> jsstring) option"
  mn_publicOption :: "jsstring option"
  mn_csp :: jsstring
  mn_servicePort :: nat
  mn_port :: "nat option"
  mn_auth :: "authenticator option"
  mn_access :: access_store
  mn_providers :: "provider_manager option"
  mn_world :: 'w
  mn_activity :: "(jsstring, nat) ActivityBus"
  mn_streams :: "(nat \<times> jsstring ActivityEvent list) list"
  mn_ended :: "nat list"
  mn_tasks :: "(nat \<times> management_task) list"
  mn_answers :: "(nat \<times> management_answer) list"
  mn_next :: nat

text \<open>The host, and the moment of a step: its time and its random values.\<close>

record 'w management_host =
  mh_sha :: "bytes \<Rightarrow> bytes"
  mh_lower :: "jsstring \<Rightarrow> jsstring"
  mh_scrypt :: "jsstring \<Rightarrow> bytes option"
  mh_parse :: "bytes \<Rightarrow> json option"
  mh_le :: "jsstring \<Rightarrow> jsstring \<Rightarrow> bool"
  mh_provider :: "'w provider_host"

record moment =
  mo_now :: int
  mo_timestamp :: jsstring
  mo_uuid :: jsstring
  mo_hex :: jsstring
  mo_random1 :: bytes
  mo_random2 :: bytes

definition normalizePublicOrigin :: "(jsstring \<Rightarrow> parsed_url option) \<Rightarrow> jsstring \<Rightarrow> (jsstring \<times> jsstring) option" where
  "normalizePublicOrigin parse v =
     (case parse v of
        None \<Rightarrow> None
      | Some u \<Rightarrow>
          if pu_protocol u \<noteq> js ''https:'' \<or> pu_username u \<noteq> [] \<or> pu_password u \<noteq> [] \<or> pu_pathname u \<noteq> js ''/'' \<or>
             pu_search u \<noteq> [] \<or> pu_hash u \<noteq> []
          then None else Some (pu_origin u, pu_host u))"

text \<open>\<open>createManagementServer\<close> on the two documents; the messages of its three errors.\<close>

definition createManagementServer ::
  "(bytes \<Rightarrow> bytes) \<Rightarrow> (jsstring \<Rightarrow> parsed_url option) \<Rightarrow> jsstring list \<Rightarrow> bool \<Rightarrow> jsstring option \<Rightarrow> nat \<Rightarrow> nat option \<Rightarrow>
   authenticator option \<Rightarrow> access_store \<Rightarrow> provider_manager option \<Rightarrow> 'w \<Rightarrow> (jsstring, nat) ActivityBus \<Rightarrow> string + 'w management"
where
  "createManagementServer sha parse documents allowRemote publicOrigin servicePort port auth access providers w activity =
     (if allowRemote \<and> auth = None then Inl ''Remote management requires configured administrator authentication.''
      else let given = publicOrigin \<noteq> None \<and> publicOrigin \<noteq> Some [];
               public = (if given then normalizePublicOrigin parse (the publicOrigin) else None)
           in if given \<and> public = None then Inl ''TYPR_COMPANION_MANAGEMENT_PUBLIC_ORIGIN must be an exact HTTPS origin.''
              else if public \<noteq> None \<and> (case auth of None \<Rightarrow> True | Some a \<Rightarrow> \<not> ma_secureCookies a)
              then Inl ''Public management requires secure sess cookies.''
              else Inr \<lparr>mn_allowRemote = allowRemote, mn_public = public, mn_publicOption = publicOrigin,
                        mn_csp = contentSecurityPolicy sha documents, mn_servicePort = servicePort, mn_port = port,
                        mn_auth = auth, mn_access = access, mn_providers = providers, mn_world = w, mn_activity = activity,
                        mn_streams = [], mn_ended = [], mn_tasks = [], mn_answers = [], mn_next = 0\<rparr>)"

definition applySecurityHeaders :: "jsstring \<Rightarrow> bool \<Rightarrow> (string \<times> jsstring) list" where
  "applySecurityHeaders csp publicMode =
     [(''Cache-Control'', js ''no-store''), (''Content-Security-Policy'', csp),
      (''Cross-Origin-Opener-Policy'', js ''same-origin''), (''Cross-Origin-Resource-Policy'', js ''same-origin''),
      (''Permissions-Policy'', js ''camera=(), microphone=(), geolocation=(), payment=(), usb=()''),
      (''Referrer-Policy'', js ''no-referrer''), (''X-Content-Type-Options'', js ''nosniff''), (''X-Frame-Options'', js ''DENY'')] @
     (if publicMode then [(''Strict-Transport-Security'', js ''max-age=31536000; includeSubDomains'')] else [])"

definition json_answer :: "nat \<Rightarrow> management_body \<Rightarrow> management_answer" where
  "json_answer status body =
     \<lparr>mr_status = status, mr_headers = [(''Content-Type'', js ''application/json; charset=utf-8'')], mr_body = body\<rparr>"

definition html_answer :: "management_body \<Rightarrow> management_answer" where
  "html_answer page = \<lparr>mr_status = 200, mr_headers = [(''Content-Type'', js ''text/html; charset=utf-8'')], mr_body = page\<rparr>"

definition redirect :: "string \<Rightarrow> management_answer" where
  "redirect location = \<lparr>mr_status = 303, mr_headers = [(''Location'', js location)], mr_body = NoBody\<rparr>"

definition with_header :: "string \<Rightarrow> jsstring \<Rightarrow> management_answer \<Rightarrow> management_answer" where
  "with_header name v r = r\<lparr>mr_headers := (name, v) # mr_headers r\<rparr>"

fun thrown_answer :: "thrown \<Rightarrow> management_answer" where
  "thrown_answer (Thrown status code) = json_answer status (ErrorCode code)"

definition answer :: "nat \<Rightarrow> management_answer \<Rightarrow> 'w management \<Rightarrow> 'w management" where
  "answer i r m =
     m\<lparr>mn_answers := mn_answers m @
         [(i, r\<lparr>mr_headers := applySecurityHeaders (mn_csp m) (mn_public m \<noteq> None) @ mr_headers r\<rparr>)]\<rparr>"

definition await :: "nat \<Rightarrow> management_task \<Rightarrow> 'w management \<Rightarrow> 'w management" where
  "await i t m = m\<lparr>mn_tasks := mn_tasks m @ [(i, t)]\<rparr>"

text \<open>\<open>activity.publish\<close>, which writes the event to every open stream; \<open>writeEvent\<close> does not throw.\<close>

definition announce :: "jsstring \<Rightarrow> jsstring ActivityInput \<Rightarrow> 'w management \<Rightarrow> 'w management" where
  "announce timestamp inp m =
     (case publish (\<lambda>_. False) timestamp inp (mn_activity m) of
        (bus, ev, called, threw) \<Rightarrow>
          m\<lparr>mn_activity := bus,
            mn_streams := map (\<lambda>(i, evs). (i, if i \<in> set called \<and> i \<notin> set (mn_ended m) then evs @ [ev] else evs)) (mn_streams m)\<rparr>)"

definition note_of :: "string \<Rightarrow> ActivityLevel \<Rightarrow> string \<Rightarrow> jsstring \<Rightarrow> jsstring ActivityInput" where
  "note_of service level kind message =
     \<lparr>in_timestamp = None, in_serviceId = js service, in_level = level, in_type = js kind, in_message = message,
      in_userId = None, in_requestId = None, in_durationMs = None, in_details = None, in_metadata = None\<rparr>"

section \<open>Guards\<close>

definition hasLoopbackHost :: "management_request \<Rightarrow> bool" where
  "hasLoopbackHost rq \<longleftrightarrow>
     plain_header rq ''host'' \<noteq> None \<and> plain_header rq ''host'' \<noteq> Some [] \<and>
     (case rq_hostname rq of None \<Rightarrow> False
      | Some n \<Rightarrow> ascii_lower n \<in> {js ''127.0.0.1'', js ''localhost'', js ''[::1]''})"

definition hasExpectedPublicHost :: "management_request \<Rightarrow> jsstring \<Rightarrow> bool" where
  "hasExpectedPublicHost rq host \<longleftrightarrow> map_option ascii_lower (plain_header rq ''host'') = Some (ascii_lower host)"

definition requireSameOrigin :: "management_request \<Rightarrow> (jsstring \<times> jsstring) option \<Rightarrow> thrown option" where
  "requireSameOrigin rq public =
     (let origin = plain_header rq ''origin''; forbidden = Some (Thrown 403 ''management-origin-forbidden'')
      in case public of
           Some (expected, _) \<Rightarrow> if origin \<noteq> Some expected then forbidden else None
         | None \<Rightarrow>
             if origin = None \<or> origin = Some [] then None
             else (case (plain_header rq ''host'', rq_originHost rq) of
                     (Some host, Some oh) \<Rightarrow> if host = [] \<or> ascii_lower oh \<noteq> ascii_lower host then forbidden else None
                   | _ \<Rightarrow> forbidden))"

definition requireManagementIntent ::
  "(bytes \<Rightarrow> bytes) \<Rightarrow> management_request \<Rightarrow> authenticator option \<Rightarrow> ManagementSession option \<Rightarrow> thrown option"
where
  "requireManagementIntent sha rq auth sess =
     (if header (http_request.truncate rq) ''x-typr-management'' \<noteq> Some (HStr (js ''1''))
      then Some (Thrown 400 ''management-header-required'')
      else if auth \<noteq> None \<and>
          (case sess of None \<Rightarrow> True | Some s \<Rightarrow> \<not> validCsrf sha s (plain_header rq ''x-typr-csrf''))
      then Some (Thrown 403 ''management-csrf-required'')
      else None)"

definition MAX_MANAGEMENT_BODY_BYTES :: int where "MAX_MANAGEMENT_BODY_BYTES = 64 * 1024"

definition readManagementBody :: "(bytes \<Rightarrow> json option) \<Rightarrow> management_request \<Rightarrow> thrown + json" where
  "readManagementBody parse rq =
     (if \<not> (case plain_header rq ''content-type'' of Some s \<Rightarrow> prefix (js ''application/json'') (ascii_lower s) | None \<Rightarrow> False)
      then Inl (Thrown 415 ''content-type-required'')
      else case read_chunks MAX_MANAGEMENT_BODY_BYTES 0 [] (rq_chunks rq) of
        None \<Rightarrow> Inl (Thrown 413 ''body-too-large'')
      | Some body \<Rightarrow> (case parse body of None \<Rightarrow> Inl invalidBody | Some v \<Rightarrow> Inr v))"

section \<open>Handlers\<close>

text \<open>\<open>options.authenticator?.session(request.headers.cookie)\<close>\<close>

definition current_session ::
  "'w management_host \<Rightarrow> moment \<Rightarrow> management_request \<Rightarrow> 'w management \<Rightarrow> 'w management \<times> ManagementSession option"
where
  "current_session h mo rq m =
     (case mn_auth m of
        None \<Rightarrow> (m, None)
      | Some a \<Rightarrow>
          (case session (mh_sha h) (mo_now mo) (plain_header rq ''cookie'') a of
             (a', s) \<Rightarrow> (m\<lparr>mn_auth := Some a'\<rparr>, s)))"

definition fail :: "nat \<Rightarrow> thrown \<Rightarrow> 'w management \<Rightarrow> 'w management" where
  "fail i e m = answer i (thrown_answer e) m"

definition providers_view :: "'w management_host \<Rightarrow> 'w management \<Rightarrow> string + ProviderManagerSnapshot option" where
  "providers_view h m =
     (case mn_providers m of
        None \<Rightarrow> Inr None
      | Some pm \<Rightarrow> (case manager_snapshot (mh_le h) (ph_cwd (mh_provider h)) pm of Inl e \<Rightarrow> Inl e | Inr v \<Rightarrow> Inr (Some v)))"

definition openActivityStream :: "nat \<Rightarrow> management_request \<Rightarrow> 'w management \<Rightarrow> 'w management" where
  "openActivityStream i rq m =
     (let afterId = (case rq_lastEventId rq of Some n \<Rightarrow> nat n | None \<Rightarrow> 0);
          m1 = answer i \<lparr>mr_status = 200, mr_headers = [(''Content-Type'', js ''text/event-stream; charset=utf-8''),
                 (''Cache-Control'', js ''no-store''), (''Connection'', js ''keep-alive''), (''X-Accel-Buffering'', js ''no'')],
                 mr_body = EventStream\<rparr> m
      in m1\<lparr>mn_streams := mn_streams m1 @ [(i, bus_snapshot None (Some afterId) None (mn_activity m))],
            mn_activity := subscribe i (mn_activity m1)\<rparr>)"

definition install_provider :: "nat \<Rightarrow> moment \<Rightarrow> jsstring \<Rightarrow> 'w management \<Rightarrow> 'w management" where
  "install_provider i mo raw m =
     (case mn_providers m of
        None \<Rightarrow> fail i (Thrown 409 ''provider-management-disabled'') m
      | Some pm \<Rightarrow>
          (case decodeURIComponent raw of
             None \<Rightarrow> fail i other_error m
           | Some pid \<Rightarrow>
               (case startInstall (mo_uuid mo) (mo_timestamp mo) (mo_hex mo) pid pm of
                  (pm', Inl e) \<Rightarrow> fail i (provider_thrown e) (m\<lparr>mn_providers := Some pm'\<rparr>)
                | (pm', Inr job) \<Rightarrow>
                    answer i (json_answer 202 (JobBody job))
                      (announce (mo_timestamp mo)
                        ((note_of [] LevelInfo ''provider-install-queued'' (js ''Queued installation for '' @ job_providerId job @ js ''.''))
                           \<lparr>in_serviceId := js ''provider-'' @ job_providerId job, in_metadata := Some (job_id job)\<rparr>)
                        (m\<lparr>mn_providers := Some pm'\<rparr>)))))"

definition revoke_key :: "nat \<Rightarrow> moment \<Rightarrow> jsstring \<Rightarrow> 'w management \<Rightarrow> 'w management" where
  "revoke_key i mo raw m =
     (case decodeURIComponent raw of
        None \<Rightarrow> fail i other_error m
      | Some kid \<Rightarrow>
          (case revokeApiKey (mo_timestamp mo) kid (mn_access m) of
             (st, Inl e) \<Rightarrow> fail i (access_thrown e) (m\<lparr>mn_access := st\<rparr>)
           | (st, Inr key) \<Rightarrow>
               await i (Persisting (note_of ''management'' LevelWarning ''api-key-revoked''
                          (js ''Revoked API key '' @ key_label key @ js ''.'')) (json_answer 200 (KeyBody key)))
                 (m\<lparr>mn_access := st\<rparr>)))"

text \<open>The routes that need the management header, in the order of the code.\<close>

definition handle_mutation :: "nat \<Rightarrow> moment \<Rightarrow> management_request \<Rightarrow> jsstring \<Rightarrow> 'w management \<Rightarrow> 'w management" where
  "handle_mutation i mo rq path m =
     (let post = (rq_method rq = js ''POST''); patch = (rq_method rq = js ''PATCH'')
      in if post \<and> path = js ''/api/services/refresh'' then await i Refreshing m
         else if post \<and> path = js ''/api/texlive/update'' then await i Updating m
         else case (if post then path_param ''/api/providers/'' ''/install'' path else None) of
           Some raw \<Rightarrow> install_provider i mo raw m
         | None \<Rightarrow>
         (case (if patch then path_param ''/api/providers/'' [] path else None) of
           Some raw \<Rightarrow>
             if mn_providers m = None then fail i (Thrown 409 ''provider-management-disabled'') m
             else await i (ReadingBody (ActivateRoute raw) rq) m
         | None \<Rightarrow>
         if post \<and> path = js ''/api/users'' then await i (ReadingBody CreateUserRoute rq) m
         else case (if patch then path_param ''/api/users/'' [] path else None) of
           Some raw \<Rightarrow> await i (ReadingBody (UpdateUserRoute raw) rq) m
         | None \<Rightarrow>
         (case (if post then path_param ''/api/users/'' ''/keys'' path else None) of
           Some raw \<Rightarrow> await i (ReadingBody (CreateKeyRoute raw) rq) m
         | None \<Rightarrow>
         (case (if rq_method rq = js ''DELETE'' then path_param ''/api/keys/'' [] path else None) of
           Some raw \<Rightarrow> revoke_key i mo raw m
         | None \<Rightarrow>
         if patch \<and> path = js ''/api/settings'' then await i (ReadingBody SettingsRoute rq) m
         else answer i (json_answer 404 (ErrorCode ''not-found'')) m))))"

definition handleManagementRequest ::
  "'w management_host \<Rightarrow> nat \<Rightarrow> moment \<Rightarrow> management_request \<Rightarrow> jsstring \<Rightarrow> ManagementSession option \<Rightarrow> 'w management \<Rightarrow> 'w management"
where
  "handleManagementRequest h i mo rq path sess m =
     (let get = (rq_method rq = js ''GET'')
      in if get \<and> path = js ''/'' then answer i (html_answer ConsolePage) m
         else if get \<and> path = js ''/favicon.ico'' then answer i \<lparr>mr_status = 204, mr_headers = [], mr_body = NoBody\<rparr> m
         else if get \<and> path = js ''/api/snapshot'' then
           (case providers_view h m of
              Inl e \<Rightarrow> fail i other_error m
            | Inr ps \<Rightarrow> await i (Listing (mn_port m) sess ps) m)
         else if get \<and> path = js ''/api/events'' then openActivityStream i rq m
         else if rq_method rq = js ''OPTIONS''
         then answer i \<lparr>mr_status = 204, mr_headers = [(''Allow'', js ''GET, POST, PATCH, DELETE'')], mr_body = NoBody\<rparr> m
         else case requireManagementIntent (mh_sha h) rq (mn_auth m) sess of
           Some e \<Rightarrow> fail i e m
         | None \<Rightarrow> handle_mutation i mo rq path m)"

text \<open>Logging out without an authenticator is the \<open>TypeError\<close> of a property of \<open>undefined\<close>.\<close>

definition logout_request ::
  "'w management_host \<Rightarrow> nat \<Rightarrow> management_request \<Rightarrow> ManagementSession option \<Rightarrow> 'w management \<Rightarrow> 'w management"
where
  "logout_request h i rq sess m =
     (case requireManagementIntent (mh_sha h) rq (mn_auth m) sess of
        Some e \<Rightarrow> fail i e m
      | None \<Rightarrow>
          (case mn_auth m of
             None \<Rightarrow> fail i other_error m
           | Some a \<Rightarrow>
               (case logout (mh_sha h) (plain_header rq ''cookie'') a of
                  (a', cookie) \<Rightarrow>
                    answer i (with_header ''Set-Cookie'' cookie (json_answer 200 OkBody)) (m\<lparr>mn_auth := Some a'\<rparr>))))"

text \<open>The listener once it knows the session.\<close>

definition dispatch ::
  "'w management_host \<Rightarrow> nat \<Rightarrow> moment \<Rightarrow> management_request \<Rightarrow> jsstring \<Rightarrow> ManagementSession option \<Rightarrow> 'w management \<Rightarrow> 'w management"
where
  "dispatch h i mo rq path sess m =
     (if rq_method rq = js ''GET'' \<and> path = js ''/login''
      then answer i (if sess \<noteq> None then redirect ''/'' else html_answer LoginPage) m
      else if rq_method rq = js ''POST'' \<and> path = js ''/api/auth/login'' then
        (if mn_auth m = None then fail i (Thrown 404 ''authentication-disabled'') m
         else case requireSameOrigin rq (mn_public m) of
           Some e \<Rightarrow> fail i e m
         | None \<Rightarrow> await i (ReadingLogin rq) m)
      else if mn_auth m \<noteq> None \<and> sess = None then
        (if rq_method rq = js ''GET'' \<and> path = js ''/'' then answer i (redirect ''/login'') m
         else fail i (Thrown 401 ''management-authentication-required'') m)
      else if rq_method rq = js ''POST'' \<and> path = js ''/api/auth/logout'' then logout_request h i rq sess m
      else handleManagementRequest h i mo rq path sess m)"

definition arrive :: "'w management_host \<Rightarrow> moment \<Rightarrow> management_request \<Rightarrow> 'w management \<Rightarrow> 'w management" where
  "arrive h mo rq m0 =
     (let i = mn_next m0; m = m0\<lparr>mn_next := Suc i\<rparr>
      in if \<not> mn_allowRemote m \<and> \<not> hasLoopbackHost rq then fail i (Thrown 421 ''loopback-host-required'') m
         else if (case mn_public m of None \<Rightarrow> False | Some (_, host) \<Rightarrow> \<not> hasExpectedPublicHost rq host)
         then fail i (Thrown 421 ''management-host-mismatch'') m
         else case rq_url rq of
           None \<Rightarrow> fail i other_error m
         | Some (path, _) \<Rightarrow>
             (case current_session h mo rq m of (m1, sess) \<Rightarrow> dispatch h i mo rq path sess m1))"

section \<open>Continuations\<close>

definition login_answer :: "ManagementLoginResult \<Rightarrow> management_answer" where
  "login_answer r =
     (case r of
        LoggedIn s cookie \<Rightarrow> with_header ''Set-Cookie'' cookie (json_answer 200 OkBody)
      | LoginRefused (Some n) \<Rightarrow> with_header ''Retry-After'' (int_dec n) (json_answer 429 (ErrorCode ''management-login-failed''))
      | LoginRefused None \<Rightarrow> json_answer 401 (ErrorCode ''management-login-failed''))"

definition login_body ::
  "'w management_host \<Rightarrow> nat \<Rightarrow> moment \<Rightarrow> management_request \<Rightarrow> 'w management \<Rightarrow> 'w management"
where
  "login_body h i mo rq m =
     (case (readManagementBody (mh_parse h) rq, mn_auth m) of
        (Inl e, _) \<Rightarrow> fail i e m
      | (Inr v, None) \<Rightarrow> fail i other_error m
      | (Inr v, Some a) \<Rightarrow>
          (case (as_string (field v ''username''), as_string (field v ''password'')) of
             (Some username, Some password) \<Rightarrow>
               (case login_start (mh_lower h) (mh_sha h) (mo_now mo) username password
                       (case rq_remoteAddress rq of Some addr \<Rightarrow> addr | None \<Rightarrow> js ''unknown'') a of
                  Inl r \<Rightarrow> answer i (login_answer r) m
                | Inr l \<Rightarrow> await i (Deriving l) m)
           | _ \<Rightarrow> fail i invalidBody m))"

definition password_derived :: "'w management_host \<Rightarrow> nat \<Rightarrow> moment \<Rightarrow> login_attempt \<Rightarrow> 'w management \<Rightarrow> 'w management" where
  "password_derived h i mo l m =
     (case mn_auth m of
        None \<Rightarrow> fail i other_error m
      | Some a \<Rightarrow>
          (case login_finish (mh_sha h) (mh_scrypt h) (mo_random1 mo) (mo_random2 mo) l a of
             (a', None) \<Rightarrow> fail i other_error (m\<lparr>mn_auth := Some a'\<rparr>)
           | (a', Some r) \<Rightarrow> answer i (login_answer r) (m\<lparr>mn_auth := Some a'\<rparr>)))"

text \<open>The result of an operation on the store: its error is thrown, its success awaits the write.\<close>

definition store_result ::
  "nat \<Rightarrow> access_store \<times> (access_error + 'r) \<Rightarrow> ('r \<Rightarrow> jsstring ActivityInput \<times> management_answer) \<Rightarrow> 'w management \<Rightarrow> 'w management"
where
  "store_result i result reply m =
     (case result of
        (st, Inl e) \<Rightarrow> fail i (access_thrown e) (m\<lparr>mn_access := st\<rparr>)
      | (st, Inr r) \<Rightarrow> (case reply r of (inp, ans) \<Rightarrow> await i (Persisting inp ans) (m\<lparr>mn_access := st\<rparr>)))"

fun body_handler ::
  "'w management_host \<Rightarrow> nat \<Rightarrow> moment \<Rightarrow> body_route \<Rightarrow> json \<Rightarrow> 'w management \<Rightarrow> 'w management"
where
  "body_handler h i mo CreateUserRoute v m =
     (case as_string (field v ''name'') of
        None \<Rightarrow> fail i invalidBody m
      | Some name \<Rightarrow>
          store_result i (createUser (mh_lower h) (mo_uuid mo) (mo_timestamp mo) name (mn_access m))
            (\<lambda>u. (note_of ''management'' LevelInfo ''user-created'' (js ''Created user '' @ user_name u @ js ''.''),
                  json_answer 201 (UserBody u))) m)"
| "body_handler h i mo (UpdateUserRoute raw) v m =
     (case as_bool (field v ''disabled'') of
        None \<Rightarrow> fail i invalidBody m
      | Some d \<Rightarrow>
          (case decodeURIComponent raw of
             None \<Rightarrow> fail i other_error m
           | Some uid \<Rightarrow>
               store_result i (setUserDisabled uid d (mn_access m))
                 (\<lambda>u. (note_of ''management'' (if d then LevelWarning else LevelInfo)
                         (if d then ''user-disabled'' else ''user-enabled'')
                         (js (if d then ''Disabled user '' else ''Enabled user '') @ user_name u @ js ''.''),
                       json_answer 200 (UserBody u))) m))"
| "body_handler h i mo (CreateKeyRoute raw) v m =
     (case as_string (field v ''label'') of
        None \<Rightarrow> fail i invalidBody m
      | Some label \<Rightarrow>
          (case decodeURIComponent raw of
             None \<Rightarrow> fail i other_error m
           | Some uid \<Rightarrow>
               store_result i (createApiKey (mh_sha h) (mo_random1 mo) (mo_uuid mo) (mo_timestamp mo) uid label (mn_access m))
                 (\<lambda>(k, secret). (note_of ''management'' LevelInfo ''api-key-created'' (js ''Created API key '' @ key_label k @ js ''.''),
                                 json_answer 201 (CreatedKeyBody k secret))) m))"
| "body_handler h i mo (ActivateRoute raw) v m =
     (if field v ''active'' \<noteq> Some (JBool True) then fail i invalidBody m
      else case (decodeURIComponent raw, mn_providers m) of
        (Some pid, Some pm) \<Rightarrow>
          (case activateTexProvider (ph_cwd (mh_provider h)) pid pm of
             (pm', Inl e) \<Rightarrow> fail i (provider_thrown e) (m\<lparr>mn_providers := Some pm'\<rparr>)
           | (pm', Inr _) \<Rightarrow> await i (Activating pid) (m\<lparr>mn_providers := Some pm'\<rparr>))
      | _ \<Rightarrow> fail i other_error m)"
| "body_handler h i mo SettingsRoute v m =
     (case as_bool (field v ''requireApiKeys'') of
        None \<Rightarrow> fail i invalidBody m
      | Some b \<Rightarrow>
          store_result i (setRequireApiKeys b (mn_access m))
            (\<lambda>_. (note_of ''management'' (if b then LevelWarning else LevelInfo) ''api-authentication-changed''
                    (js (''Service API-key authentication '' @ (if b then ''enabled'' else ''disabled'') @ ''.'')),
                  json_answer 200 (SettingsBody b))) m)"

definition mutation_body ::
  "'w management_host \<Rightarrow> nat \<Rightarrow> moment \<Rightarrow> body_route \<Rightarrow> management_request \<Rightarrow> 'w management \<Rightarrow> 'w management"
where
  "mutation_body h i mo route rq m =
     (case readManagementBody (mh_parse h) rq of
        Inl e \<Rightarrow> fail i e m
      | Inr v \<Rightarrow> if isRecord v then body_handler h i mo route v m else fail i invalidBody m)"

text \<open>The awaited write, or activation, has settled.\<close>

definition settled_task ::
  "'w management_host \<Rightarrow> nat \<Rightarrow> moment \<Rightarrow> bool \<Rightarrow> management_task \<Rightarrow> 'w management \<Rightarrow> 'w management"
where
  "settled_task h i mo ok t m =
     (if \<not> ok then fail i other_error m
      else case t of
        Persisting inp ans \<Rightarrow> answer i ans (announce (mo_timestamp mo) inp m)
      | Activating pid \<Rightarrow>
          (let m1 = announce (mo_timestamp mo)
                      (note_of ''latex'' LevelInfo ''tex-provider-activated'' (js ''Activated TeX provider '' @ pid @ js ''.'')) m
           in case providers_view h m1 of
                Inr (Some v) \<Rightarrow> answer i (json_answer 200 (ProvidersBody v)) m1
              | _ \<Rightarrow> fail i other_error m1)
      | _ \<Rightarrow> m)"

text \<open>\<open>getServices\<close> has answered; \<open>None\<close> when it threw.\<close>

definition services_found ::
  "nat \<Rightarrow> moment \<Rightarrow> ManagedServiceDescriptor list option \<Rightarrow> management_task \<Rightarrow> 'w management \<Rightarrow> 'w management"
where
  "services_found i mo found t m =
     (case (found, t) of
        (None, _) \<Rightarrow> fail i other_error m
      | (Some ss, Listing port sess ps) \<Rightarrow>
          answer i (json_answer 200 (SnapshotBody
            \<lparr>mv_servicePort = mn_servicePort m, mv_managementPort = port,
             mv_session = map_option (\<lambda>s. (ManagementSession.ms_username s, ManagementSession.ms_csrfToken s,
                                           ManagementSession.ms_expiresAt s)) sess, mv_publicOrigin = mn_publicOption m,
             mv_providers = ps, mv_services = ss, mv_access = access_snapshot (mn_access m),
             mv_activity = bus_snapshot None None (Some 1000) (mn_activity m)\<rparr>)) m
      | (Some ss, _) \<Rightarrow>
          answer i (json_answer 200 OkBody)
            (announce (mo_timestamp mo) (note_of ''management'' LevelInfo ''providers-refreshed''
              (js ''Provider discovery was refreshed from the management console.'')) m))"

text \<open>\<open>updateAll\<close> has answered; \<open>None\<close> when \<open>activeTexPackageManager\<close> threw.\<close>

definition tex_updated :: "nat \<Rightarrow> moment \<Rightarrow> TexPackageUpdateResult option \<Rightarrow> 'w management \<Rightarrow> 'w management" where
  "tex_updated i mo result m =
     (case result of
        None \<Rightarrow> fail i other_error m
      | Some r \<Rightarrow>
          (let m1 = announce (mo_timestamp mo)
                 (note_of ''latex'' (if tu_updated r then LevelInfo else LevelError)
                   (if tu_updated r then ''texlive-updated'' else ''texlive-update-failed'') (tu_diagnostic r)) m
           in if \<not> tu_updated r then fail i (Thrown 502 ''texlive-update-failed'') m1
              else answer i (json_answer 200 (UpdateBody r)) m1))"

section \<open>Steps\<close>

text \<open>
  The first seven are steps of the console, the next two its streams and its end; the others are the
  service, which authorizes requests, publishes events, writes the key store's file and installs providers.
\<close>

datatype management_op =
    Arrive management_request moment
  | BodyRead nat moment
  | PasswordDerived nat moment
  | TaskSettled nat bool moment
  | ServicesFound nat "ManagedServiceDescriptor list option" moment
  | TexUpdated nat "TexPackageUpdateResult option" moment
  | StreamClosed nat
  | Shutdown
  | Published jsstring "jsstring ActivityInput"
  | KeyChecked jsstring "jsstring list" "jsstring option"
  | StoreWritten bool
  | InstallContinued jsstring jsstring
  | ProviderSaved jsstring jsstring bool

text \<open>\<open>shutdownManagementServer\<close> ends the open streams; the server then takes no new connections.\<close>

definition shutdownManagementServer :: "'w management \<Rightarrow> 'w management" where
  "shutdownManagementServer m = m\<lparr>mn_ended := map fst (mn_streams m)\<rparr>"

definition drop_task :: "nat \<Rightarrow> 'w management \<Rightarrow> 'w management" where
  "drop_task i m = m\<lparr>mn_tasks := AList.delete i (mn_tasks m)\<rparr>"

definition provider_work :: "'w management_host \<Rightarrow> provider_op \<Rightarrow> 'w management \<Rightarrow> 'w management" where
  "provider_work h op m =
     (case mn_providers m of
        None \<Rightarrow> m
      | Some pm \<Rightarrow>
          (case provider_act (mh_provider h) op (pm, mn_world m) of
             (pm', w) \<Rightarrow> m\<lparr>mn_providers := Some pm', mn_world := w\<rparr>))"

fun management_act :: "'w management_host \<Rightarrow> management_op \<Rightarrow> 'w management \<Rightarrow> 'w management" where
  "management_act h (Arrive rq mo) m = arrive h mo rq m"
| "management_act h (BodyRead i mo) m =
     (case map_of (mn_tasks m) i of
        Some (ReadingLogin rq) \<Rightarrow> login_body h i mo rq (drop_task i m)
      | Some (ReadingBody route rq) \<Rightarrow> mutation_body h i mo route rq (drop_task i m)
      | _ \<Rightarrow> m)"
| "management_act h (PasswordDerived i mo) m =
     (case map_of (mn_tasks m) i of Some (Deriving l) \<Rightarrow> password_derived h i mo l (drop_task i m) | _ \<Rightarrow> m)"
| "management_act h (TaskSettled i ok mo) m =
     (case map_of (mn_tasks m) i of
        Some (Persisting inp ans) \<Rightarrow> settled_task h i mo ok (Persisting inp ans) (drop_task i m)
      | Some (Activating pid) \<Rightarrow> settled_task h i mo ok (Activating pid) (drop_task i m)
      | _ \<Rightarrow> m)"
| "management_act h (ServicesFound i found mo) m =
     (case map_of (mn_tasks m) i of
        Some (Listing port sess ps) \<Rightarrow> services_found i mo found (Listing port sess ps) (drop_task i m)
      | Some Refreshing \<Rightarrow> services_found i mo found Refreshing (drop_task i m)
      | _ \<Rightarrow> m)"
| "management_act h (TexUpdated i result mo) m =
     (case map_of (mn_tasks m) i of Some Updating \<Rightarrow> tex_updated i mo result (drop_task i m) | _ \<Rightarrow> m)"
| "management_act h (StreamClosed i) m =
     m\<lparr>mn_streams := AList.delete i (mn_streams m), mn_activity := unsubscribe i (mn_activity m)\<rparr>"
| "management_act h Shutdown m = shutdownManagementServer m"
| "management_act h (Published timestamp inp) m = announce timestamp inp m"
| "management_act h (KeyChecked now old authorization) m =
     m\<lparr>mn_access := fst (authorize (mh_sha h) now (\<lambda>t. t \<in> set old) authorization (mn_access m))\<rparr>"
| "management_act h (StoreWritten ok) m = m\<lparr>mn_access := fst (settle_write ok (mn_access m))\<rparr>"
| "management_act h (InstallContinued now jid) m = provider_work h (ContinueInstall now jid) m"
| "management_act h (ProviderSaved now message ok) m = provider_work h (SettleSave now message ok) m"

text \<open>A run with its history: every operation and the state it met.\<close>

inductive management_run ::
  "'w management_host \<Rightarrow> 'w management \<Rightarrow> (management_op \<times> 'w management) list \<Rightarrow> 'w management \<Rightarrow> bool"
  for h m0 where
  start: "management_run h m0 [] m0"
| step: "management_run h m0 hist m \<Longrightarrow> management_run h m0 (hist @ [(op, m)]) (management_act h op m)"

end
