(* ===== verification/ManagementRuns.thy ===== *)
theory ManagementRuns
  imports ManagementServer
begin

text \<open>
  What the management console of \<^verbatim>\<open>typr-server/managementServer.ts\<close> keeps over a run: whose requests change the key store and
  the providers, that every request is answered once, and what an event stream carries.
\<close>

section \<open>What the parts of a handler touch\<close>

named_theorems console_simps \<open>the fields after an answer, an announcement, a new or a finished task\<close>

lemma answer_fields [console_simps]:
  "mn_access (answer i r m) = mn_access m" "mn_providers (answer i r m) = mn_providers m" "mn_auth (answer i r m) = mn_auth m"
  "mn_tasks (answer i r m) = mn_tasks m" "mn_next (answer i r m) = mn_next m" "mn_activity (answer i r m) = mn_activity m"
  "mn_streams (answer i r m) = mn_streams m" "mn_ended (answer i r m) = mn_ended m"
  "mn_allowRemote (answer i r m) = mn_allowRemote m" "mn_public (answer i r m) = mn_public m"
  by (simp_all add: answer_def)

lemma fail_fields [console_simps]:
  "mn_access (fail i e m) = mn_access m" "mn_providers (fail i e m) = mn_providers m" "mn_auth (fail i e m) = mn_auth m"
  "mn_tasks (fail i e m) = mn_tasks m" "mn_next (fail i e m) = mn_next m" "mn_activity (fail i e m) = mn_activity m"
  "mn_streams (fail i e m) = mn_streams m" "mn_ended (fail i e m) = mn_ended m"
  "mn_allowRemote (fail i e m) = mn_allowRemote m" "mn_public (fail i e m) = mn_public m"
  by (simp_all add: fail_def answer_fields)

lemma await_fields [console_simps]:
  "mn_access (await i t m) = mn_access m" "mn_providers (await i t m) = mn_providers m" "mn_auth (await i t m) = mn_auth m"
  "mn_tasks (await i t m) = mn_tasks m @ [(i, t)]" "mn_next (await i t m) = mn_next m" "mn_activity (await i t m) = mn_activity m"
  "mn_streams (await i t m) = mn_streams m" "mn_ended (await i t m) = mn_ended m" "mn_answers (await i t m) = mn_answers m"
  "mn_allowRemote (await i t m) = mn_allowRemote m" "mn_public (await i t m) = mn_public m"
  by (simp_all add: await_def)

lemma announce_fields [console_simps]:
  "mn_access (announce ts inp m) = mn_access m" "mn_providers (announce ts inp m) = mn_providers m"
  "mn_auth (announce ts inp m) = mn_auth m" "mn_tasks (announce ts inp m) = mn_tasks m" "mn_next (announce ts inp m) = mn_next m"
  "mn_ended (announce ts inp m) = mn_ended m" "mn_answers (announce ts inp m) = mn_answers m"
  "mn_allowRemote (announce ts inp m) = mn_allowRemote m" "mn_public (announce ts inp m) = mn_public m"
  by (simp_all add: announce_def split: prod.split)

lemma drop_task_fields [console_simps]:
  "mn_access (drop_task i m) = mn_access m" "mn_providers (drop_task i m) = mn_providers m" "mn_auth (drop_task i m) = mn_auth m"
  "mn_tasks (drop_task i m) = AList.delete i (mn_tasks m)" "mn_next (drop_task i m) = mn_next m"
  "mn_activity (drop_task i m) = mn_activity m" "mn_streams (drop_task i m) = mn_streams m" "mn_ended (drop_task i m) = mn_ended m"
  "mn_answers (drop_task i m) = mn_answers m" "mn_allowRemote (drop_task i m) = mn_allowRemote m" "mn_public (drop_task i m) = mn_public m"
  by (simp_all add: drop_task_def)

lemma session_fields:
  assumes "current_session h mo rq m = (m1, s)"
  shows "mn_access m1 = mn_access m" "mn_providers m1 = mn_providers m" "mn_tasks m1 = mn_tasks m" "mn_next m1 = mn_next m"
    "mn_activity m1 = mn_activity m" "mn_streams m1 = mn_streams m" "mn_ended m1 = mn_ended m" "mn_answers m1 = mn_answers m"
    "mn_allowRemote m1 = mn_allowRemote m" "mn_public m1 = mn_public m" "mn_auth m1 = None \<longleftrightarrow> mn_auth m = None"
    "s = (case mn_auth m of None \<Rightarrow> None | Some a \<Rightarrow> snd (session (mh_sha h) (mo_now mo) (plain_header rq ''cookie'') a))"
  using assms by (auto simp: current_session_def split: option.splits prod.splits)

section \<open>Every request is answered once\<close>

fun task_rank :: "management_task \<Rightarrow> nat" where
  "task_rank (ReadingLogin rq) = 2"
| "task_rank (ReadingBody route rq) = 2"
| "task_rank _ = 1"

text \<open>
  A handler of the request \<open>i\<close> answers it or makes it wait in a task with the property \<open>P\<close>; and when it
  changes the key store or the providers its answer is no error.
\<close>

definition stores :: "'w management \<Rightarrow> access_store \<times> provider_manager option" where
  "stores m = (mn_access m, mn_providers m)"

definition handled :: "(management_task \<Rightarrow> bool) \<Rightarrow> bool \<Rightarrow> nat \<Rightarrow> 'w management \<Rightarrow> 'w management \<Rightarrow> bool" where
  "handled P allowed i m m' \<longleftrightarrow>
     mn_next m' = mn_next m \<and> mn_allowRemote m' = mn_allowRemote m \<and> mn_public m' = mn_public m \<and>
     (mn_auth m' = None \<longleftrightarrow> mn_auth m = None) \<and>
     (stores m' = stores m \<or> allowed) \<and>
     ((\<exists>r. mn_answers m' = mn_answers m @ [(i, r)] \<and> mn_tasks m' = mn_tasks m \<and> (stores m' = stores m \<or> mr_status r < 400)) \<or>
      (\<exists>t. mn_answers m' = mn_answers m \<and> mn_tasks m' = mn_tasks m @ [(i, t)] \<and> P t))"

definition requests_kept :: "'w management \<Rightarrow> 'w management \<Rightarrow> bool" where
  "requests_kept m m' \<longleftrightarrow> mn_next m' = mn_next m \<and> mn_allowRemote m' = mn_allowRemote m \<and> mn_public m' = mn_public m \<and>
     (mn_auth m' = None \<longleftrightarrow> mn_auth m = None) \<and> mn_answers m' = mn_answers m \<and> mn_tasks m' = mn_tasks m"

lemma answers_answer:
  "\<exists>r'. mn_answers (answer i r m) = mn_answers m @ [(i, r')] \<and> mr_status r' = mr_status r"
  by (simp add: answer_def)

lemma handled_answer:
  assumes "requests_kept m m1" "stores m1 = stores m \<or> allowed \<and> mr_status r < 400"
  shows "handled P allowed i m (answer i r m1)"
proof -
  obtain r' where r': "mn_answers (answer i r m1) = mn_answers m1 @ [(i, r')]" "mr_status r' = mr_status r"
    using answers_answer by blast
  have "stores (answer i r m1) = stores m1" by (simp add: stores_def console_simps)
  with assms r' show ?thesis unfolding handled_def requests_kept_def by (auto simp: console_simps)
qed

lemma handled_fail: "requests_kept m m1 \<Longrightarrow> stores m1 = stores m \<Longrightarrow> handled P allowed i m (fail i e m1)"
  unfolding fail_def by (rule handled_answer) simp_all

lemma handled_await: "requests_kept m m1 \<Longrightarrow> stores m1 = stores m \<or> allowed \<Longrightarrow> P t \<Longrightarrow> handled P allowed i m (await i t m1)"
  by (auto simp: handled_def requests_kept_def console_simps stores_def)

lemma kept_refl: "requests_kept m m"
  by (simp add: requests_kept_def)

lemma kept_updates:
  "requests_kept m m1 \<Longrightarrow> requests_kept m (announce ts inp m1)" "requests_kept m m1 \<Longrightarrow> requests_kept m (m1\<lparr>mn_access := st\<rparr>)"
  "requests_kept m m1 \<Longrightarrow> requests_kept m (m1\<lparr>mn_providers := p\<rparr>)" "requests_kept m m1 \<Longrightarrow> mn_auth m \<noteq> None \<Longrightarrow> requests_kept m (m1\<lparr>mn_auth := Some a\<rparr>)"
  by (auto simp: requests_kept_def console_simps)

lemma stores_updates:
  "stores (announce ts inp m) = stores m" "stores (m\<lparr>mn_auth := a\<rparr>) = stores m" "stores (m\<lparr>mn_next := n\<rparr>) = stores m"
  by (simp_all add: stores_def console_simps)

lemma handled_if: "handled P allowed i m a \<Longrightarrow> handled P allowed i m b \<Longrightarrow> handled P allowed i m (if c then a else b)"
  by simp

lemma handled_option:
  "handled P allowed i m a \<Longrightarrow> (\<And>x. handled P allowed i m (f x)) \<Longrightarrow>
   handled P allowed i m (case v of None \<Rightarrow> a | Some x \<Rightarrow> f x)"
  by (simp split: option.split)

lemma handled_sum:
  "(\<And>e. handled P allowed i m (f e)) \<Longrightarrow> (\<And>x. handled P allowed i m (g x)) \<Longrightarrow>
   handled P allowed i m (case v of Inl e \<Rightarrow> f e | Inr x \<Rightarrow> g x)"
  by (simp split: sum.split)

lemma answer_handled: "handled P allowed i m (answer i r m)"
  by (simp add: handled_answer kept_refl)

lemma fail_handled: "handled P allowed i m (fail i e m)"
  by (simp add: handled_fail kept_refl)

lemma await_handled: "P t \<Longrightarrow> handled P allowed i m (await i t m)"
  by (simp add: handled_await kept_refl)

lemmas handled_parts = handled_if handled_option handled_sum answer_handled fail_handled await_handled

text \<open>An operation that refuses leaves its store alone.\<close>

lemma access_refusals:
  "createUser lower i ts name st = (st', Inl e) \<Longrightarrow> st' = st"
  "setUserDisabled uid d st = (st', Inl e) \<Longrightarrow> st' = st"
  "createApiKey sha random i ts uid label st = (st', Inl e) \<Longrightarrow> st' = st"
  "revokeApiKey ts kid st = (st', Inl e) \<Longrightarrow> st' = st"
  "setRequireApiKeys b st = (st', Inl e) \<Longrightarrow> st' = st"
  by (auto simp: createUser_def setUserDisabled_def createApiKey_def revokeApiKey_def setRequireApiKeys_def Let_def
      split: sum.splits if_splits option.splits)

lemma provider_refusals:
  "startInstall uuid now hex pid pm = (pm', Inl e) \<Longrightarrow> pm' = pm"
  "activateTexProvider cwd pid pm = (pm', Inl e) \<Longrightarrow> pm' = pm"
  by (auto simp: startInstall_def activateTexProvider_def requireDefinition_def Let_def split: sum.splits if_splits option.splits)

lemma store_result_handled:
  assumes "\<And>st' e. result = (st', Inl e) \<Longrightarrow> st' = mn_access m" "\<And>inp ans. P (Persisting inp ans)" allowed
  shows "handled P allowed i m (store_result i result reply m)"
proof -
  obtain st r where result: "result = (st, r)" by (cases result)
  show ?thesis
  proof (cases r)
    case (Inl e)
    with assms(1) result have "st = mn_access m" by simp
    with Inl result show ?thesis by (simp add: store_result_def handled_fail kept_updates kept_refl)
  next
    case (Inr x)
    with result assms(2,3) show ?thesis
      by (simp add: store_result_def handled_await kept_updates kept_refl split: prod.split)
  qed
qed

lemma body_handler_handled:
  assumes "\<And>inp ans. P (Persisting inp ans)" "\<And>pid. P (Activating pid)" allowed
  shows "handled P allowed i m (body_handler h i mo route v m)"
proof (cases route)
  case CreateUserRoute
  show ?thesis unfolding CreateUserRoute body_handler.simps
    by (intro handled_option fail_handled store_result_handled assms) (erule access_refusals(1))
next
  case (UpdateUserRoute raw)
  show ?thesis unfolding UpdateUserRoute body_handler.simps
    by (intro handled_option fail_handled store_result_handled assms) (erule access_refusals(2))
next
  case (CreateKeyRoute raw)
  show ?thesis unfolding CreateKeyRoute body_handler.simps
    by (intro handled_option fail_handled store_result_handled assms) (erule access_refusals(3))
next
  case SettingsRoute
  show ?thesis unfolding SettingsRoute body_handler.simps
    by (intro handled_option fail_handled store_result_handled assms) (erule access_refusals(5))
next
  case (ActivateRoute raw)
  show ?thesis
  proof (cases "field v ''active'' = Some (JBool True) \<and> decodeURIComponent raw \<noteq> None \<and> mn_providers m \<noteq> None")
    case True
    then obtain pid pm where d: "decodeURIComponent raw = Some pid" "mn_providers m = Some pm" by auto
    obtain pm' r where a: "activateTexProvider (ph_cwd (mh_provider h)) pid pm = (pm', r)"
      by (cases "activateTexProvider (ph_cwd (mh_provider h)) pid pm")
    show ?thesis
    proof (cases r)
      case (Inl e)
      with a provider_refusals(2) have "m\<lparr>mn_providers := Some pm'\<rparr> = m" using d(2) by fastforce
      with True d a Inl ActivateRoute show ?thesis by (simp add: handled_fail kept_refl)
    next
      case (Inr u)
      with True d a ActivateRoute assms show ?thesis by (simp add: handled_await kept_refl kept_updates)
    qed
  next
    case False
    have "body_handler h i mo route v m \<in> {fail i invalidBody m, fail i other_error m}"
      using False unfolding ActivateRoute body_handler.simps by (auto split: option.split)
    then show ?thesis by (auto simp: fail_handled)
  qed
qed

lemma mutation_body_handled:
  assumes "\<And>inp ans. P (Persisting inp ans)" "\<And>pid. P (Activating pid)" allowed
  shows "handled P allowed i m (mutation_body h i mo route rq m)"
  unfolding mutation_body_def by (intro handled_parts body_handler_handled assms)

lemma install_provider_handled: "allowed \<Longrightarrow> handled P allowed i m (install_provider i mo raw m)"
proof (cases "mn_providers m")
  case None
  then show ?thesis by (simp add: install_provider_def handled_fail kept_refl)
next
  case (Some pm)
  assume allowed
  show ?thesis
  proof (cases "decodeURIComponent raw")
    case None
    with Some show ?thesis by (simp add: install_provider_def handled_fail kept_refl)
  next
    case (Some pid)
    obtain pm' r where s: "startInstall (mo_uuid mo) (mo_timestamp mo) (mo_hex mo) pid pm = (pm', r)"
      by (cases "startInstall (mo_uuid mo) (mo_timestamp mo) (mo_hex mo) pid pm")
    show ?thesis
    proof (cases r)
      case (Inl e)
      with s provider_refusals(1) have "m\<lparr>mn_providers := Some pm'\<rparr> = m" using \<open>mn_providers m = Some pm\<close> by fastforce
      with Some s Inl \<open>mn_providers m = Some pm\<close> show ?thesis by (simp add: install_provider_def handled_fail kept_refl)
    next
      case (Inr job)
      with Some s \<open>mn_providers m = Some pm\<close> \<open>allowed\<close> show ?thesis
        by (simp add: install_provider_def handled_answer kept_refl kept_updates json_answer_def)
    qed
  qed
qed

lemma revoke_key_handled:
  assumes "\<And>inp ans. P (Persisting inp ans)" allowed
  shows "handled P allowed i m (revoke_key i mo raw m)"
proof (cases "decodeURIComponent raw")
  case None
  then show ?thesis by (simp add: revoke_key_def handled_fail kept_refl)
next
  case (Some kid)
  obtain st r where s: "revokeApiKey (mo_timestamp mo) kid (mn_access m) = (st, r)"
    by (cases "revokeApiKey (mo_timestamp mo) kid (mn_access m)")
  show ?thesis
  proof (cases r)
    case (Inl e)
    with s access_refusals(4) have "m\<lparr>mn_access := st\<rparr> = m" by fastforce
    with Some s Inl show ?thesis by (simp add: revoke_key_def handled_fail kept_refl)
  next
    case (Inr key)
    with Some s assms show ?thesis by (simp add: revoke_key_def handled_await kept_refl kept_updates)
  qed
qed

lemma handle_mutation_handled:
  assumes "\<And>t. task_rank t \<le> 2 \<Longrightarrow> P t" allowed
  shows "handled P allowed i m (handle_mutation i mo rq path m)"
proof -
  have P: "P t" for t by (rule assms(1)) (cases t, simp_all)
  show ?thesis
    unfolding handle_mutation_def Let_def
    by (intro handled_parts install_provider_handled revoke_key_handled assms(2) P)
qed

section \<open>Arrivals\<close>

fun guarded :: "management_task \<Rightarrow> bool" where
  "guarded (ReadingLogin rq) = False"
| "guarded (Deriving l) = False"
| "guarded (Listing port sess ps) = False"
| "guarded _ = True"

text \<open>
  What a request must show to change anything: the expected host, the management header, and, with an
  authenticator, the cookie of a live session together with its CSRF token.
\<close>

definition authenticated :: "'w management_host \<Rightarrow> management_request \<Rightarrow> moment \<Rightarrow> 'w management \<Rightarrow> bool" where
  "authenticated h rq mo m \<longleftrightarrow>
     (case mn_auth m of
        None \<Rightarrow> True
      | Some a \<Rightarrow>
          (case snd (session (mh_sha h) (mo_now mo) (plain_header rq ''cookie'') a) of
             None \<Rightarrow> False
           | Some s \<Rightarrow> validCsrf (mh_sha h) s (plain_header rq ''x-typr-csrf'')))"

definition permitted :: "'w management_host \<Rightarrow> management_request \<Rightarrow> moment \<Rightarrow> 'w management \<Rightarrow> bool" where
  "permitted h rq mo m \<longleftrightarrow>
     (mn_allowRemote m \<or> hasLoopbackHost rq) \<and>
     (case mn_public m of None \<Rightarrow> True | Some (origin, host) \<Rightarrow> hasExpectedPublicHost rq host) \<and>
     header (http_request.truncate rq) ''x-typr-management'' = Some (HStr (js ''1'')) \<and>
     authenticated h rq mo m"

lemma intent_authenticated:
  assumes "current_session h mo rq m = (m1, s)" "requireManagementIntent (mh_sha h) rq (mn_auth m1) s = None"
  shows "header (http_request.truncate rq) ''x-typr-management'' = Some (HStr (js ''1''))" "authenticated h rq mo m"
  using assms session_fields(11,12) [OF assms(1)]
  by (auto simp: requireManagementIntent_def authenticated_def split: if_splits option.splits)

definition waits :: "bool \<Rightarrow> management_task \<Rightarrow> bool" where
  "waits allowed t \<longleftrightarrow> task_rank t \<le> 2 \<and> (guarded t \<longrightarrow> allowed)"

lemma rank_le: "task_rank t \<le> 2"
  by (cases t) simp_all

lemma waits_allowed: "allowed \<Longrightarrow> waits allowed t"
  by (simp add: waits_def rank_le)

lemma handle_request_handled:
  assumes "requireManagementIntent (mh_sha h) rq (mn_auth m) sess = None \<Longrightarrow> allowed"
  shows "handled (waits allowed) allowed i m (handleManagementRequest h i mo rq path sess m)"
proof -
  have stream: "handled (waits allowed) allowed i m (openActivityStream i rq m)"
    by (simp add: openActivityStream_def Let_def handled_def console_simps stores_def answer_def)
  have mutation: "handled (waits allowed) allowed i m (handle_mutation i mo rq path m)"
    if "requireManagementIntent (mh_sha h) rq (mn_auth m) sess = None"
    using assms [OF that] by (intro handle_mutation_handled waits_allowed)
  have listing: "waits allowed (Listing port sess ps)" for port ps by (simp add: waits_def)
  show ?thesis
  proof (cases "requireManagementIntent (mh_sha h) rq (mn_auth m) sess")
    case None
    show ?thesis unfolding handleManagementRequest_def Let_def None option.case
      by (intro handled_parts stream mutation listing None)
  next
    case (Some e)
    show ?thesis unfolding handleManagementRequest_def Let_def Some option.case
      by (intro handled_parts stream listing)
  qed
qed

lemma logout_handled: "handled P allowed i m (logout_request h i rq sess m)"
proof (cases "mn_auth m")
  case None
  then show ?thesis unfolding logout_request_def None option.case by (intro handled_parts)
next
  case (Some a)
  obtain a' cookie where l: "logout (mh_sha h) (plain_header rq ''cookie'') a = (a', cookie)"
    by (cases "logout (mh_sha h) (plain_header rq ''cookie'') a")
  have "handled P allowed i m (answer i (with_header ''Set-Cookie'' cookie (json_answer 200 OkBody)) (m\<lparr>mn_auth := Some a'\<rparr>))"
    using Some by (intro handled_answer kept_updates kept_refl) (simp_all add: stores_updates)
  then show ?thesis unfolding logout_request_def Some option.case l prod.case by (intro handled_parts)
qed

lemma handled_trans:
  assumes "requests_kept m m1" "stores m1 = stores m" "handled P allowed i m1 m2"
  shows "handled P allowed i m m2"
  using assms by (simp add: handled_def requests_kept_def)

lemma arrive_handled:
  "handled (waits (permitted h rq mo m)) (permitted h rq mo m) (mn_next m) (m\<lparr>mn_next := Suc (mn_next m)\<rparr>) (arrive h mo rq m)"
proof -
  define i n where "i = mn_next m" and "n = m\<lparr>mn_next := Suc (mn_next m)\<rparr>"
  let ?p = "permitted h rq mo m"
  obtain m1 s where cs: "current_session h mo rq n = (m1, s)" by (cases "current_session h mo rq n")
  note fields = session_fields [OF cs]
  have kept: "requests_kept n m1" "stores m1 = stores n" using fields by (simp_all add: requests_kept_def stores_def)
  have "handled (waits ?p) ?p i n (arrive h mo rq m)"
  proof (cases "(\<not> mn_allowRemote n \<and> \<not> hasLoopbackHost rq) \<or>
      (case mn_public n of None \<Rightarrow> False | Some (_, host) \<Rightarrow> \<not> hasExpectedPublicHost rq host)")
    case True
    then have "arrive h mo rq m = fail i (Thrown 421 ''loopback-host-required'') n \<or>
        arrive h mo rq m = fail i (Thrown 421 ''management-host-mismatch'') n"
      unfolding arrive_def i_def n_def Let_def by auto
    then show ?thesis using fail_handled by fastforce
  next
    case False
    have allowed: ?p if "requireManagementIntent (mh_sha h) rq (mn_auth m1) s = None"
    proof -
      have "authenticated h rq mo m" using intent_authenticated(2) [OF cs that] by (simp add: authenticated_def n_def)
      with intent_authenticated(1) [OF cs that] False show ?thesis
        by (auto simp: permitted_def n_def split: option.split)
    qed
    have login: "waits ?p (ReadingLogin rq)" by (simp add: waits_def)
    have rest: "handled (waits ?p) ?p i m1 (handleManagementRequest h i mo rq path s m1)" for path
      using allowed by (rule handle_request_handled)
    have "handled (waits ?p) ?p i m1 (dispatch h i mo rq path s m1)" for path
      unfolding dispatch_def by (intro handled_parts logout_handled login rest)
    then have main: "handled (waits ?p) ?p i n (dispatch h i mo rq path s m1)" for path
      by (rule handled_trans [OF kept])
    have "arrive h mo rq m = (case rq_url rq of None \<Rightarrow> fail i other_error n | Some (path, _) \<Rightarrow> dispatch h i mo rq path s m1)"
      using False cs unfolding arrive_def i_def n_def Let_def by (auto split: option.split)
    then show ?thesis using main fail_handled by (auto split: option.split)
  qed
  then show ?thesis unfolding i_def n_def .
qed

section \<open>Continuations\<close>

definition goes_on :: "management_task \<Rightarrow> management_task \<Rightarrow> bool" where
  "goes_on t t' \<longleftrightarrow> task_rank t' < task_rank t \<and> (guarded t' \<longrightarrow> guarded t)"

lemma login_body_handled: "handled (goes_on (ReadingLogin rq)) allowed i m (login_body h i mo rq m)"
proof (cases "readManagementBody (mh_parse h) rq")
  case (Inl e)
  then show ?thesis by (simp add: login_body_def fail_handled)
next
  case (Inr v)
  show ?thesis
  proof (cases "mn_auth m")
    case None
    with Inr show ?thesis by (simp add: login_body_def fail_handled)
  next
    case (Some a)
    have derive: "goes_on (ReadingLogin rq) (Deriving l)" for l by (simp add: goes_on_def)
    have "handled (goes_on (ReadingLogin rq)) allowed i m
       (case as_string (field v ''username'') of None \<Rightarrow> fail i invalidBody m
        | Some username \<Rightarrow> (case as_string (field v ''password'') of None \<Rightarrow> fail i invalidBody m
        | Some password \<Rightarrow>
          (case login_start (mh_lower h) (mh_sha h) (mo_now mo) username password
                       (case rq_remoteAddress rq of Some addr \<Rightarrow> addr | None \<Rightarrow> js ''unknown'') a of
                  Inl r \<Rightarrow> answer i (login_answer r) m
                | Inr l \<Rightarrow> await i (Deriving l) m)))"
      by (intro handled_parts derive)
    then show ?thesis using Inr Some by (simp add: login_body_def split: option.splits)
  qed
qed

lemma password_handled: "handled P allowed i m (password_derived h i mo l m)"
proof (cases "mn_auth m")
  case None
  then show ?thesis by (simp add: password_derived_def fail_handled)
next
  case (Some a)
  obtain a' r where l: "login_finish (mh_sha h) (mh_scrypt h) (mo_random1 mo) (mo_random2 mo) l a = (a', r)"
    by (cases "login_finish (mh_sha h) (mh_scrypt h) (mo_random1 mo) (mo_random2 mo) l a")
  have k: "requests_kept m (m\<lparr>mn_auth := Some a'\<rparr>)" using Some by (simp add: requests_kept_def)
  show ?thesis
    using Some l handled_fail [OF k] handled_answer [OF k]
    by (cases r) (simp_all add: password_derived_def stores_updates)
qed

lemma announced_handled:
  "handled P allowed i m (answer i r (announce ts inp m))" "handled P allowed i m (fail i e (announce ts inp m))"
  by (simp_all add: handled_answer handled_fail kept_updates kept_refl stores_updates)

lemma settled_handled:
  assumes "case t of Persisting inp ans \<Rightarrow> True | Activating pid \<Rightarrow> True | _ \<Rightarrow> False"
  shows "handled P allowed i m (settled_task h i mo ok t m)"
proof (cases ok)
  case False
  then show ?thesis by (simp add: settled_task_def fail_handled)
next
  case True
  show ?thesis
  proof (cases t)
    case (Persisting inp ans)
    with True announced_handled show ?thesis by (simp add: settled_task_def)
  next
    case (Activating pid)
    with True show ?thesis unfolding settled_task_def Let_def by (simp add: announced_handled split: sum.split option.split)
  qed (use assms in simp_all)
qed

lemma services_handled: "handled P allowed i m (services_found i mo found t m)"
  by (simp add: services_found_def fail_handled answer_handled announced_handled split: option.split management_task.split)

lemma tex_handled: "handled P allowed i m (tex_updated i mo result m)"
  by (simp add: tex_updated_def Let_def fail_handled announced_handled split: option.split)

text \<open>Which operation continues which task.\<close>

datatype wait_kind = BodyWait | PasswordWait | SettleWait | ServicesWait | TexWait

fun waits_for :: "management_task \<Rightarrow> wait_kind" where
  "waits_for (ReadingLogin rq) = BodyWait"
| "waits_for (ReadingBody route rq) = BodyWait"
| "waits_for (Deriving l) = PasswordWait"
| "waits_for (Persisting inp ans) = SettleWait"
| "waits_for (Activating pid) = SettleWait"
| "waits_for (Listing port sess ps) = ServicesWait"
| "waits_for Refreshing = ServicesWait"
| "waits_for Updating = TexWait"

fun step_of :: "management_op \<Rightarrow> (nat \<times> wait_kind) option" where
  "step_of (BodyRead i mo) = Some (i, BodyWait)"
| "step_of (PasswordDerived i mo) = Some (i, PasswordWait)"
| "step_of (TaskSettled i ok mo) = Some (i, SettleWait)"
| "step_of (ServicesFound i found mo) = Some (i, ServicesWait)"
| "step_of (TexUpdated i result mo) = Some (i, TexWait)"
| "step_of _ = None"

fun_cases step_of_kinds:
  "step_of op = Some (i, BodyWait)" "step_of op = Some (i, PasswordWait)" "step_of op = Some (i, SettleWait)"
  "step_of op = Some (i, ServicesWait)" "step_of op = Some (i, TexWait)"

definition continues :: "management_op \<Rightarrow> nat \<times> management_task \<Rightarrow> bool" where
  "continues op it \<longleftrightarrow> step_of op = Some (fst it, waits_for (snd it))"

lemma continues_handled:
  assumes "map_of (mn_tasks m) i = Some t" "continues op (i, t)"
  shows "handled (goes_on t) (guarded t) i (drop_task i m) (management_act h op m)"
proof -
  have step: "step_of op = Some (i, waits_for t)" using assms(2) by (simp add: continues_def)
  have body: "goes_on (ReadingBody route rq) (Persisting inp ans)" "goes_on (ReadingBody route rq) (Activating pid)" for route rq inp ans pid
    by (simp_all add: goes_on_def)
  show ?thesis
    using step assms(1)
    by (cases t) (auto elim!: step_of_kinds simp: login_body_handled mutation_body_handled [OF body] password_handled settled_handled
        services_handled tex_handled)
qed

fun console_op :: "management_op \<Rightarrow> bool" where
  "console_op (Published ts inp) = False"
| "console_op (KeyChecked now old auth) = False"
| "console_op (StoreWritten ok) = False"
| "console_op (InstallContinued now jid) = False"
| "console_op (ProviderSaved now message ok) = False"
| "console_op _ = True"

lemma not_continued:
  assumes "step_of op = Some (i, k)" "map_of (mn_tasks m) i = Some t" "waits_for t \<noteq> k"
  shows "management_act h op m = m"
proof (cases op)
  case (BodyRead j mo)
  with assms(1) have "j = i" "k = BodyWait" by simp_all
  with assms(2,3) show ?thesis unfolding BodyRead by (cases t) simp_all
next
  case (PasswordDerived j mo)
  with assms(1) have "j = i" "k = PasswordWait" by simp_all
  with assms(2,3) show ?thesis unfolding PasswordDerived by (cases t) simp_all
next
  case (TaskSettled j ok mo)
  with assms(1) have "j = i" "k = SettleWait" by simp_all
  with assms(2,3) show ?thesis unfolding TaskSettled by (cases t) simp_all
next
  case (ServicesFound j found mo)
  with assms(1) have "j = i" "k = ServicesWait" by simp_all
  with assms(2,3) show ?thesis unfolding ServicesFound by (cases t) simp_all
next
  case (TexUpdated j result mo)
  with assms(1) have "j = i" "k = TexWait" by simp_all
  with assms(2,3) show ?thesis unfolding TexUpdated by (cases t) simp_all
qed (use assms(1) in simp_all)

text \<open>Every other operation leaves the requests alone, and if it is one of the console the stores.\<close>

lemma other_kept:
  assumes "\<forall>rq mo. op \<noteq> Arrive rq mo" "\<forall>i t. map_of (mn_tasks m) i = Some t \<longrightarrow> \<not> continues op (i, t)"
  shows "requests_kept m (management_act h op m)" "console_op op \<longrightarrow> stores (management_act h op m) = stores m"
proof -
  have stay: "management_act h op m = m" if "step_of op = Some (i, k)" for i k
  proof (cases "map_of (mn_tasks m) i")
    case None
    with that show ?thesis by (cases op) simp_all
  next
    case (Some t)
    with assms(2) that have "waits_for t \<noteq> k" by (auto simp: continues_def)
    from not_continued [OF that Some this] show ?thesis .
  qed
  have work: "requests_kept m (provider_work h p m)" for p
    by (auto simp: provider_work_def requests_kept_def split: option.split prod.split)
  have "requests_kept m (management_act h op m) \<and> (console_op op \<longrightarrow> stores (management_act h op m) = stores m)"
  proof (cases "step_of op")
    case (Some ik)
    then have "management_act h op m = m" using stay by (cases ik) simp
    then show ?thesis by (simp add: kept_refl)
  next
    case None
    then show ?thesis
    proof (cases op)
      case (Arrive rq mo)
      with assms(1) show ?thesis by blast
    next
      case (InstallContinued now jid)
      with work show ?thesis by simp
    next
      case (ProviderSaved now message ok)
      with work show ?thesis by simp
    qed (simp_all add: kept_updates kept_refl, simp_all add: requests_kept_def stores_def shutdownManagementServer_def)
  qed
  then show "requests_kept m (management_act h op m)" "console_op op \<longrightarrow> stores (management_act h op m) = stores m" by simp_all
qed

section \<open>Runs\<close>

lemma act_cases:
  obtains (arrive) rq mo where "op = Arrive rq mo"
      "handled (waits (permitted h rq mo m)) (permitted h rq mo m) (mn_next m) (m\<lparr>mn_next := Suc (mn_next m)\<rparr>) (management_act h op m)"
    | (continued) i t where "map_of (mn_tasks m) i = Some t" "continues op (i, t)"
        "handled (goes_on t) (guarded t) i (drop_task i m) (management_act h op m)"
    | (other) "requests_kept m (management_act h op m)" "console_op op \<longrightarrow> stores (management_act h op m) = stores m"
proof (cases "\<exists>rq mo. op = Arrive rq mo")
  case True
  then obtain rq mo where "op = Arrive rq mo" by blast
  with arrive_handled [of h rq mo m] that(1) show ?thesis by simp
next
  case no_arrival: False
  show ?thesis
  proof (cases "\<exists>i t. map_of (mn_tasks m) i = Some t \<and> continues op (i, t)")
    case True
    then obtain i t where "map_of (mn_tasks m) i = Some t" "continues op (i, t)" by blast
    with continues_handled [OF this] that(2) show ?thesis by blast
  next
    case False
    with other_kept [of op m h] no_arrival that(3) show ?thesis by blast
  qed
qed

text \<open>The numbers of the requests that wait or have been answered.\<close>

definition ids :: "'w management \<Rightarrow> nat list" where
  "ids m = map fst (mn_tasks m) @ map fst (mn_answers m)"

definition accounted :: "'w management \<Rightarrow> bool" where
  "accounted m \<longleftrightarrow> distinct (ids m) \<and> set (ids m) = {..<mn_next m}"

lemma handled_ids:
  assumes "handled P allowed i m m'" "distinct (ids m)" "i \<notin> set (ids m)"
  shows "distinct (ids m')" "set (ids m') = insert i (set (ids m))"
proof -
  let ?ts = "map fst (mn_tasks m)" and ?as = "map fst (mn_answers m)"
  from assms(1) have "(\<exists>r. mn_answers m' = mn_answers m @ [(i, r)] \<and> mn_tasks m' = mn_tasks m) \<or>
      (\<exists>t. mn_answers m' = mn_answers m \<and> mn_tasks m' = mn_tasks m @ [(i, t)])"
    unfolding handled_def by blast
  then have "ids m' = (?ts @ ?as) @ [i] \<or> ids m' = (?ts @ [i]) @ ?as" by (elim disjE exE) (simp_all add: ids_def)
  with assms(2,3) show "distinct (ids m')" "set (ids m') = insert i (set (ids m))" unfolding ids_def
    by (elim disjE; simp)+
qed

lemma drop_ids:
  assumes "distinct (ids m)" "map_of (mn_tasks m) i = Some t"
  shows "distinct (ids (drop_task i m))" "set (ids (drop_task i m)) = set (ids m) - {i}" "i \<in> set (ids m)"
proof -
  have i: "i \<in> fst ` set (mn_tasks m)" using map_of_SomeD [OF assms(2)] by force
  with assms(1) have "i \<notin> fst ` set (mn_answers m)" by (auto simp: ids_def)
  then show "set (ids (drop_task i m)) = set (ids m) - {i}" by (auto simp: ids_def console_simps delete_keys)
  show "distinct (ids (drop_task i m))"
    using assms(1) by (auto simp: ids_def console_simps distinct_delete delete_keys)
  from i show "i \<in> set (ids m)" by (simp add: ids_def)
qed

lemma handled_next: "handled P allowed i m m' \<Longrightarrow> mn_next m' = mn_next m"
  by (simp add: handled_def)

lemma act_accounted:
  assumes "accounted m"
  shows "accounted (management_act h op m)"
proof (cases rule: act_cases [of op h m])
  case (arrive rq mo)
  have ids: "ids (m\<lparr>mn_next := Suc (mn_next m)\<rparr>) = ids m" by (simp add: ids_def)
  have "mn_next m \<notin> set (ids m)" using assms by (simp add: accounted_def)
  with handled_ids [OF arrive(2)] handled_next [OF arrive(2)] assms ids show ?thesis
    by (simp add: accounted_def lessThan_Suc)
next
  case (continued i t)
  note drop = drop_ids [OF _ continued(1)]
  have "distinct (ids m)" "set (ids m) = {..<mn_next m}" using assms by (simp_all add: accounted_def)
  with handled_ids [OF continued(3)] handled_next [OF continued(3)] drop show ?thesis
    by (auto simp: accounted_def console_simps)
next
  case other
  with assms show ?thesis by (simp add: accounted_def ids_def requests_kept_def)
qed

lemma created_server:
  assumes "createManagementServer sha parse documents allowRemote publicOrigin servicePort port auth access providers w activity = Inr m"
  shows "mn_tasks m = []" "mn_answers m = []" "mn_next m = 0" "mn_streams m = []" "mn_allowRemote m \<longrightarrow> mn_auth m \<noteq> None"
    "mn_activity m = activity"
    "mn_public m \<noteq> None \<longrightarrow> (\<exists>a. mn_auth m = Some a \<and> ma_secureCookies a)"
  using assms by (auto simp: createManagementServer_def Let_def split: if_splits option.splits)

lemma run_accounted: "management_run h m0 hist m \<Longrightarrow> accounted m0 \<Longrightarrow> accounted m"
  by (induction rule: management_run.induct) (simp_all add: act_accounted)

text \<open>
  C16: every request of the console is answered exactly once or still waits, and whatever it waits for
  answers it or brings it one stage further. In every run of a new server, the requests that wait and
  those answered are together all that have arrived, none twice; the step that continues a waiting
  request answers it or leaves it waiting at a lower stage, of at most two.
\<close>

theorem management_answers:
  assumes "createManagementServer sha parse documents allowRemote publicOrigin servicePort port auth access providers w activity = Inr m0"
    "management_run h m0 hist m"
  shows "distinct (map fst (mn_tasks m) @ map fst (mn_answers m)) \<and>
    set (map fst (mn_tasks m) @ map fst (mn_answers m)) = {..<mn_next m} \<and>
    (\<forall>i t op. map_of (mn_tasks m) i = Some t \<longrightarrow> continues op (i, t) \<longrightarrow>
       (let m' = management_act h op m
        in (\<exists>r. mn_answers m' = mn_answers m @ [(i, r)]) \<or>
           (\<exists>t'. (i, t') \<in> set (mn_tasks m') \<and> task_rank t' < task_rank t \<and> task_rank t \<le> 2)))"
proof -
  have "accounted m0" using created_server [OF assms(1)] by (simp add: accounted_def ids_def)
  with run_accounted [OF assms(2)] have "accounted m" .
  moreover have "(\<exists>r. mn_answers (management_act h op m) = mn_answers m @ [(i, r)]) \<or>
      (\<exists>t'. (i, t') \<in> set (mn_tasks (management_act h op m)) \<and> task_rank t' < task_rank t \<and> task_rank t \<le> 2)"
    if "map_of (mn_tasks m) i = Some t" "continues op (i, t)" for i t op
    using continues_handled [OF that, of h] rank_le [of t]
    by (auto simp: handled_def goes_on_def console_simps)
  ultimately show ?thesis unfolding accounted_def ids_def Let_def by blast
qed

section \<open>Whose requests change the stores\<close>

definition justified :: "'w management_host \<Rightarrow> (management_op \<times> 'w management) list \<Rightarrow> nat \<Rightarrow> bool" where
  "justified h hist i \<longleftrightarrow> (\<exists>rq mo m1. (Arrive rq mo, m1) \<in> set hist \<and> mn_next m1 = i \<and> permitted h rq mo m1)"

definition tasks_justified :: "'w management_host \<Rightarrow> (management_op \<times> 'w management) list \<Rightarrow> 'w management \<Rightarrow> bool" where
  "tasks_justified h hist m \<longleftrightarrow> (\<forall>(i, t)\<in>set (mn_tasks m). guarded t \<longrightarrow> justified h hist i)"

lemma justified_mono: "justified h hist i \<Longrightarrow> justified h (hist @ later) i"
  by (auto simp: justified_def)

lemma tasks_justifiedD: "tasks_justified h hist m \<Longrightarrow> map_of (mn_tasks m) i = Some t \<Longrightarrow> guarded t \<Longrightarrow> justified h hist i"
  by (auto simp: tasks_justified_def dest: map_of_SomeD)

lemma handled_tasks:
  assumes "handled P allowed i m m'" "(j, t) \<in> set (mn_tasks m')"
  shows "(j, t) \<in> set (mn_tasks m) \<or> j = i \<and> P t"
  using assms by (auto simp: handled_def)

lemma act_justified:
  assumes "tasks_justified h hist m"
  shows "tasks_justified h (hist @ [(op, m)]) (management_act h op m)"
  unfolding tasks_justified_def
proof clarify
  fix i t assume t: "(i, t) \<in> set (mn_tasks (management_act h op m))" "guarded t"
  have old: "justified h (hist @ [(op, m)]) i" if "(i, t') \<in> set (mn_tasks m)" "guarded t'" for t'
    using that assms by (auto simp: tasks_justified_def intro: justified_mono)
  show "justified h (hist @ [(op, m)]) i"
  proof (cases rule: act_cases [of op h m])
    case (arrive rq mo)
    have "justified h (hist @ [(op, m)]) (mn_next m)" if "permitted h rq mo m"
      using that arrive(1) by (auto simp: justified_def)
    with handled_tasks [OF arrive(2) t(1)] t(2) old show ?thesis by (auto simp: waits_def)
  next
    case (continued j u)
    have "(j, u) \<in> set (mn_tasks m)" using continued(1) by (rule map_of_SomeD)
    moreover have "(i, t) \<in> set (mn_tasks m) \<or> i = j \<and> guarded u"
      using handled_tasks [OF continued(3) t(1)] t(2) by (auto simp: goes_on_def console_simps AList.delete_eq)
    ultimately show ?thesis using old t(2) by blast
  next
    case other
    with t old show ?thesis by (simp add: requests_kept_def)
  qed
qed

lemma run_justified: "management_run h m0 hist m \<Longrightarrow> mn_tasks m0 = [] \<Longrightarrow> tasks_justified h hist m"
proof (induction rule: management_run.induct)
  case start
  then show ?case by (simp add: tasks_justified_def)
qed (simp add: act_justified)

definition remote_ok :: "'w management \<Rightarrow> bool" where
  "remote_ok m \<longleftrightarrow> (mn_allowRemote m \<longrightarrow> mn_auth m \<noteq> None)"

lemma act_remote: "remote_ok m \<Longrightarrow> remote_ok (management_act h op m)"
  by (cases rule: act_cases [of op h m]) (auto simp: remote_ok_def handled_def requests_kept_def console_simps)

lemma run_remote: "management_run h m0 hist m \<Longrightarrow> remote_ok m0 \<Longrightarrow> remote_ok m \<and> (\<forall>(op, m1)\<in>set hist. remote_ok m1)"
  by (induction rule: management_run.induct) (auto simp: act_remote)

text \<open>The request a step of the console belongs to.\<close>

definition request_of :: "management_op \<Rightarrow> 'w management \<Rightarrow> nat" where
  "request_of op m = (case step_of op of Some (i, k) \<Rightarrow> i | None \<Rightarrow> mn_next m)"

text \<open>
  C5: nobody changes users, keys, settings or providers through the console without permission. In every
  run of a new server, when a step of the console changes the key store or the provider manager, the
  request it belongs to had, when it arrived, the management header and the expected Host, and, if an
  authenticator is configured (always, when remote access is allowed), the cookie of a live session
  with that session's CSRF token; and the step gives no error answer.
\<close>

theorem management_guarded:
  assumes "createManagementServer sha parse documents allowRemote publicOrigin servicePort port auth access providers w activity = Inr m0"
    "management_run h m0 hist m" "console_op op" "stores (management_act h op m) \<noteq> stores m"
  shows "(\<exists>rq mo m1. (Arrive rq mo, m1) \<in> set (hist @ [(op, m)]) \<and> mn_next m1 = request_of op m \<and> permitted h rq mo m1 \<and>
      (mn_allowRemote m1 \<longrightarrow> mn_auth m1 \<noteq> None)) \<and>
    (case drop (length (mn_answers m)) (mn_answers (management_act h op m)) of [] \<Rightarrow> True | (i, r) # _ \<Rightarrow> mr_status r < 400)"
proof -
  note new = created_server [OF assms(1)]
  have remote: "\<forall>(op', m1)\<in>set (hist @ [(op, m)]). remote_ok m1"
    using run_remote [OF assms(2)] new(5) by (simp add: remote_ok_def)
  have "justified h (hist @ [(op, m)]) (request_of op m) \<and>
    (case drop (length (mn_answers m)) (mn_answers (management_act h op m)) of [] \<Rightarrow> True | (i, r) # _ \<Rightarrow> mr_status r < 400)"
  proof (cases rule: act_cases [of op h m])
    case (arrive rq mo)
    have "stores (m\<lparr>mn_next := Suc (mn_next m)\<rparr>) = stores m" by (simp add: stores_updates)
    with arrive(2) assms(4) have "permitted h rq mo m" by (auto simp: handled_def)
    with arrive assms(4) show ?thesis by (auto simp: justified_def request_of_def handled_def stores_updates)
  next
    case (continued i t)
    have same: "stores (drop_task i m) = stores m" by (simp add: stores_def console_simps)
    with continued(3) assms(4) have "guarded t" by (auto simp: handled_def)
    with tasks_justifiedD [OF run_justified [OF assms(2) new(1)] continued(1)] have "justified h hist i" by simp
    moreover have "request_of op m = i" using continued(2) by (simp add: request_of_def continues_def)
    ultimately show ?thesis
      using continued(3) assms(4) same by (auto simp: justified_mono handled_def console_simps)
  next
    case other
    with assms(3,4) show ?thesis by blast
  qed
  with remote show ?thesis by (fastforce simp: justified_def remote_ok_def)
qed

end
