(* ===== verification/ManagementStreams.thy ===== *)
theory ManagementStreams
  imports ManagementRuns
begin

text \<open>
  The event streams of the management console of \<^verbatim>\<open>typr-server/managementServer.ts\<close>, what a request without a session gets, and
  examples of runs.
\<close>

section \<open>What a step tells the streams\<close>

definition stream_view :: "'w management \<Rightarrow>
   (nat \<times> jsstring ActivityEvent list) list \<times> (jsstring, nat) ActivityBus \<times> nat list"
where
  "stream_view m = (mn_streams m, mn_activity m, mn_ended m)"

definition silent :: "'w management \<Rightarrow> 'w management \<Rightarrow> bool" where
  "silent m m' \<longleftrightarrow> stream_view m' = stream_view m"

text \<open>A step publishes at most one event.\<close>

definition told :: "'w management \<Rightarrow> 'w management \<Rightarrow> bool" where
  "told m m' \<longleftrightarrow> silent m m' \<or> (\<exists>ts inp. stream_view m' = stream_view (announce ts inp m))"

named_theorems telling \<open>the ways to build a handler's result\<close>

lemma silent_rules [telling]:
  "silent m m" "silent m m1 \<Longrightarrow> silent m (m1\<lparr>mn_access := st\<rparr>)" "silent m m1 \<Longrightarrow> silent m (m1\<lparr>mn_providers := p\<rparr>)"
  "silent m m1 \<Longrightarrow> silent m (m1\<lparr>mn_auth := a\<rparr>)"
  by (simp_all add: silent_def stream_view_def)

lemma told_silent: "silent m m1 \<Longrightarrow> told m m1"
  by (simp add: told_def)

lemma told_rules [telling]:
  "told m m" "told m m1 \<Longrightarrow> told m (answer i r m1)" "told m m1 \<Longrightarrow> told m (fail i e m1)" "told m m1 \<Longrightarrow> told m (await i t m1)"
  "told m m1 \<Longrightarrow> told m (m1\<lparr>mn_access := st\<rparr>)" "told m m1 \<Longrightarrow> told m (m1\<lparr>mn_providers := p\<rparr>)"
  "told m m1 \<Longrightarrow> told m (m1\<lparr>mn_auth := a\<rparr>)"
  by (simp_all add: told_def silent_def stream_view_def console_simps)

lemma told_announce [telling]:
  assumes "silent m m1"
  shows "told m (announce ts inp m1)"
proof -
  have "stream_view (announce ts inp m1) = stream_view (announce ts inp m)"
    using assms by (simp add: silent_def stream_view_def announce_def split: prod.split)
  then show ?thesis by (auto simp: told_def)
qed

lemma told_splits [telling]:
  "told m a \<Longrightarrow> told m b \<Longrightarrow> told m (if c then a else b)"
  "told m a \<Longrightarrow> (\<And>x. told m (f x)) \<Longrightarrow> told m (case v of None \<Rightarrow> a | Some x \<Rightarrow> f x)"
  "(\<And>x. told m (g x)) \<Longrightarrow> (\<And>x. told m (k x)) \<Longrightarrow> told m (case w of Inl x \<Rightarrow> g x | Inr x \<Rightarrow> k x)"
  "(\<And>x y. told m (j x y)) \<Longrightarrow> told m (case p of (x, y) \<Rightarrow> j x y)"
  by (simp_all split: option.split sum.split prod.split)

lemma told_store [telling]: "told m (store_result i result reply m)"
  unfolding store_result_def by (intro telling)

lemma told_mutation [telling]:
  "told m (install_provider i mo raw m)" "told m (revoke_key i mo raw m)"
  unfolding install_provider_def revoke_key_def by (intro telling)+

lemma told_handle_mutation [telling]: "told m (handle_mutation i mo rq path m)"
  unfolding handle_mutation_def Let_def by (intro telling)

lemma told_body [telling]: "told m (body_handler h i mo route v m)"
  by (cases route; simp only: body_handler.simps; intro telling)

lemma told_bodies [telling]:
  "told m (mutation_body h i mo route rq m)" "told m (login_body h i mo rq m)" "told m (password_derived h i mo l m)"
  "told m (logout_request h i rq sess m)" "told m (tex_updated i mo result m)"
  unfolding mutation_body_def login_body_def password_derived_def logout_request_def tex_updated_def Let_def by (intro telling)+

lemma told_task [telling]:
  "told m (settled_task h i mo ok t m)" "told m (services_found i mo found t m)"
  unfolding settled_task_def services_found_def Let_def
  by (cases t; simp only: management_task.case prod.case; intro telling)+

text \<open>Only a request for \<^verbatim>\<open>/api/events\<close> opens a stream.\<close>

definition opened :: "nat \<Rightarrow> management_request \<Rightarrow> 'w management \<Rightarrow> 'w management \<Rightarrow> bool" where
  "opened i rq m m' \<longleftrightarrow> stream_view m' = stream_view (openActivityStream i rq m)"

lemma handle_request_told:
  "told m (handleManagementRequest h i mo rq path sess m) \<or> opened i rq m (handleManagementRequest h i mo rq path sess m)"
proof (cases "rq_method rq = js ''GET'' \<and> path = js ''/api/events''")
  case True
  then show ?thesis by (simp add: handleManagementRequest_def opened_def)
next
  case False
  have eq: "(if rq_method rq = js ''GET'' \<and> path = js ''/api/events'' then a else b) = b" for a b :: "'a management"
    using False by auto
  have "told m (handleManagementRequest h i mo rq path sess m)"
    unfolding handleManagementRequest_def Let_def eq by (intro telling)
  then show ?thesis ..
qed

lemma dispatch_told:
  "told m (dispatch h i mo rq path sess m) \<or> opened i rq m (dispatch h i mo rq path sess m)"
proof -
  let ?Q = "\<lambda>m'. told m m' \<or> opened i rq m m'"
  have ifs: "?Q a \<Longrightarrow> ?Q b \<Longrightarrow> ?Q (if c then a else b)" for a b c by simp
  have parts: "?Q (answer i r m)" "?Q (fail i e m)" "?Q (logout_request h i rq sess m)" "?Q (await i t m)" for r e t
    by (blast intro: telling)+
  have login: "?Q (case requireSameOrigin rq (mn_public m) of Some e \<Rightarrow> fail i e m | None \<Rightarrow> await i (ReadingLogin rq) m)"
    using parts by (simp split: option.split)
  show ?thesis unfolding dispatch_def
    by (intro ifs parts login handle_request_told)
qed

lemma view_announce: "stream_view m1 = stream_view m \<Longrightarrow> stream_view (announce ts inp m1) = stream_view (announce ts inp m)"
  by (simp add: stream_view_def announce_def split: prod.split)

lemma view_open: "stream_view m1 = stream_view m \<Longrightarrow> stream_view (openActivityStream i rq m1) = stream_view (openActivityStream i rq m)"
  by (simp add: stream_view_def openActivityStream_def Let_def console_simps)

lemma told_from: "stream_view m1 = stream_view m \<Longrightarrow> told m1 m' \<Longrightarrow> told m m'"
  using view_announce [of m1 m] by (simp add: told_def silent_def)

lemma arrive_told: "told m (arrive h mo rq m) \<or> opened (mn_next m) rq m (arrive h mo rq m)"
proof -
  define i n where "i = mn_next m" and "n = m\<lparr>mn_next := Suc (mn_next m)\<rparr>"
  obtain m1 s where cs: "current_session h mo rq n = (m1, s)" by (cases "current_session h mo rq n")
  have n: "stream_view n = stream_view m" by (simp add: n_def stream_view_def)
  then have m1: "stream_view m1 = stream_view m" using session_fields(5-7) [OF cs] by (simp add: stream_view_def)
  have "told m (dispatch h i mo rq path s m1) \<or> opened i rq m (dispatch h i mo rq path s m1)" for path
    using dispatch_told [of m1 h i mo rq path s] told_from [OF m1] view_open [OF m1] by (auto simp: opened_def)
  moreover have "told m (fail i e n)" for e
    using told_from [OF n] by (blast intro: telling)
  moreover have "arrive h mo rq m \<in> {fail i (Thrown 421 ''loopback-host-required'') n, fail i (Thrown 421 ''management-host-mismatch'') n,
      fail i other_error n} \<union> range (\<lambda>path. dispatch h i mo rq path s m1)"
    using cs unfolding arrive_def i_def n_def Let_def by (auto split: option.split prod.split)
  ultimately show ?thesis unfolding i_def [symmetric] by (elim UnE insertE emptyE rangeE) simp_all
qed

lemma continues_told:
  assumes "map_of (mn_tasks m) i = Some t" "continues op (i, t)"
  shows "told (drop_task i m) (management_act h op m)"
proof -
  have step: "step_of op = Some (i, waits_for t)" using assms(2) by (simp add: continues_def)
  show ?thesis
    using step assms(1) by (cases t) (auto elim!: step_of_kinds simp: told_bodies told_task)
qed

lemma act_streams:
  obtains (told) "told m (management_act h op m)"
    | (opened) rq mo where "op = Arrive rq mo" "opened (mn_next m) rq m (management_act h op m)"
    | (closed) i where "op = StreamClosed i"
    | (ended) "op = Shutdown"
proof (cases "\<exists>rq mo. op = Arrive rq mo")
  case True
  then obtain rq mo where op: "op = Arrive rq mo" by blast
  with arrive_told [of m h mo rq] that(1,2) show ?thesis by auto
next
  case no_arrival: False
  show ?thesis
  proof (cases "step_of op")
    case (Some ik)
    obtain i k where ik: "ik = (i, k)" by (cases ik)
    show ?thesis
    proof (cases "\<exists>t. map_of (mn_tasks m) i = Some t \<and> waits_for t = k")
      case True
      then obtain t where t: "map_of (mn_tasks m) i = Some t" "continues op (i, t)" using Some ik by (auto simp: continues_def)
      have "stream_view (drop_task i m) = stream_view m" by (simp add: stream_view_def console_simps)
      from told_from [OF this continues_told [OF t]] that(1) show ?thesis by blast
    next
      case False
      have "management_act h op m = m"
      proof (cases "map_of (mn_tasks m) i")
        case None
        with Some ik show ?thesis by (cases op) simp_all
      next
        case (Some t)
        with False have "waits_for t \<noteq> k" by blast
        with not_continued [OF _ Some this] \<open>step_of op = Some ik\<close> ik show ?thesis by simp
      qed
      with that(1) show ?thesis by (simp add: told_def silent_def)
    qed
  next
    case None
    have work: "told m (provider_work h p m)" for p
      by (auto simp: provider_work_def told_def silent_def stream_view_def split: option.split prod.split)
    show ?thesis
    proof (cases op)
      case (Published ts inp)
      have "told m (announce ts inp m)" by (blast intro: telling)
      with Published that(1) show ?thesis by simp
    next
      case (KeyChecked now old auth)
      have "told m (management_act h op m)" unfolding KeyChecked management_act.simps by (intro telling)
      with that(1) show ?thesis by blast
    next
      case (StoreWritten ok)
      have "told m (management_act h op m)" unfolding StoreWritten management_act.simps by (intro telling)
      with that(1) show ?thesis by blast
    qed (use None no_arrival work that in auto)
  qed
qed

section \<open>Streams that follow the log\<close>

lemma deliver_all: "deliver (\<lambda>_. False) ls = (ls, False)"
  by (induction ls) simp_all

lemma map_of_map_key: "map_of (map (\<lambda>(k, v). (k, f k v)) xs) i = map_option (f i) (map_of xs i)"
  by (induction xs) auto

definition new_event :: "jsstring \<Rightarrow> jsstring ActivityInput \<Rightarrow> 'w management \<Rightarrow> jsstring ActivityEvent" where
  "new_event ts inp m = make_event (bus_nextId (mn_activity m)) ts inp"

lemma announce_stream:
  "map_of (mn_streams (announce ts inp m)) i =
     map_option (\<lambda>evs. if i \<in> set (bus_listeners (mn_activity m)) \<and> i \<notin> set (mn_ended m) then evs @ [new_event ts inp m] else evs)
       (map_of (mn_streams m) i)"
  "bus_nextId (mn_activity (announce ts inp m)) = Suc (bus_nextId (mn_activity m))"
  "bus_listeners (mn_activity (announce ts inp m)) = bus_listeners (mn_activity m)"
  "set (bus_events (mn_activity (announce ts inp m))) \<subseteq> insert (new_event ts inp m) (set (bus_events (mn_activity m)))"
  "ev_id (new_event ts inp m) = bus_nextId (mn_activity m)"
  "map fst (mn_streams (announce ts inp m)) = map fst (mn_streams m)"
proof -
  let ?f = "\<lambda>k evs. if k \<in> set (bus_listeners (mn_activity m)) \<and> k \<notin> set (mn_ended m) then evs @ [new_event ts inp m] else evs"
  have streams: "mn_streams (announce ts inp m) = map (\<lambda>(k, evs). (k, ?f k evs)) (mn_streams m)"
    by (auto simp: announce_def publish_def Let_def deliver_all new_event_def)
  show "map_of (mn_streams (announce ts inp m)) i = map_option (?f i) (map_of (mn_streams m) i)"
    unfolding streams by (rule map_of_map_key)
  show "map fst (mn_streams (announce ts inp m)) = map fst (mn_streams m)" unfolding streams by auto
  show "set (bus_events (mn_activity (announce ts inp m))) \<subseteq> insert (new_event ts inp m) (set (bus_events (mn_activity m)))"
    by (auto simp: announce_def publish_def Let_def deliver_all new_event_def dest: in_set_dropD split: if_splits)
qed (simp_all add: announce_def publish_def Let_def deliver_all new_event_def make_event_def)

text \<open>A stream opened with the events \<open>base\<close> when the next event had the number \<open>n0\<close>.\<close>

definition follows :: "nat \<Rightarrow> jsstring ActivityEvent list \<Rightarrow> nat \<Rightarrow> 'w management \<Rightarrow> bool" where
  "follows i base n0 m \<longleftrightarrow>
     n0 \<le> bus_nextId (mn_activity m) \<and>
     (i \<in> set (mn_ended m) \<or> map_of (mn_streams m) i = None \<or>
      i \<in> set (bus_listeners (mn_activity m)) \<and>
      (\<exists>later. map_of (mn_streams m) i = Some (base @ later) \<and> map ev_id later = [n0..<bus_nextId (mn_activity m)] \<and>
         (\<forall>ev\<in>set (bus_events (mn_activity m)). n0 \<le> ev_id ev \<longrightarrow> ev \<in> set later)))"

lemma follows_view: "stream_view m' = stream_view m \<Longrightarrow> follows i base n0 m' = follows i base n0 m"
  by (simp add: stream_view_def follows_def)

lemma follows_announce:
  assumes "follows i base n0 m"
  shows "follows i base n0 (announce ts inp m)"
proof (cases "i \<in> set (mn_ended m) \<or> map_of (mn_streams m) i = None")
  case True
  with assms show ?thesis by (auto simp: follows_def announce_stream console_simps)
next
  case False
  with assms obtain later where later: "map_of (mn_streams m) i = Some (base @ later)"
    "map ev_id later = [n0..<bus_nextId (mn_activity m)]" "i \<in> set (bus_listeners (mn_activity m))"
    "\<forall>ev\<in>set (bus_events (mn_activity m)). n0 \<le> ev_id ev \<longrightarrow> ev \<in> set later" "n0 \<le> bus_nextId (mn_activity m)"
    by (auto simp: follows_def)
  let ?later = "later @ [new_event ts inp m]"
  have "map_of (mn_streams (announce ts inp m)) i = Some (base @ ?later)"
    using False later(1,3) by (simp add: announce_stream)
  moreover have "map ev_id ?later = [n0..<bus_nextId (mn_activity (announce ts inp m))]"
    using later(2,5) by (simp add: announce_stream)
  moreover have "\<forall>ev\<in>set (bus_events (mn_activity (announce ts inp m))). n0 \<le> ev_id ev \<longrightarrow> ev \<in> set ?later"
    using later(4) announce_stream(4) [of ts inp m] by auto
  moreover have "n0 \<le> bus_nextId (mn_activity (announce ts inp m))" "i \<in> set (bus_listeners (mn_activity (announce ts inp m)))"
    using later(3,5) by (simp_all add: announce_stream)
  ultimately show ?thesis unfolding follows_def by (intro conjI disjI2 exI [of _ ?later])
qed

lemma follows_open:
  assumes "follows i base n0 m" "i \<noteq> j"
  shows "follows i base n0 (openActivityStream j rq m)"
  using assms by (auto simp: follows_def openActivityStream_def Let_def console_simps subscribe_def map_add_def split: option.splits)

lemma follows_closed:
  assumes "follows i base n0 m"
  shows "follows i base n0 (m\<lparr>mn_streams := AList.delete j (mn_streams m), mn_activity := unsubscribe j (mn_activity m)\<rparr>)"
  using assms by (auto simp: follows_def unsubscribe_def delete_conv')

lemma follows_shutdown: "follows i base n0 m \<Longrightarrow> follows i base n0 (m\<lparr>mn_ended := map fst (mn_streams m)\<rparr>)"
  by (auto simp: follows_def map_of_eq_None_iff)

lemma act_follows:
  assumes "follows i base n0 m" "i < mn_next m"
  shows "follows i base n0 (management_act h op m)"
proof (cases rule: act_streams [of m h op])
  case told
  then show ?thesis using assms(1) follows_announce follows_view unfolding told_def silent_def by metis
next
  case (opened rq mo)
  have "follows i base n0 (openActivityStream (mn_next m) rq m)" using assms by (intro follows_open) simp_all
  with opened(2) show ?thesis using follows_view unfolding opened_def by metis
next
  case (closed j)
  with follows_closed [OF assms(1)] show ?thesis by simp
next
  case ended
  with follows_shutdown [OF assms(1)] show ?thesis by (simp add: shutdownManagementServer_def)
qed

lemma act_next: "mn_next m \<le> mn_next (management_act h op m)"
  by (cases rule: act_cases [of op h m]) (auto dest: handled_next simp: requests_kept_def console_simps)

lemma run_follows:
  assumes "management_run h m1 hist m2" "follows i base n0 m1" "i < mn_next m1"
  shows "follows i base n0 m2 \<and> i < mn_next m2"
  using assms(1)
proof (induction rule: management_run.induct)
  case (step hist m op)
  then show ?case using act_follows act_next [of m h op] by fastforce
qed (use assms in simp)

text \<open>Streams are numbered by the request that opened them.\<close>

definition streams_known :: "'w management \<Rightarrow> bool" where
  "streams_known m \<longleftrightarrow> (\<forall>i\<in>set (map fst (mn_streams m)). i < mn_next m)"

lemma act_streams_known:
  assumes "streams_known m"
  shows "streams_known (management_act h op m)"
proof -
  have "i < mn_next (management_act h op m)" if "i \<in> set (map fst (mn_streams m))" for i
    using that assms act_next [of m h op] by (fastforce simp: streams_known_def)
  note old = this
  show ?thesis
  proof (cases rule: act_streams [of m h op])
    case told
    then have "map fst (mn_streams (management_act h op m)) = map fst (mn_streams m)"
      using announce_stream(6) unfolding told_def silent_def stream_view_def by fastforce
    with old show ?thesis by (simp add: streams_known_def)
  next
    case (opened rq mo)
    then have "mn_next (management_act h op m) = Suc (mn_next m)"
      using arrive_handled [of h rq mo m] handled_next by fastforce
    with opened(2) old show ?thesis
      by (auto simp: streams_known_def opened_def stream_view_def openActivityStream_def Let_def console_simps)
  next
    case (closed j)
    with old show ?thesis by (auto simp: streams_known_def AList.delete_eq)
  next
    case ended
    with old show ?thesis by (auto simp: streams_known_def shutdownManagementServer_def)
  qed
qed

lemma run_streams_known: "management_run h m0 hist m \<Longrightarrow> streams_known m0 \<Longrightarrow> streams_known m"
  by (induction rule: management_run.induct) (simp_all add: act_streams_known)

lemma told_none: "told m m' \<Longrightarrow> map_of (mn_streams m) i = None \<Longrightarrow> map_of (mn_streams m') i = None"
  by (auto simp: told_def silent_def stream_view_def announce_stream)

text \<open>The events in the log have smaller numbers than the next one.\<close>

definition log_ok :: "'w management \<Rightarrow> bool" where
  "log_ok m \<longleftrightarrow> (\<forall>ev\<in>set (bus_events (mn_activity m)). ev_id ev < bus_nextId (mn_activity m))"

lemma act_log_ok:
  assumes "log_ok m"
  shows "log_ok (management_act h op m)"
proof (cases rule: act_streams [of m h op])
  case told
  have "log_ok (announce ts inp m)" for ts inp
    using assms announce_stream(2,4,5) [of ts inp m] by (fastforce simp: log_ok_def)
  with told assms show ?thesis unfolding told_def silent_def stream_view_def log_ok_def by auto
next
  case (opened rq mo)
  with assms show ?thesis
    by (auto simp: log_ok_def opened_def stream_view_def openActivityStream_def Let_def console_simps subscribe_def)
qed (use assms in \<open>simp_all add: log_ok_def unsubscribe_def shutdownManagementServer_def\<close>)

lemma run_log_ok: "management_run h m0 hist m \<Longrightarrow> log_ok m0 \<Longrightarrow> log_ok m"
  by (induction rule: management_run.induct) (simp_all add: act_log_ok)

definition after_id :: "management_request \<Rightarrow> nat" where
  "after_id rq = (case rq_lastEventId rq of Some n \<Rightarrow> nat n | None \<Rightarrow> 0)"

lemma opened_follows:
  assumes "streams_known m" "opened (mn_next m) rq m m1"
  shows "map_of (mn_streams m1) (mn_next m) = Some (bus_snapshot None (Some (after_id rq)) None (mn_activity m))"
    "bus_nextId (mn_activity m1) = bus_nextId (mn_activity m)" "mn_next m \<in> set (bus_listeners (mn_activity m1))"
    "bus_events (mn_activity m1) = bus_events (mn_activity m)"
proof -
  have "map_of (mn_streams m) (mn_next m) = None"
    using assms(1) by (fastforce simp: streams_known_def map_of_eq_None_iff)
  then show "map_of (mn_streams m1) (mn_next m) = Some (bus_snapshot None (Some (after_id rq)) None (mn_activity m))"
    "bus_nextId (mn_activity m1) = bus_nextId (mn_activity m)" "mn_next m \<in> set (bus_listeners (mn_activity m1))"
    "bus_events (mn_activity m1) = bus_events (mn_activity m)"
    using assms(2) by (auto simp: opened_def stream_view_def openActivityStream_def Let_def console_simps subscribe_def after_id_def
        map_add_def)
qed

text \<open>
  C15: an event stream misses nothing and repeats nothing. A stream opened by a request of a running server starts with the
  events the log still has after the given Last-Event-ID; as long as it is open, what it has been sent
  after those are the events published since, with consecutive numbers and none left out.
\<close>

theorem event_stream:
  assumes "createManagementServer sha parse documents allowRemote publicOrigin servicePort port auth access providers w activity = Inr m0"
    "management_run h m0 hist m" "map_of (mn_streams (management_act h (Arrive rq mo) m)) (mn_next m) = Some base"
    "new_bus maxEvents = Some activity" "management_run h (management_act h (Arrive rq mo) m) hist' m2"
    "map_of (mn_streams m2) (mn_next m) = Some sent" "mn_next m \<notin> set (mn_ended m2)"
  shows "base = bus_snapshot None (Some (after_id rq)) None (mn_activity m) \<and>
    (\<exists>later. sent = base @ later \<and> map ev_id later = [bus_nextId (mn_activity m)..<bus_nextId (mn_activity m2)] \<and>
       (\<forall>ev\<in>set (bus_events (mn_activity m2)). bus_nextId (mn_activity m) \<le> ev_id ev \<longrightarrow> ev \<in> set later))"
proof -
  let ?m1 = "management_act h (Arrive rq mo) m" and ?i = "mn_next m" and ?n = "bus_nextId (mn_activity m)"
  have "streams_known m0" using created_server(4) [OF assms(1)] by (simp add: streams_known_def)
  with run_streams_known [OF assms(2)] have known: "streams_known m" .
  then have fresh: "map_of (mn_streams m) ?i = None" by (fastforce simp: streams_known_def map_of_eq_None_iff)
  have "\<not> told m ?m1"
    using assms(3) fresh told_none by fastforce
  then have "opened ?i rq m ?m1" using arrive_told [of m h mo rq] by simp
  note op = opened_follows [OF known this]
  have next1: "?i < mn_next ?m1" using handled_next [OF arrive_handled [of h rq mo m]] by simp
  have "bus_events activity = []" using assms(4) by (auto simp: new_bus_def split: if_splits)
  then have "log_ok m0" using created_server(6) [OF assms(1)] by (simp add: log_ok_def)
  with run_log_ok [OF assms(2)] have "log_ok m" .
  with op assms(3) have "follows ?i base ?n ?m1" unfolding follows_def log_ok_def by fastforce
  with run_follows [OF assms(5) _ next1] have "follows ?i base ?n m2" by blast
  with assms(6,7) op(1) assms(3) show ?thesis by (auto simp: follows_def)
qed

section \<open>Without a session\<close>

definition reveals_nothing :: "management_answer \<Rightarrow> bool" where
  "reveals_nothing r \<longleftrightarrow>
     (case mr_body r of
        LoginPage \<Rightarrow> True
      | NoBody \<Rightarrow> mr_status r = 303
      | ErrorCode c \<Rightarrow> mr_status r \<in> {401, 403, 421, 500}
      | _ \<Rightarrow> False)"

text \<open>
  C20: a console with an authenticator shows nothing to a request without a live session. Such a request
  changes no store, opens no stream and publishes nothing; it is answered with the login page, a redirect or an
  error, or waits for the body of a login.
\<close>

theorem management_locked:
  assumes "mn_auth m = Some a" "snd (session (mh_sha h) (mo_now mo) (plain_header rq ''cookie'') a) = None"
  shows "let m' = management_act h (Arrive rq mo) m
    in stores m' = stores m \<and> mn_streams m' = mn_streams m \<and> mn_activity m' = mn_activity m \<and>
       ((\<exists>r. mn_answers m' = mn_answers m @ [(mn_next m, r)] \<and> mn_tasks m' = mn_tasks m \<and> reveals_nothing r) \<or>
        (mn_answers m' = mn_answers m \<and> mn_tasks m' = mn_tasks m @ [(mn_next m, ReadingLogin rq)]))"
proof -
  define i n where "i = mn_next m" and "n = m\<lparr>mn_next := Suc (mn_next m)\<rparr>"
  obtain m1 s where cs: "current_session h mo rq n = (m1, s)" by (cases "current_session h mo rq n")
  note fields = session_fields [OF cs]
  have none: "s = None" "mn_auth m1 \<noteq> None" using assms fields(11,12) by (simp_all add: n_def)
  let ?Q = "\<lambda>m'. stores m' = stores m \<and> mn_streams m' = mn_streams m \<and> mn_activity m' = mn_activity m \<and>
       ((\<exists>r. mn_answers m' = mn_answers m @ [(i, r)] \<and> mn_tasks m' = mn_tasks m \<and> reveals_nothing r) \<or>
        (mn_answers m' = mn_answers m \<and> mn_tasks m' = mn_tasks m @ [(i, ReadingLogin rq)]))"
  have answered: "?Q (answer i r k)" if "k = m1 \<or> k = n" "reveals_nothing r" for r k
  proof -
    have "reveals_nothing (r\<lparr>mr_headers := hs\<rparr>)" for hs using that(2) by (simp add: reveals_nothing_def split: management_body.splits)
    then show ?thesis using that(1) fields by (auto simp: answer_def stores_def n_def)
  qed
  have failed: "?Q (fail i e k)" if "k = m1 \<or> k = n" "case e of Thrown status code \<Rightarrow> status \<in> {401, 403, 421, 500}" for e k
    unfolding fail_def using that by (intro answered) (auto simp: reveals_nothing_def json_answer_def split: thrown.splits)
  have same: "requireSameOrigin rq p = Some e \<Longrightarrow> case e of Thrown status code \<Rightarrow> status \<in> {401, 403, 421, 500}" for p e
    by (auto simp: requireSameOrigin_def Let_def split: option.splits if_splits)
  have waiting: "?Q (await i (ReadingLogin rq) m1)" using fields by (simp add: await_def stores_def n_def)
  have "?Q (dispatch h i mo rq path s m1)" for path
  proof -
    have pages: "?Q (answer i (if s \<noteq> None then redirect ''/'' else html_answer LoginPage) m1)" "?Q (answer i (redirect ''/login'') m1)"
      "?Q (fail i (Thrown 401 ''management-authentication-required'') m1)"
      by (intro answered failed; simp add: none reveals_nothing_def html_answer_def redirect_def)+
    have login: "?Q (case requireSameOrigin rq (mn_public m1) of Some e \<Rightarrow> fail i e m1 | None \<Rightarrow> await i (ReadingLogin rq) m1)"
    proof (cases "requireSameOrigin rq (mn_public m1)")
      case None
      with waiting show ?thesis by simp
    next
      case (Some e)
      with failed [of m1 e] same [OF Some] show ?thesis by simp
    qed
    have "dispatch h i mo rq path s m1 \<in> {answer i (if s \<noteq> None then redirect ''/'' else html_answer LoginPage) m1,
        (case requireSameOrigin rq (mn_public m1) of Some e \<Rightarrow> fail i e m1 | None \<Rightarrow> await i (ReadingLogin rq) m1),
        answer i (redirect ''/login'') m1, fail i (Thrown 401 ''management-authentication-required'') m1}"
      using none(1) if_not_P [of "mn_auth m1 = None", OF none(2)] none(2) unfolding dispatch_def by auto
    with pages login show ?thesis by (elim insertE emptyE) simp_all
  qed
  moreover have "?Q (fail i (Thrown 421 ''loopback-host-required'') n)" "?Q (fail i (Thrown 421 ''management-host-mismatch'') n)"
    "?Q (fail i other_error n)"
    by (intro failed; simp add: other_error_def)+
  moreover have "arrive h mo rq m \<in> {fail i (Thrown 421 ''loopback-host-required'') n, fail i (Thrown 421 ''management-host-mismatch'') n,
      fail i other_error n} \<union> range (\<lambda>path. dispatch h i mo rq path s m1)"
    using cs unfolding arrive_def i_def n_def Let_def by (auto split: option.split prod.split)
  ultimately have "?Q (arrive h mo rq m)" by (elim UnE insertE emptyE rangeE) simp_all
  then show ?thesis by (simp add: i_def Let_def)
qed

section \<open>Examples\<close>

text \<open>A local server over an empty key store that has no file, and one that asks for a login.\<close>

definition example_management_host :: "unit management_host" where
  "example_management_host =
     \<lparr>mh_sha = (\<lambda>b. b), mh_lower = ascii_lower, mh_scrypt = (\<lambda>_. None),
      mh_parse = (\<lambda>_. Some (obj [(''name'', JStr (js ''Ada''))])), mh_le = (\<lambda>a b. True), mh_provider = demo_host\<rparr>"

definition example_moment :: moment where
  "example_moment = \<lparr>mo_now = 0, mo_timestamp = js ''t'', mo_uuid = js ''u'', mo_hex = js ''00'', mo_random1 = [], mo_random2 = []\<rparr>"

definition example_store :: access_store where
  "example_store = \<lparr>as_state = emptyState, as_persistent = False, as_disk = None, as_queue = wq_new\<rparr>"

definition example_bus :: "(jsstring, nat) ActivityBus" where
  "example_bus = \<lparr>bus_events = [], bus_listeners = [], bus_maxEvents = 1, bus_nextId = 1\<rparr>"

definition example_console :: "unit management" where
  "example_console =
     \<lparr>mn_allowRemote = False, mn_public = None, mn_publicOption = None, mn_csp = contentSecurityPolicy (\<lambda>b. b) [],
      mn_servicePort = 8484, mn_port = None, mn_auth = None, mn_access = example_store, mn_providers = None, mn_world = (),
      mn_activity = example_bus, mn_streams = [], mn_ended = [], mn_tasks = [], mn_answers = [], mn_next = 0\<rparr>"

lemma example_console:
  "createManagementServer (\<lambda>b. b) (\<lambda>_. None) [] False None 8484 None None example_store None () example_bus = Inr example_console"
  by (simp add: createManagementServer_def Let_def example_console_def)

definition example_request :: "string \<Rightarrow> string \<Rightarrow> management_request" where
  "example_request method path =
     \<lparr>rq_method = js method, rq_url = Some (js path, []),
      rq_headers = [(''host'', HStr (js ''localhost'')), (''x-typr-management'', HStr (js ''1'')),
                    (''content-type'', HStr (js ''application/json''))],
      rq_contentLength = None, rq_chunks = [], rq_hostname = Some (js ''localhost''), rq_originHost = None,
      rq_remoteAddress = None, rq_lastEventId = None\<rparr>"

definition example_arrived :: "unit management" where
  "example_arrived = example_console\<lparr>mn_next := 1, mn_tasks := [(0, ReadingBody CreateUserRoute (example_request ''POST'' ''/api/users''))]\<rparr>"

lemma example_guards:
  "hasLoopbackHost (example_request method path)"
  "requireManagementIntent sha (example_request method path) None sess = None"
  "ascii_lower (js ''localhost'') = js ''localhost''"
proof -
  show lower: "ascii_lower (js ''localhost'') = js ''localhost''" by (simp add: js_def ascii_lower_def is_upper_def)
  show "hasLoopbackHost (example_request method path)"
    by (simp add: hasLoopbackHost_def example_request_def plain_header_def lower)
  show "requireManagementIntent sha (example_request method path) None sess = None"
    by (simp add: requireManagementIntent_def example_request_def header_def http_request.truncate_def)
qed

lemma path_param_mismatch: "take (length pre) path \<noteq> js pre \<Longrightarrow> path_param pre suf path = None"
proof -
  assume a: "take (length pre) path \<noteq> js pre"
  have "path \<noteq> js pre @ p @ js suf" for p using a by auto
  then show ?thesis by (simp add: path_param_def Let_def)
qed

lemma example_arrival: "arrive example_management_host example_moment (example_request ''POST'' ''/api/users'') example_console = example_arrived"
proof -
  let ?rq = "example_request ''POST'' ''/api/users''" and ?m = "example_console\<lparr>mn_next := Suc 0\<rparr>"
  have m: "mn_auth ?m = None" "mn_public ?m = None" by (simp_all add: example_console_def)
  have rq: "rq_method ?rq = js ''POST''" "rq_url ?rq = Some (js ''/api/users'', [])" by (simp_all add: example_request_def)
  have params: "path_param ''/api/providers/'' ''/install'' (js ''/api/users'') = None"
    by (rule path_param_mismatch) (simp add: js_def)
  have "handle_mutation 0 example_moment ?rq (js ''/api/users'') ?m = await 0 (ReadingBody CreateUserRoute ?rq) ?m"
    by (simp add: handle_mutation_def rq params)
  then have "dispatch example_management_host 0 example_moment ?rq (js ''/api/users'') None ?m = await 0 (ReadingBody CreateUserRoute ?rq) ?m"
    by (simp add: dispatch_def handleManagementRequest_def rq m example_guards)
  moreover have "current_session example_management_host example_moment ?rq ?m = (?m, None)" by (simp add: current_session_def m)
  moreover have "mn_next example_console = 0" by (simp add: example_console_def)
  ultimately have "arrive example_management_host example_moment ?rq example_console = await 0 (ReadingBody CreateUserRoute ?rq) ?m"
    unfolding arrive_def Let_def using example_guards(1) rq(2) m(2) by simp
  then show ?thesis by (simp add: await_def example_arrived_def example_console_def)
qed

definition example_history :: "(management_op \<times> unit management) list" where
  "example_history = [(Arrive (example_request ''POST'' ''/api/users'') example_moment, example_console)]"

lemma example_run: "management_run example_management_host example_console example_history example_arrived"
  using management_run.step [OF management_run.start, of example_management_host example_console
      "Arrive (example_request ''POST'' ''/api/users'') example_moment"] example_arrival
  by (simp add: example_history_def)

lemma example_body: "readManagementBody (mh_parse example_management_host) (example_request ''POST'' ''/api/users'') =
   Inr (obj [(''name'', JStr (js ''Ada''))])"
proof -
  have "prefix (js ''application/json'') (ascii_lower (js ''application/json''))"
    by (simp add: js_def ascii_lower_def is_upper_def)
  then show ?thesis
    by (simp add: readManagementBody_def plain_header_def example_request_def example_management_host_def MAX_MANAGEMENT_BODY_BYTES_def)
qed

lemma example_created:
  "stores (management_act example_management_host (BodyRead 0 example_moment) example_arrived) \<noteq> stores example_arrived"
proof -
  have "normalizeLabel (js ''Ada'') 80 = Inr (js ''Ada'')"
    by (simp add: normalizeLabel_def js_def trim_fixed is_space_def)
  then show ?thesis
    using example_body
    by (simp add: example_arrived_def mutation_body_def store_result_def createUser_def Let_def example_console_def example_store_def
        emptyState_def stores_def drop_task_def with_state_def persist_def await_def)
qed

theorem management_guarded_witness:
  "\<exists>rq mo m1. (Arrive rq mo, m1) \<in> set (example_history @ [(BodyRead 0 example_moment, example_arrived)]) \<and> mn_next m1 = 0 \<and>
     permitted example_management_host rq mo m1"
  using management_guarded [OF example_console example_run _ example_created] by (simp add: request_of_def) blast

theorem management_answers_witness:
  "let m' = management_act example_management_host (BodyRead 0 example_moment) example_arrived
   in (\<exists>r. mn_answers m' = mn_answers example_arrived @ [(0, r)]) \<or> (\<exists>t'. (0, t') \<in> set (mn_tasks m') \<and> task_rank t' < 2)"
proof -
  have "map_of (mn_tasks example_arrived) 0 = Some (ReadingBody CreateUserRoute (example_request ''POST'' ''/api/users''))"
    by (simp add: example_arrived_def)
  moreover have "continues (BodyRead 0 example_moment) (0, ReadingBody CreateUserRoute (example_request ''POST'' ''/api/users''))"
    by (simp add: continues_def)
  ultimately show ?thesis
    using management_answers [OF example_console example_run] unfolding Let_def by (metis task_rank.simps(2))
qed

text \<open>A stream opened, and an event published.\<close>

definition example_stream :: "unit management" where
  "example_stream = management_act example_management_host (Arrive (example_request ''GET'' ''/api/events'') example_moment) example_console"

definition example_note :: "jsstring ActivityInput" where
  "example_note = note_of ''management'' LevelInfo ''server-started'' []"

lemma example_stream:
  "mn_streams example_stream = [(0, [])]" "mn_activity example_stream = example_bus\<lparr>bus_listeners := [0]\<rparr>" "mn_ended example_stream = []"
proof -
  let ?rq = "example_request ''GET'' ''/api/events''" and ?m = "example_console\<lparr>mn_next := Suc 0\<rparr>"
  have m: "mn_auth ?m = None" "mn_public ?m = None" "mn_next example_console = 0" by (simp_all add: example_console_def)
  have rq: "rq_method ?rq = js ''GET''" "rq_url ?rq = Some (js ''/api/events'', [])" "rq_lastEventId ?rq = None"
    by (simp_all add: example_request_def)
  have eq: "example_stream = openActivityStream 0 ?rq ?m"
    unfolding example_stream_def management_act.simps arrive_def Let_def m
    using example_guards(1) by (simp add: rq m current_session_def dispatch_def handleManagementRequest_def)
  show "mn_streams example_stream = [(0, [])]" "mn_activity example_stream = example_bus\<lparr>bus_listeners := [0]\<rparr>" "mn_ended example_stream = []"
    unfolding eq by (simp_all add: openActivityStream_def Let_def console_simps rq example_console_def example_bus_def bus_snapshot_def subscribe_def keep_last_def)
qed

theorem event_stream_witness:
  "map_option (map ev_id) (map_of (mn_streams (management_act example_management_host (Published (js ''t'') example_note) example_stream)) 0) =
   Some [1]"
proof -
  let ?m2 = "management_act example_management_host (Published (js ''t'') example_note) example_stream"
  have run: "management_run example_management_host example_stream [(Published (js ''t'') example_note, example_stream)] ?m2"
    using management_run.step [OF management_run.start, of example_management_host example_stream "Published (js ''t'') example_note"] by simp
  have next0: "mn_next example_console = 0" "bus_nextId (mn_activity example_console) = 1" by (simp_all add: example_console_def example_bus_def)
  have base: "map_of (mn_streams example_stream) (mn_next example_console) = Some []" by (simp add: example_stream next0)
  have ended: "mn_next example_console \<notin> set (mn_ended ?m2)" by (simp add: example_stream console_simps)
  obtain sent where sent: "map_of (mn_streams ?m2) (mn_next example_console) = Some sent"
    using base by (simp add: announce_stream)
  have bus: "new_bus 1 = Some example_bus" by (simp add: new_bus_def example_bus_def)
  have "bus_nextId (mn_activity ?m2) = 2" by (simp add: announce_stream example_stream example_bus_def)
  with event_stream [OF example_console management_run.start base [unfolded example_stream_def] bus run [unfolded example_stream_def]
      sent [unfolded example_stream_def] ended [unfolded example_stream_def]] sent next0
  show ?thesis by (auto simp: example_stream_def upt_rec)
qed

text \<open>The same server behind a login, and a request for the snapshot without a cookie.\<close>

definition example_locked :: "unit management" where
  "example_locked = example_console\<lparr>mn_auth := Some \<lparr>ma_username = js ''typr'', ma_secureCookies = False, ma_hash = [], ma_idle = 1,
     ma_absolute = 1, ma_sessions = [], ma_failures = [], ma_records = []\<rparr>\<rparr>"

theorem management_locked_witness:
  "stores (management_act example_management_host (Arrive (example_request ''GET'' ''/api/snapshot'') example_moment) example_locked) =
   stores example_locked"
proof -
  obtain a where a: "mn_auth example_locked = Some a" by (simp add: example_locked_def)
  have "plain_header (example_request ''GET'' ''/api/snapshot'') ''cookie'' = None" by (simp add: plain_header_def example_request_def)
  then have "snd (session (mh_sha example_management_host) (mo_now example_moment)
      (plain_header (example_request ''GET'' ''/api/snapshot'') ''cookie'') a) = None"
    by (simp add: session_def readCookie_def)
  from management_locked [OF a this] show ?thesis by (simp add: Let_def)
qed

end
