(* ===== verification/Startup.thy ===== *)
theory Startup
  imports SandboxPolicy ManagementStreams CompileLog
begin

text \<open>
  \<^verbatim>\<open>typr-server/cli.ts\<close>: the configuration of the service and of its management console from the
  environment, and \<^verbatim>\<open>typr-server/bundledTexRuntime.ts\<close>: the TeX tree a container copies into its cache.
  Reading the password file, creating directories and the file system of the cache are parameters.
\<close>

section \<open>Values of the environment\<close>

text \<open>\<open>Number.parseInt(value, 10)\<close>; \<open>None\<close> is \<open>NaN\<close>.\<close>

definition parseInt10 :: "jsstring \<Rightarrow> int option" where
  "parseInt10 v =
     (let s = dropWhile is_space v;
          negative = (s \<noteq> [] \<and> hd s = 45);
          ds = takeWhile is_digit (if s \<noteq> [] \<and> (hd s = 45 \<or> hd s = 43) then tl s else s)
      in if ds = [] then None else Some (if negative then - digits_value ds else digits_value ds))"

definition parsePort :: "jsstring option \<Rightarrow> int \<Rightarrow> string + int" where
  "parsePort v fallback =
     (let parsed = (case v of Some s \<Rightarrow> if s \<noteq> [] then parseInt10 s else Some fallback | None \<Rightarrow> Some fallback)
      in case parsed of
           Some n \<Rightarrow> if n < 1 \<or> n > 65535 then Inl ''TYPR_COMPANION_PORT must be a valid TCP port number.'' else Inr n
         | None \<Rightarrow> Inl ''TYPR_COMPANION_PORT must be a valid TCP port number.'')"

text \<open>No character outside ASCII has a lower case made of the letters of these constants.\<close>

definition isLoopbackHost :: "jsstring \<Rightarrow> bool" where
  "isLoopbackHost v \<longleftrightarrow> ascii_lower v \<in> {js ''127.0.0.1'', js ''localhost'', js ''::1''}"

definition parseOptionalFlag :: "jsstring option \<Rightarrow> string \<Rightarrow> string + bool" where
  "parseOptionalFlag v name =
     (if NativeProcess.trimmed v = [] then Inr False else if NativeProcess.trimmed v = js ''1'' then Inr True
      else Inl (name @ '' must be unset or exactly 1.''))"

text \<open>\<open>replace(/\r?\n$/u, "")\<close>\<close>

definition drop_newline :: "jsstring \<Rightarrow> jsstring" where
  "drop_newline s =
     (if s \<noteq> [] \<and> last s = 10
      then let t = butlast s in if t \<noteq> [] \<and> last t = 13 then butlast t else t
      else s)"

text \<open>\<open>read\<close> is \<open>readFile(file, "utf8")\<close>; \<open>None\<close>: it throws.\<close>

definition readAdministratorPassword :: "(jsstring \<Rightarrow> jsstring option) \<Rightarrow> process_env \<Rightarrow> string + jsstring option" where
  "readAdministratorPassword read penv =
     (let inline = (case penv ''TYPR_COMPANION_MANAGEMENT_PASSWORD'' of Some p \<Rightarrow> p | None \<Rightarrow> []);
          path = NativeProcess.trimmed (penv ''TYPR_COMPANION_MANAGEMENT_PASSWORD_FILE'')
      in if inline \<noteq> [] \<and> path \<noteq> []
         then Inl ''Set only one of TYPR_COMPANION_MANAGEMENT_PASSWORD or TYPR_COMPANION_MANAGEMENT_PASSWORD_FILE.''
         else if inline \<noteq> [] then Inr (Some inline)
         else if path = [] then Inr None
         else if \<not> posix_isAbsolute path then Inl ''TYPR_COMPANION_MANAGEMENT_PASSWORD_FILE must be an absolute path.''
         else case read path of
           None \<Rightarrow> Inl ''the password file could not be read''
         | Some content \<Rightarrow>
             if drop_newline content = [] then Inl ''TYPR_COMPANION_MANAGEMENT_PASSWORD_FILE is empty.''
             else Inr (Some (drop_newline content)))"

section \<open>Configuration\<close>

record companion_configuration =
  cc_port :: int
  cc_managementPort :: int
  cc_host :: jsstring
  cc_managementHost :: jsstring
  cc_publicOrigin :: "jsstring option"
  cc_authenticator :: "authenticator option"
  cc_remote :: bool
  cc_dataRoot :: "jsstring option"

definition nonempty_or :: "jsstring \<Rightarrow> string \<Rightarrow> jsstring" where
  "nonempty_or v fallback = (if v \<noteq> [] then v else js fallback)"

text \<open>The workspace of a data root, with \<open>made\<close> telling whether its directory could be created.\<close>

definition managed_workspace :: "bool \<Rightarrow> jsstring option \<Rightarrow> process_env \<Rightarrow> string + process_env" where
  "managed_workspace made dataRoot penv =
     (case parseOptionalFlag (penv ''TYPR_COMPANION_MANAGED_WORKSPACE'') ''TYPR_COMPANION_MANAGED_WORKSPACE'' of
        Inl e \<Rightarrow> Inl e
      | Inr managed \<Rightarrow>
          if \<not> managed then Inr penv
          else case dataRoot of
            None \<Rightarrow> Inl ''TYPR_COMPANION_MANAGED_WORKSPACE=1 requires TYPR_COMPANION_DATA_ROOT.''
          | Some root \<Rightarrow>
              if NativeProcess.trimmed (penv ''TYPR_COMPANION_WORKSPACE_ROOT'') \<noteq> [] then Inr penv
              else if \<not> made then Inl ''the managed workspace could not be created''
              else Inr (penv(''TYPR_COMPANION_WORKSPACE_ROOT'' := Some (posix_join [root, js ''workspaces'', js ''default'']),
                             ''TYPR_COMPANION_WORKSPACE_ID'' := Some (js ''managed-default''))))"

definition console_authenticator ::
  "(jsstring \<Rightarrow> bytes option) \<Rightarrow> jsstring option \<Rightarrow> jsstring \<Rightarrow> bool \<Rightarrow> string + authenticator option"
where
  "console_authenticator scrypt password username secure =
     (case password of
        None \<Rightarrow> Inr None
      | Some p \<Rightarrow>
          (case create_auth scrypt username p secure None None of
             Inl e \<Rightarrow> Inl ''the authenticator could not be created'' | Inr a \<Rightarrow> Inr (Some a)))"

text \<open>The start of the program up to the workspace, on a system that is not Windows.\<close>

definition configure ::
  "(jsstring \<Rightarrow> jsstring option) \<Rightarrow> (jsstring \<Rightarrow> bytes option) \<Rightarrow> bool \<Rightarrow> process_env \<Rightarrow>
   string + companion_configuration \<times> process_env"
where
  "configure read scrypt made penv =
     (case (parsePort (penv ''TYPR_COMPANION_PORT'') 8484, parsePort (penv ''TYPR_COMPANION_MANAGEMENT_PORT'') 8485) of
        (Inl e, _) \<Rightarrow> Inl e
      | (Inr port, Inl e) \<Rightarrow> Inl e
      | (Inr port, Inr managementPort) \<Rightarrow>
          if managementPort = port then Inl ''The Companion service and management GUI must use different ports.''
          else
            let host = (case penv ''TYPR_COMPANION_HOST'' of Some x \<Rightarrow> x | None \<Rightarrow> js ''127.0.0.1'');
                managementHost = nonempty_or (NativeProcess.trimmed (penv ''TYPR_COMPANION_MANAGEMENT_HOST'')) ''127.0.0.1'';
                origin = NativeProcess.trimmed (penv ''TYPR_COMPANION_MANAGEMENT_PUBLIC_ORIGIN'');
                username = nonempty_or (NativeProcess.trimmed (penv ''TYPR_COMPANION_MANAGEMENT_USERNAME'')) ''typr'';
                remote = (\<not> isLoopbackHost managementHost)
            in case readAdministratorPassword read penv of
                 Inl e \<Rightarrow> Inl e
               | Inr password \<Rightarrow>
                   if remote \<and> password = None
                   then Inl ''Remote management requires a management password or password file.''
                   else case console_authenticator scrypt password username (origin \<noteq> []) of
                     Inl e \<Rightarrow> Inl e
                   | Inr auth \<Rightarrow>
                       let env1 = penv(''TYPR_COMPANION_MANAGEMENT_PASSWORD'' := None);
                           root = NativeProcess.trimmed (env1 ''TYPR_COMPANION_DATA_ROOT'');
                           dataRoot = (if root \<noteq> [] then Some root else None);
                           env2 = (if root \<noteq> [] then env1(''TYPR_COMPANION_DATA_ROOT'' := Some root) else env1)
                       in case managed_workspace made dataRoot env2 of
                            Inl e \<Rightarrow> Inl e
                          | Inr env3 \<Rightarrow>
                              Inr (\<lparr>cc_port = port, cc_managementPort = managementPort, cc_host = host,
                                    cc_managementHost = managementHost,
                                    cc_publicOrigin = (if origin \<noteq> [] then Some origin else None),
                                    cc_authenticator = auth, cc_remote = remote, cc_dataRoot = dataRoot\<rparr>, env3))"

text \<open>The activity event for an event of the provider manager.\<close>

definition provider_activity :: "provider_event \<Rightarrow> jsstring" where
  "provider_activity e =
     (if pe_providerId e = js ''tinytex'' then js ''latex'' else js ''lsp-'' @ pe_providerId e)"

text \<open>The service the console lists for itself.\<close>

definition managementDescriptor :: ManagedServiceDescriptor where
  "managementDescriptor =
     \<lparr>sd_id = js ''management'', sd_name = js ''Management GUI'', sd_kind = ApiService, sd_status = Ready, sd_advertised = False,
      sd_active = 0, sd_description = js ''Authenticated service visibility, access control, and live activity.'',
      sd_capabilities = map js [''session-login'', ''service-catalog'', ''users'', ''api-keys'', ''live-activity''],
      sd_provider = None\<rparr>"

section \<open>What a started service guarantees\<close>

lemma parsePort_range: "parsePort v fallback = Inr n \<Longrightarrow> 1 \<le> n \<and> n \<le> 65535"
  by (auto simp: parsePort_def Let_def split: option.splits if_splits)

lemma create_auth_secure: "create_auth scrypt u p secure idle absolute = Inr a \<Longrightarrow> ma_secureCookies a = secure \<and> 24 \<le> length p"
  by (auto simp: create_auth_def validateManagementPassword_def Let_def split: option.splits sum.splits if_splits)

lemma managed_workspace_env:
  "managed_workspace made dataRoot penv = Inr env \<Longrightarrow>
   k \<noteq> ''TYPR_COMPANION_WORKSPACE_ROOT'' \<Longrightarrow> k \<noteq> ''TYPR_COMPANION_WORKSPACE_ID'' \<Longrightarrow> env k = penv k"
  by (auto simp: managed_workspace_def split: sum.splits if_splits option.splits)

lemma configure_parts:
  assumes "configure read scrypt made penv = Inr (c, env)"
  obtains password env2 where
    "parsePort (penv ''TYPR_COMPANION_PORT'') 8484 = Inr (cc_port c)"
    "parsePort (penv ''TYPR_COMPANION_MANAGEMENT_PORT'') 8485 = Inr (cc_managementPort c)" "cc_managementPort c \<noteq> cc_port c"
    "readAdministratorPassword read penv = Inr password" "cc_remote c = (\<not> isLoopbackHost (cc_managementHost c))"
    "cc_remote c \<longrightarrow> password \<noteq> None" "cc_publicOrigin c \<noteq> Some []"
    "console_authenticator scrypt password (nonempty_or (NativeProcess.trimmed (penv ''TYPR_COMPANION_MANAGEMENT_USERNAME'')) ''typr'')
       (cc_publicOrigin c \<noteq> None) = Inr (cc_authenticator c)"
    "managed_workspace made (cc_dataRoot c) env2 = Inr env" "env2 ''TYPR_COMPANION_MANAGEMENT_PASSWORD'' = None"
proof (cases "parsePort (penv ''TYPR_COMPANION_PORT'') 8484")
  case (Inl e)
  with assms show ?thesis by (simp add: configure_def)
next
  case port: (Inr port)
  show ?thesis
  proof (cases "parsePort (penv ''TYPR_COMPANION_MANAGEMENT_PORT'') 8485")
    case (Inl e)
    with assms port show ?thesis by (simp add: configure_def)
  next
    case mport: (Inr mport)
    show ?thesis
    proof (cases "readAdministratorPassword read penv")
      case (Inl e)
      with assms port mport show ?thesis by (simp add: configure_def Let_def split: if_splits)
    next
      case password: (Inr password)
      define origin where "origin = NativeProcess.trimmed (penv ''TYPR_COMPANION_MANAGEMENT_PUBLIC_ORIGIN'')"
      define username where "username = nonempty_or (NativeProcess.trimmed (penv ''TYPR_COMPANION_MANAGEMENT_USERNAME'')) ''typr''"
      show ?thesis
      proof (cases "console_authenticator scrypt password username (origin \<noteq> [])")
        case (Inl e)
        with assms port mport password show ?thesis
          by (simp add: configure_def Let_def origin_def username_def split: if_splits)
      next
        case auth: (Inr auth)
        define root where "root = NativeProcess.trimmed (penv ''TYPR_COMPANION_DATA_ROOT'')"
        define env1 where "env1 = penv(''TYPR_COMPANION_MANAGEMENT_PASSWORD'' := None)"
        define env2 where "env2 = (if root \<noteq> [] then env1(''TYPR_COMPANION_DATA_ROOT'' := Some root) else env1)"
        have env2: "env2 ''TYPR_COMPANION_MANAGEMENT_PASSWORD'' = None" by (simp add: env2_def env1_def)
        have root1: "NativeProcess.trimmed (env1 ''TYPR_COMPANION_DATA_ROOT'') = root" by (simp add: env1_def root_def)
        show ?thesis
        proof (cases "managed_workspace made (if root \<noteq> [] then Some root else None) env2")
          case (Inl e)
          with assms port mport password auth root1 show ?thesis
            unfolding configure_def Let_def env1_def [symmetric] origin_def [symmetric] username_def [symmetric]
            by (simp add: env2_def split: if_splits)
        next
          case env: (Inr env3)
          with assms port mport password auth root1 have parts:
            "mport \<noteq> port" "\<not> (\<not> isLoopbackHost (cc_managementHost c) \<and> password = None)" "env = env3"
            "cc_port c = port" "cc_managementPort c = mport" "cc_authenticator c = auth"
            "cc_remote c = (\<not> isLoopbackHost (cc_managementHost c))" "cc_publicOrigin c = (if origin \<noteq> [] then Some origin else None)"
            "cc_dataRoot c = (if root \<noteq> [] then Some root else None)"
            unfolding configure_def Let_def env1_def [symmetric] origin_def [symmetric] username_def [symmetric]
            by (auto simp: env2_def split: if_splits)
          show ?thesis
            by (rule that [of password env2]; cases "origin = []") (use parts port mport password auth env env2 in \<open>auto simp: username_def\<close>)
        qed
      qed
    qed
  qed
qed

text \<open>
  C30: a service that starts exposes its console only behind a password. When the configuration is
  accepted, the two ports are distinct and valid, the password has left the environment the compilers
  are started from, and a console that listens beyond the loopback interface has an authenticator of a
  password of at least 24 characters; the console created from it either answers loopback Hosts only or
  demands a session, and with a public origin it exists only with secure cookies.
\<close>

theorem startup_console:
  assumes "configure read scrypt made penv = Inr (c, env)"
  shows "cc_port c \<noteq> cc_managementPort c \<and> cc_port c \<in> {1..65535} \<and> cc_managementPort c \<in> {1..65535} \<and>
    env ''TYPR_COMPANION_MANAGEMENT_PASSWORD'' = None \<and>
    (isLoopbackHost (cc_managementHost c) \<or> cc_authenticator c \<noteq> None) \<and>
    (cc_authenticator c = None \<or> (\<exists>p. readAdministratorPassword read penv = Inr (Some p) \<and> 24 \<le> length p)) \<and>
    (case createManagementServer sha parse documents (cc_remote c) (cc_publicOrigin c) (nat (cc_port c)) mport (cc_authenticator c)
        access providers w activity of
       Inl e \<Rightarrow> cc_publicOrigin c \<noteq> None
     | Inr m \<Rightarrow> (mn_allowRemote m = (\<not> isLoopbackHost (cc_managementHost c))) \<and> (mn_allowRemote m \<longrightarrow> mn_auth m \<noteq> None) \<and>
         (cc_publicOrigin c \<noteq> None \<longrightarrow> (\<exists>a. mn_auth m = Some a \<and> ma_secureCookies a)))"
  using assms
proof (cases rule: configure_parts)
  case (1 password env2)
  note p = 1
  have ports: "cc_port c \<in> {1..65535}" "cc_managementPort c \<in> {1..65535}"
    using parsePort_range p(1,2) by fastforce+
  have auth: "cc_authenticator c = None \<longleftrightarrow> password = None"
    "cc_authenticator c = None \<or> (\<exists>p. readAdministratorPassword read penv = Inr (Some p) \<and> 24 \<le> length p)"
    "cc_authenticator c = None \<or> (\<exists>a. cc_authenticator c = Some a \<and> ma_secureCookies a = (cc_publicOrigin c \<noteq> None))"
    using p(4,8) create_auth_secure
    by (cases password; fastforce simp: console_authenticator_def split: sum.splits)+
  have "env ''TYPR_COMPANION_MANAGEMENT_PASSWORD'' = None" using managed_workspace_env [OF p(9)] p(10) by simp
  moreover have "case createManagementServer sha parse documents (cc_remote c) (cc_publicOrigin c) (nat (cc_port c)) mport
        (cc_authenticator c) access providers w activity of
       Inl e \<Rightarrow> cc_publicOrigin c \<noteq> None
     | Inr m \<Rightarrow> (mn_allowRemote m = (\<not> isLoopbackHost (cc_managementHost c))) \<and> (mn_allowRemote m \<longrightarrow> mn_auth m \<noteq> None) \<and>
         (cc_publicOrigin c \<noteq> None \<longrightarrow> (\<exists>a. mn_auth m = Some a \<and> ma_secureCookies a))"
    using p(5-7) auth(1,3) by (auto simp: createManagementServer_def Let_def split: option.split)
  ultimately show ?thesis using p(3,5,6) ports auth by auto
qed

definition demo_configuration :: companion_configuration where
  "demo_configuration =
     \<lparr>cc_port = 8484, cc_managementPort = 8485, cc_host = js ''127.0.0.1'', cc_managementHost = js ''127.0.0.1'',
      cc_publicOrigin = None, cc_authenticator = None, cc_remote = False, cc_dataRoot = None\<rparr>"

lemma demo_configuration:
  "configure (\<lambda>_. None) (\<lambda>_. None) True (\<lambda>_. None) = Inr (demo_configuration, (\<lambda>_. None)(''TYPR_COMPANION_MANAGEMENT_PASSWORD'' := None))"
proof -
  have "isLoopbackHost (js ''127.0.0.1'')" by (simp add: isLoopbackHost_def js_def ascii_lower_def is_upper_def)
  then show ?thesis
    by (simp add: configure_def parsePort_def readAdministratorPassword_def NativeProcess.trimmed_def nonempty_or_def
        console_authenticator_def managed_workspace_def parseOptionalFlag_def demo_configuration_def Let_def)
qed

theorem startup_console_witness:
  "case createManagementServer (\<lambda>b. b) (\<lambda>_. None) [] (cc_remote demo_configuration) (cc_publicOrigin demo_configuration)
      (nat (cc_port demo_configuration)) None (cc_authenticator demo_configuration) example_store None () example_bus of
     Inl e \<Rightarrow> cc_publicOrigin demo_configuration \<noteq> None
   | Inr m \<Rightarrow> mn_allowRemote m = (\<not> isLoopbackHost (cc_managementHost demo_configuration))"
  using startup_console [OF demo_configuration, of "\<lambda>b. b" "\<lambda>_. None" "[]" None example_store None "()" example_bus]
  by (auto split: sum.splits)

section \<open>The bundled TeX tree\<close>

record 'w tex_host =
  th_exists :: "jsstring \<Rightarrow> 'w \<Rightarrow> bool"
  th_mkdir :: "jsstring \<Rightarrow> 'w \<Rightarrow> jsstring + 'w"
  th_rm :: "jsstring \<Rightarrow> 'w \<Rightarrow> jsstring + 'w"
  th_cp :: "jsstring \<Rightarrow> jsstring \<Rightarrow> 'w \<Rightarrow> jsstring + 'w"
  th_rename :: "jsstring \<Rightarrow> jsstring \<Rightarrow> 'w \<Rightarrow> jsstring + 'w"
  th_cwd :: jsstring
  th_pid :: jsstring

text \<open>\<open>/^[0-9]{4}\.[0-9]{2}$/u\<close>\<close>

definition tex_version :: "jsstring \<Rightarrow> bool" where
  "tex_version v \<longleftrightarrow> length v = 7 \<and> list_all is_digit (take 4 v) \<and> v ! 4 = 46 \<and> list_all is_digit (drop 5 v)"

definition tex_bin :: "jsstring \<Rightarrow> jsstring" where
  "tex_bin root = posix_join [root, js ''bin'', js ''typr'']"

text \<open>The copy: into a staging directory, which is renamed into place and in any case removed.\<close>

definition seed_cache :: "'w tex_host \<Rightarrow> jsstring \<Rightarrow> jsstring \<Rightarrow> jsstring \<Rightarrow> jsstring \<Rightarrow> (unit, jsstring, 'w) act" where
  "seed_cache h seed cache root staging =
     and_then (attempt (th_mkdir h cache) id) (\<lambda>_.
     and_then (attempt (th_rm h staging) id) (\<lambda>_.
       finally_do
         (and_then (attempt (th_cp h seed staging) id) (\<lambda>_.
          and_then (attempt (th_rm h root) id) (\<lambda>_. attempt (th_rename h staging root) id)))
         (\<lambda>w. (Value (), case th_rm h staging w of Inl e \<Rightarrow> w | Inr w1 \<Rightarrow> w1))))"

text \<open>\<open>[bin, process.env.PATH ?? ""].filter(Boolean).join(delimiter)\<close>\<close>

definition bundled_environment :: "'w tex_host \<Rightarrow> jsstring \<Rightarrow> process_env \<Rightarrow> 'w \<Rightarrow> process_env" where
  "bundled_environment h root penv w =
     (let bin = tex_bin root;
          path = (case penv ''PATH'' of Some p \<Rightarrow> p | None \<Rightarrow> []);
          env1 = penv(''TYPR_COMPANION_TEX_ROOT'' := Some root,
                      ''TYPR_COMPANION_NATIVE_PATH'' := Some (join_with [58] (filter (\<lambda>p. p \<noteq> []) [bin, path])),
                      ''TYPR_COMPANION_PDFLATEX_EXECUTABLE'' := Some (posix_join [bin, js ''pdflatex'']));
          latexmk = posix_join [bin, js ''latexmk''];
          tlmgr = posix_join [bin, js ''tlmgr''];
          env2 = (if th_exists h latexmk w then env1(''TYPR_COMPANION_LATEXMK_EXECUTABLE'' := Some latexmk) else env1)
      in if th_exists h tlmgr w then env2(''TYPR_COMPANION_TLMGR_EXECUTABLE'' := Some tlmgr) else env2)"

definition bundled_root :: "'w tex_host \<Rightarrow> process_env \<Rightarrow> jsstring" where
  "bundled_root h penv =
     posix_join [posix_resolve (th_cwd h) [NativeProcess.trimmed (penv ''TYPR_COMPANION_BUNDLED_TEX_CACHE'')],
                 NativeProcess.trimmed (penv ''TYPR_COMPANION_BUNDLED_TEX_VERSION'')]"

text \<open>The tree is copied unless its pdflatex is there.\<close>

definition bundled_seed :: "'w tex_host \<Rightarrow> process_env \<Rightarrow> (unit, jsstring, 'w) act" where
  "bundled_seed h penv w =
     (let version = NativeProcess.trimmed (penv ''TYPR_COMPANION_BUNDLED_TEX_VERSION'');
          cache = posix_resolve (th_cwd h) [NativeProcess.trimmed (penv ''TYPR_COMPANION_BUNDLED_TEX_CACHE'')];
          seed = posix_resolve (th_cwd h) [NativeProcess.trimmed (penv ''TYPR_COMPANION_BUNDLED_TEX_SEED'')]
      in if th_exists h (posix_join [tex_bin (bundled_root h penv), js ''pdflatex'']) w then (Value (), w)
         else seed_cache h seed cache (bundled_root h penv)
                (posix_join [cache, js ''.install-'' @ version @ js ''-'' @ th_pid h]) w)"

definition prepareBundledTexRuntime :: "'w tex_host \<Rightarrow> process_env \<Rightarrow> (process_env, jsstring, 'w) act" where
  "prepareBundledTexRuntime h penv =
     (let seedValue = NativeProcess.trimmed (penv ''TYPR_COMPANION_BUNDLED_TEX_SEED'');
          cacheValue = NativeProcess.trimmed (penv ''TYPR_COMPANION_BUNDLED_TEX_CACHE'');
          version = NativeProcess.trimmed (penv ''TYPR_COMPANION_BUNDLED_TEX_VERSION'')
      in if seedValue = [] \<and> cacheValue = [] \<and> version = [] then give penv
         else if seedValue = [] \<or> cacheValue = [] \<or> version = []
         then raise (js ''Bundled TeX requires TYPR_COMPANION_BUNDLED_TEX_SEED, _CACHE, and _VERSION together.'')
         else if \<not> posix_isAbsolute seedValue \<or> \<not> posix_isAbsolute cacheValue \<or> \<not> tex_version version
         then raise (js ''Bundled TeX seed/cache paths must be absolute and its version must use YYYY.MM.'')
         else and_then (bundled_seed h penv) (\<lambda>_ w.
                if \<not> th_exists h (posix_join [tex_bin (bundled_root h penv), js ''pdflatex'']) w
                then (Throw (js ''The bundled TeX Live cache does not contain pdflatex.''), w)
                else (Value (bundled_environment h (bundled_root h penv) penv w), w)))"

definition BUNDLED_KEYS :: "string list" where
  "BUNDLED_KEYS =
     [''TYPR_COMPANION_TEX_ROOT'', ''TYPR_COMPANION_NATIVE_PATH'', ''TYPR_COMPANION_PDFLATEX_EXECUTABLE'',
      ''TYPR_COMPANION_LATEXMK_EXECUTABLE'', ''TYPR_COMPANION_TLMGR_EXECUTABLE'']"

lemma bundled_environment_keys: "k \<notin> set BUNDLED_KEYS \<Longrightarrow> bundled_environment h root penv w k = penv k"
  by (simp add: bundled_environment_def BUNDLED_KEYS_def Let_def)

lemma seed_cache_settles: "settles (seed_cache h seed cache root staging)"
proof -
  have tries: "settles (attempt op err)" for op :: "'w \<Rightarrow> jsstring + 'w" and err :: "jsstring \<Rightarrow> jsstring"
    by (simp add: settles_def attempt_def split: sum.split)
  have last: "settles (\<lambda>w. (Value (), case th_rm h staging w of Inl e \<Rightarrow> w | Inr w1 \<Rightarrow> w1))" by (simp add: settles_def)
  show ?thesis unfolding seed_cache_def by (intro act_intros tries last)
qed

text \<open>
  The bundled TeX tree is prepared or the start fails. The preparation always ends; when it returns
  an environment, that differs from the one before at most in the five variables of the TeX tree, and
  unless nothing was configured its pdflatex exists in the file system left behind; and where the
  cache already has it, the file system is left as it was.
\<close>

theorem bundled_tex_runtime:
  "case prepareBundledTexRuntime h penv w of
     (Value env, w') \<Rightarrow>
       (\<forall>k. k \<in> set BUNDLED_KEYS \<or> env k = penv k) \<and>
       (env = penv \<and> w' = w \<or>
        (let p = posix_join [tex_bin (bundled_root h penv), js ''pdflatex'']
         in env ''TYPR_COMPANION_PDFLATEX_EXECUTABLE'' = Some p \<and> th_exists h p w' \<and>
            (if th_exists h p w then w' = w else True)))
   | (Throw e, w') \<Rightarrow> True
   | (Unsettled, w') \<Rightarrow> False"
proof -
  define p where "p = posix_join [tex_bin (bundled_root h penv), js ''pdflatex'']"
  have pdflatex: "bundled_environment h (bundled_root h penv) penv w1 ''TYPR_COMPANION_PDFLATEX_EXECUTABLE'' = Some p" for w1
    by (simp add: bundled_environment_def Let_def p_def)
  have keys: "k \<in> set BUNDLED_KEYS \<or> bundled_environment h (bundled_root h penv) penv w1 k = penv k" for k w1
    using bundled_environment_keys by metis
  have ends: "fst (seed_cache h seed cache root staging w) \<noteq> Unsettled" for seed cache root staging
    using seed_cache_settles [of h seed cache root staging] by (simp add: settles_def)
  have seeded: "fst (bundled_seed h penv w) \<noteq> Unsettled" "th_exists h p w \<Longrightarrow> bundled_seed h penv w = (Value (), w)"
    using ends unfolding bundled_seed_def p_def by (simp_all add: Let_def)
  obtain r w1 where s: "bundled_seed h penv w = (r, w1)" by (cases "bundled_seed h penv w")
  have main: "case and_then (bundled_seed h penv) (\<lambda>_ w.
        if \<not> th_exists h p w then (Throw (js ''The bundled TeX Live cache does not contain pdflatex.''), w)
        else (Value (bundled_environment h (bundled_root h penv) penv w), w)) w of
       (Value env, w') \<Rightarrow>
         (\<forall>k. k \<in> set BUNDLED_KEYS \<or> env k = penv k) \<and> env ''TYPR_COMPANION_PDFLATEX_EXECUTABLE'' = Some p \<and>
         th_exists h p w' \<and> (if th_exists h p w then w' = w else True)
     | (Throw e, w') \<Rightarrow> True | (Unsettled, w') \<Rightarrow> False"
    using seeded s keys pdflatex by (cases r) (auto simp: and_then_def)
  show ?thesis
    unfolding prepareBundledTexRuntime_def Let_def p_def [symmetric]
    using main by (auto simp: give_def raise_def split: outcome.splits prod.splits)
qed

end
