(* ===== verification/ServerActivity.thy ===== *)
theory ServerActivity
  imports ServerHttp Activity ServiceCatalog
begin

text \<open>
  \<^verbatim>\<open>typr-server/server.ts\<close>, what surrounds the handlers of \<open>ServerHttp\<close>: the trace and the two events of
  every request, the events of compilations and live sessions, the counts the management console shows,
  and the shutdown. The identifiers and the times are parameters. The only subscribers of the activity
  log are the console's event streams, which do not throw.
\<close>

section \<open>Traces\<close>

datatype meta_value = MetaNum int | MetaStr jsstring | MetaBool bool

type_synonym api_note = "(string \<times> meta_value) list ActivityInput"
type_synonym api_bus = "((string \<times> meta_value) list, nat) ActivityBus"

record RequestTrace =
  tr_id :: jsstring
  tr_serviceId :: jsstring
  tr_startedAt :: int
  tr_userId :: "jsstring option"

text \<open>
  A request with what its listeners close over: its response's status once it is answered, the slot of
  its compilation while one runs, and whether \<open>once("finish")\<close> and \<open>once("close")\<close> are still registered.
\<close>

record traced =
  td_trace :: RequestTrace
  td_name :: jsstring
  td_status :: "nat option"
  td_compile :: "(nat \<times> CompileRequest \<times> (string \<times> jsstring) list) option"
  td_finish :: bool
  td_close :: bool

record api =
  ap_server :: server
  ap_requests :: "jsstring list"
  ap_traced :: "(jsstring \<times> traced) list"
  ap_sockets :: "nat list"
  ap_bus :: "api_bus option"

definition new_api :: "server \<Rightarrow> api_bus option \<Rightarrow> api" where
  "new_api srv bus = \<lparr>ap_server = srv, ap_requests = [], ap_traced = [], ap_sockets = [], ap_bus = bus\<rparr>"

text \<open>The options of \<open>createTyprServer\<close>; \<open>origins\<close> is the environment's list of origins.\<close>

record TyprServerOptions =
  so_serverVersion :: "jsstring option"
  so_allowedOrigins :: "jsstring list option"
  so_workspace :: "store option"
  so_files :: entries
  so_access :: "access_store option"
  so_activity :: "api_bus option"

definition DEFAULT_SERVER_VERSION :: jsstring where
  "DEFAULT_SERVER_VERSION = js ''0.1.3-dev''"

definition createTyprServer :: "jsstring option \<Rightarrow> TyprServerOptions \<Rightarrow> api" where
  "createTyprServer origins opts =
     new_api
       \<lparr>sv_allowedOrigins = (case so_allowedOrigins opts of Some os \<Rightarrow> os | None \<Rightarrow> getAllowedOriginsFromEnvironment origins),
        sv_version = (case so_serverVersion opts of Some v \<Rightarrow> v | None \<Rightarrow> DEFAULT_SERVER_VERSION),
        sv_workspace = so_workspace opts, sv_files = so_files opts, sv_access = so_access opts,
        sv_compilations = [], sv_liveSessions = [], sv_next = 0\<rparr>
       (so_activity opts)"

definition start_trace :: "jsstring \<Rightarrow> int \<Rightarrow> jsstring \<Rightarrow> RequestTrace" where
  "start_trace i startedAt pathname =
     \<lparr>tr_id = i, tr_serviceId = js (serviceIdForPath pathname), tr_startedAt = startedAt, tr_userId = None\<rparr>"

text \<open>\<open>trace.userId = access.principal?.userId\<close>, reached by the requests that pass the check of the key.\<close>

definition request_user :: "env \<Rightarrow> surroundings \<Rightarrow> http_request \<Rightarrow> jsstring \<Rightarrow> server \<Rightarrow> jsstring option" where
  "request_user e su rq pathname srv =
     (if isWorkspaceRoute pathname \<and> origin_given rq \<and> \<not> origin_allowed (sv_allowedOrigins srv) rq then None
      else if rq_method rq = js ''OPTIONS'' then None
      else case (sv_access srv, snd (access_check (env_sha e) su (request_authorization rq) srv)) of
        (Some st, None) \<Rightarrow>
          (case snd (authorize (env_sha e) (su_timestamp su) (su_minute_old su) (request_authorization rq) st) of
             Authorized (Some p) \<Rightarrow> Some (prin_userId p)
           | _ \<Rightarrow> None)
      | _ \<Rightarrow> None)"

section \<open>Events\<close>

definition started_note :: "RequestTrace \<Rightarrow> jsstring \<Rightarrow> api_note" where
  "started_note t name =
     \<lparr>in_timestamp = None, in_serviceId = tr_serviceId t, in_level = LevelInfo, in_type = js ''request-started'',
      in_message = name @ js '' started.'', in_userId = None, in_requestId = Some (tr_id t), in_durationMs = None,
      in_details = None, in_metadata = None\<rparr>"

text \<open>A user identifier that is the empty string is left out, as every falsy one; the stores make none.\<close>

definition completed_note :: "traced \<Rightarrow> nat \<Rightarrow> int \<Rightarrow> api_note" where
  "completed_note td status elapsed =
     \<lparr>in_timestamp = None, in_serviceId = tr_serviceId (td_trace td),
      in_level = (if status \<ge> 500 then LevelError else if status \<ge> 400 then LevelWarning else LevelInfo),
      in_type = js ''request-completed'',
      in_message = td_name td @ js '' completed with '' @ nat_dec status @ js ''.'',
      in_userId = (if tr_userId (td_trace td) = Some [] then None else tr_userId (td_trace td)),
      in_requestId = Some (tr_id (td_trace td)), in_durationMs = Some elapsed, in_details = None,
      in_metadata = Some [(''status'', MetaNum (int status))]\<rparr>"

definition compile_note :: "traced \<Rightarrow> CompileRequest \<Rightarrow> CompileResult \<Rightarrow> api_note" where
  "compile_note td r result =
     \<lparr>in_timestamp = None, in_serviceId = js ''latex'', in_level = (if compile_ok result then LevelInfo else LevelError),
      in_type = js (if compile_ok result then ''compile-succeeded'' else ''compile-failed''),
      in_message = req_engine r @ js '' '' @ js (if compile_ok result then ''produced a PDF'' else ''failed'') @ js '' in '' @
        int_dec (res_durationMs result) @ js '' ms.'',
      in_userId = (if tr_userId (td_trace td) = Some [] then None else tr_userId (td_trace td)),
      in_requestId = Some (tr_id (td_trace td)), in_durationMs = Some (res_durationMs result),
      in_details = (if res_log result = [] then None else Some (res_log result)),
      in_metadata = Some [(''engine'', MetaStr (req_engine r)), (''files'', MetaNum (int (length (req_files r)))),
        (''ok'', MetaBool (compile_ok result))]\<rparr>"

definition session_note :: "string \<Rightarrow> string \<Rightarrow> api_note" where
  "session_note kind message =
     \<lparr>in_timestamp = None, in_serviceId = js ''live-preview'', in_level = LevelInfo, in_type = js kind, in_message = js message,
      in_userId = None, in_requestId = None, in_durationMs = None, in_details = None, in_metadata = None\<rparr>"

section \<open>Steps\<close>

text \<open>
  Each step returns the events it publishes, with their times. \<open>handleRequest\<close> answers a request or leaves
  its compilation running.
\<close>

definition request_arrives ::
  "(bytes \<Rightarrow> json option) \<Rightarrow> env \<Rightarrow> surroundings \<Rightarrow> jsstring \<Rightarrow> int \<Rightarrow> jsstring \<Rightarrow> http_request \<Rightarrow> api \<Rightarrow>
   api \<times> (jsstring \<times> api_note) list"
where
  "request_arrives parse e su i startedAt now rq ap =
     (case rq_url rq of
        None \<Rightarrow> (ap, [])
      | Some (pathname, paths) \<Rightarrow>
          (let t = start_trace i startedAt pathname;
               name = rq_method rq @ js '' '' @ pathname
           in case handleRequest parse e su rq pathname paths (ap_server ap) of
                (srv, h) \<Rightarrow>
                  (ap\<lparr>ap_server := srv,
                      ap_requests := (if i \<in> set (ap_requests ap) then ap_requests ap else ap_requests ap @ [i]),
                      ap_traced := ap_traced ap @
                        [(i, \<lparr>td_trace = t\<lparr>tr_userId := request_user e su rq pathname (ap_server ap)\<rparr>, td_name = name,
                              td_status = (case h of Responded r \<Rightarrow> Some (rs_status r) | _ \<Rightarrow> None),
                              td_compile = (case h of Compiling slot r hs \<Rightarrow> Some (slot, r, hs) | _ \<Rightarrow> None),
                              td_finish = True, td_close = True\<rparr>)]\<rparr>,
                   [(now, started_note t name)])))"

definition request_compiled ::
  "jsstring \<Rightarrow> jsstring \<Rightarrow> CompileResult option \<Rightarrow> api \<Rightarrow> api \<times> (jsstring \<times> api_note) list"
where
  "request_compiled i now result ap =
     (case map_of (ap_traced ap) i of
        None \<Rightarrow> (ap, [])
      | Some td \<Rightarrow>
          (case td_compile td of
             None \<Rightarrow> (ap, [])
           | Some (slot, r, hs) \<Rightarrow>
               (case compile_finished slot hs result (ap_server ap) of
                  (srv, answer) \<Rightarrow>
                    (ap\<lparr>ap_server := srv,
                        ap_traced := AList.update i (td\<lparr>td_status := Some (rs_status answer), td_compile := None\<rparr>) (ap_traced ap)\<rparr>,
                     case result of None \<Rightarrow> [] | Some v \<Rightarrow> [(now, compile_note td r v)]))))"

definition request_finishes :: "jsstring \<Rightarrow> jsstring \<Rightarrow> int \<Rightarrow> api \<Rightarrow> api \<times> (jsstring \<times> api_note) list" where
  "request_finishes i now elapsed ap =
     (case map_of (ap_traced ap) i of
        None \<Rightarrow> (ap, [])
      | Some td \<Rightarrow>
          (case td_status td of
             None \<Rightarrow> (ap, [])
           | Some status \<Rightarrow>
               if \<not> td_finish td then (ap, [])
               else (ap\<lparr>ap_requests := removeAll i (ap_requests ap),
                        ap_traced := AList.update i (td\<lparr>td_finish := False\<rparr>) (ap_traced ap)\<rparr>,
                     [(now, completed_note td status elapsed)])))"

definition request_closes :: "jsstring \<Rightarrow> api \<Rightarrow> api" where
  "request_closes i ap =
     (case map_of (ap_traced ap) i of
        None \<Rightarrow> ap
      | Some td \<Rightarrow>
          if \<not> td_close td then ap
          else ap\<lparr>ap_requests := removeAll i (ap_requests ap),
                  ap_traced := AList.update i (td\<lparr>td_close := False\<rparr>) (ap_traced ap)\<rparr>)"

definition upgrade_arrives ::
  "(bytes \<Rightarrow> bytes) \<Rightarrow> surroundings \<Rightarrow> jsstring \<Rightarrow> http_request \<Rightarrow> api \<Rightarrow> api \<times> (jsstring \<times> api_note) list"
where
  "upgrade_arrives sha su now rq ap =
     (case handleUpgrade sha su rq (ap_server ap) of
        (srv, UpgradeRejected status) \<Rightarrow> (ap\<lparr>ap_server := srv\<rparr>, [])
      | (srv, UpgradeAccepted i) \<Rightarrow>
          (ap\<lparr>ap_server := srv, ap_sockets := ap_sockets ap @ [i]\<rparr>,
           [(now, session_note ''session-opened'' ''A live-preview session connected.'')]))"

definition socket_closes :: "nat \<Rightarrow> jsstring \<Rightarrow> api \<Rightarrow> api \<times> (jsstring \<times> api_note) list" where
  "socket_closes i now ap =
     (if i \<notin> set (ap_sockets ap) then (ap, [])
      else (ap\<lparr>ap_sockets := removeAll i (ap_sockets ap)\<rparr>,
            [(now, session_note ''session-closed'' ''A live-preview session disconnected.'')]))"

datatype api_event =
    RequestStarts surroundings jsstring int jsstring http_request
  | RequestCompiled jsstring jsstring "CompileResult option"
  | RequestFinishes jsstring jsstring int
  | RequestCloses jsstring
  | SocketOpens surroundings jsstring http_request
  | SocketCloses nat jsstring
  | SessionCloses nat
  | AccessWritten bool

fun api_act :: "(bytes \<Rightarrow> json option) \<Rightarrow> env \<Rightarrow> api_event \<Rightarrow> api \<Rightarrow> api \<times> (jsstring \<times> api_note) list" where
  "api_act parse e (RequestStarts su i startedAt now rq) ap = request_arrives parse e su i startedAt now rq ap"
| "api_act parse e (RequestCompiled i now result) ap = request_compiled i now result ap"
| "api_act parse e (RequestFinishes i now elapsed) ap = request_finishes i now elapsed ap"
| "api_act parse e (RequestCloses i) ap = (request_closes i ap, [])"
| "api_act parse e (SocketOpens su now rq) ap = upgrade_arrives (env_sha e) su now rq ap"
| "api_act parse e (SocketCloses i now) ap = socket_closes i now ap"
| "api_act parse e (SessionCloses i) ap = (ap\<lparr>ap_server := live_closed i (ap_server ap)\<rparr>, [])"
| "api_act parse e (AccessWritten ok) ap = (ap\<lparr>ap_server := server_step parse e (WriteSettles ok) (ap_server ap)\<rparr>, [])"

text \<open>A step with its publications: \<open>context.activity?.publish\<close>.\<close>

definition api_step :: "(bytes \<Rightarrow> json option) \<Rightarrow> env \<Rightarrow> api_event \<Rightarrow> api \<Rightarrow> api \<times> (jsstring \<times> api_note) list" where
  "api_step parse e ev ap =
     (case api_act parse e ev ap of
        (ap1, pubs) \<Rightarrow> (ap1\<lparr>ap_bus := map_option (publish_all (\<lambda>_. False) pubs) (ap_bus ap1)\<rparr>, pubs))"

fun api_run ::
  "(bytes \<Rightarrow> json option) \<Rightarrow> env \<Rightarrow> api_event list \<Rightarrow> api \<Rightarrow> api \<times> (jsstring \<times> api_note) list"
where
  "api_run parse e [] ap = (ap, [])"
| "api_run parse e (ev # evs) ap =
     (case api_step parse e ev ap of (ap1, pubs) \<Rightarrow>
        (case api_run parse e evs ap1 of (ap2, later) \<Rightarrow> (ap2, pubs @ later)))"

section \<open>The runtime snapshot\<close>

definition getCompanionRuntimeSnapshot :: "api option \<Rightarrow> string + CompanionRuntimeSnapshot" where
  "getCompanionRuntimeSnapshot context =
     (case context of
        None \<Rightarrow> Inl ''Server is not a Typr Companion server.''
      | Some ap \<Rightarrow>
          Inr \<lparr>rt_serverVersion = sv_version (ap_server ap), rt_activeRequests = length (ap_requests ap),
               rt_activeCompilations = length (sv_compilations (ap_server ap)),
               rt_activeLiveSessions = length (sv_liveSessions (ap_server ap)),
               rt_workspace = map_option store_id (sv_workspace (ap_server ap))\<rparr>)"

text \<open>The promise of the probe the module keeps, as the result it settles with.\<close>

definition hostHasPdflatex :: "bool \<Rightarrow> bool option \<Rightarrow> bool option \<times> bool" where
  "hostHasPdflatex available cached = (case cached of Some b \<Rightarrow> (cached, b) | None \<Rightarrow> (Some available, available))"

definition resetPdflatexAvailability :: "bool option \<Rightarrow> bool option" where
  "resetPdflatexAvailability cached = None"

section \<open>The history of a request\<close>

definition request_history :: "jsstring \<Rightarrow> (jsstring \<times> api_note) list \<Rightarrow> jsstring list" where
  "request_history i log = map (\<lambda>n. in_type (snd n)) (filter (\<lambda>n. in_requestId (snd n) = Some i) log)"

definition compile_types :: "jsstring set" where
  "compile_types = {js ''compile-succeeded'', js ''compile-failed''}"

definition history_fits :: "traced \<Rightarrow> jsstring list \<Rightarrow> bool" where
  "history_fits td hist \<longleftrightarrow>
     (\<exists>c. (c = [] \<or> td_compile td = None \<and> td_status td \<noteq> None \<and> (\<exists>k\<in>compile_types. c = [k])) \<and>
        hist = js ''request-started'' # c @ (if td_finish td then [] else [js ''request-completed''])) \<and>
     (td_compile td = None \<or> td_status td = None) \<and> (td_finish td \<or> td_status td \<noteq> None)"

text \<open>What holds of a request after the events \<open>seen\<close> and the publications \<open>log\<close>.\<close>

definition tracked :: "api_event set \<Rightarrow> (jsstring \<times> api_note) list \<Rightarrow> api \<Rightarrow> jsstring \<Rightarrow> bool" where
  "tracked seen log ap i \<longleftrightarrow>
     (case map_of (ap_traced ap) i of
        None \<Rightarrow> request_history i log = [] \<and> i \<notin> set (ap_requests ap)
      | Some td \<Rightarrow>
          tr_id (td_trace td) = i \<and> history_fits td (request_history i log) \<and>
          (i \<in> set (ap_requests ap) \<longleftrightarrow> td_finish td \<and> td_close td) \<and> (td_close td \<or> RequestCloses i \<in> seen))"

definition api_ok :: "api_event set \<Rightarrow> (jsstring \<times> api_note) list \<Rightarrow> api \<Rightarrow> bool" where
  "api_ok seen log ap \<longleftrightarrow> (\<forall>i. tracked seen log ap i) \<and> distinct (ap_requests ap) \<and> slots_ok (ap_server ap)"

lemma request_history_append [simp]: "request_history i (log @ log') = request_history i log @ request_history i log'"
  by (simp add: request_history_def)

lemma request_history_notes [simp]:
  "request_history i [] = []"
  "request_history i [(now, started_note t name)] = (if tr_id t = i then [js ''request-started''] else [])"
  "request_history i [(now, completed_note td status elapsed)] = (if tr_id (td_trace td) = i then [js ''request-completed''] else [])"
  "request_history i [(now, session_note kind message)] = []"
  by (simp_all add: request_history_def started_note_def completed_note_def session_note_def)

lemma request_history_compile:
  "request_history i [(now, compile_note td r v)] =
     (if tr_id (td_trace td) = i then [js (if compile_ok v then ''compile-succeeded'' else ''compile-failed'')] else [])"
  by (simp add: request_history_def compile_note_def)

lemma tracked_cong:
  "tracked seen log ap i \<Longrightarrow> request_history i log' = request_history i log \<Longrightarrow>
   map_of (ap_traced ap') i = map_of (ap_traced ap) i \<Longrightarrow> i \<in> set (ap_requests ap') \<longleftrightarrow> i \<in> set (ap_requests ap) \<Longrightarrow>
   seen \<subseteq> seen' \<Longrightarrow> tracked seen' log' ap' i"
  by (auto simp: tracked_def split: option.splits)

lemma api_ok_traced:
  "api_ok seen log ap \<Longrightarrow> map_of (ap_traced ap) i = Some td \<Longrightarrow>
   tr_id (td_trace td) = i \<and> history_fits td (request_history i log) \<and>
   (i \<in> set (ap_requests ap) \<longleftrightarrow> td_finish td \<and> td_close td) \<and> (td_close td \<or> RequestCloses i \<in> seen)"
  unfolding api_ok_def tracked_def by (drule conjunct1, drule spec [of _ i]) simp

lemma api_ok_untraced:
  "api_ok seen log ap \<Longrightarrow> map_of (ap_traced ap) i = None \<Longrightarrow> request_history i log = [] \<and> i \<notin> set (ap_requests ap)"
  unfolding api_ok_def tracked_def by (drule conjunct1, drule spec [of _ i]) simp

text \<open>An invariant step: the one request it is about, and the rest.\<close>

lemma api_okI:
  assumes "api_ok seen log ap" "seen \<subseteq> seen'" "distinct (ap_requests ap')" "slots_ok (ap_server ap')"
    "\<And>j. j \<noteq> i \<Longrightarrow> request_history j pubs = [] \<and> map_of (ap_traced ap') j = map_of (ap_traced ap) j \<and>
       (j \<in> set (ap_requests ap') \<longleftrightarrow> j \<in> set (ap_requests ap))"
    "tracked seen' (log @ pubs) ap' i"
  shows "api_ok seen' (log @ pubs) ap'"
  unfolding api_ok_def
proof (intro conjI allI)
  show "tracked seen' (log @ pubs) ap' j" for j
  proof (cases "j = i")
    case False
    have "tracked seen log ap j" using assms(1) by (simp add: api_ok_def)
    then show ?thesis by (rule tracked_cong) (use assms(2,5) False in auto)
  qed (use assms(6) in simp)
qed (fact assms(3), fact assms(4))

lemma api_ok_quiet:
  assumes "api_ok seen log ap" "seen \<subseteq> seen'" "slots_ok (ap_server ap')" "ap_requests ap' = ap_requests ap"
    "ap_traced ap' = ap_traced ap" "\<And>j. request_history j pubs = []"
  shows "api_ok seen' (log @ pubs) ap'"
  unfolding api_ok_def
proof (intro conjI allI)
  show "tracked seen' (log @ pubs) ap' j" for j
  proof (rule tracked_cong)
    show "tracked seen log ap j" using assms(1) by (simp add: api_ok_def)
  qed (use assms(2,4,5,6) in simp_all)
  show "distinct (ap_requests ap')" using assms(1,4) by (simp add: api_ok_def)
qed (rule assms(3))

lemma map_of_update: "map_of (AList.update i v xs) j = (if j = i then Some v else map_of xs j)"
  by (simp add: update_conv')

lemma arrives_ok:
  assumes "api_ok seen log ap" "map_of (ap_traced ap) i = None" "request_arrives parse e su i startedAt now rq ap = (ap', pubs)"
    "seen \<subseteq> seen'"
  shows "api_ok seen' (log @ pubs) ap'"
proof (cases "rq_url rq")
  case None
  with assms api_ok_quiet [of seen log ap seen' ap "[]"] show ?thesis
    by (auto simp: request_arrives_def api_ok_def)
next
  case (Some u)
  obtain pathname paths where u: "u = (pathname, paths)" by (cases u)
  obtain srv h where h: "handleRequest parse e su rq pathname paths (ap_server ap) = (srv, h)"
    by (cases "handleRequest parse e su rq pathname paths (ap_server ap)")
  have fresh: "request_history i log = []" "i \<notin> set (ap_requests ap)"
    using api_ok_untraced [OF assms(1,2)] by auto
  have "fst (request_listener parse e su rq (ap_server ap)) = srv" using Some u h by (simp add: request_listener_def)
  with slots_request [of "ap_server ap"] assms(1) have slots: "slots_ok srv" by (auto simp: api_ok_def)
  define t where "t = start_trace i startedAt pathname"
  define td where "td = \<lparr>td_trace = t\<lparr>tr_userId := request_user e su rq pathname (ap_server ap)\<rparr>,
    td_name = rq_method rq @ js '' '' @ pathname, td_status = (case h of Responded r \<Rightarrow> Some (rs_status r) | _ \<Rightarrow> None),
    td_compile = (case h of Compiling slot r hs \<Rightarrow> Some (slot, r, hs) | _ \<Rightarrow> None), td_finish = True, td_close = True\<rparr>"
  have td: "tr_id (td_trace td) = i" "td_finish td" "td_close td" "td_compile td = None \<or> td_status td = None" and t: "tr_id t = i"
    by (cases h; simp add: td_def t_def start_trace_def)+
  have ap': "ap_server ap' = srv" "ap_requests ap' = ap_requests ap @ [i]" "ap_traced ap' = ap_traced ap @ [(i, td)]"
    and pubs: "pubs = [(now, started_note t (rq_method rq @ js '' '' @ pathname))]"
    using assms(3) Some u h fresh by (auto simp: request_arrives_def Let_def td_def t_def)
  show ?thesis
  proof (rule api_okI [OF assms(1,4), where i = i])
    show "distinct (ap_requests ap')" using assms(1) fresh ap'(2) by (simp add: api_ok_def)
    show "tracked seen' (log @ pubs) ap' i"
      using td t fresh assms(2) ap'(2,3) by (simp add: tracked_def history_fits_def map_add_def pubs)
  qed (use td t ap' slots in \<open>auto simp: pubs map_add_def split: option.split\<close>)
qed

lemma compiled_ok:
  assumes "api_ok seen log ap" "request_compiled i now result ap = (ap', pubs)" "seen \<subseteq> seen'"
  shows "api_ok seen' (log @ pubs) ap'"
proof (cases "\<exists>td slot r hs. map_of (ap_traced ap) i = Some td \<and> td_compile td = Some (slot, r, hs)")
  case False
  then have "ap' = ap" "pubs = []" using assms(2) by (auto simp: request_compiled_def split: option.splits prod.splits)
  with assms api_ok_quiet [of seen log ap seen' ap "[]"] show ?thesis by (auto simp: api_ok_def)
next
  case True
  then obtain td slot r hs where td: "map_of (ap_traced ap) i = Some td" "td_compile td = Some (slot, r, hs)" by blast
  obtain srv answer where c: "compile_finished slot hs result (ap_server ap) = (srv, answer)"
    by (cases "compile_finished slot hs result (ap_server ap)")
  define td' where "td' = td\<lparr>td_status := Some (rs_status answer), td_compile := None\<rparr>"
  have ap': "ap' = ap\<lparr>ap_server := srv, ap_traced := AList.update i td' (ap_traced ap)\<rparr>"
    and pubs: "pubs = (case result of None \<Rightarrow> [] | Some v \<Rightarrow> [(now, compile_note td r v)])"
    using assms(2) td c by (simp_all add: request_compiled_def td'_def)
  note old = api_ok_traced [OF assms(1) td(1)]
  then have hist: "request_history i log = [js ''request-started'']" "td_finish td"
    using td(2) by (auto simp: history_fits_def)
  have "slots_ok srv" using c slots_remove(1) [of "ap_server ap" slot] assms(1)
    by (auto simp: compile_finished_def api_ok_def)
  moreover have "tracked seen' (log @ pubs) ap' i"
    using old hist assms(3)
    by (auto simp: tracked_def ap' map_of_update td'_def pubs history_fits_def request_history_compile compile_types_def
        split: option.split)
  ultimately show ?thesis
    using assms(1) old
    by (intro api_okI [OF assms(1,3), where i = i])
      (auto simp: ap' pubs map_of_update request_history_compile api_ok_def split: option.split)
qed

lemma finishes_ok:
  assumes "api_ok seen log ap" "request_finishes i now elapsed ap = (ap', pubs)" "seen \<subseteq> seen'"
  shows "api_ok seen' (log @ pubs) ap'"
proof (cases "\<exists>td status. map_of (ap_traced ap) i = Some td \<and> td_status td = Some status \<and> td_finish td")
  case False
  then have "ap' = ap" "pubs = []" using assms(2) by (auto simp: request_finishes_def split: option.splits if_splits)
  with assms api_ok_quiet [of seen log ap seen' ap "[]"] show ?thesis by (auto simp: api_ok_def)
next
  case True
  then obtain td status where td: "map_of (ap_traced ap) i = Some td" "td_status td = Some status" "td_finish td" by blast
  then have ap': "ap' = ap\<lparr>ap_requests := removeAll i (ap_requests ap), ap_traced := AList.update i (td\<lparr>td_finish := False\<rparr>) (ap_traced ap)\<rparr>"
    and pubs: "pubs = [(now, completed_note td status elapsed)]"
    using assms(2) by (simp_all add: request_finishes_def)
  note old = api_ok_traced [OF assms(1) td(1)]
  have "tracked seen' (log @ pubs) ap' i"
    using old td assms(3) by (auto simp: tracked_def ap' pubs map_of_update history_fits_def)
  with old show ?thesis
    using assms(1)
    by (intro api_okI [OF assms(1,3), where i = i]) (auto simp: ap' pubs map_of_update api_ok_def distinct_removeAll)
qed

lemma closes_ok:
  assumes "api_ok seen log ap" "seen \<subseteq> seen'" "RequestCloses i \<in> seen'"
  shows "api_ok seen' (log @ []) (request_closes i ap)"
proof (cases "\<exists>td. map_of (ap_traced ap) i = Some td \<and> td_close td")
  case False
  then have "request_closes i ap = ap" by (auto simp: request_closes_def split: option.splits)
  with assms api_ok_quiet [of seen log ap seen' ap "[]"] show ?thesis by (auto simp: api_ok_def)
next
  case True
  then obtain td where td: "map_of (ap_traced ap) i = Some td" "td_close td" by blast
  then have ap': "request_closes i ap = ap\<lparr>ap_requests := removeAll i (ap_requests ap),
      ap_traced := AList.update i (td\<lparr>td_close := False\<rparr>) (ap_traced ap)\<rparr>"
    by (simp add: request_closes_def)
  note old = api_ok_traced [OF assms(1) td(1)]
  have "tracked seen' (log @ []) (request_closes i ap) i"
    using old td assms(2,3) by (auto simp: tracked_def ap' map_of_update history_fits_def)
  with old show ?thesis
    using assms(1)
    by (intro api_okI [OF assms(1,2), where i = i]) (auto simp: ap' map_of_update api_ok_def distinct_removeAll)
qed

lemma act_ok:
  assumes "api_ok seen log ap" "api_act parse e ev ap = (ap', pubs)"
    "\<And>su i startedAt now rq. ev = RequestStarts su i startedAt now rq \<Longrightarrow> map_of (ap_traced ap) i = None"
  shows "api_ok (insert ev seen) (log @ pubs) ap'"
proof -
  have sub: "seen \<subseteq> insert ev seen" by blast
  have slots: "slots_ok (ap_server ap)" using assms(1) by (simp add: api_ok_def)
  show ?thesis
  proof (cases ev)
    case (RequestStarts su i startedAt now rq)
    with assms arrives_ok [OF assms(1) _ _ sub] show ?thesis by simp
  next
    case (RequestCompiled i now result)
    with assms compiled_ok [OF assms(1) _ sub] show ?thesis by simp
  next
    case (RequestFinishes i now elapsed)
    with assms finishes_ok [OF assms(1) _ sub] show ?thesis by simp
  next
    case (RequestCloses i)
    with assms closes_ok [OF assms(1) sub, of i] show ?thesis by simp
  next
    case (SocketOpens su now rq)
    have "slots_ok (fst (handleUpgrade (env_sha e) su rq (ap_server ap)))" using slots by (rule slots_upgrade)
    with SocketOpens assms(2) show ?thesis
      by (intro api_ok_quiet [OF assms(1) sub]) (auto simp: upgrade_arrives_def split: prod.splits upgrade.splits)
  next
    case (SocketCloses i now)
    with assms(2) slots show ?thesis
      by (intro api_ok_quiet [OF assms(1) sub]) (auto simp: socket_closes_def split: if_splits)
  next
    case (SessionCloses i)
    with assms(2) slots_remove(2) [OF slots] show ?thesis
      by (intro api_ok_quiet [OF assms(1) sub]) (auto simp: live_closed_def)
  next
    case (AccessWritten ok)
    with assms(2) slots_step [OF slots] show ?thesis
      by (intro api_ok_quiet [OF assms(1) sub]) (auto simp del: server_step.simps)
  qed
qed

lemma publish_all_append: "publish_all throws (xs @ ys) b = publish_all throws ys (publish_all throws xs b)"
  by (induction throws xs b rule: publish_all.induct) simp_all

fun arrivals :: "api_event list \<Rightarrow> jsstring list" where
  "arrivals [] = []"
| "arrivals (RequestStarts su i startedAt now rq # evs) = i # arrivals evs"
| "arrivals (_ # evs) = arrivals evs"

lemma act_bus: "ap_bus (fst (api_act parse e ev ap)) = ap_bus ap"
  by (cases ev)
    (auto simp: request_arrives_def request_compiled_def request_finishes_def request_closes_def upgrade_arrives_def
      socket_closes_def Let_def split: option.split prod.split upgrade.split)

lemma act_keeps_untraced:
  "map_of (ap_traced ap) j = None \<Longrightarrow> j \<notin> set (arrivals [ev]) \<Longrightarrow>
   map_of (ap_traced (fst (api_act parse e ev ap))) j = None"
  by (cases ev)
    (auto simp: request_arrives_def request_compiled_def request_finishes_def request_closes_def upgrade_arrives_def
      socket_closes_def Let_def map_of_update map_add_def split: option.splits prod.splits upgrade.splits)

lemma arrivals_Cons: "arrivals (ev # evs) = arrivals [ev] @ arrivals evs"
  by (cases ev) simp_all

lemma api_step_eq:
  "api_act parse e ev ap = (ap1, pubs) \<Longrightarrow>
   api_step parse e ev ap = (ap1\<lparr>ap_bus := map_option (publish_all (\<lambda>_. False) pubs) (ap_bus ap)\<rparr>, pubs)"
  using act_bus [of parse e ev ap] by (simp add: api_step_def)

lemma api_ok_bus: "api_ok seen log (ap\<lparr>ap_bus := b\<rparr>) = api_ok seen log ap"
  by (simp add: api_ok_def tracked_def cong: option.case_cong)

lemma run_ok:
  assumes "api_ok seen log ap" "distinct (arrivals evs)" "\<forall>i\<in>set (arrivals evs). map_of (ap_traced ap) i = None"
    "api_run parse e evs ap = (ap', later)"
  shows "api_ok (set evs \<union> seen) (log @ later) ap' \<and> ap_bus ap' = map_option (publish_all (\<lambda>_. False) later) (ap_bus ap)"
  using assms
proof (induction evs arbitrary: seen log ap later)
  case Nil
  then show ?case by (cases "ap_bus ap") simp_all
next
  case (Cons ev evs)
  obtain ap1 pubs where a: "api_act parse e ev ap = (ap1, pubs)" by (cases "api_act parse e ev ap")
  define ap2 where "ap2 = ap1\<lparr>ap_bus := map_option (publish_all (\<lambda>_. False) pubs) (ap_bus ap)\<rparr>"
  obtain more where r: "api_run parse e evs ap2 = (ap', more)" and later: "later = pubs @ more"
    using Cons.prems(4) api_step_eq [OF a] by (auto simp: ap2_def split: prod.splits)
  have "api_ok (insert ev seen) (log @ pubs) ap1"
    using Cons.prems(3) by (intro act_ok [OF Cons.prems(1) a]) simp
  then have "api_ok (insert ev seen) (log @ pubs) ap2" by (simp add: ap2_def api_ok_bus)
  moreover have "distinct (arrivals evs)" "set (arrivals [ev]) \<inter> set (arrivals evs) = {}"
    using Cons.prems(2) arrivals_Cons [of ev evs] by simp_all
  moreover have "\<forall>i\<in>set (arrivals evs). map_of (ap_traced ap2) i = None"
  proof
    fix i assume i: "i \<in> set (arrivals evs)"
    then have "map_of (ap_traced ap) i = None" "i \<notin> set (arrivals [ev])"
      using Cons.prems(3) calculation(3) arrivals_Cons [of ev evs] by auto
    then show "map_of (ap_traced ap2) i = None"
      using act_keeps_untraced [of ap i ev parse e] a by (simp add: ap2_def)
  qed
  ultimately have "api_ok (set evs \<union> insert ev seen) ((log @ pubs) @ more) ap' \<and>
      ap_bus ap' = map_option (publish_all (\<lambda>_. False) more) (ap_bus ap2)"
    using Cons.IH [OF _ _ _ r] by blast
  then show ?case by (cases "ap_bus ap") (simp_all add: later ap2_def publish_all_append)
qed


text \<open>A PUT answered at once.\<close>

definition demo_traced :: "jsstring \<Rightarrow> nat \<Rightarrow> traced" where
  "demo_traced i status =
     \<lparr>td_trace = start_trace i 0 route_workspaceFile, td_name = js ''PUT'' @ js '' '' @ route_workspaceFile,
      td_status = Some status, td_compile = None, td_finish = True, td_close = True\<rparr>"

lemma demo_handled: "handleRequest demo_parse demo_env demo_su demo_put route_workspaceFile [js ''b/c.tex''] demo_server =
    (demo_server\<lparr>sv_files := demo_tree'\<rparr>, Responded \<lparr>rs_status = 201,
       rs_headers = [(''ETag'', meta_etag (metadata demo_env (js ''b/c.tex'') [7] 9))],
       rs_body = MetadataBody (metadata demo_env (js ''b/c.tex'') [7] 9)\<rparr>)"
  using demo_put_done by (simp add: request_listener_def demo_put_def)

lemma demo_started: "request_arrives demo_parse demo_env demo_su [1] 0 [] demo_put (new_api demo_server None) =
    ((new_api demo_server None)\<lparr>ap_server := demo_server\<lparr>sv_files := demo_tree'\<rparr>, ap_requests := [[1]],
        ap_traced := [([1], demo_traced [1] 201)]\<rparr>,
     [([], started_note (start_trace [1] 0 route_workspaceFile) (js ''PUT'' @ js '' '' @ route_workspaceFile))])"
proof -
  have rq: "rq_url demo_put = Some (route_workspaceFile, [js ''b/c.tex''])" "rq_method demo_put = js ''PUT''"
    by (simp_all add: demo_put_def)
  have "request_user demo_env demo_su demo_put route_workspaceFile demo_server = None"
    by (simp add: request_user_def demo_server_def)
  with demo_handled rq show ?thesis
    by (simp add: request_arrives_def new_api_def demo_traced_def start_trace_def Let_def)
qed

definition demo_api_events :: "api_event list" where
  "demo_api_events = [RequestStarts demo_su [1] 0 [] demo_put, RequestFinishes [1] [] 5]"

lemma demo_api_run:
  assumes "api_run demo_parse demo_env demo_api_events (new_api demo_server None) = (ap, log)"
  shows "request_history [1] log = [js ''request-started'', js ''request-completed'']" "ap_server ap = demo_server\<lparr>sv_files := demo_tree'\<rparr>"
  using assms demo_started
  by (auto simp: demo_api_events_def api_step_def request_finishes_def demo_traced_def start_trace_def new_api_def
      request_history_def started_note_def completed_note_def)


section \<open>Shutdown\<close>

text \<open>
  \<open>shutdownTyprServer\<close> between its awaits: the calls it makes, and what it waits for. A live session settles
  when its \<open>close\<close> has ended, in whatever way; the two servers report that they are closed.
\<close>

datatype shutdown_call = AbortCompilation nat | CloseLiveSession nat | CloseWebSocketServer | CloseHttpServer

datatype shutdown_stage = AwaitSessions "nat list" | AwaitWebSockets | AwaitServer | ShutDown "string option"

datatype shutdown_event = SessionSettled nat | WebSocketsClosed | ServerClosed "string option"

definition sessions_settled :: "nat list \<Rightarrow> shutdown_stage \<times> shutdown_call list" where
  "sessions_settled waiting = (if waiting = [] then (AwaitWebSockets, [CloseWebSocketServer]) else (AwaitSessions waiting, []))"

definition shutdownTyprServer :: "server option \<Rightarrow> shutdown_stage \<times> shutdown_call list" where
  "shutdownTyprServer context =
     (case context of
        None \<Rightarrow> (AwaitServer, [CloseHttpServer])
      | Some srv \<Rightarrow>
          (case sessions_settled (sv_liveSessions srv) of
             (stage, calls) \<Rightarrow>
               (stage, map AbortCompilation (sv_compilations srv) @ map CloseLiveSession (sv_liveSessions srv) @ calls)))"

fun shutdown_step :: "shutdown_event \<Rightarrow> shutdown_stage \<Rightarrow> shutdown_stage \<times> shutdown_call list" where
  "shutdown_step (SessionSettled i) (AwaitSessions waiting) = sessions_settled (removeAll i waiting)"
| "shutdown_step WebSocketsClosed AwaitWebSockets = (AwaitServer, [CloseHttpServer])"
| "shutdown_step (ServerClosed err) AwaitServer = (ShutDown err, [])"
| "shutdown_step _ stage = (stage, [])"

fun shutdown_run :: "shutdown_event list \<Rightarrow> shutdown_stage \<Rightarrow> shutdown_stage \<times> shutdown_call list" where
  "shutdown_run [] stage = (stage, [])"
| "shutdown_run (ev # evs) stage =
     (case shutdown_step ev stage of (stage1, calls) \<Rightarrow>
        (case shutdown_run evs stage1 of (stage2, later) \<Rightarrow> (stage2, calls @ later)))"

lemma shutdown_run_done: "shutdown_run evs (ShutDown err) = (ShutDown err, [])"
  by (induction evs) (auto elim: shutdown_step.elims)

lemma shutdown_run_server:
  "shutdown_run evs AwaitServer = (stage, calls) \<Longrightarrow>
   calls = [] \<and> (stage = AwaitServer \<or> (\<exists>err. stage = ShutDown err \<and> ServerClosed err \<in> set evs))"
proof (induction evs)
  case (Cons ev evs)
  then show ?case by (cases ev) (auto simp: shutdown_run_done split: prod.splits)
qed simp

lemma shutdown_run_sockets:
  "shutdown_run evs AwaitWebSockets = (stage, calls) \<Longrightarrow>
   stage = AwaitWebSockets \<and> calls = [] \<or>
   calls = [CloseHttpServer] \<and> WebSocketsClosed \<in> set evs \<and>
     (stage = AwaitServer \<or> (\<exists>err. stage = ShutDown err \<and> ServerClosed err \<in> set evs))"
proof (induction evs)
  case (Cons ev evs)
  then show ?case by (cases ev) (auto split: prod.splits dest: shutdown_run_server)
qed simp

lemma shutdown_run_sessions:
  "shutdown_run evs (AwaitSessions waiting) = (stage, calls) \<Longrightarrow> waiting \<noteq> [] \<Longrightarrow>
   (\<exists>left. stage = AwaitSessions left \<and> calls = []) \<or>
   set waiting \<subseteq> {i. SessionSettled i \<in> set evs} \<and>
     (stage = AwaitWebSockets \<and> calls = [CloseWebSocketServer] \<or>
      calls = [CloseWebSocketServer, CloseHttpServer] \<and> WebSocketsClosed \<in> set evs \<and>
        (stage = AwaitServer \<or> (\<exists>err. stage = ShutDown err \<and> ServerClosed err \<in> set evs)))"
proof (induction evs arbitrary: waiting calls)
  case (Cons ev evs)
  show ?case
  proof (cases "\<exists>i. ev = SessionSettled i")
    case False
    with Cons show ?thesis by (cases ev) (fastforce split: prod.splits)+
  next
    case True
    then obtain i where ev: "ev = SessionSettled i" by blast
    show ?thesis
    proof (cases "removeAll i waiting = []")
      case True
      then have "set waiting \<subseteq> {i}" by (auto simp: filter_empty_conv removeAll_filter_not_eq)
      with True ev Cons.prems show ?thesis
        by (auto simp: sessions_settled_def split: prod.splits dest!: shutdown_run_sockets)
    next
      case False
      with Cons.prems(1) ev have "shutdown_run evs (AwaitSessions (removeAll i waiting)) = (stage, calls)"
        by (auto simp: sessions_settled_def split: prod.splits)
      from Cons.IH [OF this False] ev show ?thesis by auto
    qed
  qed
qed auto

text \<open>
  The order of a shutdown: every compilation is aborted and every session closed at once, the WebSocket
  server is closed only after every one of these sessions has settled, the HTTP server after that, each
  at most once, and the shutdown ends with what closing the HTTP server reports.
\<close>

theorem shutdown_order:
  assumes "shutdownTyprServer (Some srv) = (stage0, calls0)" "shutdown_run events stage0 = (stage, calls)"
  shows "\<exists>rest. calls0 @ calls = map AbortCompilation (sv_compilations srv) @ map CloseLiveSession (sv_liveSessions srv) @ rest \<and>
    rest \<in> {[], [CloseWebSocketServer], [CloseWebSocketServer, CloseHttpServer]} \<and>
    (rest \<noteq> [] \<longrightarrow> set (sv_liveSessions srv) \<subseteq> {i. SessionSettled i \<in> set events}) \<and>
    (CloseHttpServer \<in> set rest \<longrightarrow> WebSocketsClosed \<in> set events) \<and>
    (\<forall>err. stage = ShutDown err \<longrightarrow> CloseHttpServer \<in> set rest \<and> ServerClosed err \<in> set events)"
proof (cases "sv_liveSessions srv")
  case Nil
  then have "stage0 = AwaitWebSockets" "calls0 = map AbortCompilation (sv_compilations srv) @ [CloseWebSocketServer]"
    using assms(1) by (auto simp: shutdownTyprServer_def sessions_settled_def)
  with Nil shutdown_run_sockets [of events stage calls] assms(2) show ?thesis
    by (intro exI [of _ "CloseWebSocketServer # calls"]) auto
next
  case (Cons i more)
  then have "stage0 = AwaitSessions (sv_liveSessions srv)"
    "calls0 = map AbortCompilation (sv_compilations srv) @ map CloseLiveSession (sv_liveSessions srv)"
    using assms(1) by (auto simp: shutdownTyprServer_def sessions_settled_def)
  with Cons shutdown_run_sessions [of events "sv_liveSessions srv" stage calls] assms(2) show ?thesis
    by (intro exI [of _ calls]) auto
qed

end
