(* ===== verification/Companion.thy ===== *)
theory Companion
  imports Startup ServerActivity
begin

text \<open>
  \<^verbatim>\<open>typr-server/cli.ts\<close>: how the parts are wired, start to listen, and are shut down. The outcomes of
  listening and closing, and the order of the signals, are inputs of the definitions.
\<close>

section \<open>Wiring\<close>

text \<open>The provider manager's \<open>onEvent\<close>.\<close>

definition level_of :: "string \<Rightarrow> ActivityLevel" where
  "level_of level = (if level = ''error'' then LevelError else if level = ''warning'' then LevelWarning else LevelInfo)"

definition provider_note :: "provider_event \<Rightarrow> api_note" where
  "provider_note ev =
     \<lparr>in_timestamp = None,
      in_serviceId = provider_activity ev,
      in_level = level_of (pe_level ev), in_type = js (pe_type ev), in_message = pe_message ev, in_userId = None,
      in_requestId = None, in_durationMs = None, in_details = None,
      in_metadata = map_option (\<lambda>n. [(''bytes'', MetaNum n)]) (pe_bytes ev)\<rparr>"

text \<open>Its \<open>onChanged\<close>: the availability is forgotten, and the catalog, once it exists, probes again.\<close>

definition providers_changed ::
  "execution \<Rightarrow> bool \<Rightarrow> process_env \<Rightarrow> bool option \<times> service_catalog option \<Rightarrow> bool option \<times> service_catalog option"
where
  "providers_changed run win penv s =
     (case s of (cached, catalog) \<Rightarrow>
        (resetPdflatexAvailability cached, map_option (\<lambda>c. fst (snapshot_start run win penv True c)) catalog))"

definition access_state_path :: "process_env \<Rightarrow> jsstring option \<Rightarrow> jsstring option" where
  "access_state_path penv dataRoot =
     (let configured = NativeProcess.trimmed (penv ''TYPR_COMPANION_MANAGEMENT_STATE'')
      in if configured \<noteq> [] then Some configured
         else map_option (\<lambda>root. posix_join [root, js ''management.json'']) dataRoot)"

text \<open>\<open>getServices\<close>, when the probing it awaits has its value; the runtime is the service's snapshot then.\<close>

definition console_services :: "api \<Rightarrow> probes \<Rightarrow> string + ManagedServiceDescriptor list" where
  "console_services ap ps =
     (case getCompanionRuntimeSnapshot (Some ap) of
        Inl e \<Rightarrow> Inl e
      | Inr rt \<Rightarrow> Inr (managementDescriptor # snapshot_finish rt ps))"

section \<open>Listening\<close>

text \<open>\<open>listen\<close>: the first of the two events settles the promise and removes the other listener.\<close>

datatype listen_event = Listening | ListenError string

fun listen :: "listen_event list \<Rightarrow> (string + unit) option" where
  "listen [] = None"
| "listen (Listening # evs) = Some (Inr ())"
| "listen (ListenError e # evs) = Some (Inl e)"

definition server_started_note :: "int \<Rightarrow> int \<Rightarrow> bool \<Rightarrow> api_note" where
  "server_started_note port managementPort persistent =
     \<lparr>in_timestamp = None, in_serviceId = js ''management'', in_level = LevelInfo, in_type = js ''server-started'',
      in_message = js ''Management GUI started on loopback port '' @ int_dec managementPort @ js ''.'', in_userId = None,
      in_requestId = None, in_durationMs = None, in_details = None,
      in_metadata = Some [(''servicePort'', MetaNum port), (''managementPort'', MetaNum managementPort),
        (''persistentAccessState'', MetaBool persistent)]\<rparr>"

text \<open>
  The two servers start one after the other. When the console's cannot listen the service's is shut
  down before the error is thrown on.
\<close>

datatype start_outcome =
    StartWaits
  | StartFailed string
  | StartUndone string shutdown_stage "shutdown_call list"
  | Started api_note

definition start_servers ::
  "companion_configuration \<Rightarrow> bool \<Rightarrow> api \<Rightarrow> listen_event list \<Rightarrow> listen_event list \<Rightarrow> start_outcome"
where
  "start_servers c persistent ap service console =
     (case listen service of
        None \<Rightarrow> StartWaits
      | Some (Inl e) \<Rightarrow> StartFailed e
      | Some (Inr _) \<Rightarrow>
          (case listen console of
             None \<Rightarrow> StartWaits
           | Some (Inl e) \<Rightarrow>
               (case shutdownTyprServer (Some (ap_server ap)) of (stage, calls) \<Rightarrow> StartUndone e stage calls)
           | Some (Inr _) \<Rightarrow> Started (server_started_note (cc_port c) (cc_managementPort c) persistent)))"

section \<open>Signals\<close>

datatype stop_signal = SIGINT | SIGTERM

text \<open>
  The process: the signals with a handler (\<open>process.once\<close> removes it at its first delivery, and the signal
  then has its default action, which ends the process), the stages of the two shutdowns once they have
  begun, and the exit code.
\<close>

record companion_process =
  cp_handlers :: "stop_signal list"
  cp_shutdown :: "(shutdown_stage \<times> shutdown_stage) option"
  cp_exitCode :: nat
  cp_killed :: bool
  cp_calls :: "shutdown_call list"

definition running_process :: companion_process where
  "running_process = \<lparr>cp_handlers = [SIGINT, SIGTERM], cp_shutdown = None, cp_exitCode = 0, cp_killed = False, cp_calls = []\<rparr>"

definition handleShutdown :: "api \<Rightarrow> companion_process \<Rightarrow> companion_process" where
  "handleShutdown ap p =
     (case cp_shutdown p of
        Some _ \<Rightarrow> p
      | None \<Rightarrow>
          (case shutdownTyprServer (Some (ap_server ap)) of
             (stage, calls) \<Rightarrow> p\<lparr>cp_shutdown := Some (stage, AwaitServer), cp_calls := cp_calls p @ calls\<rparr>))"

definition deliver_signal :: "api \<Rightarrow> stop_signal \<Rightarrow> companion_process \<Rightarrow> companion_process" where
  "deliver_signal ap sig p =
     (if sig \<in> set (cp_handlers p) then handleShutdown ap (p\<lparr>cp_handlers := removeAll sig (cp_handlers p)\<rparr>)
      else p\<lparr>cp_killed := True\<rparr>)"

fun shutdown_failed :: "shutdown_stage \<Rightarrow> bool" where
  "shutdown_failed (ShutDown (Some e)) \<longleftrightarrow> True"
| "shutdown_failed _ \<longleftrightarrow> False"

text \<open>The \<open>catch\<close> of \<open>Promise.all\<close> sets the exit code when the first of the two is rejected.\<close>

definition shutdown_progress :: "shutdown_stage \<Rightarrow> shutdown_stage \<Rightarrow> shutdown_call list \<Rightarrow> companion_process \<Rightarrow> companion_process" where
  "shutdown_progress service console calls p =
     p\<lparr>cp_shutdown := Some (service, console), cp_calls := cp_calls p @ calls,
       cp_exitCode := (if shutdown_failed service \<or> shutdown_failed console then 1 else cp_exitCode p)\<rparr>"

datatype process_event = Signal stop_signal | ServiceStops shutdown_event | ConsoleStops shutdown_event

text \<open>The service's state is the one at the event; a killed process does nothing more.\<close>

definition process_step :: "api \<times> process_event \<Rightarrow> companion_process \<Rightarrow> companion_process" where
  "process_step x p =
     (if cp_killed p then p
      else case x of
        (ap, Signal sig) \<Rightarrow> deliver_signal ap sig p
      | (ap, ServiceStops ev) \<Rightarrow>
          (case cp_shutdown p of
             None \<Rightarrow> p
           | Some (service, console) \<Rightarrow>
               (case shutdown_step ev service of (service', calls) \<Rightarrow> shutdown_progress service' console calls p))
      | (ap, ConsoleStops ev) \<Rightarrow>
          (case cp_shutdown p of
             None \<Rightarrow> p
           | Some (service, console) \<Rightarrow> shutdown_progress service (fst (shutdown_step ev console)) [] p))"

section \<open>The end of the process\<close>

definition delivered :: "(api \<times> process_event) list \<Rightarrow> stop_signal \<Rightarrow> nat" where
  "delivered xs sig = length (filter (\<lambda>x. snd x = Signal sig) xs)"

fun server_closing :: "shutdown_stage \<Rightarrow> bool" where
  "server_closing AwaitServer \<longleftrightarrow> True"
| "server_closing (ShutDown _) \<longleftrightarrow> True"
| "server_closing _ \<longleftrightarrow> False"

text \<open>What holds of the process after the events \<open>xs\<close>.\<close>

definition process_ok :: "(api \<times> process_event) list \<Rightarrow> companion_process \<Rightarrow> bool" where
  "process_ok xs p \<longleftrightarrow>
     (\<forall>sig. sig \<in> set (cp_handlers p) \<or> 0 < delivered xs sig) \<and>
     (cp_killed p \<longrightarrow> (\<exists>sig. 2 \<le> delivered xs sig)) \<and>
     (case cp_shutdown p of
        None \<Rightarrow> (\<forall>sig. delivered xs sig = 0) \<and> cp_calls p = [] \<and> cp_exitCode p = 0 \<and> \<not> cp_killed p \<and> set (cp_handlers p) = UNIV
      | Some (service, console) \<Rightarrow>
          (\<exists>sig. 0 < delivered xs sig) \<and>
          count_list (cp_calls p) CloseHttpServer = (if server_closing service then 1 else 0) \<and>
          cp_exitCode p = (if shutdown_failed service \<or> shutdown_failed console then 1 else 0))"

lemma delivered_snoc: "delivered (xs @ [x]) sig = delivered xs sig + (if snd x = Signal sig then 1 else 0)"
  by (simp add: delivered_def)

lemma shutdown_starts:
  "shutdownTyprServer (Some srv) = (stage, calls) \<Longrightarrow>
   \<not> server_closing stage \<and> \<not> shutdown_failed stage \<and> count_list calls CloseHttpServer = 0"
proof -
  have "count_list (map AbortCompilation is) CloseHttpServer = 0" "count_list (map CloseLiveSession is) CloseHttpServer = 0" for "is"
    by (induction "is") simp_all
  then show "shutdownTyprServer (Some srv) = (stage, calls) \<Longrightarrow> ?thesis"
    by (auto simp: shutdownTyprServer_def sessions_settled_def split: if_splits)
qed

lemma shutdown_advances:
  "shutdown_step ev stage = (stage', calls) \<Longrightarrow>
   count_list calls CloseHttpServer = (if server_closing stage' \<and> \<not> server_closing stage then 1 else 0) \<and>
   (server_closing stage \<longrightarrow> server_closing stage') \<and> (shutdown_failed stage \<longrightarrow> shutdown_failed stage')"
  by (cases ev; cases stage) (auto simp: sessions_settled_def split: if_splits)

lemma process_ok_idle:
  assumes "process_ok xs p" "\<And>sig. snd x \<noteq> Signal sig"
  shows "process_ok (xs @ [x]) p"
proof -
  have same: "delivered (xs @ [x]) = delivered xs" using assms(2) by (simp add: fun_eq_iff delivered_snoc)
  show ?thesis using assms(1) unfolding process_ok_def same .
qed

lemma process_ok_stopping:
  assumes "cp_shutdown p = Some (service, console)"
  shows "process_ok xs p \<longleftrightarrow>
    (\<forall>sig. sig \<in> set (cp_handlers p) \<or> 0 < delivered xs sig) \<and> (cp_killed p \<longrightarrow> (\<exists>sig. 2 \<le> delivered xs sig)) \<and>
    (\<exists>sig. 0 < delivered xs sig) \<and>
    count_list (cp_calls p) CloseHttpServer = (if server_closing service then 1 else 0) \<and>
    cp_exitCode p = (if shutdown_failed service \<or> shutdown_failed console then 1 else 0)"
  using assms unfolding process_ok_def by (simp only: option.case prod.case)

lemma process_ok_killed:
  assumes "process_ok xs p" "cp_killed p"
  shows "process_ok (xs @ [x]) p"
proof (cases "cp_shutdown p")
  case None
  with assms show ?thesis by (simp add: process_ok_def)
next
  case (Some sc)
  obtain service console where "sc = (service, console)" by (cases sc)
  note stopping = process_ok_stopping [OF Some [unfolded this]]
  have mono: "delivered xs sig \<le> delivered (xs @ [x]) sig" for sig by (simp add: delivered_snoc)
  note p = assms(1) [unfolded stopping]
  from p assms(2) obtain sig where "2 \<le> delivered xs sig" by blast
  then have "2 \<le> delivered (xs @ [x]) sig" "0 < delivered (xs @ [x]) sig" using mono [of sig] by simp_all
  moreover have "\<forall>sig. sig \<in> set (cp_handlers p) \<or> 0 < delivered (xs @ [x]) sig"
    using p mono by (meson less_le_trans)
  ultimately show ?thesis unfolding stopping using p by blast
qed

lemma process_ok_signal:
  assumes "process_ok xs p" "\<not> cp_killed p"
  shows "process_ok (xs @ [(ap, Signal sig)]) (deliver_signal ap sig p)"
proof (cases "sig \<in> set (cp_handlers p)")
  case False
  have seen: "0 < delivered xs sig" using False assms(1) by (auto simp: process_ok_def)
  then obtain service console where "cp_shutdown p = Some (service, console)"
    using assms(1) False by (auto simp: process_ok_def split: option.splits)
  with seen assms(1) False show ?thesis
    by (auto simp: process_ok_def deliver_signal_def delivered_snoc intro!: exI [of _ sig])
next
  case True
  obtain stage calls where st: "shutdownTyprServer (Some (ap_server ap)) = (stage, calls)"
    by (cases "shutdownTyprServer (Some (ap_server ap))")
  from True assms shutdown_starts [OF st] show ?thesis
    by (cases "cp_shutdown p")
      (auto simp: process_ok_def deliver_signal_def handleShutdown_def delivered_snoc st intro!: exI [of _ sig])
qed

lemma process_ok_service:
  assumes "process_ok xs p" "cp_shutdown p = Some (service, console)" "shutdown_step ev service = (service', calls)"
  shows "process_ok xs (shutdown_progress service' console calls p)"
  using assms shutdown_advances [OF assms(3)] by (auto simp: process_ok_def shutdown_progress_def)

lemma process_ok_console:
  assumes "process_ok xs p" "cp_shutdown p = Some (service, console)"
  shows "process_ok xs (shutdown_progress service (fst (shutdown_step ev console)) [] p)"
  using assms shutdown_advances [of ev console "fst (shutdown_step ev console)" "snd (shutdown_step ev console)"]
  by (auto simp: process_ok_def shutdown_progress_def)

lemma process_ok_step:
  assumes "process_ok xs p"
  shows "process_ok (xs @ [x]) (process_step x p)"
proof (cases "cp_killed p")
  case True
  with assms process_ok_killed show ?thesis by (simp add: process_step_def)
next
  case False
  obtain ap ev where x: "x = (ap, ev)" by (cases x)
  show ?thesis
  proof (cases ev)
    case (Signal sig)
    with False x process_ok_signal [OF assms] show ?thesis by (simp add: process_step_def)
  next
    case (ServiceStops stop)
    have "process_ok xs (process_step x p)"
      using False assms process_ok_service [OF assms] x ServiceStops
      by (auto simp: process_step_def split: option.split prod.split)
    then show ?thesis by (rule process_ok_idle) (simp add: x ServiceStops)
  next
    case (ConsoleStops stop)
    have "process_ok xs (process_step x p)"
      using False assms process_ok_console [OF assms] x ConsoleStops
      by (auto simp: process_step_def split: option.split prod.split)
    then show ?thesis by (rule process_ok_idle) (simp add: x ConsoleStops)
  qed
qed

lemma process_ok_run: "process_ok xs (fold process_step xs running_process)"
proof (induction xs rule: rev_induct)
  case Nil
  have "set [SIGINT, SIGTERM] = (UNIV :: stop_signal set)" using stop_signal.exhaust by auto
  then show ?case by (auto simp: process_ok_def running_process_def delivered_def)
next
  case (snoc x xs)
  then show ?case using process_ok_step by simp
qed

text \<open>
  However many signals arrive and in whatever order the servers report, the HTTP server is closed at
  most once and the shutdown starts with the first signal, not before; the exit code is 1 exactly when
  a server's close has failed; and the process is cut off only by a signal delivered twice.
\<close>

theorem companion_end:
  "let p = fold process_step xs running_process
   in count_list (cp_calls p) CloseHttpServer \<le> 1 \<and>
      (cp_shutdown p = None \<longleftrightarrow> (\<forall>sig. delivered xs sig = 0)) \<and>
      (cp_exitCode p = 1 \<longleftrightarrow>
         (\<exists>service console. cp_shutdown p = Some (service, console) \<and> (shutdown_failed service \<or> shutdown_failed console))) \<and>
      (\<not> cp_killed p \<or> (\<exists>sig. 2 \<le> delivered xs sig))"
proof -
  define p where "p = fold process_step xs running_process"
  have "process_ok xs p" by (simp add: p_def process_ok_run)
  then show ?thesis
    unfolding Let_def p_def [symmetric]
    by (cases "cp_shutdown p") (auto simp: process_ok_def split: if_splits)
qed

text \<open>The list of the console names every service once, and counts what is at work.\<close>

theorem console_services_listed:
  "\<exists>ds. console_services ap (probeProviders run win penv) = Inr ds \<and> distinct (map sd_id ds) \<and>
     (\<exists>d\<in>set ds. sd_id d = js ''companion-api'' \<and> sd_active d = length (ap_requests ap)) \<and>
     (\<exists>d\<in>set ds. sd_id d = js ''latex'' \<and> sd_active d = length (sv_compilations (ap_server ap))) \<and>
     (\<exists>d\<in>set ds. sd_id d = js ''live-preview'' \<and> sd_active d = length (sv_liveSessions (ap_server ap)))"
  by (simp add: console_services_def getCompanionRuntimeSnapshot_def snapshot_finish_def services_def managementDescriptor_def
      api_service_def latex_service_def live_service_def workspace_service_def lspDescriptor_def Let_def)

end
