(* ===== verification/Spec2Isabelle.thy ===== *)
theory Spec2Isabelle
  imports Base64 CompileRequest LiveSession CompileProject WorkspaceStore Companion
begin

text \<open>
  Typr Companion is the local service behind a browser LaTeX editor: an HTTP API that compiles a project
  and exposes one mapped directory, a WebSocket that keeps a live preview compiled, and a management
  console with users, API keys, providers and a password login. This development models its TypeScript
  sources under \<^verbatim>\<open>typr-server/\<close> and the protocol contracts under \<^verbatim>\<open>src/companion-protocol/\<close>.

  \<^bold>\<open>Parts and theories.\<close>

  \<^item> \<open>Prelude\<close>, \<open>Json\<close>: JavaScript strings as lists of UTF-16 code units, bytes as 8-bit words, maps as
    association lists, results as sums, and the values of \<open>JSON.parse\<close>. \<open>Base64\<close> is \<^verbatim>\<open>base64.ts\<close> with Node's
    encoder and decoder beside it; \<open>Protocol\<close> holds the data of the two protocols. \<open>Effects\<close> has the programs
    that await, throw and clean up (\<open>try\<close>, \<open>finally\<close>), \<open>Regex\<close> the regular expressions, \<open>PromiseLock\<close> the
    mutation lock built from a promise chain.
  \<^item> \<open>Paths\<close>: \<^verbatim>\<open>projectFiles.ts\<close> over the functions of \<^verbatim>\<open>node:path\<close> it uses. A path is checked, resolved under
    the project directory and refused when it leaves it; the writes of a request stay below the directory.
  \<^item> \<open>WsProtocol\<close>, \<open>CompileRequest\<close>: the validators of WebSocket frames (\<^verbatim>\<open>texpressoWsProtocol.ts\<close>) and of
    compile requests (\<open>validateCompileRequest\<close> of \<^verbatim>\<open>server.ts\<close>), each compared with a declarative
    well-formedness and inverted by a printer.
  \<^item> \<open>Positions\<close>, \<open>TexpressoSession\<close>: \<^verbatim>\<open>texpressoSession.ts\<close>. The record \<open>session\<close> holds the fields of the class;
    each method is a function, each handled line or timer a step, and promises are numbers with a ledger
    of how they were settled.
  \<^item> \<open>LiveBackend\<close>: \<^verbatim>\<open>liveLatexSession.ts\<close>. The interface of a live backend is the locale \<open>live_session\<close>; the
    TeXpresso backend and the full-compile backend are its two interpretations.
  \<^item> \<open>LiveSession\<close>: \<^verbatim>\<open>texpressoLiveSession.ts\<close>, the connection's state machine. The parts of an async method
    between its awaits are continuations, and \<open>live_step\<close> lets any enabled one run next.
  \<^item> \<open>NativeProcess\<close>: \<^verbatim>\<open>nativeProcess.ts\<close> and \<^verbatim>\<open>nativeTools.ts\<close>, a child process as the events it can meet, and the
    environment a compiler is given. \<open>CompileLog\<close> reads diagnostics off a log; \<open>TexPackages\<close> is
    \<^verbatim>\<open>texPackageManager.ts\<close>, which turns missing files into tlmgr commands; \<open>CompileProject\<close> is \<open>compileProject\<close> of
    \<^verbatim>\<open>server.ts\<close> with \<^verbatim>\<open>latexProject.ts\<close>, composing all of them. \<open>SandboxPolicy\<close> is \<^verbatim>\<open>sandboxPolicy.ts\<close>.
  \<^item> \<open>WorkspaceStore\<close>: \<^verbatim>\<open>workspaceStore.ts\<close> over a tree of directories, with every stage at which an atomic
    write can fail. The locale \<open>file_store\<close> states what a client of the store relies on, and is interpreted on
    the store; the last section shows that the mutation lock makes concurrent mutations sequential.
  \<^item> \<open>WriteQueue\<close>: the promise chain a state file is written through, with the locale \<open>state_file\<close> for a component
    that keeps its state in memory and queues its snapshots; the access store and the provider manager are
    its interpretations. \<open>AccessStore\<close>: \<^verbatim>\<open>accessStore.ts\<close>, users and API keys. \<open>ManagementAuth\<close>:
    \<^verbatim>\<open>managementAuth.ts\<close>, where a login is two steps around scrypt. \<open>Activity\<close>: \<^verbatim>\<open>activity.ts\<close>.
  \<^item> \<open>ProviderInstall\<close>, \<open>ProviderManager\<close>, \<open>ProviderJobs\<close>, \<open>ProviderEnvironment\<close>: \<^verbatim>\<open>providerManager.ts\<close>. The catalog, the
    download and the installation stages; the manager's operations, with an installation as a job that
    advances one stage at a time; the jobs over a run; the environment and the state file.
  \<^item> \<open>ServiceCatalog\<close> (\<^verbatim>\<open>serviceCatalog.ts\<close>); \<open>ManagementServer\<close>, \<open>ManagementRuns\<close>, \<open>ManagementStreams\<close>:
    \<^verbatim>\<open>managementServer.ts\<close>. Requests are tasks whose continuations run in any order with everything else.
  \<^item> \<open>ServerHttp\<close>: the routes of \<^verbatim>\<open>server.ts\<close>. It composes the store, the access store and the compile
    validator, as the request handler does, and counts compilations and live sessions. \<open>ServerActivity\<close> adds
    the trace and the events of every request, the counts shown to the console, and the shutdown.
  \<^item> \<open>Startup\<close>: the configuration of \<^verbatim>\<open>cli.ts\<close> and \<^verbatim>\<open>bundledTexRuntime.ts\<close>. \<open>Companion\<close>: the rest of \<^verbatim>\<open>cli.ts\<close>, how the
    parts are wired, start to listen and are shut down.

  \<^bold>\<open>What the lemmas show.\<close> Validators accept exactly the well-formed inputs and read back what is printed.
  Paths stay inside the project. A session settles every promise once and drops stale pages; both
  backends refine one specification of edits. A live session sends documents in increasing revisions and
  within its limits, and closing ends. A compilation stays in its temporary directory, starts at most
  twelve compilers without shell escape and seven tlmgr commands, and returns. The store refines a map of
  contents, writes are all or nothing to its clients and keep the limits, and only guarded HTTP requests
  reach it. Revoked keys and forgotten tokens stay refused, sequential logins are throttled. Provider
  downloads are verified before use, a provider has one job at a time and every job ends, and the
  environment points only to what was there or was installed. The console changes nothing for an
  unguarded request, answers every request once, and its event streams miss nothing. A remote console
  has a long password. Every request has one start and at most one completion event, and the counts shown
  are those of the requests, compilations and sessions at work. Some theorems show a fault instead:
  overlapping logins escape the throttle, one failed write stops all later persistence, a document of
  exactly 64 pages ends its session, and offset 0 before a line feed has no position.

  \<^bold>\<open>Bounds and recursion.\<close> No definition uses fuel: loops recurse on the input, on a tree, or on a bound of the
  code itself. The UTF-8 decoder is measured by the bytes left and needed, percent decoding and the
  scan for inline blocks by the length of the text, the search for an executable by the 20000 entries it
  may visit, repeated compilation by its rounds. A regular expression's star is bounded by the length of
  the text, which every round shortens. The state machines run for any finite sequence of events, and
  the theorems hold for all of them.

  \<^bold>\<open>Parameters.\<close> SHA-256, scrypt, random bytes and identifiers, the clock, locale-dependent letter case and
  order, the parsers of JSON and of URLs, MuPDF, the behaviour of child processes and extraction commands,
  the file systems outside the workspace and the network are arguments of the definitions; the theorems
  hold for all of them, and each hypothesis is instantiated by a concrete witness.

  \<^bold>\<open>Not modelled.\<close> Texts of error messages and measured times; the sockets below Node's HTTP and WebSocket
  servers and console output; the Windows launcher, whose directories and paths are those of another
  operating system than the one modelled; the static management page, which is a text; the
  proof-of-concept programs, the sandbox probe and the build and container scripts, which only run other
  programs.
\<close>

end
